(* ===== verification/Prelude.thy ===== *)
theory Prelude
  imports Main "HOL-Library.Word"
begin

text \<open>
  Shared vocabulary of the development: Go's bytes, runes and string literals as byte lists,
  decimal printing and parsing (\<open>strconv.AppendInt\<close>, \<open>strconv.Atoi\<close>), Go's \<open>copy\<close> and slice
  expressions on lists, \<open>clampInt\<close>, and the locale of incremental consumers, whose clients
  are the terminal parser and the mark scanner: what such a consumer computes does not
  depend on how its input is cut into chunks.
\<close>

unbundle bit_operations_syntax

section \<open>Named fact collections\<close>

text \<open>\<open>wf_ops\<close> collects the lemmas that an operation keeps the screen invariant,
  \<open>frame\<close> the fields an operation leaves alone, \<open>len\<close> length facts.\<close>

named_theorems wf_ops
named_theorems frame
named_theorems len

section \<open>Bytes, runes, literals\<close>

type_synonym byte = "8 word"
type_synonym rune = int

text \<open>A Go string or byte literal. \<open>of_char\<close> reads a character as its code.\<close>

abbreviation bc :: "char \<Rightarrow> byte" where
  "bc c \<equiv> of_char c"

abbreviation bs :: "string \<Rightarrow> byte list" where
  "bs s \<equiv> map of_char s"

abbreviation ESC :: byte where "ESC \<equiv> 0x1b"
abbreviation BEL :: byte where "BEL \<equiv> 0x07"
abbreviation CAN :: byte where "CAN \<equiv> 0x18"
abbreviation SUB :: byte where "SUB \<equiv> 0x1a"

section \<open>Decimal numbers\<close>

text \<open>\<open>strconv.AppendInt(b, n, 10)\<close> appends \<open>itoa n\<close>.\<close>

fun digits :: "nat \<Rightarrow> byte list" where
  "digits n = (if n < 10 then [of_nat (n + 48)] else digits (n div 10) @ [of_nat (n mod 10 + 48)])"

declare digits.simps [simp del]

definition itoa :: "int \<Rightarrow> byte list" where
  "itoa n = (if n < 0 then bc CHR ''-'' # digits (nat (- n)) else digits (nat n))"

definition is_digit :: "byte \<Rightarrow> bool" where
  "is_digit b \<longleftrightarrow> 48 \<le> b \<and> b \<le> 57"

definition dec_val :: "byte list \<Rightarrow> int" where
  "dec_val ds = foldl (\<lambda>v d. v * 10 + (uint d - 48)) 0 ds"

text \<open>\<open>strconv.Atoi\<close>: an optional sign, at least one digit, nothing else, and a value that
  fits in a 64-bit \<open>int\<close>; anything else is an error (\<open>None\<close>).\<close>

definition atoi :: "byte list \<Rightarrow> int option" where
  "atoi s =
     (let neg = (s \<noteq> [] \<and> hd s = bc CHR ''-'');
          ds = (if s \<noteq> [] \<and> (hd s = bc CHR ''-'' \<or> hd s = bc CHR ''+'') then tl s else s)
      in if ds = [] \<or> \<not> list_all is_digit ds then None
         else let v = (if neg then - dec_val ds else dec_val ds)
              in if - (2 ^ 63) \<le> v \<and> v < 2 ^ 63 then Some v else None)"

section \<open>Slices\<close>

text \<open>\<open>xs[i:j]\<close>, \<open>copy(dst[i:], src)\<close> and a loop that stores \<open>b\<close> at every index of \<open>[i, j)\<close>.\<close>

definition slice :: "nat \<Rightarrow> nat \<Rightarrow> 'a list \<Rightarrow> 'a list" where
  "slice i j xs = take (j - i) (drop i xs)"

definition copy_at :: "nat \<Rightarrow> 'a list \<Rightarrow> 'a list \<Rightarrow> 'a list" where
  "copy_at i src dst =
     take i dst @ take (length dst - i) src @ drop (i + length src) dst"

definition fill_range :: "nat \<Rightarrow> nat \<Rightarrow> 'a \<Rightarrow> 'a list \<Rightarrow> 'a list" where
  "fill_range i j b xs = take i xs @ replicate (min j (length xs) - i) b @ drop (max i j) xs"

lemma length_slice [simp, len]: "length (slice i j xs) = min (j - i) (length xs - i)"
  by (simp add: slice_def)

lemma length_copy_at [simp, len]: "length (copy_at i src dst) = length dst"
  by (auto simp: copy_at_def min_def)

lemma length_fill_range [simp, len]: "length (fill_range i j b xs) = length xs"
  by (auto simp: fill_range_def min_def max_def)

lemma nth_slice [simp]: "k < j - i \<Longrightarrow> i + k < length xs \<Longrightarrow> slice i j xs ! k = xs ! (i + k)"
  by (simp add: slice_def)

lemma nth_copy_at:
  "k < length dst \<Longrightarrow>
   copy_at i src dst ! k = (if i \<le> k \<and> k < i + length src then src ! (k - i) else dst ! k)"
  by (auto simp: copy_at_def nth_append min_def)

lemma nth_fill_range:
  "k < length xs \<Longrightarrow> fill_range i j b xs ! k = (if i \<le> k \<and> k < j then b else xs ! k)"
  by (auto simp: fill_range_def nth_append min_def max_def)

lemma set_slice: "set (slice i j xs) \<subseteq> set xs"
  unfolding slice_def by (meson order_trans set_drop_subset set_take_subset)

lemma set_fill_range: "set (fill_range i j b xs) \<subseteq> insert b (set xs)"
  unfolding fill_range_def by (auto dest: in_set_takeD in_set_dropD)

section \<open>Splitting on a byte\<close>

text \<open>\<open>bytes.Split(s, []byte{c})\<close>, which gives one (possibly empty) field more than there are
  separators, and \<open>bytes.IndexByte\<close> with \<open>None\<close> for -1.\<close>

fun split_on :: "'a \<Rightarrow> 'a list \<Rightarrow> 'a list list" where
  "split_on c [] = [[]]"
| "split_on c (x # xs) =
     (if x = c then [] # split_on c xs
      else (case split_on c xs of [] \<Rightarrow> [[x]] | f # fs \<Rightarrow> (x # f) # fs))"

fun join_with :: "'a list \<Rightarrow> 'a list list \<Rightarrow> 'a list" where
  "join_with sep [] = []"
| "join_with sep [f] = f"
| "join_with sep (f # g # fs) = f @ sep @ join_with sep (g # fs)"

fun index_of :: "'a \<Rightarrow> 'a list \<Rightarrow> nat option" where
  "index_of c [] = None"
| "index_of c (x # xs) = (if x = c then Some 0 else map_option Suc (index_of c xs))"

lemma split_on_ne [simp]: "split_on c xs \<noteq> []"
  by (induction xs) (auto split: list.splits)

lemma join_split: "join_with [c] (split_on c xs) = xs"
proof (induction xs)
  case (Cons x xs)
  obtain f fs where s: "split_on c xs = f # fs"
    using split_on_ne by (metis list.exhaust)
  with Cons show ?case by (cases fs) auto
qed simp

lemma split_no_sep: "c \<notin> set xs \<Longrightarrow> split_on c xs = [xs]"
  by (induction xs) auto

lemma split_sep: "c \<notin> set xs \<Longrightarrow> split_on c (xs @ c # ys) = xs # split_on c ys"
  by (induction xs) auto

lemma split_snoc: "split_on c (xs @ c # ys) = split_on c xs @ split_on c ys"
proof (induction xs)
  case (Cons x xs)
  obtain f fs where s: "split_on c xs = f # fs" using split_on_ne by (metis list.exhaust)
  then show ?case using Cons by simp
qed simp

lemma join_cons: "ls \<noteq> [] \<Longrightarrow> join_with s (l # ls) = l @ s @ join_with s ls"
  by (cases ls) simp_all

lemma split_join:
  "fs \<noteq> [] \<Longrightarrow> \<forall>f \<in> set fs. c \<notin> set f \<Longrightarrow> split_on c (join_with [c] fs) = fs"
proof (induction fs)
  case (Cons f fs)
  then show ?case
    by (cases fs) (auto simp: split_no_sep split_sep)
qed simp

section \<open>Trimming at the end\<close>

text \<open>The loops \<open>for n > 0 && P(s[n-1]) { n-- }\<close>.\<close>

definition rstrip :: "('a \<Rightarrow> bool) \<Rightarrow> 'a list \<Rightarrow> 'a list" where
  "rstrip P xs = rev (dropWhile P (rev xs))"

lemma rstrip_Nil [simp]: "rstrip P [] = []"
  by (simp add: rstrip_def)

lemma rstrip_snoc: "rstrip P (xs @ [x]) = (if P x then rstrip P xs else xs @ [x])"
  by (simp add: rstrip_def)

lemma rstrip_last: "rstrip P xs \<noteq> [] \<Longrightarrow> \<not> P (last (rstrip P xs))"
  by (induction xs rule: rev_induct) (auto simp: rstrip_snoc)

lemma rstrip_split: "\<exists>ys. xs = rstrip P xs @ ys \<and> list_all P ys"
proof (induction xs rule: rev_induct)
  case (snoc x xs)
  then obtain ys where ys: "xs = rstrip P xs @ ys" "list_all P ys" by blast
  show ?case
  proof (cases "P x")
    case True
    with ys have "xs @ [x] = rstrip P (xs @ [x]) @ (ys @ [x]) \<and> list_all P (ys @ [x])"
      by (simp add: rstrip_snoc flip: append_assoc)
    then show ?thesis by blast
  qed (simp add: rstrip_snoc)
qed simp

lemma set_rstrip: "set (rstrip P xs) \<subseteq> set xs"
  by (induction xs rule: rev_induct) (auto simp: rstrip_snoc)

lemma rstrip_stop: "\<not> P x \<Longrightarrow> rstrip P (xs @ x # ys) = xs @ x # rstrip P ys"
  by (induction ys rule: rev_induct)
     (auto simp: rstrip_snoc simp flip: append_Cons append_assoc)

section \<open>clampInt\<close>

text \<open>An integer of the source that wraps around at 64 bits.\<close>

definition wrap64 :: "int \<Rightarrow> int" where
  "wrap64 n = (n + 2 ^ 63) mod 2 ^ 64 - 2 ^ 63"

lemma wrap64_id: "- (2 ^ 63) \<le> n \<Longrightarrow> n < 2 ^ 63 \<Longrightarrow> wrap64 n = n"
  by (simp add: wrap64_def)

lemma wrap64_range: "- (2 ^ 63) \<le> wrap64 n \<and> wrap64 n < 2 ^ 63"
  using pos_mod_bound [of "2 ^ 64" "n + 2 ^ 63"] by (simp add: wrap64_def)

definition clampInt :: "int \<Rightarrow> int \<Rightarrow> int \<Rightarrow> int" where
  "clampInt v lo hi = (if v < lo then lo else if v > hi then hi else v)"

lemma clampInt_bounds: "lo \<le> hi \<Longrightarrow> lo \<le> clampInt v lo hi \<and> clampInt v lo hi \<le> hi"
  by (simp add: clampInt_def)

lemma clampInt_id: "lo \<le> v \<Longrightarrow> v \<le> hi \<Longrightarrow> clampInt v lo hi = v"
  by (simp add: clampInt_def)

section \<open>Decimal printing and parsing are inverse\<close>

lemma digit_byte: "n < 10 \<Longrightarrow> uint (of_nat (n + 48) :: byte) = int n + 48"
  by (simp add: unsigned_of_nat take_bit_nat_def del: of_nat_add)

lemma digits_ne [simp]: "digits n \<noteq> []"
  by (subst digits.simps) simp

lemma is_digit_of_nat: "n < 10 \<Longrightarrow> is_digit (of_nat (n + 48))"
proof -
  assume "n < 10"
  then have "uint (of_nat (n + 48) :: byte) = int n + 48" by (rule digit_byte)
  with \<open>n < 10\<close> show ?thesis
    by (simp add: is_digit_def word_le_def)
qed

lemma digits_are_digits: "list_all is_digit (digits n)"
proof (induction n rule: digits.induct)
  case (1 n)
  then show ?case
    by (subst digits.simps) (auto simp del: of_nat_add intro!: is_digit_of_nat)
qed

lemma dec_val_snoc: "dec_val (ds @ [d]) = dec_val ds * 10 + (uint d - 48)"
  by (simp add: dec_val_def)

lemma dec_val_digits: "dec_val (digits n) = int n"
proof (induction n rule: digits.induct)
  case (1 n)
  show ?case
  proof (cases "n < 10")
    case True
    then show ?thesis
      by (subst digits.simps) (simp add: dec_val_def digit_byte del: of_nat_add)
  next
    case False
    then have "dec_val (digits n) = int (n div 10) * 10 + int (n mod 10)"
      using 1 digit_byte [of "n mod 10"]
      by (subst digits.simps) (simp add: dec_val_snoc del: of_nat_add)
    then show ?thesis by (simp add: zdiv_int zmod_int)
  qed
qed

lemma digits_length: "n < 10 ^ k \<Longrightarrow> 0 < k \<Longrightarrow> length (digits n) \<le> k"
proof (induction k arbitrary: n)
  case (Suc k)
  show ?case
  proof (cases "n < 10")
    case True
    then show ?thesis by (simp add: digits.simps [of n])
  next
    case False
    then have "k \<noteq> 0" using Suc.prems by (cases k) auto
    moreover have "n div 10 < 10 ^ k" using Suc.prems by (simp add: less_mult_imp_div_less mult.commute)
    ultimately show ?thesis using Suc.IH [of "n div 10"] False by (simp add: digits.simps [of n])
  qed
qed simp

lemma digits_hd: "is_digit (hd (digits n))"
  using digits_are_digits [of n] digits_ne [of n]
  by (metis list.set_sel(1) list_all_iff)

lemma not_digit_sign [simp]:
  "\<not> is_digit (bc CHR ''-'')" "\<not> is_digit (bc CHR ''+'')" "\<not> is_digit (bc CHR '';'')"
  "\<not> is_digit (bc CHR '':'')"
  by (simp_all add: is_digit_def)

lemma atoi_itoa: "- (2 ^ 63) \<le> n \<Longrightarrow> n < 2 ^ 63 \<Longrightarrow> atoi (itoa n) = Some n"
proof -
  assume b: "- (2 ^ 63) \<le> n" "n < 2 ^ 63"
  have h: "hd (digits k) \<noteq> bc CHR ''-''" "hd (digits k) \<noteq> bc CHR ''+''" for k
    using digits_hd [of k] not_digit_sign by metis+
  show ?thesis
    using b h by (simp add: atoi_def itoa_def Let_def digits_are_digits dec_val_digits)
qed

section \<open>Incremental consumers\<close>

text \<open>
  A consumer reads its input in chunks and keeps what it needs between two of them. Its one
  law is that the first byte of a chunk may as well arrive alone. Then any way of cutting the
  input into chunks gives the same final state.
\<close>

locale incremental =
  fixes ok :: "'s \<Rightarrow> bool"
    and feed :: "'s \<Rightarrow> 'b list \<Rightarrow> 's"
  assumes feed_nil: "ok s \<Longrightarrow> feed s [] = s"
    and feed_cons: "ok s \<Longrightarrow> feed s (b # p) = feed (feed s [b]) p"
    and feed_ok: "ok s \<Longrightarrow> ok (feed s p)"
begin

lemma feed_append: "ok s \<Longrightarrow> feed s (p @ q) = feed (feed s p) q"
proof (induction p arbitrary: s)
  case Nil
  then show ?case by (simp add: feed_nil)
next
  case (Cons b p)
  have "feed s ((b # p) @ q) = feed (feed s [b]) (p @ q)"
    using Cons.prems by (simp add: feed_cons [of s b "p @ q"])
  also have "\<dots> = feed (feed (feed s [b]) p) q"
    using Cons by (simp add: feed_ok)
  also have "\<dots> = feed (feed s (b # p)) q"
    using Cons.prems by (simp add: feed_cons [of s b p])
  finally show ?case .
qed

lemma feed_chunks: "ok s \<Longrightarrow> foldl feed s ps = feed s (concat ps)"
  by (induction ps arbitrary: s) (simp_all add: feed_nil feed_append feed_ok)

lemma feed_bytes: "ok s \<Longrightarrow> foldl (\<lambda>s b. feed s [b]) s p = feed s p"
proof (induction p arbitrary: s)
  case Nil
  then show ?case by (simp add: feed_nil)
next
  case (Cons b p)
  then show ?case by (simp add: feed_ok feed_cons [of s b p])
qed

lemma rechunk: "ok s \<Longrightarrow> concat ps = concat qs \<Longrightarrow> foldl feed s ps = foldl feed s qs"
  by (simp add: feed_chunks)

end

end
