(* ===== verification/Utf8.thy ===== *)
theory Utf8
  imports Prelude
begin

text \<open>
  The part of Go's \<open>unicode/utf8\<close> that the terminal uses, with its treatment of invalid input:
  a byte that starts no valid sequence decodes to U+FFFD with size 1. \<open>full_rune\<close>,
  \<open>decode_rune\<close>, \<open>encode_rune\<close> and \<open>rune_len\<close> stand for \<open>FullRune\<close>, \<open>DecodeRune\<close>,
  \<open>AppendRune\<close> (and the conversion \<open>string(r)\<close>) and \<open>RuneLen\<close>. The lemmas bound what a decode
  consumes, show that decoding undoes encoding, and that decoding looks at no more bytes
  than a rune has.
\<close>

definition rune_error :: rune where "rune_error = 0xFFFD"

text \<open>The lead byte's sequence length and the range its second byte must lie in; length 0
  marks ASCII, length 1 an invalid lead byte.\<close>

definition lead_info :: "byte \<Rightarrow> nat \<times> byte \<times> byte" where
  "lead_info b =
     (if b < 0x80 then (0, 0, 0)
      else if b < 0xC2 then (1, 0, 0)
      else if b < 0xE0 then (2, 0x80, 0xBF)
      else if b = 0xE0 then (3, 0xA0, 0xBF)
      else if b = 0xED then (3, 0x80, 0x9F)
      else if b < 0xF0 then (3, 0x80, 0xBF)
      else if b = 0xF0 then (4, 0x90, 0xBF)
      else if b < 0xF4 then (4, 0x80, 0xBF)
      else if b = 0xF4 then (4, 0x80, 0x8F)
      else (1, 0, 0))"

definition is_cont :: "byte \<Rightarrow> bool" where
  "is_cont b \<longleftrightarrow> 0x80 \<le> b \<and> b \<le> 0xBF"

definition full_rune :: "byte list \<Rightarrow> bool" where
  "full_rune p =
     (case p of [] \<Rightarrow> False
      | b0 # q \<Rightarrow>
          (let (sz, lo, hi) = lead_info b0
           in if sz \<le> length p then True
              else if 1 < length p \<and> (q ! 0 < lo \<or> hi < q ! 0) then True
              else 2 < length p \<and> \<not> is_cont (q ! 1)))"

definition decode_rune :: "byte list \<Rightarrow> rune \<times> nat" where
  "decode_rune p =
     (case p of [] \<Rightarrow> (rune_error, 0)
      | b0 # q \<Rightarrow>
          (let (sz, lo, hi) = lead_info b0
           in if sz = 0 then (uint b0, 1)
              else if sz = 1 \<or> length p < sz then (rune_error, 1)
              else if q ! 0 < lo \<or> hi < q ! 0 then (rune_error, 1)
              else if sz = 2 then (uint b0 mod 32 * 64 + uint (q ! 0) mod 64, 2)
              else if \<not> is_cont (q ! 1) then (rune_error, 1)
              else if sz = 3 then
                (uint b0 mod 16 * 4096 + uint (q ! 0) mod 64 * 64 + uint (q ! 1) mod 64, 3)
              else if \<not> is_cont (q ! 2) then (rune_error, 1)
              else (uint b0 mod 8 * 262144 + uint (q ! 0) mod 64 * 4096
                    + uint (q ! 1) mod 64 * 64 + uint (q ! 2) mod 64, 4)))"

definition surrogate :: "rune \<Rightarrow> bool" where
  "surrogate r \<longleftrightarrow> 0xD800 \<le> r \<and> r \<le> 0xDFFF"

definition valid_rune :: "rune \<Rightarrow> bool" where
  "valid_rune r \<longleftrightarrow> 0 \<le> r \<and> r \<le> 0x10FFFF \<and> \<not> surrogate r"

definition enc2 :: "rune \<Rightarrow> byte list" where
  "enc2 r = [of_int (0xC0 + r div 64), of_int (0x80 + r mod 64)]"

definition enc3 :: "rune \<Rightarrow> byte list" where
  "enc3 r = [of_int (0xE0 + r div 4096), of_int (0x80 + r div 64 mod 64), of_int (0x80 + r mod 64)]"

definition enc4 :: "rune \<Rightarrow> byte list" where
  "enc4 r = [of_int (0xF0 + r div 262144), of_int (0x80 + r div 4096 mod 64),
             of_int (0x80 + r div 64 mod 64), of_int (0x80 + r mod 64)]"

definition encode_rune :: "rune \<Rightarrow> byte list" where
  "encode_rune r =
     (if \<not> valid_rune r then enc3 rune_error
      else if r \<le> 0x7F then [of_int r]
      else if r \<le> 0x7FF then enc2 r
      else if r \<le> 0xFFFF then enc3 r
      else enc4 r)"

definition rune_len :: "rune \<Rightarrow> int" where
  "rune_len r =
     (if r < 0 then -1 else if r \<le> 0x7F then 1 else if r \<le> 0x7FF then 2
      else if surrogate r then -1 else if r \<le> 0xFFFF then 3
      else if r \<le> 0x10FFFF then 4 else -1)"

section \<open>Sizes\<close>

lemma lead_info_cases:
  assumes "P (0, 0, 0)" "P (1, 0, 0)" "P (2, 0x80, 0xBF)" "P (3, 0xA0, 0xBF)"
    "P (3, 0x80, 0x9F)" "P (3, 0x80, 0xBF)" "P (4, 0x90, 0xBF)" "P (4, 0x80, 0xBF)"
    "P (4, 0x80, 0x8F)"
  shows "P (lead_info b)"
  unfolding lead_info_def using assms by (simp split del: if_split cong: if_cong add: if_distrib [of P])

lemma lead_info_le: "fst (lead_info b) \<le> 4"
  by (rule lead_info_cases) simp_all

lemma lead_info_lo: "2 \<le> fst (lead_info b) \<Longrightarrow> 0x80 \<le> fst (snd (lead_info b))"
  by (rule lead_info_cases [of "\<lambda>x. 2 \<le> fst x \<longrightarrow> 0x80 \<le> fst (snd x)", THEN mp]) simp_all

lemma lead_info_ascii: "b < 0x80 \<Longrightarrow> lead_info b = (0, 0, 0)"
  by (simp add: lead_info_def)

lemma decode_rune_size_pos: "p \<noteq> [] \<Longrightarrow> 0 < snd (decode_rune p)"
  by (auto simp: decode_rune_def Let_def split: list.split prod.split)

lemma decode_rune_size_le: "snd (decode_rune p) \<le> length p"
proof (cases p)
  case (Cons b q)
  obtain sz lo hi where li: "lead_info b = (sz, lo, hi)" by (cases "lead_info b") auto
  then have "sz \<le> 4" using lead_info_le [of b] by simp
  then show ?thesis
    using Cons li by (auto simp: decode_rune_def not_less)
qed (simp add: decode_rune_def)

lemma decode_rune_size_le4: "snd (decode_rune p) \<le> 4"
  by (auto simp: decode_rune_def Let_def split: list.split prod.split)

lemma full_rune_ne: "full_rune p \<Longrightarrow> p \<noteq> []"
  by (auto simp: full_rune_def)

lemma full_rune_4: "4 \<le> length p \<Longrightarrow> full_rune p"
proof -
  assume "4 \<le> length p"
  moreover have "fst (lead_info (hd p)) \<le> 4" by (rule lead_info_le)
  ultimately show ?thesis
    by (cases p) (auto simp: full_rune_def Let_def split: prod.split)
qed

lemma not_full_short: "\<not> full_rune p \<Longrightarrow> length p < 4"
  using full_rune_4 not_less by blast

section \<open>What a decode depends on\<close>

text \<open>Bytes beyond a full rune change nothing: neither fullness nor the decoded rune.\<close>

lemma full_rune_append: "full_rune p \<Longrightarrow> full_rune (p @ q)"
proof (cases p)
  case (Cons b r)
  assume full: "full_rune p"
  obtain sz lo hi where li: "lead_info b = (sz, lo, hi)" by (cases "lead_info b") auto
  consider "r = []" | x where "r = [x]" | x y r' where "r = x # y # r'"
    by (metis list.exhaust)
  then show ?thesis
    using Cons full by cases (auto simp: full_rune_def li split: if_splits)
qed (simp add: full_rune_def)

lemma decode_rune_append: "full_rune p \<Longrightarrow> decode_rune (p @ q) = decode_rune p"
proof (cases p)
  case (Cons b r)
  assume full: "full_rune p"
  obtain sz lo hi where li: "lead_info b = (sz, lo, hi)" by (cases "lead_info b") auto
  consider "r = []" | x where "r = [x]" | x y where "r = [x, y]"
    | x y z r' where "r = x # y # z # r'"
    by (metis list.exhaust)
  then show ?thesis
    using Cons full lead_info_le [of b]
    by cases (auto simp: full_rune_def decode_rune_def li split: if_splits)
qed (simp add: full_rune_def)

lemma full_rune_take4: "full_rune (take 4 p) = full_rune p"
proof (cases "length p < 4")
  case True
  then show ?thesis by simp
next
  case False
  then show ?thesis by (simp add: full_rune_4)
qed

lemma decode_rune_take4: "full_rune p \<Longrightarrow> decode_rune (take 4 p) = decode_rune p"
  using decode_rune_append [of "take 4 p" "drop 4 p"] by (simp add: full_rune_take4)

text \<open>A held (incomplete) sequence is a lead byte followed by continuation bytes, so none of
  its bytes is ASCII.\<close>

lemma held_high:
  assumes "\<not> full_rune p" and "b \<in> set p"
  shows "0x80 \<le> b"
proof -
  obtain b0 q where p: "p = b0 # q" using assms by (cases p) auto
  obtain sz lo hi where li: "lead_info b0 = (sz, lo, hi)" by (cases "lead_info b0") auto
  have sz: "length p < sz" "sz \<le> 4"
    using assms(1) p li lead_info_le [of b0] by (auto simp: full_rune_def split: if_splits)
  have h0: "0x80 \<le> b0"
    using sz li lead_info_ascii [of b0] by (metis less_nat_zero_code not_le prod.inject)
  have lo: "0x80 \<le> lo"
    using sz p li lead_info_lo [of b0] by simp
  consider "q = []" | x where "q = [x]" | x y where "q = [x, y]" | "3 \<le> length q"
    by (metis One_nat_def Suc_le_mono length_Cons le0 list.exhaust numeral_3_eq_3)
  then show ?thesis
  proof cases
    case (2 x)
    then have "lo \<le> x"
      using assms(1) p li sz by (auto simp: full_rune_def not_less split: if_splits)
    with 2 assms(2) p h0 lo show ?thesis by (auto intro: order_trans)
  next
    case (3 x y)
    then have "lo \<le> x" "0x80 \<le> y"
      using assms(1) p li sz by (auto simp: full_rune_def is_cont_def not_less split: if_splits)
    with 3 assms(2) p h0 lo show ?thesis by (auto intro: order_trans)
  qed (use assms(2) p h0 sz in auto)
qed

section \<open>Decoding undoes encoding\<close>

lemma uint_byte_of_int: "0 \<le> k \<Longrightarrow> k < 256 \<Longrightarrow> uint (of_int k :: byte) = k"
  by (simp add: uint_word_of_int take_bit_int_eq_self_iff)

lemma byte_of_int_le: "0 \<le> k \<Longrightarrow> k < 256 \<Longrightarrow> (of_int k :: byte) \<le> b \<longleftrightarrow> k \<le> uint b"
  by (simp add: word_le_def uint_byte_of_int)

lemma byte_le_of_int: "0 \<le> k \<Longrightarrow> k < 256 \<Longrightarrow> b \<le> (of_int k :: byte) \<longleftrightarrow> uint b \<le> k"
  by (simp add: word_le_def uint_byte_of_int)

lemma byte_of_int_less: "0 \<le> k \<Longrightarrow> k < 256 \<Longrightarrow> (of_int k :: byte) < b \<longleftrightarrow> k < uint b"
  by (simp add: word_less_def uint_byte_of_int)

lemma byte_less_of_int: "0 \<le> k \<Longrightarrow> k < 256 \<Longrightarrow> b < (of_int k :: byte) \<longleftrightarrow> uint b < k"
  by (simp add: word_less_def uint_byte_of_int)

lemma byte_of_int_eq: "0 \<le> k \<Longrightarrow> k < 256 \<Longrightarrow> (of_int k :: byte) = b \<longleftrightarrow> k = uint b"
  by (metis uint_byte_of_int word_of_int_uint)

lemmas byte_of_int_simps =
  byte_of_int_le byte_le_of_int byte_of_int_less byte_less_of_int byte_of_int_eq uint_byte_of_int

lemma cont_of_int: "0 \<le> k \<Longrightarrow> k < 64 \<Longrightarrow> is_cont (of_int (0x80 + k))"
  by (simp add: is_cont_def byte_of_int_simps del: of_int_add)

lemma lead_info_int:
  "0 \<le> k \<Longrightarrow> k < 256 \<Longrightarrow> lead_info (of_int k) =
     (if k < 0x80 then (0, 0, 0)
      else if k < 0xC2 then (1, 0, 0)
      else if k < 0xE0 then (2, 0x80, 0xBF)
      else if k = 0xE0 then (3, 0xA0, 0xBF)
      else if k = 0xED then (3, 0x80, 0x9F)
      else if k < 0xF0 then (3, 0x80, 0xBF)
      else if k = 0xF0 then (4, 0x90, 0xBF)
      else if k < 0xF4 then (4, 0x80, 0xBF)
      else if k = 0xF4 then (4, 0x80, 0x8F)
      else (1, 0, 0))"
  unfolding lead_info_def by (simp only: byte_of_int_simps) simp

lemma low_bits:
  "0 \<le> x \<Longrightarrow> x < 64 \<Longrightarrow> (0x80 + x) mod 64 = (x :: int)"
  "0 \<le> x \<Longrightarrow> x < 32 \<Longrightarrow> (0xC0 + x) mod 32 = (x :: int)"
  "0 \<le> x \<Longrightarrow> x < 16 \<Longrightarrow> (0xE0 + x) mod 16 = (x :: int)"
  "0 \<le> x \<Longrightarrow> x < 8 \<Longrightarrow> (0xF0 + x) mod 8 = (x :: int)"
  by (subst mod_add_left_eq [symmetric], simp)+

lemma split3: "(r :: int) = r div 4096 * 4096 + r div 64 mod 64 * 64 + r mod 64"
proof -
  have "r div 64 div 64 = r div 4096"
    using zdiv_zmult2_eq [of 64 r 64] by simp
  then show ?thesis
    using div_mult_mod_eq [of r 64] div_mult_mod_eq [of "r div 64" 64] by linarith
qed

lemma split4:
  "(r :: int) = r div 262144 * 262144 + r div 4096 mod 64 * 4096 + r div 64 mod 64 * 64 + r mod 64"
proof -
  have "r div 4096 div 64 = r div 262144"
    using zdiv_zmult2_eq [of 64 r 4096] by simp
  then show ?thesis
    using split3 [of r] div_mult_mod_eq [of "r div 4096" 64] by linarith
qed

lemma decode_enc2:
  assumes "0x7F < r" "r \<le> 0x7FF"
  shows "decode_rune (enc2 r) = (r, 2)" "full_rune (enc2 r)"
proof -
  have b: "2 \<le> r div 64" "r div 64 < 32" "0 \<le> r mod 64" "r mod 64 < 64"
    using assms by auto
  have li: "lead_info (of_int (0xC0 + r div 64)) = (2, 0x80, 0xBF)"
    using b by (subst lead_info_int) auto
  have v: "uint (of_int (0xC0 + r div 64) :: byte) = 0xC0 + r div 64"
    "uint (of_int (0x80 + r mod 64) :: byte) = 0x80 + r mod 64"
    by (rule uint_byte_of_int; use b in linarith)+
  have s: "\<not> (of_int (0x80 + r mod 64) :: byte) < 0x80" "\<not> (0xBF :: byte) < of_int (0x80 + r mod 64)"
    using v(2) b by (simp_all add: word_less_def del: of_int_add)
  have m: "(0xC0 + r div 64) mod 32 = r div 64" "(0x80 + r mod 64) mod 64 = r mod 64"
    using b by (simp_all add: low_bits)
  show "decode_rune (enc2 r) = (r, 2)"
    using m by (simp add: decode_rune_def enc2_def li v s del: of_int_add)
  show "full_rune (enc2 r)"
    by (simp add: full_rune_def enc2_def li del: of_int_add)
qed

lemma decode_enc3:
  assumes "0x7FF < r" "r \<le> 0xFFFF" "\<not> surrogate r"
  shows "decode_rune (enc3 r) = (r, 3)" "full_rune (enc3 r)"
proof -
  define a b c where "a = r div 4096" and "b = r div 64 mod 64" and "c = r mod 64"
  have r: "r = a * 4096 + b * 64 + c" unfolding a_def b_def c_def by (rule split3)
  have bd: "0 \<le> a" "a < 16" "0 \<le> b" "b < 64" "0 \<le> c" "c < 64"
    using assms by (auto simp: a_def b_def c_def)
  have v: "uint (of_int (0xE0 + a) :: byte) = 0xE0 + a" "uint (of_int (0x80 + b) :: byte) = 0x80 + b"
    "uint (of_int (0x80 + c) :: byte) = 0x80 + c"
    by (rule uint_byte_of_int; use bd in linarith)+
  have li: "lead_info (of_int (0xE0 + a)) =
      (3, if a = 0 then 0xA0 else 0x80, if a = 13 then 0x9F else 0xBF)"
    using bd by (subst lead_info_int) auto
  have lo: "a = 0 \<Longrightarrow> 32 \<le> b" and hi: "a = 13 \<Longrightarrow> b < 32"
    using assms r bd by (auto simp: surrogate_def)
  have s: "\<not> (of_int (0x80 + b) :: byte) < (if a = 0 then 0xA0 else 0x80)"
    "\<not> (if a = 13 then 0x9F else 0xBF :: byte) < of_int (0x80 + b)"
    using v(2) bd lo hi by (auto simp: word_less_def simp del: of_int_add)
  have m: "(0xE0 + a) mod 16 = a" "(0x80 + b) mod 64 = b" "(0x80 + c) mod 64 = c"
    using bd by (simp_all add: low_bits)
  have e: "enc3 r = [of_int (0xE0 + a), of_int (0x80 + b), of_int (0x80 + c)]"
    by (simp only: enc3_def a_def b_def c_def)
  have "decode_rune (enc3 r) = (a * 4096 + b * 64 + c, 3)"
    using cont_of_int [of c] bd m s
    by (simp add: decode_rune_def e li v del: of_int_add)
  then show "decode_rune (enc3 r) = (r, 3)" by (simp only: r [symmetric])
  show "full_rune (enc3 r)"
    by (simp add: full_rune_def e li del: of_int_add)
qed

lemma decode_enc4:
  assumes "0xFFFF < r" "r \<le> 0x10FFFF"
  shows "decode_rune (enc4 r) = (r, 4)" "full_rune (enc4 r)"
proof -
  define a b c d where "a = r div 262144" and "b = r div 4096 mod 64"
    and "c = r div 64 mod 64" and "d = r mod 64"
  have r: "r = a * 262144 + b * 4096 + c * 64 + d" unfolding a_def b_def c_def d_def by (rule split4)
  have bd: "0 \<le> a" "a < 5" "0 \<le> b" "b < 64" "0 \<le> c" "c < 64" "0 \<le> d" "d < 64"
    using assms by (auto simp: a_def b_def c_def d_def)
  have v: "uint (of_int (0xF0 + a) :: byte) = 0xF0 + a" "uint (of_int (0x80 + b) :: byte) = 0x80 + b"
    "uint (of_int (0x80 + c) :: byte) = 0x80 + c" "uint (of_int (0x80 + d) :: byte) = 0x80 + d"
    by (rule uint_byte_of_int; use bd in linarith)+
  have li: "lead_info (of_int (0xF0 + a)) =
      (4, if a = 0 then 0x90 else 0x80, if a = 4 then 0x8F else 0xBF)"
    using bd by (subst lead_info_int) auto
  have lo: "a = 0 \<Longrightarrow> 16 \<le> b" and hi: "a = 4 \<Longrightarrow> b < 16"
    using assms r bd by auto
  have s: "\<not> (of_int (0x80 + b) :: byte) < (if a = 0 then 0x90 else 0x80)"
    "\<not> (if a = 4 then 0x8F else 0xBF :: byte) < of_int (0x80 + b)"
    using v(2) bd lo hi by (auto simp: word_less_def simp del: of_int_add)
  have m: "(0xF0 + a) mod 8 = a" "(0x80 + b) mod 64 = b" "(0x80 + c) mod 64 = c"
    "(0x80 + d) mod 64 = d"
    using bd by (simp_all add: low_bits)
  have e: "enc4 r = [of_int (0xF0 + a), of_int (0x80 + b), of_int (0x80 + c), of_int (0x80 + d)]"
    by (simp only: enc4_def a_def b_def c_def d_def)
  have "decode_rune (enc4 r) = (a * 262144 + b * 4096 + c * 64 + d, 4)"
    using cont_of_int [of c] cont_of_int [of d] bd m s
    by (simp add: decode_rune_def e li v del: of_int_add)
  then show "decode_rune (enc4 r) = (r, 4)" by (simp only: r [symmetric])
  show "full_rune (enc4 r)"
    by (simp add: full_rune_def e li del: of_int_add)
qed

lemma decode_ascii: "0 \<le> r \<Longrightarrow> r \<le> 0x7F \<Longrightarrow> decode_rune [of_int r] = (r, 1) \<and> full_rune [of_int r]"
  by (simp add: decode_rune_def full_rune_def lead_info_int uint_byte_of_int)

lemma decode_encode_self:
  assumes "valid_rune r"
  shows "decode_rune (encode_rune r) = (r, length (encode_rune r)) \<and> full_rune (encode_rune r)"
proof -
  from assms have b: "0 \<le> r" "r \<le> 0x10FFFF" "\<not> surrogate r" by (auto simp: valid_rune_def)
  consider "r \<le> 0x7F" | "0x7F < r" "r \<le> 0x7FF" | "0x7FF < r" "r \<le> 0xFFFF" | "0xFFFF < r"
    by linarith
  then show ?thesis
  proof cases
    case 1
    then show ?thesis using assms b decode_ascii [of r] by (simp add: encode_rune_def)
  next
    case 2
    then show ?thesis using assms decode_enc2 [of r] by (simp add: encode_rune_def enc2_def)
  next
    case 3
    then show ?thesis using assms b decode_enc3 [of r] by (simp add: encode_rune_def enc3_def)
  next
    case 4
    then show ?thesis using assms b decode_enc4 [of r] by (simp add: encode_rune_def enc4_def)
  qed
qed

lemma decode_encode: "valid_rune r \<Longrightarrow> decode_rune (encode_rune r @ q) = (r, length (encode_rune r))"
  using decode_encode_self decode_rune_append by metis

lemma length_encode: "valid_rune r \<Longrightarrow> int (length (encode_rune r)) = rune_len r"
  by (auto simp: encode_rune_def rune_len_def valid_rune_def enc2_def enc3_def enc4_def)

section \<open>Decoding yields valid runes\<close>

lemma lead_bounds:
  assumes "lead_info b = (sz, lo, hi)"
  shows "sz = 0 \<Longrightarrow> uint b < 0x80"
    and "sz = 2 \<Longrightarrow> 0xC2 \<le> uint b \<and> uint b < 0xE0"
    and "sz = 3 \<Longrightarrow> 0xE0 \<le> uint b \<and> uint b < 0xF0 \<and> 0x80 \<le> uint lo \<and> uint hi \<le> 0xBF
           \<and> (uint b = 0xED \<longrightarrow> uint hi \<le> 0x9F)"
    and "sz = 4 \<Longrightarrow> 0xF0 \<le> uint b \<and> uint b \<le> 0xF4 \<and> 0x80 \<le> uint lo \<and> uint hi \<le> 0xBF
           \<and> (uint b = 0xF0 \<longrightarrow> 0x90 \<le> uint lo) \<and> (uint b = 0xF4 \<longrightarrow> uint hi \<le> 0x8F)"
  using assms
  by (auto simp: lead_info_def word_less_def word_le_def word_uint_eq_iff split: if_splits)

lemma cont_mod: "0x80 \<le> k \<Longrightarrow> k \<le> 0xBF \<Longrightarrow> (k :: int) mod 64 = k - 0x80"
  by presburger

lemma valid3:
  fixes k x y :: int
  assumes "0xE0 \<le> k" "k < 0xF0" "0x80 \<le> x" "x \<le> 0xBF" "k = 0xED \<longrightarrow> x \<le> 0x9F" "0 \<le> y" "y < 64"
  shows "valid_rune (k mod 16 * 4096 + x mod 64 * 64 + y)"
proof -
  have "k mod 16 = k - 0xE0" using assms(1,2) by presburger
  moreover have "x mod 64 = x - 0x80" using assms(3,4) by (rule cont_mod)
  ultimately show ?thesis
    using assms unfolding valid_rune_def surrogate_def by (cases "k = 0xED") (simp, linarith)+
qed

lemma valid_rune_supplementary: "0x10000 \<le> r \<Longrightarrow> r \<le> 0x10FFFF \<Longrightarrow> valid_rune r"
  by (simp add: valid_rune_def surrogate_def)

lemma valid4:
  fixes k x y z :: int
  assumes "0xF0 \<le> k" "k \<le> 0xF4" "0x80 \<le> x" "x \<le> 0xBF" "k = 0xF0 \<longrightarrow> 0x90 \<le> x"
    "k = 0xF4 \<longrightarrow> x \<le> 0x8F" "0 \<le> y" "y < 64" "0 \<le> z" "z < 64"
  shows "valid_rune (k mod 8 * 262144 + x mod 64 * 4096 + y * 64 + z)"
proof -
  have e: "k mod 8 = k - 0xF0" using assms(1,2) by presburger
  have f: "x mod 64 = x - 0x80" using assms(3,4) by (rule cont_mod)
  consider "k = 0xF0" "0x90 \<le> x" | "k = 0xF4" "x \<le> 0x8F" | "0xF1 \<le> k" "k \<le> 0xF3"
    using assms by linarith
  then show ?thesis
    unfolding e f
    by cases (rule valid_rune_supplementary; use assms(3,4,7-10) in \<open>simp add: algebra_simps\<close>)+
qed

lemma valid2: "valid_rune (k mod 32 * 64 + x mod 64)" for k x :: int
proof -
  have "0 \<le> k mod 32" "k mod 32 < 32" "0 \<le> x mod 64" "x mod 64 < 64" by simp_all
  then show ?thesis unfolding valid_rune_def surrogate_def by linarith
qed

lemma rune_error_valid [simp]: "valid_rune rune_error"
  by (simp add: valid_rune_def surrogate_def rune_error_def)

lemma decode_rune_valid: "valid_rune (fst (decode_rune p))"
proof (cases p)
  case Nil
  then show ?thesis by (simp add: decode_rune_def)
next
  case (Cons b0 q)
  obtain sz lo hi where li: "lead_info b0 = (sz, lo, hi)" by (cases "lead_info b0") auto
  have sz: "sz = 0 \<or> sz = 1 \<or> sz = 2 \<or> sz = 3 \<or> sz = 4"
    using lead_info_le [of b0] li by auto
  have z: "valid_rune (uint b0)" if "sz = 0"
    using lead_bounds(1) [OF li that] by (simp add: valid_rune_def surrogate_def)
  have c: "valid_rune (uint b0 mod 16 * 4096 + uint (q ! 0) mod 64 * 64 + uint (q ! 1) mod 64)"
    if "sz = 3" "\<not> q ! 0 < lo" "\<not> hi < q ! 0"
    using lead_bounds(3) [OF li] that by (intro valid3) (auto simp: word_less_def)
  have d: "valid_rune (uint b0 mod 8 * 262144 + uint (q ! 0) mod 64 * 4096
      + uint (q ! 1) mod 64 * 64 + uint (q ! 2) mod 64)"
    if "sz = 4" "\<not> q ! 0 < lo" "\<not> hi < q ! 0"
    using lead_bounds(4) [OF li] that by (intro valid4) (auto simp: word_less_def)
  show ?thesis
    unfolding decode_rune_def Cons list.case li case_prod_conv
    using sz by (elim disjE) (simp_all add: Let_def z valid2 c [simplified] d [simplified])
qed

end
