(* ===== verification/Width.thy ===== *)
theory Width
  imports Unicode_Tables
begin

text \<open>
  Display width of a code point (\<open>internal/vt/width.go\<close>): the tables of wide and of extra
  zero-width ranges as the source lists them, the binary search that consults them and
  \<open>RuneWidth\<close>. The lemmas show that the tables are sorted and disjoint, that on such a table
  the binary search is membership, and what \<open>RuneWidth\<close> can return.
\<close>

definition wideRanges :: "range list" where
  "wideRanges =
     [(0x1100, 0x115F), (0x231A, 0x231B), (0x2329, 0x232A), (0x23E9, 0x23EC),
      (0x23F0, 0x23F0), (0x23F3, 0x23F3), (0x25FD, 0x25FE), (0x2614, 0x2615),
      (0x2630, 0x2637), (0x2648, 0x2653), (0x267F, 0x267F), (0x268A, 0x268F),
      (0x2693, 0x2693), (0x26A1, 0x26A1), (0x26AA, 0x26AB), (0x26BD, 0x26BE),
      (0x26C4, 0x26C5), (0x26CE, 0x26CE), (0x26D4, 0x26D4), (0x26EA, 0x26EA),
      (0x26F2, 0x26F3), (0x26F5, 0x26F5), (0x26FA, 0x26FA), (0x26FD, 0x26FD),
      (0x2705, 0x2705), (0x270A, 0x270B), (0x2728, 0x2728), (0x274C, 0x274C),
      (0x274E, 0x274E), (0x2753, 0x2755), (0x2757, 0x2757), (0x2795, 0x2797),
      (0x27B0, 0x27B0), (0x27BF, 0x27BF), (0x2B1B, 0x2B1C), (0x2B50, 0x2B50),
      (0x2B55, 0x2B55), (0x2E80, 0x2E99), (0x2E9B, 0x2EF3), (0x2F00, 0x2FD5),
      (0x2FF0, 0x2FFF), (0x3000, 0x303E), (0x3041, 0x3096), (0x3099, 0x30FF),
      (0x3105, 0x312F), (0x3131, 0x318E), (0x3190, 0x31E5), (0x31EF, 0x321E),
      (0x3220, 0x3247), (0x3250, 0xA48C), (0xA490, 0xA4C6), (0xA960, 0xA97C),
      (0xAC00, 0xD7A3), (0xF900, 0xFAFF), (0xFE10, 0xFE19), (0xFE30, 0xFE52),
      (0xFE54, 0xFE66), (0xFE68, 0xFE6B), (0xFF01, 0xFF60), (0xFFE0, 0xFFE6),
      (0x16FE0, 0x16FE4), (0x16FF0, 0x16FF1), (0x17000, 0x187F7), (0x18800, 0x18CD5),
      (0x18D00, 0x18D08), (0x1AFF0, 0x1AFF3), (0x1AFF5, 0x1AFFB), (0x1AFFD, 0x1AFFE),
      (0x1B000, 0x1B122), (0x1B132, 0x1B132), (0x1B150, 0x1B152), (0x1B155, 0x1B155),
      (0x1B164, 0x1B167), (0x1B170, 0x1B2FB), (0x1D300, 0x1D356), (0x1D360, 0x1D376),
      (0x1F004, 0x1F004), (0x1F0CF, 0x1F0CF), (0x1F18E, 0x1F18E), (0x1F191, 0x1F19A),
      (0x1F200, 0x1F202), (0x1F210, 0x1F23B), (0x1F240, 0x1F248), (0x1F250, 0x1F251),
      (0x1F260, 0x1F265), (0x1F300, 0x1F320), (0x1F32D, 0x1F335), (0x1F337, 0x1F37C),
      (0x1F37E, 0x1F393), (0x1F3A0, 0x1F3CA), (0x1F3CF, 0x1F3D3), (0x1F3E0, 0x1F3F0),
      (0x1F3F4, 0x1F3F4), (0x1F3F8, 0x1F43E), (0x1F440, 0x1F440), (0x1F442, 0x1F4FC),
      (0x1F4FF, 0x1F53D), (0x1F54B, 0x1F54E), (0x1F550, 0x1F567), (0x1F57A, 0x1F57A),
      (0x1F595, 0x1F596), (0x1F5A4, 0x1F5A4), (0x1F5FB, 0x1F64F), (0x1F680, 0x1F6C5),
      (0x1F6CC, 0x1F6CC), (0x1F6D0, 0x1F6D2), (0x1F6D5, 0x1F6D7), (0x1F6DC, 0x1F6DF),
      (0x1F6EB, 0x1F6EC), (0x1F6F4, 0x1F6FC), (0x1F7E0, 0x1F7EB), (0x1F7F0, 0x1F7F0),
      (0x1F90C, 0x1F93A), (0x1F93C, 0x1F945), (0x1F947, 0x1F9FF), (0x1FA70, 0x1FA7C),
      (0x1FA80, 0x1FA89), (0x1FA8F, 0x1FAC6), (0x1FACE, 0x1FADC), (0x1FADF, 0x1FAE9),
      (0x1FAF0, 0x1FAF8), (0x20000, 0x2FFFD), (0x30000, 0x3FFFD)]"

definition zeroWidthExtra :: "range list" where
  "zeroWidthExtra = [(0x1160, 0x11FF), (0xD7B0, 0xD7FF)]"

text \<open>The loop of \<open>inRanges\<close>, with its bounds \<open>lo\<close> and \<open>hi\<close> as arguments.\<close>

function inRanges_loop :: "range list \<Rightarrow> rune \<Rightarrow> nat \<Rightarrow> nat \<Rightarrow> bool" where
  "inRanges_loop tab r lo hi =
     (if lo < hi then
        (let m = (lo + hi) div 2
         in if r < fst (tab ! m) then inRanges_loop tab r lo m
            else if r > snd (tab ! m) then inRanges_loop tab r (m + 1) hi
            else True)
      else False)"
  by pat_completeness auto
termination
  by (relation "measure (\<lambda>(tab, r, lo, hi). hi - lo)") auto

declare inRanges_loop.simps [simp del]

definition inRanges :: "range list \<Rightarrow> rune \<Rightarrow> bool" where
  "inRanges tab r = inRanges_loop tab r 0 (length tab)"

definition isZeroWidth :: "rune \<Rightarrow> bool" where
  "isZeroWidth r =
     (if r < 0x0300 then False
      else if unicode_Is unicode_Mn r \<or> unicode_Is unicode_Me r \<or> inRanges zeroWidthExtra r then True
      else unicode_Is unicode_Cf r)"

definition RuneWidth :: "rune \<Rightarrow> nat" where
  "RuneWidth r =
     (if r < 0 then 1
      else if r < 0x20 then 0
      else if r < 0x7F then 1
      else if r < 0xA0 then 0
      else if r < 0x0300 then 1
      else if r > 0x10FFFF then 1
      else if isZeroWidth r then 0
      else if r \<ge> 0x1100 \<and> inRanges wideRanges r then 2
      else 1)"

definition isRegionalIndicator :: "rune \<Rightarrow> bool" where
  "isRegionalIndicator r \<longleftrightarrow> r \<ge> 0x1F1E6 \<and> r \<le> 0x1F1FF"

definition zwj :: rune where "zwj = 0x200D"
definition vs16 :: rune where "vs16 = 0xFE0F"

section \<open>Binary search is membership\<close>

fun ranges_sorted :: "range list \<Rightarrow> bool" where
  "ranges_sorted [] = True"
| "ranges_sorted [(lo, hi)] = (lo \<le> hi)"
| "ranges_sorted ((lo, hi) # (lo', hi') # tab) =
     (lo \<le> hi \<and> hi < lo' \<and> ranges_sorted ((lo', hi') # tab))"

lemma ranges_sorted_Cons:
  "ranges_sorted ((lo, hi) # tab) \<Longrightarrow>
     lo \<le> hi \<and> ranges_sorted tab \<and> (\<forall>x \<in> set tab. hi < fst x \<and> fst x \<le> snd x)"
proof (induction tab arbitrary: lo hi)
  case (Cons y tab)
  obtain l h where y: "y = (l, h)" by (cases y)
  from Cons.prems y have "lo \<le> hi" "hi < l" "ranges_sorted ((l, h) # tab)" by auto
  with Cons.IH [of l h] y show ?case by force
qed auto

lemma ranges_sorted_nth:
  "ranges_sorted tab \<Longrightarrow> i < j \<Longrightarrow> j < length tab \<Longrightarrow> snd (tab ! i) < fst (tab ! j)"
proof (induction tab arbitrary: i j)
  case (Cons y tab)
  obtain l h where y: "y = (l, h)" by (cases y)
  from ranges_sorted_Cons [of l h tab] Cons.prems y
  have h: "ranges_sorted tab" "\<forall>x \<in> set tab. h < fst x" by auto
  from Cons.prems obtain j' where j: "j = Suc j'" "j' < length tab" by (cases j) auto
  show ?case
  proof (cases i)
    case 0
    then show ?thesis using h j y nth_mem [of j' tab] by simp
  next
    case (Suc i')
    then show ?thesis using Cons.IH [of i' j'] h j Cons.prems by simp
  qed
qed simp

lemma ranges_sorted_le: "ranges_sorted tab \<Longrightarrow> i < length tab \<Longrightarrow> fst (tab ! i) \<le> snd (tab ! i)"
proof (induction tab arbitrary: i)
  case (Cons y tab)
  obtain l h where y: "y = (l, h)" by (cases y)
  from ranges_sorted_Cons [of l h tab] Cons y show ?case by (cases i) auto
qed simp

lemma inRanges_loop_iff:
  "ranges_sorted tab \<Longrightarrow> hi \<le> length tab \<Longrightarrow>
   inRanges_loop tab r lo hi \<longleftrightarrow>
     (\<exists>i. lo \<le> i \<and> i < hi \<and> fst (tab ! i) \<le> r \<and> r \<le> snd (tab ! i))"
proof (induction tab r lo hi rule: inRanges_loop.induct)
  case (1 tab r lo hi)
  define m where "m = (lo + hi) div 2"
  note below = ranges_sorted_nth [OF "1.prems"(1)] and self = ranges_sorted_le [OF "1.prems"(1)]
  show ?case
  proof (cases "lo < hi")
    case False
    then show ?thesis by (subst inRanges_loop.simps) auto
  next
    case True
    then have m: "lo \<le> m" "m < hi" by (auto simp: m_def)
    consider "r < fst (tab ! m)" | "r > snd (tab ! m)" | "fst (tab ! m) \<le> r" "r \<le> snd (tab ! m)"
      by linarith
    then show ?thesis
    proof cases
      case 1
      have "i < m" if "i < hi" "fst (tab ! i) \<le> r" for i
      proof (rule ccontr)
        assume "\<not> i < m"
        then consider "i = m" | "m < i" by linarith
        then show False
          using 1 that below [of m i] self [of m] m "1.prems"(2) by cases auto
      qed
      then show ?thesis
        using 1 "1.IH"(1) [OF True m_def] "1.prems" m
        by (subst inRanges_loop.simps) (auto simp: True m_def [symmetric])
    next
      case 2
      have "m < i" if "lo \<le> i" "i < hi" "r \<le> snd (tab ! i)" for i
      proof (rule ccontr)
        assume "\<not> m < i"
        then consider "i = m" | "i < m" by linarith
        then show False
          using 2 that below [of i m] self [of m] m "1.prems"(2) by cases auto
      qed
      then have "(\<exists>i. Suc m \<le> i \<and> i < hi \<and> fst (tab ! i) \<le> r \<and> r \<le> snd (tab ! i)) \<longleftrightarrow>
          (\<exists>i. lo \<le> i \<and> i < hi \<and> fst (tab ! i) \<le> r \<and> r \<le> snd (tab ! i))"
        using m(1) by (meson Suc_le_eq less_imp_le order_trans)
      then show ?thesis
        using 2 "1.IH"(2) [OF True m_def] "1.prems" m self [of m]
        by (subst inRanges_loop.simps) (simp add: True m_def [symmetric])
    next
      case 3
      then show ?thesis
        using m by (subst inRanges_loop.simps) (auto simp: True m_def [symmetric])
    qed
  qed
qed

lemma inRanges_eq: "ranges_sorted tab \<Longrightarrow> inRanges tab r = unicode_Is tab r"
  unfolding inRanges_def unicode_Is_def list_ex_iff case_prod_beta
  by (simp add: inRanges_loop_iff) (metis in_set_conv_nth)

lemma wideRanges_sorted: "ranges_sorted wideRanges"
  by (simp add: wideRanges_def)

lemma zeroWidthExtra_sorted: "ranges_sorted zeroWidthExtra"
  by (simp add: zeroWidthExtra_def)

lemma RuneWidth_le_2: "RuneWidth r \<le> 2"
  by (simp add: RuneWidth_def)

lemma RuneWidth_cases: "RuneWidth r = 0 \<or> RuneWidth r = 1 \<or> RuneWidth r = 2"
  by (simp add: RuneWidth_def)

lemma RuneWidth_ascii: "0x20 \<le> r \<Longrightarrow> r < 0x7F \<Longrightarrow> RuneWidth r = 1"
  by (simp add: RuneWidth_def)

end
