(* ===== verification/History.thy ===== *)
theory History
  imports Prelude
begin

text \<open>
  The scrollback history of \<open>internal/vt/screen.go\<close> (type \<open>history\<close>): a slice of line texts
  that becomes a ring once it holds \<open>limit\<close> lines. The locale \<open>bounded_fifo\<close> is the contract
  its clients use, a queue that forgets its oldest entries; the interpretation \<open>hist\<close> proves
  that the ring implements it.
\<close>

section \<open>The contract\<close>

definition lastn :: "nat \<Rightarrow> 'a list \<Rightarrow> 'a list" where
  "lastn n xs = drop (length xs - n) xs"

lemma lastn_all [simp]: "length xs \<le> n \<Longrightarrow> lastn n xs = xs"
  by (simp add: lastn_def)

lemma length_lastn [simp]: "length (lastn n xs) = min n (length xs)"
  by (simp add: lastn_def)

lemma lastn_append_last: "length ys \<le> n \<Longrightarrow> lastn n (xs @ ys) = lastn (n - length ys) xs @ ys"
  by (simp add: lastn_def)

lemma lastn_lastn: "lastn n (lastn n xs @ ys) = lastn n (xs @ ys)"
  by (cases "length xs \<le> n") (auto simp: lastn_def add.commute)

locale bounded_fifo =
  fixes inv :: "'h \<Rightarrow> bool"
    and lim :: "'h \<Rightarrow> nat"
    and items :: "'h \<Rightarrow> 'a list"
    and size_of :: "'h \<Rightarrow> nat"
    and get :: "'h \<Rightarrow> nat \<Rightarrow> 'a"
    and put :: "'a \<Rightarrow> 'h \<Rightarrow> 'h"
    and unput :: "'h \<Rightarrow> 'a \<times> 'h"
  assumes size_items: "inv h \<Longrightarrow> size_of h = length (items h)"
    and get_items: "inv h \<Longrightarrow> i < size_of h \<Longrightarrow> get h i = items h ! i"
    and put_items: "inv h \<Longrightarrow> items (put x h) = lastn (lim h) (items h @ [x])"
    and put_inv: "inv h \<Longrightarrow> inv (put x h)"
    and put_lim: "lim (put x h) = lim h"
    and unput_items: "inv h \<Longrightarrow> items h \<noteq> [] \<Longrightarrow>
        fst (unput h) = last (items h) \<and> items (snd (unput h)) = butlast (items h)"
    and unput_inv: "inv h \<Longrightarrow> items h \<noteq> [] \<Longrightarrow> inv (snd (unput h))"
    and unput_lim: "lim (snd (unput h)) = lim h"
    and items_bound: "inv h \<Longrightarrow> length (items h) \<le> lim h"
begin

definition put_all :: "'a list \<Rightarrow> 'h \<Rightarrow> 'h" where
  "put_all xs h = fold put xs h"

fun unput_n :: "nat \<Rightarrow> 'h \<Rightarrow> 'a list \<Rightarrow> 'a list \<times> 'h" where
  "unput_n 0 h acc = (acc, h)"
| "unput_n (Suc n) h acc = unput_n n (snd (unput h)) (fst (unput h) # acc)"

lemma put_all_inv: "inv h \<Longrightarrow> inv (put_all xs h)"
  by (induction xs arbitrary: h) (simp_all add: put_all_def put_inv)

lemma put_all_lim: "lim (put_all xs h) = lim h"
  by (induction xs arbitrary: h) (simp_all add: put_all_def put_lim)

lemma put_all_items: "inv h \<Longrightarrow> items (put_all xs h) = lastn (lim h) (items h @ xs)"
proof (induction xs arbitrary: h)
  case Nil
  then show ?case using items_bound by (simp add: put_all_def)
next
  case (Cons x xs)
  then show ?case
    using Cons.IH [OF put_inv [OF Cons.prems]]
    by (simp add: put_all_def put_items put_lim lastn_lastn [of "lim h" "items h @ [x]" xs, simplified])
qed

lemma unput_n_items:
  "inv h \<Longrightarrow> n \<le> length (items h) \<Longrightarrow>
   fst (unput_n n h acc) = lastn n (items h) @ acc
   \<and> items (snd (unput_n n h acc)) = take (length (items h) - n) (items h)
   \<and> inv (snd (unput_n n h acc)) \<and> lim (snd (unput_n n h acc)) = lim h"
proof (induction n arbitrary: h acc)
  case 0
  then show ?case by (simp add: lastn_def)
next
  case (Suc n)
  then have ne: "items h \<noteq> []" by auto
  then obtain ys y where ys: "items h = ys @ [y]" by (metis rev_exhaust)
  from Suc.prems ne ys unput_items [of h]
  have u: "fst (unput h) = y" "items (snd (unput h)) = ys" by auto
  have "inv (snd (unput h))" using Suc.prems ne by (simp add: unput_inv)
  from Suc.IH [OF this, of "y # acc"] Suc.prems u ys show ?case
    by (simp add: unput_lim lastn_def Suc_diff_le)
qed

text \<open>Entries just put can be taken back, in their order, as long as they all fitted.\<close>

lemma put_unput:
  assumes "inv h" "length xs \<le> lim h"
  shows "fst (unput_n (length xs) (put_all xs h) []) = xs"
proof -
  have "items (put_all xs h) = lastn (lim h - length xs) (items h) @ xs"
    using assms by (simp add: put_all_items lastn_append_last)
  then show ?thesis
    using unput_n_items [of "put_all xs h" "length xs" "[]"] assms
    by (simp add: put_all_inv lastn_def)
qed

end

section \<open>The ring\<close>

record history =
  hlines :: "byte list list"
  head :: nat
  limit :: nat

definition hist_len :: "history \<Rightarrow> nat" where
  "hist_len h = length (hlines h)"

definition hist_at :: "history \<Rightarrow> nat \<Rightarrow> byte list" where
  "hist_at h i = hlines h ! ((head h + i) mod length (hlines h))"

definition hist_push :: "byte list \<Rightarrow> history \<Rightarrow> history" where
  "hist_push l h =
     (if limit h = 0 then h
      else if length (hlines h) < limit h then h\<lparr>hlines := hlines h @ [l]\<rparr>
      else h\<lparr>hlines := (hlines h)[head h := l], head := (head h + 1) mod length (hlines h)\<rparr>)"

definition hist_popNewest :: "history \<Rightarrow> byte list \<times> history" where
  "hist_popNewest h =
     (let h1 = (if head h \<noteq> 0
                then h\<lparr>hlines := drop (head h) (hlines h) @ take (head h) (hlines h), head := 0\<rparr>
                else h);
          n = length (hlines h1) - 1
      in (hlines h1 ! n, h1\<lparr>hlines := take n (hlines h1)\<rparr>))"

definition hist_clear :: "history \<Rightarrow> history" where
  "hist_clear h = h\<lparr>hlines := [], head := 0\<rparr>"

text \<open>The invariant and the queue a ring stands for, oldest line first.\<close>

definition hist_ok :: "history \<Rightarrow> bool" where
  "hist_ok h \<longleftrightarrow> length (hlines h) \<le> limit h
     \<and> (head h = 0 \<or> head h < length (hlines h) \<and> length (hlines h) = limit h)"

definition hist_items :: "history \<Rightarrow> byte list list" where
  "hist_items h = drop (head h) (hlines h) @ take (head h) (hlines h)"

lemma hist_items_length [simp]: "length (hist_items h) = length (hlines h)"
  by (simp add: hist_items_def)

lemma hist_at_items:
  assumes "hist_ok h" "i < length (hlines h)"
  shows "hist_at h i = hist_items h ! i"
proof (cases "head h + i < length (hlines h)")
  case True
  then have "i < length (hlines h) - head h" by linarith
  with True show ?thesis by (simp add: hist_at_def hist_items_def nth_append)
next
  case False
  with assms have "head h < length (hlines h)" by (auto simp: hist_ok_def)
  with False assms have "(head h + i) mod length (hlines h) = head h + i - length (hlines h)"
    by (simp add: mod_if)
  moreover have "i - (length (hlines h) - head h) = head h + i - length (hlines h)"
    using \<open>head h < _\<close> by linarith
  moreover have "head h + i - length (hlines h) < head h" "\<not> i < length (hlines h) - head h"
    using False assms(2) by linarith+
  ultimately show ?thesis
    by (simp add: hist_at_def hist_items_def nth_append)
qed

lemma hist_push_items:
  assumes "hist_ok h"
  shows "hist_items (hist_push l h) = lastn (limit h) (hist_items h @ [l])"
proof -
  consider "limit h = 0" | "0 < limit h" "length (hlines h) < limit h"
    | "0 < limit h" "length (hlines h) = limit h"
    using assms unfolding hist_ok_def by linarith
  then show ?thesis
  proof cases
    case 1
    then show ?thesis using assms by (simp add: hist_push_def hist_items_def hist_ok_def lastn_def)
  next
    case 2
    then have "head h = 0" using assms by (auto simp: hist_ok_def)
    with 2 show ?thesis by (simp add: hist_push_def hist_items_def)
  next
    case 3
    then have hd: "head h < length (hlines h)" using assms by (auto simp: hist_ok_def)
    define xs where "xs = hlines h"
    define k where "k = head h"
    have split: "xs = take k xs @ xs ! k # drop (Suc k) xs"
      using hd by (simp add: xs_def k_def id_take_nth_drop)
    have len: "length xs = limit h" using 3 by (simp add: xs_def)
    have "hist_items (hist_push l h) = drop (Suc k) xs @ take k xs @ [l]"
    proof (cases "Suc k = length xs")
      case True
      then have "(k + 1) mod length xs = 0" by simp
      moreover have "xs[k := l] = take k xs @ [l]"
        using True hd by (simp add: upd_conv_take_nth_drop xs_def k_def)
      ultimately show ?thesis
        using 3 True by (simp add: hist_push_def hist_items_def xs_def [symmetric] k_def [symmetric])
    next
      case False
      with hd have "Suc k < length xs" by (simp add: xs_def k_def)
      then show ?thesis
        using 3
        by (simp add: hist_push_def hist_items_def xs_def [symmetric] k_def [symmetric] take_Suc_conv_app_nth)
    qed
    moreover have "drop k xs = xs ! k # drop (Suc k) xs"
      using hd by (simp add: Cons_nth_drop_Suc xs_def k_def)
    moreover have "Suc (length (drop k xs @ take k xs)) - limit h = Suc 0"
      using len hd by (simp add: xs_def k_def)
    then have "lastn (limit h) ((xs ! k # drop (Suc k) xs @ take k xs) @ [l]) =
        drop (Suc k) xs @ take k xs @ [l]"
      using \<open>drop k xs = _\<close> by (simp add: lastn_def del: length_drop length_take)
    ultimately show ?thesis
      by (simp add: hist_items_def [of h] xs_def [symmetric] k_def [symmetric])
  qed
qed

lemma hist_push_ok:
  assumes "hist_ok h"
  shows "hist_ok (hist_push l h)"
proof -
  have "0 < limit h \<Longrightarrow> length (hlines h) = limit h \<Longrightarrow>
      (head h + 1) mod length (hlines h) < length (hlines h)"
    by (intro mod_less_divisor) simp
  with assms show ?thesis
    unfolding hist_ok_def hist_push_def by (cases "limit h = 1") (auto simp: le_Suc_eq)
qed

lemma hist_push_limit [simp]: "limit (hist_push l h) = limit h"
  by (simp add: hist_push_def)

lemma hist_popNewest_items:
  "hist_ok h \<Longrightarrow> hist_items h \<noteq> [] \<Longrightarrow>
   fst (hist_popNewest h) = last (hist_items h)
   \<and> hist_items (snd (hist_popNewest h)) = butlast (hist_items h)"
  by (auto simp: hist_popNewest_def hist_items_def Let_def last_conv_nth butlast_conv_take)

lemma hist_popNewest_ok: "hist_ok h \<Longrightarrow> hist_ok (snd (hist_popNewest h))"
  by (auto simp: hist_popNewest_def hist_ok_def Let_def)

lemma hist_popNewest_limit [simp]: "limit (snd (hist_popNewest h)) = limit h"
  by (simp add: hist_popNewest_def Let_def)

lemma hist_clear_ok [simp]: "hist_ok (hist_clear h)"
  by (simp add: hist_clear_def hist_ok_def)

lemma hist_clear_limit [simp]: "limit (hist_clear h) = limit h"
  by (simp add: hist_clear_def)

interpretation hist: bounded_fifo hist_ok limit hist_items hist_len hist_at hist_push hist_popNewest
proof
  fix h :: history and i :: nat and x :: "byte list"
  show "hist_len h = length (hist_items h)" by (simp add: hist_len_def)
  show "hist_ok h \<Longrightarrow> i < hist_len h \<Longrightarrow> hist_at h i = hist_items h ! i"
    by (simp add: hist_at_items hist_len_def)
  show "hist_ok h \<Longrightarrow> length (hist_items h) \<le> limit h" by (simp add: hist_ok_def)
qed (simp_all add: hist_push_items hist_push_ok hist_popNewest_items hist_popNewest_ok)

end
