(* ===== verification/Cells.thy ===== *)
theory Cells
  imports Prelude
begin

text \<open>
  Cells and rows of \<open>internal/vt/screen.go\<close>: colors and attributes, the cell flags, and the
  operations on one row of cells (\<open>splitWide\<close>, \<open>insertCells\<close>, \<open>deleteCells\<close>, \<open>fillCells\<close>,
  \<open>fitCells\<close>, the cell part of \<open>eraseCells\<close>). \<open>row_ok\<close> is the invariant of a row: a wide glyph
  is always a lead cell followed by its pad cell, pads hold no text, and the combining marks of
  a cell stay below their cap. Every row operation keeps it.
\<close>

section \<open>Data\<close>

type_synonym color = "32 word"

definition colorDefault :: color where "colorDefault = 0"
definition colorIndexed :: color where "colorIndexed = 0x01000000"
definition colorRGB :: color where "colorRGB = 0x02000000"
definition colorKind :: color where "colorKind = 0xff000000"

definition attrBold :: "16 word" where "attrBold = 1"
definition attrDim :: "16 word" where "attrDim = 2"
definition attrItalic :: "16 word" where "attrItalic = 4"
definition attrBlink :: "16 word" where "attrBlink = 8"
definition attrReverse :: "16 word" where "attrReverse = 16"
definition attrInvisible :: "16 word" where "attrInvisible = 32"
definition attrStrike :: "16 word" where "attrStrike = 64"
definition attrOverline :: "16 word" where "attrOverline = 128"

record attr =
  fg :: color
  bg :: color
  ulc :: color
  aflags :: "16 word"
  ul :: byte

definition attr0 :: attr where
  "attr0 = \<lparr>fg = 0, bg = 0, ulc = 0, aflags = 0, ul = 0\<rparr>"

definition cellWide :: byte where "cellWide = 1"
definition cellPad :: byte where "cellPad = 2"

record cell =
  rn :: rune
  cflags :: byte
  ca :: attr
  comb :: "byte list"

definition cell0 :: cell where
  "cell0 = \<lparr>rn = 0, cflags = 0, ca = attr0, comb = []\<rparr>"

record line =
  cells :: "cell list"
  used :: bool

definition maxDim :: int where "maxDim = 4096"
definition maxComb :: nat where "maxComb = 32"

definition isWide :: "cell \<Rightarrow> bool" where
  "isWide c \<longleftrightarrow> cflags c AND cellWide \<noteq> 0"

definition isPad :: "cell \<Rightarrow> bool" where
  "isPad c \<longleftrightarrow> cflags c AND cellPad \<noteq> 0"

text \<open>The cell an erase leaves behind, with the pen's background color.\<close>

definition blank_cell :: "color \<Rightarrow> cell" where
  "blank_cell b = cell0\<lparr>ca := attr0\<lparr>bg := b\<rparr>\<rparr>"

section \<open>Operations on a row\<close>

text \<open>Columns are natural numbers here: no caller passes a negative one, so the guard
  \<open>x < 0\<close> of \<open>splitWide\<close> has no counterpart.\<close>

definition splitWide :: "cell list \<Rightarrow> nat \<Rightarrow> cell list" where
  "splitWide cs x =
     (if x \<ge> length cs then cs
      else if isPad (cs ! x) then
        (if x > 0 \<and> isWide (cs ! (x - 1)) then cs[x - 1 := cell0] else cs)[x := cell0]
      else if isWide (cs ! x) then
        (if x + 1 < length cs \<and> isPad (cs ! (x + 1)) then cs[x + 1 := cell0] else cs)[x := cell0]
      else cs)"

definition insertCells :: "cell \<Rightarrow> cell list \<Rightarrow> nat \<Rightarrow> nat \<Rightarrow> cell list" where
  "insertCells b cs x n0 =
     (let cols = length cs;
          n = (if n0 > cols - x then cols - x else n0)
      in if n = 0 then cs
         else let cs1 = (if isPad (cs ! x) then splitWide cs x else cs);
                  cs2 = copy_at (x + n) (slice x (cols - n) cs1) cs1;
                  cs3 = fill_range x (x + n) b cs2
              in if isWide (cs3 ! (cols - 1)) then cs3[cols - 1 := cell0] else cs3)"

definition deleteCells :: "cell \<Rightarrow> cell list \<Rightarrow> nat \<Rightarrow> nat \<Rightarrow> cell list" where
  "deleteCells b cs x n0 =
     (let cols = length cs;
          n = (if n0 > cols - x then cols - x else n0)
      in if n = 0 then cs
         else let cs1 = (if isPad (cs ! x) then splitWide cs x else cs);
                  cs2 = (if x + n < cols \<and> isPad (cs1 ! (x + n)) then splitWide cs1 (x + n) else cs1);
                  cs3 = copy_at x (drop (x + n) cs2) cs2
              in fill_range (cols - n) cols b cs3)"

definition fillCells :: "cell list \<Rightarrow> cell \<Rightarrow> cell list" where
  "fillCells cs b = map (\<lambda>_. b) cs"

text \<open>\<open>eraseCells\<close> on one row, its bounds already clamped to the row.\<close>

definition eraseRow :: "cell \<Rightarrow> cell list \<Rightarrow> nat \<Rightarrow> nat \<Rightarrow> cell list" where
  "eraseRow b cs x0 x1 =
     (let cs1 = (if isPad (cs ! x0) then splitWide cs x0 else cs);
          cs2 = (if isWide (cs1 ! (x1 - 1)) then splitWide cs1 (x1 - 1) else cs1)
      in fill_range x0 x1 b cs2)"

definition fitCells :: "cell list \<Rightarrow> nat \<Rightarrow> cell list" where
  "fitCells cs cols =
     (let out = copy_at 0 cs (replicate cols cell0)
      in if length cs > cols \<and> isWide (out ! (cols - 1)) then out[cols - 1 := cell0] else out)"

section \<open>The row invariant\<close>

definition cell_ok :: "cell \<Rightarrow> bool" where
  "cell_ok c \<longleftrightarrow> cflags c \<in> {0, cellWide, cellPad}
     \<and> length (comb c) \<le> maxComb
     \<and> (isPad c \<longrightarrow> rn c = 0)
     \<and> (rn c = 0 \<longrightarrow> comb c = [])"

definition paired :: "cell list \<Rightarrow> bool" where
  "paired cs \<longleftrightarrow> (\<forall>i < length cs.
     (isWide (cs ! i) \<longrightarrow> i + 1 < length cs \<and> isPad (cs ! (i + 1)))
     \<and> (isPad (cs ! i) \<longrightarrow> 0 < i \<and> isWide (cs ! (i - 1))))"

definition row_ok :: "cell list \<Rightarrow> bool" where
  "row_ok cs \<longleftrightarrow> list_all cell_ok cs \<and> paired cs"

lemma cell0_simps [simp]:
  "rn cell0 = 0" "cflags cell0 = 0" "ca cell0 = attr0" "comb cell0 = []"
  "isWide cell0 = False" "isPad cell0 = False" "cell_ok cell0"
  by (simp_all add: cell0_def isWide_def isPad_def cell_ok_def)

lemma blank_cell_simps [simp]:
  "rn (blank_cell b) = 0" "cflags (blank_cell b) = 0" "comb (blank_cell b) = []"
  "isWide (blank_cell b) = False" "isPad (blank_cell b) = False" "cell_ok (blank_cell b)"
  by (simp_all add: blank_cell_def isWide_def isPad_def cell_ok_def)

text \<open>A cell that carries no flags, such as every freshly written narrow one.\<close>

definition plain :: "cell \<Rightarrow> bool" where
  "plain c \<longleftrightarrow> \<not> isWide c \<and> \<not> isPad c"

lemma plain_simps [simp]:
  "plain cell0" "plain (blank_cell b)" "cflags c = 0 \<Longrightarrow> plain c"
  by (simp_all add: plain_def isWide_def isPad_def)

lemma not_both: "cell_ok c \<Longrightarrow> isWide c \<Longrightarrow> \<not> isPad c"
  by (auto simp: cell_ok_def isWide_def isPad_def cellWide_def cellPad_def)

lemma flags_eq_0: "cell_ok c \<Longrightarrow> cflags c = 0 \<longleftrightarrow> plain c"
  by (auto simp: cell_ok_def plain_def isWide_def isPad_def cellWide_def cellPad_def)

lemma row_okI:
  "(\<And>i. i < length cs \<Longrightarrow> cell_ok (cs ! i)) \<Longrightarrow>
   (\<And>i. i < length cs \<Longrightarrow> isWide (cs ! i) \<Longrightarrow> i + 1 < length cs \<and> isPad (cs ! (i + 1))) \<Longrightarrow>
   (\<And>i. i < length cs \<Longrightarrow> isPad (cs ! i) \<Longrightarrow> 0 < i \<and> isWide (cs ! (i - 1))) \<Longrightarrow> row_ok cs"
  by (simp add: row_ok_def paired_def list_all_length)

lemma row_okD:
  assumes "row_ok cs" "i < length cs"
  shows "cell_ok (cs ! i)"
    and "isWide (cs ! i) \<Longrightarrow> i + 1 < length cs \<and> isPad (cs ! (i + 1))"
    and "isPad (cs ! i) \<Longrightarrow> 0 < i \<and> isWide (cs ! (i - 1))"
    and "isWide (cs ! i) \<Longrightarrow> \<not> isPad (cs ! i)"
  using assms not_both by (auto simp: row_ok_def paired_def list_all_length)

lemma row_ok_replicate [simp]: "row_ok (replicate n cell0)"
  by (rule row_okI) auto

lemma row_ok_const: "cell_ok c \<Longrightarrow> plain c \<Longrightarrow> row_ok (map (\<lambda>_. c) cs)"
  by (rule row_okI) (auto simp: plain_def)

lemma fillCells_ok [wf_ops]: "cell_ok b \<Longrightarrow> plain b \<Longrightarrow> row_ok (fillCells cs b)"
  by (simp add: fillCells_def row_ok_const)

lemma length_fillCells [simp, len]: "length (fillCells cs b) = length cs"
  by (simp add: fillCells_def)

section \<open>Cutting and joining rows\<close>

text \<open>A row may be cut at column \<open>k\<close> when no wide glyph straddles it.\<close>

definition uncut :: "cell list \<Rightarrow> nat \<Rightarrow> bool" where
  "uncut cs k \<longleftrightarrow> (k < length cs \<longrightarrow> \<not> isPad (cs ! k))"

lemma uncut_0 [simp]: "row_ok cs \<Longrightarrow> uncut cs 0"
  unfolding uncut_def using row_okD(3) by blast

lemma uncut_end [simp]: "length cs \<le> k \<Longrightarrow> uncut cs k"
  by (simp add: uncut_def)

lemma uncut_after:
  assumes "row_ok cs" "0 < k" "k \<le> length cs" "\<not> isWide (cs ! (k - 1))"
  shows "uncut cs k"
  using assms row_okD(3) [of cs k] by (auto simp: uncut_def)

lemma row_ok_append:
  assumes "row_ok xs" "row_ok ys"
  shows "row_ok (xs @ ys)"
proof (rule row_okI)
  fix i assume i: "i < length (xs @ ys)"
  show "cell_ok ((xs @ ys) ! i)"
    using assms i by (auto simp: nth_append row_okD(1))
  consider "i < length xs" | j where "i = length xs + j" "j < length ys"
    using i by (metis length_append le_Suc_ex nat_add_left_cancel_less not_less)
  then show "isWide ((xs @ ys) ! i) \<Longrightarrow> i + 1 < length (xs @ ys) \<and> isPad ((xs @ ys) ! (i + 1))"
    and "isPad ((xs @ ys) ! i) \<Longrightarrow> 0 < i \<and> isWide ((xs @ ys) ! (i - 1))"
  proof (atomize (full), cases)
    case 1
    then show "(isWide ((xs @ ys) ! i) \<longrightarrow> i + 1 < length (xs @ ys) \<and> isPad ((xs @ ys) ! (i + 1)))
        \<and> (isPad ((xs @ ys) ! i) \<longrightarrow> 0 < i \<and> isWide ((xs @ ys) ! (i - 1)))"
      using row_okD(2,3) [OF assms(1), of i] by (auto simp: nth_append)
  next
    case (2 j)
    then show "(isWide ((xs @ ys) ! i) \<longrightarrow> i + 1 < length (xs @ ys) \<and> isPad ((xs @ ys) ! (i + 1)))
        \<and> (isPad ((xs @ ys) ! i) \<longrightarrow> 0 < i \<and> isWide ((xs @ ys) ! (i - 1)))"
      using row_okD(2,3) [OF assms(2), of j] by (auto simp: nth_append)
  qed
qed

lemma row_ok_take:
  assumes "row_ok cs" "uncut cs k"
  shows "row_ok (take k cs)"
proof (rule row_okI)
  fix i assume i: "i < length (take k cs)"
  show "cell_ok (take k cs ! i)"
    using assms(1) i by (simp add: row_okD(1))
  show "isPad (take k cs ! i) \<Longrightarrow> 0 < i \<and> isWide (take k cs ! (i - 1))"
    using row_okD(3) [OF assms(1), of i] i by auto
  show "i + 1 < length (take k cs) \<and> isPad (take k cs ! (i + 1))" if "isWide (take k cs ! i)"
  proof -
    have w: "i + 1 < length cs" "isPad (cs ! (i + 1))"
      using row_okD(2) [OF assms(1), of i] i that by auto
    then have "i + 1 \<noteq> k" using assms(2) by (auto simp: uncut_def)
    then show ?thesis using w i by simp
  qed
qed

lemma row_ok_drop:
  assumes "row_ok cs" "uncut cs k"
  shows "row_ok (drop k cs)"
proof (rule row_okI)
  fix i assume i: "i < length (drop k cs)"
  show "cell_ok (drop k cs ! i)"
    using assms(1) i by (simp add: row_okD(1))
  show "isWide (drop k cs ! i) \<Longrightarrow> i + 1 < length (drop k cs) \<and> isPad (drop k cs ! (i + 1))"
    using row_okD(2) [OF assms(1), of "k + i"] i by (auto simp: less_diff_conv)
  show "0 < i \<and> isWide (drop k cs ! (i - 1))" if "isPad (drop k cs ! i)"
  proof -
    have w: "0 < k + i" "isWide (cs ! (k + i - 1))"
      using row_okD(3) [OF assms(1), of "k + i"] i that by auto
    have "i \<noteq> 0" using assms(2) that i by (cases i) (auto simp: uncut_def)
    then show ?thesis using w i by (simp add: Nat.add_diff_assoc)
  qed
qed

lemma row_ok_const_list: "cell_ok c \<Longrightarrow> plain c \<Longrightarrow> row_ok (replicate n c)"
  using row_ok_const [of c "replicate n c"] by simp

lemma row_ok_singleton: "cell_ok c \<Longrightarrow> plain c \<Longrightarrow> row_ok [c]"
  using row_ok_const_list [of c 1] by simp

lemma row_ok_fill_range:
  assumes "row_ok cs" "uncut cs i" "uncut cs j" "i \<le> j" "cell_ok b" "plain b"
  shows "row_ok (fill_range i j b cs)"
  using assms by (simp add: fill_range_def max_def row_ok_append row_ok_take row_ok_drop row_ok_const_list)

text \<open>Cutting a row anywhere is fine once a lead cell left at the end is cleared.\<close>

lemma row_ok_trunc:
  assumes "row_ok cs" "k \<le> length cs" "0 < k"
  shows "row_ok (if isWide (cs ! (k - 1)) then (take k cs)[k - 1 := cell0] else take k cs)"
proof (cases "isWide (cs ! (k - 1))")
  case False
  then have "uncut cs k" using uncut_after [of cs k] assms by simp
  with False show ?thesis using row_ok_take [OF assms(1)] by simp
next
  case True
  then have "\<not> isPad (cs ! (k - 1))" using row_okD(4) [of cs "k - 1"] assms by simp
  then have "uncut cs (k - 1)" by (simp add: uncut_def)
  then have "row_ok (take (k - 1) cs @ [cell0])"
    using row_ok_take [OF assms(1)] by (simp add: row_ok_append row_ok_singleton)
  moreover have "(take k cs)[k - 1 := cell0] = take (k - 1) cs @ [cell0]"
    using assms by (simp add: upd_conv_take_nth_drop min_def)
  ultimately show ?thesis using True by simp
qed

section \<open>splitWide\<close>

lemma length_splitWide [simp, len]: "length (splitWide cs x) = length cs"
  by (simp add: splitWide_def)

lemma nth_splitWide:
  assumes "row_ok cs" "x < length cs" "i < length cs"
  shows "splitWide cs x ! i =
    (if i = x \<and> \<not> plain (cs ! x) \<or> isPad (cs ! x) \<and> Suc i = x \<or> isWide (cs ! x) \<and> i = Suc x
     then cell0 else cs ! i)"
  using row_okD(2,3,4) [OF assms(1,2)] assms(2,3)
  by (auto simp: splitWide_def plain_def nth_list_update)

lemma splitWide_cases:
  "row_ok cs \<Longrightarrow> x < length cs \<Longrightarrow> i < length cs \<Longrightarrow>
   splitWide cs x ! i = cell0 \<or> splitWide cs x ! i = cs ! i"
  by (simp add: nth_splitWide)

lemma splitWide_plain:
  "row_ok cs \<Longrightarrow> x < length cs \<Longrightarrow> plain (splitWide cs x ! x)"
  by (auto simp: nth_splitWide plain_def)

lemma splitWide_id: "x < length cs \<Longrightarrow> plain (cs ! x) \<Longrightarrow> splitWide cs x = cs"
  by (simp add: splitWide_def plain_def)

lemma splitWide_ok [wf_ops]:
  assumes "row_ok cs"
  shows "row_ok (splitWide cs x)"
proof (cases "x < length cs")
  case False
  then show ?thesis using assms by (simp add: splitWide_def)
next
  case True
  note D = row_okD [OF assms] and n = nth_splitWide [OF assms True]
  show ?thesis
  proof (rule row_okI)
    fix i assume "i < length (splitWide cs x)"
    then have i: "i < length cs" by simp
    show "cell_ok (splitWide cs x ! i)"
      using i by (simp add: n D(1))
    show "i + 1 < length (splitWide cs x) \<and> isPad (splitWide cs x ! (i + 1))"
      if w: "isWide (splitWide cs x ! i)"
    proof -
      have wi: "isWide (cs ! i)" using w i by (auto simp: n split: if_splits)
      then have p: "i + 1 < length cs" "isPad (cs ! (i + 1))" using D(2) [OF i] by auto
      have "splitWide cs x ! (i + 1) = cs ! (i + 1)"
        using w wi p i D(4) [OF i] D(4) [OF p(1)] D(3) [OF True]
        by (auto simp: n plain_def split: if_splits)
      with p show ?thesis by simp
    qed
    show "0 < i \<and> isWide (splitWide cs x ! (i - 1))" if w: "isPad (splitWide cs x ! i)"
    proof -
      have pi: "isPad (cs ! i)" using w i by (auto simp: n split: if_splits)
      then have p: "0 < i" "isWide (cs ! (i - 1))" using D(3) [OF i] by auto
      have "splitWide cs x ! (i - 1) = cs ! (i - 1)"
        using w pi p i D(4) [OF i] D(4) [of "i - 1"] D(2) [OF True]
        by (auto simp: n plain_def split: if_splits)
      with p show ?thesis by simp
    qed
  qed
qed

lemma splitWide_uncut:
  assumes "row_ok cs" "uncut cs k"
  shows "uncut (splitWide cs x) k"
proof (cases "x < length cs")
  case True
  then show ?thesis
    using assms splitWide_cases [of cs x k] by (auto simp: uncut_def)
qed (use assms in \<open>simp add: splitWide_def\<close>)

text \<open>The two guarded calls the row operations make: clear a pad at the left edge of a range,
  clear a lead at its right edge.\<close>

definition cut_left :: "cell list \<Rightarrow> nat \<Rightarrow> cell list" where
  "cut_left cs x = (if isPad (cs ! x) then splitWide cs x else cs)"

definition cut_right :: "cell list \<Rightarrow> nat \<Rightarrow> cell list" where
  "cut_right cs x = (if isWide (cs ! (x - 1)) then splitWide cs (x - 1) else cs)"

lemma length_cut [simp, len]:
  "length (cut_left cs x) = length cs" "length (cut_right cs x) = length cs"
  by (simp_all add: cut_left_def cut_right_def)

lemma cut_ok:
  assumes "row_ok cs"
  shows "row_ok (cut_left cs x)" "row_ok (cut_right cs x)"
  using assms by (simp_all add: cut_left_def cut_right_def splitWide_ok)

lemma cut_left_uncut: "row_ok cs \<Longrightarrow> uncut (cut_left cs x) x"
  using splitWide_plain [of cs x] by (auto simp: cut_left_def uncut_def plain_def)

lemma cut_right_uncut:
  assumes "row_ok cs" "0 < x" "x \<le> length cs"
  shows "uncut (cut_right cs x) x"
proof -
  have "\<not> isWide (cut_right cs x ! (x - 1))"
    using splitWide_plain [of cs "x - 1"] assms by (auto simp: cut_right_def plain_def)
  then show ?thesis
    using uncut_after [of "cut_right cs x" x] assms cut_ok by simp
qed

lemma cut_keeps_uncut:
  "row_ok cs \<Longrightarrow> uncut cs k \<Longrightarrow> uncut (cut_left cs x) k"
  "row_ok cs \<Longrightarrow> uncut cs k \<Longrightarrow> uncut (cut_right cs x) k"
  by (simp_all add: cut_left_def cut_right_def splitWide_uncut)

lemma fill_range_tail:
  "length xs = a \<Longrightarrow> a + length ys = m \<Longrightarrow> fill_range a m b (xs @ ys) = xs @ replicate (length ys) b"
  by (simp add: fill_range_def)

lemma fill_range_middle:
  "length xs = a \<Longrightarrow> a + length ys = m \<Longrightarrow>
   fill_range a m b (xs @ ys @ zs) = xs @ replicate (length ys) b @ zs"
  by (simp add: fill_range_def)

section \<open>The row operations keep the invariant\<close>

lemma length_insertCells [simp, len]: "length (insertCells b cs x n) = length cs"
  by (simp add: insertCells_def Let_def)

lemma length_deleteCells [simp, len]: "length (deleteCells b cs x n) = length cs"
  by (simp add: deleteCells_def Let_def)

lemma length_eraseRow [simp, len]: "length (eraseRow b cs x0 x1) = length cs"
  by (simp add: eraseRow_def Let_def)

lemma length_fitCells [simp, len]: "length (fitCells cs cols) = cols"
  by (simp add: fitCells_def Let_def)

lemma eraseRow_ok [wf_ops]:
  assumes "row_ok cs" "x0 < x1" "x1 \<le> length cs" "cell_ok b" "plain b"
  shows "row_ok (eraseRow b cs x0 x1)"
proof -
  have "eraseRow b cs x0 x1 = fill_range x0 x1 b (cut_right (cut_left cs x0) x1)"
    by (simp add: eraseRow_def Let_def cut_left_def cut_right_def)
  moreover have "uncut (cut_right (cut_left cs x0) x1) x0" "uncut (cut_right (cut_left cs x0) x1) x1"
    using assms by (simp_all add: cut_left_uncut cut_right_uncut cut_ok cut_keeps_uncut)
  ultimately show ?thesis
    using assms by (simp add: row_ok_fill_range cut_ok)
qed

lemma deleteCells_ok [wf_ops]:
  assumes "row_ok cs" "x < length cs" "cell_ok b" "plain b"
  shows "row_ok (deleteCells b cs x n0)"
proof -
  define n where "n = (if n0 > length cs - x then length cs - x else n0)"
  define c where "c = cut_left (cut_left cs x) (x + n)"
  have n: "x + n \<le> length cs" using assms by (auto simp: n_def)
  have c_ok: "row_ok c" "length c = length cs" "uncut c x" "uncut c (x + n)"
    using assms by (simp_all add: c_def cut_ok cut_left_uncut cut_keeps_uncut)
  show ?thesis
  proof (cases "n = 0")
    case True
    then show ?thesis using assms by (simp add: deleteCells_def Let_def n_def)
  next
    case False
    have c2: "(if x + n < length cs \<and> isPad (cut_left cs x ! (x + n)) then splitWide (cut_left cs x) (x + n)
        else cut_left cs x) = c"
    proof (cases "x + n < length cs")
      case False
      then have "splitWide (cut_left cs x) (x + n) = cut_left cs x" by (simp add: splitWide_def)
      with False show ?thesis by (simp add: c_def cut_left_def [of _ "x + n"])
    qed (simp add: c_def cut_left_def [of _ "x + n"])
    have "deleteCells b cs x n0 =
        fill_range (length cs - n) (length cs) b (copy_at x (drop (x + n) c) c)"
      unfolding deleteCells_def Let_def n_def [symmetric] cut_left_def [symmetric] c2
      using False by simp
    also have "copy_at x (drop (x + n) c) c = (take x c @ drop (x + n) c) @ drop (length cs - n) c"
      using n c_ok by (simp add: copy_at_def)
    also have "fill_range (length cs - n) (length cs) b \<dots> = take x c @ drop (x + n) c @ replicate n b"
      using n c_ok by (subst fill_range_tail) simp_all
    finally show ?thesis
      using c_ok assms by (simp add: row_ok_append row_ok_take row_ok_drop row_ok_const_list)
  qed
qed

lemma insertCells_ok [wf_ops]:
  assumes "row_ok cs" "x < length cs" "cell_ok b" "plain b"
  shows "row_ok (insertCells b cs x n0)"
proof -
  define cols where "cols = length cs"
  define n where "n = (if n0 > cols - x then cols - x else n0)"
  define c where "c = cut_left cs x"
  have n: "x + n \<le> cols" "x < cols" using assms by (auto simp: n_def cols_def)
  have c_ok: "row_ok c" "length c = cols" "uncut c x"
    using assms by (simp_all add: c_def cut_ok cut_left_uncut cols_def)
  show ?thesis
  proof (cases "n = 0")
    case True
    then show ?thesis
      unfolding insertCells_def Let_def cols_def [symmetric] n_def [symmetric] using assms by simp
  next
    case False
    define w where "w = take x c @ replicate n b @ drop x c"
    have w: "row_ok w" "length w = cols + n"
      using c_ok assms by (simp_all add: w_def row_ok_append row_ok_take row_ok_drop row_ok_const_list)
    have cp: "copy_at (x + n) (slice x (cols - n) c) c =
        take x c @ take n (drop x c) @ take (cols - (x + n)) (drop x c)"
      using n c_ok take_add [of x n c] by (simp add: copy_at_def slice_def add.commute)
    have e: "fill_range x (x + n) b (copy_at (x + n) (slice x (cols - n) c) c) = take cols w"
      unfolding cp using n c_ok by (subst fill_range_middle) (simp_all add: w_def)
    have "insertCells b cs x n0 =
        (if isWide (take cols w ! (cols - 1)) then (take cols w)[cols - 1 := cell0] else take cols w)"
      unfolding insertCells_def Let_def cols_def [symmetric] n_def [symmetric]
        cut_left_def [symmetric] c_def [symmetric] e
      using False by simp
    then show ?thesis
      using row_ok_trunc [OF w(1), of cols] w(2) n by simp
  qed
qed

lemma fitCells_ok [wf_ops]:
  assumes "row_ok cs" "0 < cols"
  shows "row_ok (fitCells cs cols)"
proof (cases "length cs > cols")
  case True
  then have "copy_at 0 cs (replicate cols cell0) = take cols cs" by (simp add: copy_at_def)
  then show ?thesis
    using row_ok_trunc [OF assms(1), of cols] assms True by (simp add: fitCells_def Let_def)
next
  case False
  then have "copy_at 0 cs (replicate cols cell0) = cs @ replicate (cols - length cs) cell0"
    by (simp add: copy_at_def)
  then show ?thesis
    using assms False by (simp add: fitCells_def Let_def row_ok_append)
qed

end
