(* ===== verification/Screen.thy ===== *)
theory Screen
  imports Utf8 Width History Cells
begin

text \<open>
  The emulator core of \<open>internal/vt/screen.go\<close>: the record \<open>screen\<close> holds the fields of Go's
  \<open>Screen\<close> that describe the terminal (the parser's fields are added by theory Parser), and
  every method on them is a function from screen to screen. The invariant \<open>wf\<close> says that the
  buffers have the screen's size and well-formed rows, that cursor, margins, saved cursors and
  character set indices are in range, that a pending wrap only exists in the last column with
  autowrap on, and that the history ring is well formed.

  Pointers and slices: the active buffer \<open>buf\<close> is a pointer to one of the two buffers that
  \<open>altActive\<close> selects (\<open>switchBuffer\<close> is its only writer), so it is a function here; rows are
  never shared between two places of a buffer, so they are values. The allocation caches
  \<open>scratch\<close> and \<open>textScratch\<close> carry no state from one call to the next and are left out.
\<close>

section \<open>State\<close>

record modes =
  AppCursor :: bool
  AppKeypad :: bool
  BracketedPaste :: bool
  AltScreen :: bool
  CursorVisible :: bool
  FocusEvents :: bool
  MouseTracking :: int
  MouseEncoding :: int
  Autowrap :: bool
  Insert :: bool
  OriginMode :: bool

definition modes0 :: modes where
  "modes0 = \<lparr>AppCursor = False, AppKeypad = False, BracketedPaste = False, AltScreen = False,
     CursorVisible = False, FocusEvents = False, MouseTracking = 0, MouseEncoding = 0,
     Autowrap = False, Insert = False, OriginMode = False\<rparr>"

record savedCursor =
  sc_valid :: bool
  sc_x :: nat
  sc_y :: nat
  sc_pendingWrap :: bool
  sc_pen :: attr
  sc_origin :: bool
  sc_g :: "byte list"
  sc_gl :: nat

definition saved_zero :: savedCursor where
  "saved_zero = \<lparr>sc_valid = False, sc_x = 0, sc_y = 0, sc_pendingWrap = False, sc_pen = attr0,
     sc_origin = False, sc_g = [0, 0, 0, 0], sc_gl = 0\<rparr>"

definition ascii_sets :: "byte list" where
  "ascii_sets = bs ''BBBB''"

record screen =
  cols :: nat
  rows :: nat
  mainb :: "line list"
  altb :: "line list"
  altActive :: bool
  shist :: history
  hscrolled :: nat
  cx :: nat
  cy :: nat
  pendingWrap :: bool
  pen :: attr
  g :: "byte list"
  gl :: nat
  saved0 :: savedCursor
  saved1 :: savedCursor
  rtop :: nat
  rbot :: nat
  tabs :: "bool list"
  modes :: modes
  cursorStyle :: int
  title :: "byte list"
  lastRune :: rune
  lastWidth :: nat

section \<open>Construction and reset\<close>

definition newBuffer :: "nat \<Rightarrow> nat \<Rightarrow> line list" where
  "newBuffer c r = replicate r \<lparr>cells = replicate c cell0, used = False\<rparr>"

definition clampSize :: "int \<Rightarrow> int \<Rightarrow> nat \<times> nat" where
  "clampSize c r = (nat (clampInt c 1 maxDim), nat (clampInt r 1 maxDim))"

definition resetTabs :: "screen \<Rightarrow> screen" where
  "resetTabs s = s\<lparr>tabs := map (\<lambda>i. 8 \<le> i \<and> i mod 8 = 0) [0..<cols s]\<rparr>"

definition resetState :: "screen \<Rightarrow> screen" where
  "resetState s = resetTabs (s\<lparr>cx := 0, cy := 0, pendingWrap := False, pen := attr0,
     g := ascii_sets, gl := 0, saved0 := saved_zero, saved1 := saved_zero,
     rtop := 0, rbot := rows s - 1, modes := modes0\<lparr>Autowrap := True, CursorVisible := True\<rparr>,
     cursorStyle := 0, lastRune := 0, lastWidth := 0\<rparr>)"

definition New :: "int \<Rightarrow> int \<Rightarrow> int \<Rightarrow> screen" where
  "New c0 r0 historyLimit =
     (let (c, r) = clampSize c0 r0
      in resetState \<lparr>cols = c, rows = r, mainb = newBuffer c r, altb = newBuffer c r,
           altActive = False, shist = \<lparr>hlines = [], head = 0, limit = nat historyLimit\<rparr>,
           hscrolled = 0, cx = 0, cy = 0, pendingWrap = False, pen = attr0, g = [0, 0, 0, 0],
           gl = 0, saved0 = saved_zero, saved1 = saved_zero, rtop = 0, rbot = 0, tabs = [],
           modes = modes0, cursorStyle = 0, title = [], lastRune = 0, lastWidth = 0\<rparr>)"

definition Modes :: "screen \<Rightarrow> modes" where
  "Modes s = (modes s)\<lparr>AltScreen := altActive s\<rparr>"

definition Cursor :: "screen \<Rightarrow> nat \<times> nat" where
  "Cursor s = (cx s, cy s)"

definition buf :: "screen \<Rightarrow> line list" where
  "buf s = (if altActive s then altb s else mainb s)"

definition set_buf :: "line list \<Rightarrow> screen \<Rightarrow> screen" where
  "set_buf b s = (if altActive s then s\<lparr>altb := b\<rparr> else s\<lparr>mainb := b\<rparr>)"

definition set_line :: "nat \<Rightarrow> line \<Rightarrow> screen \<Rightarrow> screen" where
  "set_line y l s = set_buf ((buf s)[y := l]) s"

section \<open>Text of a row, history, capture\<close>

definition cell_text :: "cell \<Rightarrow> byte list" where
  "cell_text c =
     (if isPad c then [] else if rn c = 0 then [0x20] else encode_rune (rn c) @ comb c)"

definition appendLineText :: "byte list \<Rightarrow> cell list \<Rightarrow> byte list" where
  "appendLineText b cs =
     (let cs1 = rstrip (\<lambda>c. (rn c = 0 \<or> rn c = 0x20) \<and> comb c = []) cs;
          b1 = b @ concat (map cell_text cs1)
      in rstrip (\<lambda>x. x = 0x20) b1 @ [0x0a])"

definition row_text :: "cell list \<Rightarrow> byte list" where
  "row_text cs = (let b = appendLineText [] cs in take (length b - 1) b)"

definition pushHistory :: "cell list \<Rightarrow> screen \<Rightarrow> screen" where
  "pushHistory cs s = s\<lparr>shist := hist_push (row_text cs) (shist s)\<rparr>"

definition Capture :: "screen \<Rightarrow> int \<Rightarrow> byte list" where
  "Capture s historyLines =
     (let n = int (hist_len (shist s));
          start = (if n - historyLines < 0 then 0 else n - historyLines);
          h = (if historyLines > 0 \<and> \<not> altActive s
               then concat (map (\<lambda>i. hist_at (shist s) i @ [0x0a]) [nat start..<nat n])
               else [])
      in foldl (\<lambda>b l. appendLineText b (cells l)) h (buf s))"

section \<open>Scrolling\<close>

definition blank :: "screen \<Rightarrow> cell" where
  "blank s = blank_cell (bg (pen s))"

definition clear_line :: "cell \<Rightarrow> line \<Rightarrow> line" where
  "clear_line b l = l\<lparr>cells := fillCells (cells l) b, used := False\<rparr>"

definition scrollUp :: "nat \<Rightarrow> nat \<Rightarrow> nat \<Rightarrow> bool \<Rightarrow> screen \<Rightarrow> screen" where
  "scrollUp tp bt n0 toHistory s =
     (let n = (if n0 > bt - tp + 1 then bt - tp + 1 else n0)
      in if n = 0 then s
         else let ls = buf s;
                  s1 = (if toHistory \<and> tp = 0 \<and> \<not> altActive s \<and> limit (shist s) > 0
                        then (fold pushHistory (map cells (take n ls)) s)
                               \<lparr>hscrolled := hscrolled s + n\<rparr>
                        else s);
                  moved = slice tp (tp + n) ls;
                  ls1 = copy_at tp (slice (tp + n) (bt + 1) ls) ls
              in set_buf (copy_at (bt - n + 1) (map (clear_line (blank s)) moved) ls1) s1)"

definition scrollDown :: "nat \<Rightarrow> nat \<Rightarrow> nat \<Rightarrow> screen \<Rightarrow> screen" where
  "scrollDown tp bt n0 s =
     (let n = (if n0 > bt - tp + 1 then bt - tp + 1 else n0)
      in if n = 0 then s
         else let ls = buf s;
                  moved = slice (bt - n + 1) (bt + 1) ls;
                  ls1 = copy_at (tp + n) (slice tp (bt - n + 1) ls) ls
              in set_buf (copy_at tp (map (clear_line (blank s)) moved) ls1) s)"

definition index :: "screen \<Rightarrow> screen" where
  "index s =
     (if cy s = rbot s then scrollUp (rtop s) (rbot s) 1 True s
      else if cy s < rows s - 1 then s\<lparr>cy := cy s + 1\<rparr>
      else s)"

definition reverseIndex :: "screen \<Rightarrow> screen" where
  "reverseIndex s =
     (if cy s = rtop s then scrollDown (rtop s) (rbot s) 1 s
      else if cy s > 0 then s\<lparr>cy := cy s - 1\<rparr>
      else s)"

section \<open>Printing\<close>

text \<open>\<open>printGlyph\<close> in the order of its statements: a pending wrap is performed; a wide glyph
  that does not fit in the last column is dropped or wraps; then \<open>glyph_store\<close> writes the
  glyph at the cursor and advances.\<close>

definition wrap_pending :: "screen \<Rightarrow> screen" where
  "wrap_pending s = (if pendingWrap s then index (s\<lparr>pendingWrap := False, cx := 0\<rparr>) else s)"

definition glyph_cells :: "rune \<Rightarrow> nat \<Rightarrow> nat \<Rightarrow> attr \<Rightarrow> cell list \<Rightarrow> cell list" where
  "glyph_cells r w x a c0 =
     (let c1 = (if cflags (c0 ! x) \<noteq> 0 then splitWide c0 x else c0)
      in if w = 2
         then (let c2 = (if cflags (c1 ! (x + 1)) \<noteq> 0 then splitWide c1 (x + 1) else c1)
               in c2[x := \<lparr>rn = r, cflags = cellWide, ca = a, comb = []\<rparr>,
                     x + 1 := \<lparr>rn = 0, cflags = cellPad, ca = a, comb = []\<rparr>])
         else c1[x := \<lparr>rn = r, cflags = 0, ca = a, comb = []\<rparr>])"

definition advance :: "nat \<Rightarrow> screen \<Rightarrow> screen" where
  "advance w s =
     (if cx s + w < cols s then s\<lparr>cx := cx s + w\<rparr>
      else s\<lparr>cx := cols s - 1, pendingWrap := Autowrap (modes s)\<rparr>)"

definition glyph_store :: "rune \<Rightarrow> nat \<Rightarrow> screen \<Rightarrow> screen" where
  "glyph_store r w s =
     (let ln = buf s ! cy s;
          c0 = (if Insert (modes s) then insertCells (blank s) (cells ln) (cx s) w else cells ln)
      in advance w ((set_line (cy s) \<lparr>cells = glyph_cells r w (cx s) (pen s) c0, used = True\<rparr> s)
                    \<lparr>lastRune := r, lastWidth := w\<rparr>))"

definition printGlyph :: "rune \<Rightarrow> nat \<Rightarrow> screen \<Rightarrow> screen" where
  "printGlyph r w s =
     (if w = 2 \<and> cols s < 2 then s
      else let s1 = wrap_pending s
           in if w = 2 \<and> cx s1 = cols s1 - 1 then
                (if \<not> Autowrap (modes s1) then s1 else glyph_store r w (index (s1\<lparr>cx := 0\<rparr>)))
              else glyph_store r w s1)"

text \<open>\<open>None\<close> stands for the result -1: there is no cell to combine with.\<close>

definition prevCellX :: "screen \<Rightarrow> nat option" where
  "prevCellX s =
     (let vx = (if pendingWrap s then cols s else cx s)
      in if vx = 0 then None
         else let cs = cells (buf s ! cy s); x = vx - 1
              in if isPad (cs ! x) then
                   (if vx = 1 \<or> \<not> isWide (cs ! (x - 1)) then None else Some (x - 1))
                 else if isWide (cs ! x) then None
                 else Some x)"

definition widen :: "nat \<Rightarrow> screen \<Rightarrow> screen" where
  "widen x s =
     (if x + 1 \<ge> cols s then s
      else let ln = buf s ! cy s;
               c0 = cells ln;
               c1 = (if cflags (c0 ! (x + 1)) \<noteq> 0 then splitWide c0 (x + 1) else c0);
               c2 = c1[x := (c1 ! x)\<lparr>cflags := cellWide\<rparr>];
               c3 = c2[x + 1 := \<lparr>rn = 0, cflags = cellPad, ca = ca (c2 ! x), comb = []\<rparr>];
               s1 = set_line (cy s) (ln\<lparr>cells := c3\<rparr>) s;
               nx = (if pendingWrap s then cols s + 1 else cx s + 1)
           in if nx < cols s then s1\<lparr>cx := nx, pendingWrap := False\<rparr>
              else s1\<lparr>cx := cols s - 1, pendingWrap := Autowrap (modes s)\<rparr>)"

definition combine :: "rune \<Rightarrow> screen \<Rightarrow> screen" where
  "combine r s =
     (case prevCellX s of None \<Rightarrow> s
      | Some x \<Rightarrow>
          (let ln = buf s ! cy s; c = cells ln ! x
           in if int (length (comb c)) + rune_len r > int maxComb then s
              else let c1 = (if rn c = 0 then c\<lparr>rn := 0x20\<rparr> else c);
                       c2 = c1\<lparr>comb := comb c1 @ encode_rune r\<rparr>;
                       s1 = set_line (cy s) \<lparr>cells = (cells ln)[x := c2], used = True\<rparr> s
                   in if r = vs16 \<and> \<not> isWide c2 then widen x s1 else s1))"

text \<open>The last three bytes of \<open>comb\<close> against the encoding of ZWJ.\<close>

definition ends_with_zwj :: "byte list \<Rightarrow> bool" where
  "ends_with_zwj b \<longleftrightarrow> length b \<ge> 3 \<and> drop (length b - 3) b = encode_rune zwj"

definition joinPrev :: "rune \<Rightarrow> screen \<Rightarrow> bool \<times> screen" where
  "joinPrev r s =
     (case prevCellX s of None \<Rightarrow> (False, s)
      | Some x \<Rightarrow>
          (let ln = buf s ! cy s; c = cells ln ! x
           in if ends_with_zwj (comb c) then
                (True,
                 if int (length (comb c)) + rune_len r \<le> int maxComb
                 then set_line (cy s) (ln\<lparr>cells := (cells ln)[x := c\<lparr>comb := comb c @ encode_rune r\<rparr>]\<rparr>) s
                 else s)
              else if isRegionalIndicator r \<and> isRegionalIndicator (rn c) \<and> comb c = [] \<and> \<not> isWide c then
                (True,
                 widen x (set_line (cy s) (ln\<lparr>cells := (cells ln)[x := c\<lparr>comb := encode_rune r\<rparr>]\<rparr>) s))
              else (False, s)))"

definition printRune :: "rune \<Rightarrow> screen \<Rightarrow> screen" where
  "printRune r s =
     (if r < 0xA0 then s
      else let w = RuneWidth r
           in if w = 0 then (combine r s)\<lparr>lastRune := 0\<rparr>
              else let (joined, s1) = joinPrev r s
                   in if joined then s1\<lparr>lastRune := 0\<rparr> else printGlyph r w s1)"

section \<open>Erasing\<close>

definition eraseCells :: "nat \<Rightarrow> nat \<Rightarrow> nat \<Rightarrow> screen \<Rightarrow> screen" where
  "eraseCells y x0 x1' s =
     (let x1 = (if x1' > cols s then cols s else x1')
      in if x0 \<ge> x1 then s
         else let ln = buf s ! y
              in set_line y \<lparr>cells = eraseRow (blank s) (cells ln) x0 x1,
                             used = (if x0 = 0 \<and> x1 = cols s then False else used ln)\<rparr> s)"

definition eraseLine :: "nat \<Rightarrow> screen \<Rightarrow> screen" where
  "eraseLine y s = eraseCells y 0 (cols s) s"

text \<open>The loop \<open>for y := a; y < b; y++ { s.eraseLine(y) }\<close>.\<close>

definition eraseLines :: "nat \<Rightarrow> nat \<Rightarrow> screen \<Rightarrow> screen" where
  "eraseLines a b s = fold eraseLine [a..<b] s"

definition canScrollOnClear :: "screen \<Rightarrow> bool" where
  "canScrollOnClear s \<longleftrightarrow> \<not> altActive s \<and> limit (shist s) > 0"

definition last_used :: "line list \<Rightarrow> nat" where
  "last_used ls = foldl (\<lambda>m y. if used (ls ! y) then y + 1 else m) 0 [0..<length ls]"

definition clearToHistory :: "screen \<Rightarrow> screen" where
  "clearToHistory s =
     (let n = last_used (buf s);
          s1 = fold pushHistory (map cells (take n (buf s))) s
      in (eraseLines 0 (rows s) s1)\<lparr>hscrolled := 0\<rparr>)"

definition eraseDisplay :: "int \<Rightarrow> screen \<Rightarrow> screen" where
  "eraseDisplay mode s =
     (if mode = 0 then
        (if cx s = 0 \<and> cy s = 0 \<and> canScrollOnClear s then clearToHistory s
         else eraseLines (cy s + 1) (rows s) (eraseCells (cy s) (cx s) (cols s) s))
        \<lparr>pendingWrap := False\<rparr>
      else if mode = 1 then
        (eraseCells (cy s) 0 (cx s + 1) (eraseLines 0 (cy s) s))\<lparr>pendingWrap := False\<rparr>
      else if mode = 2 then
        (if canScrollOnClear s then clearToHistory s else eraseLines 0 (rows s) s)
        \<lparr>pendingWrap := False\<rparr>
      else if mode = 3 then s\<lparr>shist := hist_clear (shist s), hscrolled := 0\<rparr>
      else s)"

definition eraseInLine :: "int \<Rightarrow> screen \<Rightarrow> screen" where
  "eraseInLine mode s =
     (if mode = 0 then (eraseCells (cy s) (cx s) (cols s) s)\<lparr>pendingWrap := False\<rparr>
      else if mode = 1 then (eraseCells (cy s) 0 (cx s + 1) s)\<lparr>pendingWrap := False\<rparr>
      else if mode = 2 then (eraseCells (cy s) 0 (cols s) s)\<lparr>pendingWrap := False\<rparr>
      else s)"

section \<open>Cursor movement and tabs\<close>

definition moveTo :: "int \<Rightarrow> int \<Rightarrow> screen \<Rightarrow> screen" where
  "moveTo x y s =
     s\<lparr>cx := nat (clampInt x 0 (int (cols s) - 1)), cy := nat (clampInt y 0 (int (rows s) - 1)),
       pendingWrap := False\<rparr>"

definition moveToOrigin :: "int \<Rightarrow> int \<Rightarrow> screen \<Rightarrow> screen" where
  "moveToOrigin x y s =
     (if OriginMode (modes s) then moveTo x (clampInt (y + int (rtop s)) (int (rtop s)) (int (rbot s))) s
      else moveTo x y s)"

definition cursorUp :: "int \<Rightarrow> screen \<Rightarrow> screen" where
  "cursorUp n s =
     (let tp = (if cy s \<ge> rtop s then rtop s else 0)
      in moveTo (int (cx s)) (max (int (cy s) - n) (int tp)) s)"

definition cursorDown :: "int \<Rightarrow> screen \<Rightarrow> screen" where
  "cursorDown n s =
     (let bt = (if cy s \<le> rbot s then rbot s else rows s - 1)
      in moveTo (int (cx s)) (min (int (cy s) + n) (int bt)) s)"

definition carriageReturn :: "screen \<Rightarrow> screen" where
  "carriageReturn s = s\<lparr>cx := 0, pendingWrap := False\<rparr>"

definition backspace :: "screen \<Rightarrow> screen" where
  "backspace s = s\<lparr>cx := cx s - 1, pendingWrap := False\<rparr>"

text \<open>The inner loops of the tab functions, then the outer ones.\<close>

function skip_to_tab :: "bool list \<Rightarrow> nat \<Rightarrow> nat \<Rightarrow> nat" where
  "skip_to_tab ts lastcol x =
     (if x < lastcol \<and> \<not> ts ! x then skip_to_tab ts lastcol (x + 1) else x)"
  by pat_completeness auto
termination
  by (relation "measure (\<lambda>(ts, lastcol, x). lastcol - x)") auto

declare skip_to_tab.simps [simp del]

fun skip_back_to_tab :: "bool list \<Rightarrow> nat \<Rightarrow> nat" where
  "skip_back_to_tab ts 0 = 0"
| "skip_back_to_tab ts (Suc x) = (if \<not> ts ! Suc x then skip_back_to_tab ts x else Suc x)"

fun tab_forward_loop :: "bool list \<Rightarrow> nat \<Rightarrow> nat \<Rightarrow> nat \<Rightarrow> nat" where
  "tab_forward_loop ts lastcol 0 x = x"
| "tab_forward_loop ts lastcol (Suc n) x =
     (if x < lastcol then tab_forward_loop ts lastcol n (skip_to_tab ts lastcol (x + 1)) else x)"

fun tab_backward_loop :: "bool list \<Rightarrow> nat \<Rightarrow> nat \<Rightarrow> nat" where
  "tab_backward_loop ts 0 x = x"
| "tab_backward_loop ts (Suc n) x =
     (if x > 0 then tab_backward_loop ts n (skip_back_to_tab ts (x - 1)) else x)"

definition tabForward :: "nat \<Rightarrow> screen \<Rightarrow> screen" where
  "tabForward n s =
     (if pendingWrap s then s else s\<lparr>cx := tab_forward_loop (tabs s) (cols s - 1) n (cx s)\<rparr>)"

definition tabBackward :: "nat \<Rightarrow> screen \<Rightarrow> screen" where
  "tabBackward n s = s\<lparr>cx := tab_backward_loop (tabs s) n (cx s), pendingWrap := False\<rparr>"

section \<open>Lines in the region\<close>

definition region_bottom :: "screen \<Rightarrow> nat" where
  "region_bottom s = (if cy s < rtop s \<or> cy s > rbot s then rows s - 1 else rbot s)"

definition insertLines :: "nat \<Rightarrow> screen \<Rightarrow> screen" where
  "insertLines n s = (scrollDown (cy s) (region_bottom s) n s)\<lparr>pendingWrap := False\<rparr>"

definition deleteLines :: "nat \<Rightarrow> screen \<Rightarrow> screen" where
  "deleteLines n s = (scrollUp (cy s) (region_bottom s) n False s)\<lparr>pendingWrap := False\<rparr>"

section \<open>Save, restore, buffers, resets\<close>

definition slot :: "screen \<Rightarrow> savedCursor" where
  "slot s = (if altActive s then saved1 s else saved0 s)"

definition saveCursor :: "screen \<Rightarrow> screen" where
  "saveCursor s =
     (let sc = \<lparr>sc_valid = True, sc_x = cx s, sc_y = cy s, sc_pendingWrap = pendingWrap s,
                sc_pen = pen s, sc_origin = OriginMode (modes s), sc_g = g s, sc_gl = gl s\<rparr>
      in if altActive s then s\<lparr>saved1 := sc\<rparr> else s\<lparr>saved0 := sc\<rparr>)"

definition restoreCursor :: "screen \<Rightarrow> screen" where
  "restoreCursor s =
     (let sc = (if sc_valid (slot s) then slot s else saved_zero\<lparr>sc_g := ascii_sets\<rparr>);
          x = nat (clampInt (int (sc_x sc)) 0 (int (cols s) - 1));
          y = nat (clampInt (int (sc_y sc)) 0 (int (rows s) - 1))
      in s\<lparr>cx := x, cy := y,
           pendingWrap := (sc_pendingWrap sc \<and> Autowrap (modes s) \<and> x = cols s - 1),
           pen := sc_pen sc, modes := (modes s)\<lparr>OriginMode := sc_origin sc\<rparr>,
           g := sc_g sc, gl := sc_gl sc\<rparr>)"

definition switchBuffer :: "bool \<Rightarrow> screen \<Rightarrow> bool \<times> screen" where
  "switchBuffer alt s = (if altActive s = alt then (False, s) else (True, s\<lparr>altActive := alt\<rparr>))"

definition clearBuffer :: "cell \<Rightarrow> line list \<Rightarrow> line list" where
  "clearBuffer bl b = map (clear_line bl) b"

definition alignmentTest :: "screen \<Rightarrow> screen" where
  "alignmentTest s =
     (let s1 = set_buf (map (\<lambda>l. l\<lparr>cells := map (\<lambda>_. cell0\<lparr>rn := 0x45\<rparr>) (cells l), used := True\<rparr>)
                          (buf s)) s
      in moveTo 0 0 (s1\<lparr>rtop := 0, rbot := rows s - 1, modes := (modes s)\<lparr>OriginMode := False\<rparr>\<rparr>))"

definition fullReset :: "screen \<Rightarrow> screen" where
  "fullReset s =
     (let s1 = snd (switchBuffer False s);
          s2 = s1\<lparr>altb := clearBuffer (blank s1) (altb s1)\<rparr>;
          s3 = s2\<lparr>pen := attr0\<rparr>;
          s4 = (if canScrollOnClear s3 then clearToHistory s3
                else s3\<lparr>mainb := clearBuffer (blank s3) (mainb s3)\<rparr>)
      in resetState s4)"

definition softReset :: "screen \<Rightarrow> screen" where
  "softReset s =
     s\<lparr>modes := (modes s)\<lparr>CursorVisible := True, Insert := False, OriginMode := False,
         AppCursor := False, AppKeypad := False, Autowrap := True\<rparr>,
       rtop := 0, rbot := rows s - 1, g := ascii_sets, gl := 0, pen := attr0,
       saved0 := saved_zero, saved1 := saved_zero, pendingWrap := False\<rparr>"

end
