(* ===== verification/Screen_WF.thy ===== *)
theory Screen_WF
  imports Screen
begin

text \<open>
  The screen invariant \<open>wf\<close> and its preservation by every operation of theory Screen. The
  frame lemmas record which fields an operation leaves alone; the collection \<open>wf_ops\<close> holds
  one preservation lemma per operation.
\<close>

section \<open>The invariant\<close>

definition line_ok :: "nat \<Rightarrow> line \<Rightarrow> bool" where
  "line_ok c l \<longleftrightarrow> length (cells l) = c \<and> row_ok (cells l)"

definition buf_ok :: "nat \<Rightarrow> nat \<Rightarrow> line list \<Rightarrow> bool" where
  "buf_ok c r b \<longleftrightarrow> length b = r \<and> list_all (line_ok c) b"

definition saved_ok :: "nat \<Rightarrow> nat \<Rightarrow> savedCursor \<Rightarrow> bool" where
  "saved_ok c r sc \<longleftrightarrow> sc_x sc < c \<and> sc_y sc < r \<and> length (sc_g sc) = 4 \<and> sc_gl sc < 4"

definition wf :: "screen \<Rightarrow> bool" where
  "wf s \<longleftrightarrow>
     0 < cols s \<and> int (cols s) \<le> maxDim \<and> 0 < rows s \<and> int (rows s) \<le> maxDim
     \<and> buf_ok (cols s) (rows s) (mainb s) \<and> buf_ok (cols s) (rows s) (altb s)
     \<and> hist_ok (shist s)
     \<and> cx s < cols s \<and> cy s < rows s
     \<and> (pendingWrap s \<longrightarrow> cx s = cols s - 1 \<and> Autowrap (modes s))
     \<and> length (g s) = 4 \<and> gl s < 4
     \<and> saved_ok (cols s) (rows s) (saved0 s) \<and> saved_ok (cols s) (rows s) (saved1 s)
     \<and> rtop s \<le> rbot s \<and> rbot s < rows s
     \<and> length (tabs s) = cols s
     \<and> (lastRune s \<noteq> 0 \<longrightarrow> lastWidth s = 1 \<or> lastWidth s = 2)
     \<and> 0 \<le> cursorStyle s \<and> cursorStyle s \<le> 6"

lemma wfD:
  assumes "wf s"
  shows "0 < cols s" "0 < rows s" "cx s < cols s" "cy s < rows s" "rtop s \<le> rbot s" "rbot s < rows s"
    "length (g s) = 4" "gl s < 4" "length (tabs s) = cols s" "hist_ok (shist s)"
    "buf_ok (cols s) (rows s) (mainb s)" "buf_ok (cols s) (rows s) (altb s)"
    "pendingWrap s \<Longrightarrow> cx s = cols s - 1 \<and> Autowrap (modes s)"
    "lastRune s \<noteq> 0 \<Longrightarrow> lastWidth s = 1 \<or> lastWidth s = 2"
  using assms by (simp_all add: wf_def)

lemma buf_okD:
  "buf_ok c r b \<Longrightarrow> length b = r"
  "buf_ok c r b \<Longrightarrow> y < r \<Longrightarrow> length (cells (b ! y)) = c \<and> row_ok (cells (b ! y))"
  by (auto simp: buf_ok_def line_ok_def list_all_length)

lemma wf_buf: "wf s \<Longrightarrow> buf_ok (cols s) (rows s) (buf s)"
  by (simp add: wf_def buf_def)

lemma wf_length_buf: "wf s \<Longrightarrow> length (buf s) = rows s"
  using wf_buf buf_okD(1) by blast

lemma wf_row:
  "wf s \<Longrightarrow> y < rows s \<Longrightarrow> length (cells (buf s ! y)) = cols s"
  "wf s \<Longrightarrow> y < rows s \<Longrightarrow> row_ok (cells (buf s ! y))"
  using wf_buf buf_okD(2) by blast+

section \<open>Frames\<close>

lemma buf_simps [simp, frame]:
  "buf (set_buf b s) = b"
  "buf (set_line y l s) = (buf s)[y := l]"
  by (simp_all add: buf_def set_buf_def set_line_def)

lemma set_buf_frame [simp, frame]:
  "cols (set_buf b s) = cols s" "rows (set_buf b s) = rows s"
  "altActive (set_buf b s) = altActive s" "shist (set_buf b s) = shist s"
  "hscrolled (set_buf b s) = hscrolled s" "cx (set_buf b s) = cx s" "cy (set_buf b s) = cy s"
  "pendingWrap (set_buf b s) = pendingWrap s" "pen (set_buf b s) = pen s" "g (set_buf b s) = g s"
  "gl (set_buf b s) = gl s" "saved0 (set_buf b s) = saved0 s" "saved1 (set_buf b s) = saved1 s"
  "rtop (set_buf b s) = rtop s" "rbot (set_buf b s) = rbot s" "tabs (set_buf b s) = tabs s"
  "modes (set_buf b s) = modes s" "cursorStyle (set_buf b s) = cursorStyle s"
  "title (set_buf b s) = title s" "lastRune (set_buf b s) = lastRune s"
  "lastWidth (set_buf b s) = lastWidth s"
  by (simp_all add: set_buf_def)

lemma set_line_frame [simp, frame]:
  "cols (set_line y l s) = cols s" "rows (set_line y l s) = rows s"
  "altActive (set_line y l s) = altActive s" "shist (set_line y l s) = shist s"
  "hscrolled (set_line y l s) = hscrolled s" "cx (set_line y l s) = cx s"
  "cy (set_line y l s) = cy s" "pendingWrap (set_line y l s) = pendingWrap s"
  "pen (set_line y l s) = pen s" "g (set_line y l s) = g s" "gl (set_line y l s) = gl s"
  "saved0 (set_line y l s) = saved0 s" "saved1 (set_line y l s) = saved1 s"
  "rtop (set_line y l s) = rtop s" "rbot (set_line y l s) = rbot s"
  "tabs (set_line y l s) = tabs s" "modes (set_line y l s) = modes s"
  "cursorStyle (set_line y l s) = cursorStyle s" "title (set_line y l s) = title s"
  "lastRune (set_line y l s) = lastRune s" "lastWidth (set_line y l s) = lastWidth s"
  by (simp_all add: set_line_def)

lemma buf_updates [simp, frame]:
  "buf (s\<lparr>cx := x\<rparr>) = buf s" "buf (s\<lparr>cy := x\<rparr>) = buf s" "buf (s\<lparr>pendingWrap := b\<rparr>) = buf s"
  "buf (s\<lparr>shist := h\<rparr>) = buf s" "buf (s\<lparr>hscrolled := x\<rparr>) = buf s" "buf (s\<lparr>pen := a\<rparr>) = buf s"
  "buf (s\<lparr>lastRune := r\<rparr>) = buf s" "buf (s\<lparr>lastWidth := x\<rparr>) = buf s"
  "buf (s\<lparr>modes := m\<rparr>) = buf s" "buf (s\<lparr>rtop := x\<rparr>) = buf s" "buf (s\<lparr>rbot := x\<rparr>) = buf s"
  "buf (s\<lparr>tabs := ts\<rparr>) = buf s" "buf (s\<lparr>gl := x\<rparr>) = buf s" "buf (s\<lparr>g := gs\<rparr>) = buf s"
  "buf (s\<lparr>title := tt\<rparr>) = buf s" "buf (s\<lparr>cursorStyle := st\<rparr>) = buf s"
  "buf (s\<lparr>saved0 := sc\<rparr>) = buf s" "buf (s\<lparr>saved1 := sc\<rparr>) = buf s"
  by (simp_all add: buf_def)

lemma pushes_eq:
  "fold pushHistory css s = s\<lparr>shist := fold (\<lambda>cs. hist_push (row_text cs)) css (shist s)\<rparr>"
  by (induction css arbitrary: s) (simp_all add: pushHistory_def)

lemma pushes_ok: "hist_ok h \<Longrightarrow> hist_ok (fold (\<lambda>cs. hist_push (row_text cs)) css h)"
  by (induction css arbitrary: h) (simp_all add: hist_push_ok)

lemma pushes_limit [simp]: "limit (fold (\<lambda>cs. hist_push (row_text cs)) css h) = limit h"
  by (induction css arbitrary: h) simp_all

lemma scrollUp_frame [simp, frame]:
  "cols (scrollUp tp bt n h s) = cols s" "rows (scrollUp tp bt n h s) = rows s"
  "altActive (scrollUp tp bt n h s) = altActive s" "cx (scrollUp tp bt n h s) = cx s"
  "cy (scrollUp tp bt n h s) = cy s" "pendingWrap (scrollUp tp bt n h s) = pendingWrap s"
  "pen (scrollUp tp bt n h s) = pen s" "g (scrollUp tp bt n h s) = g s"
  "gl (scrollUp tp bt n h s) = gl s" "saved0 (scrollUp tp bt n h s) = saved0 s"
  "saved1 (scrollUp tp bt n h s) = saved1 s" "rtop (scrollUp tp bt n h s) = rtop s"
  "rbot (scrollUp tp bt n h s) = rbot s" "tabs (scrollUp tp bt n h s) = tabs s"
  "modes (scrollUp tp bt n h s) = modes s" "cursorStyle (scrollUp tp bt n h s) = cursorStyle s"
  "title (scrollUp tp bt n h s) = title s" "lastRune (scrollUp tp bt n h s) = lastRune s"
  "lastWidth (scrollUp tp bt n h s) = lastWidth s"
  by (simp_all add: scrollUp_def Let_def pushes_eq)

lemma scrollDown_frame [simp, frame]:
  "cols (scrollDown tp bt n s) = cols s" "rows (scrollDown tp bt n s) = rows s"
  "altActive (scrollDown tp bt n s) = altActive s" "shist (scrollDown tp bt n s) = shist s"
  "hscrolled (scrollDown tp bt n s) = hscrolled s" "cx (scrollDown tp bt n s) = cx s"
  "cy (scrollDown tp bt n s) = cy s" "pendingWrap (scrollDown tp bt n s) = pendingWrap s"
  "pen (scrollDown tp bt n s) = pen s" "g (scrollDown tp bt n s) = g s"
  "gl (scrollDown tp bt n s) = gl s" "saved0 (scrollDown tp bt n s) = saved0 s"
  "saved1 (scrollDown tp bt n s) = saved1 s" "rtop (scrollDown tp bt n s) = rtop s"
  "rbot (scrollDown tp bt n s) = rbot s" "tabs (scrollDown tp bt n s) = tabs s"
  "modes (scrollDown tp bt n s) = modes s" "cursorStyle (scrollDown tp bt n s) = cursorStyle s"
  "title (scrollDown tp bt n s) = title s" "lastRune (scrollDown tp bt n s) = lastRune s"
  "lastWidth (scrollDown tp bt n s) = lastWidth s"
  by (simp_all add: scrollDown_def Let_def)

lemma index_frame [simp, frame]:
  "cols (index s) = cols s" "rows (index s) = rows s" "altActive (index s) = altActive s"
  "cx (index s) = cx s" "pendingWrap (index s) = pendingWrap s" "pen (index s) = pen s"
  "g (index s) = g s" "gl (index s) = gl s" "saved0 (index s) = saved0 s"
  "saved1 (index s) = saved1 s" "rtop (index s) = rtop s" "rbot (index s) = rbot s"
  "tabs (index s) = tabs s" "modes (index s) = modes s" "cursorStyle (index s) = cursorStyle s"
  "title (index s) = title s" "lastRune (index s) = lastRune s"
  "lastWidth (index s) = lastWidth s"
  by (simp_all add: index_def)

lemma reverseIndex_frame [simp, frame]:
  "cols (reverseIndex s) = cols s" "rows (reverseIndex s) = rows s"
  "altActive (reverseIndex s) = altActive s" "shist (reverseIndex s) = shist s"
  "hscrolled (reverseIndex s) = hscrolled s" "cx (reverseIndex s) = cx s"
  "pendingWrap (reverseIndex s) = pendingWrap s" "pen (reverseIndex s) = pen s"
  "g (reverseIndex s) = g s" "gl (reverseIndex s) = gl s" "saved0 (reverseIndex s) = saved0 s"
  "saved1 (reverseIndex s) = saved1 s" "rtop (reverseIndex s) = rtop s"
  "rbot (reverseIndex s) = rbot s" "tabs (reverseIndex s) = tabs s"
  "modes (reverseIndex s) = modes s" "cursorStyle (reverseIndex s) = cursorStyle s"
  "title (reverseIndex s) = title s" "lastRune (reverseIndex s) = lastRune s"
  "lastWidth (reverseIndex s) = lastWidth s"
  by (simp_all add: reverseIndex_def)

lemma eraseCells_frame [simp, frame]:
  "cols (eraseCells y x0 x1 s) = cols s" "rows (eraseCells y x0 x1 s) = rows s"
  "altActive (eraseCells y x0 x1 s) = altActive s" "shist (eraseCells y x0 x1 s) = shist s"
  "hscrolled (eraseCells y x0 x1 s) = hscrolled s" "cx (eraseCells y x0 x1 s) = cx s"
  "cy (eraseCells y x0 x1 s) = cy s" "pendingWrap (eraseCells y x0 x1 s) = pendingWrap s"
  "pen (eraseCells y x0 x1 s) = pen s" "g (eraseCells y x0 x1 s) = g s"
  "gl (eraseCells y x0 x1 s) = gl s" "saved0 (eraseCells y x0 x1 s) = saved0 s"
  "saved1 (eraseCells y x0 x1 s) = saved1 s" "rtop (eraseCells y x0 x1 s) = rtop s"
  "rbot (eraseCells y x0 x1 s) = rbot s" "tabs (eraseCells y x0 x1 s) = tabs s"
  "modes (eraseCells y x0 x1 s) = modes s" "cursorStyle (eraseCells y x0 x1 s) = cursorStyle s"
  "title (eraseCells y x0 x1 s) = title s" "lastRune (eraseCells y x0 x1 s) = lastRune s"
  "lastWidth (eraseCells y x0 x1 s) = lastWidth s"
  by (simp_all add: eraseCells_def Let_def)

lemma eraseLine_frame [simp, frame]:
  "cols (eraseLine y s) = cols s" "rows (eraseLine y s) = rows s"
  "altActive (eraseLine y s) = altActive s" "shist (eraseLine y s) = shist s"
  "hscrolled (eraseLine y s) = hscrolled s" "cx (eraseLine y s) = cx s"
  "cy (eraseLine y s) = cy s" "pendingWrap (eraseLine y s) = pendingWrap s"
  "pen (eraseLine y s) = pen s" "g (eraseLine y s) = g s" "gl (eraseLine y s) = gl s"
  "saved0 (eraseLine y s) = saved0 s" "saved1 (eraseLine y s) = saved1 s"
  "rtop (eraseLine y s) = rtop s" "rbot (eraseLine y s) = rbot s" "tabs (eraseLine y s) = tabs s"
  "modes (eraseLine y s) = modes s" "cursorStyle (eraseLine y s) = cursorStyle s"
  "title (eraseLine y s) = title s" "lastRune (eraseLine y s) = lastRune s"
  "lastWidth (eraseLine y s) = lastWidth s"
  by (simp_all add: eraseLine_def)

lemma eraseLines_ind:
  assumes "\<And>s y. P s \<Longrightarrow> P (eraseLine y s)" "P s"
  shows "P (eraseLines a b s)"
proof -
  have "P (fold eraseLine ys s)" for ys
    using assms(2) by (induction ys arbitrary: s) (simp_all add: assms(1))
  then show ?thesis by (simp add: eraseLines_def)
qed

lemma eraseLines_frame [simp, frame]:
  "cols (eraseLines a b s) = cols s" "rows (eraseLines a b s) = rows s"
  "altActive (eraseLines a b s) = altActive s" "shist (eraseLines a b s) = shist s"
  "hscrolled (eraseLines a b s) = hscrolled s" "cx (eraseLines a b s) = cx s"
  "cy (eraseLines a b s) = cy s" "pendingWrap (eraseLines a b s) = pendingWrap s"
  "pen (eraseLines a b s) = pen s" "g (eraseLines a b s) = g s" "gl (eraseLines a b s) = gl s"
  "saved0 (eraseLines a b s) = saved0 s" "saved1 (eraseLines a b s) = saved1 s"
  "rtop (eraseLines a b s) = rtop s" "rbot (eraseLines a b s) = rbot s"
  "tabs (eraseLines a b s) = tabs s" "modes (eraseLines a b s) = modes s"
  "cursorStyle (eraseLines a b s) = cursorStyle s" "title (eraseLines a b s) = title s"
  "lastRune (eraseLines a b s) = lastRune s" "lastWidth (eraseLines a b s) = lastWidth s"
  by (rule eraseLines_ind; simp)+

lemma clearToHistory_frame [simp, frame]:
  "cols (clearToHistory s) = cols s" "rows (clearToHistory s) = rows s"
  "altActive (clearToHistory s) = altActive s" "cx (clearToHistory s) = cx s"
  "cy (clearToHistory s) = cy s" "pendingWrap (clearToHistory s) = pendingWrap s"
  "pen (clearToHistory s) = pen s" "g (clearToHistory s) = g s" "gl (clearToHistory s) = gl s"
  "saved0 (clearToHistory s) = saved0 s" "saved1 (clearToHistory s) = saved1 s"
  "rtop (clearToHistory s) = rtop s" "rbot (clearToHistory s) = rbot s"
  "tabs (clearToHistory s) = tabs s" "modes (clearToHistory s) = modes s"
  "cursorStyle (clearToHistory s) = cursorStyle s" "title (clearToHistory s) = title s"
  "lastRune (clearToHistory s) = lastRune s" "lastWidth (clearToHistory s) = lastWidth s"
  by (simp_all add: clearToHistory_def Let_def pushes_eq)

lemma eraseDisplay_frame [simp, frame]:
  "cols (eraseDisplay m s) = cols s" "rows (eraseDisplay m s) = rows s"
  "altActive (eraseDisplay m s) = altActive s" "cx (eraseDisplay m s) = cx s"
  "cy (eraseDisplay m s) = cy s" "pen (eraseDisplay m s) = pen s" "g (eraseDisplay m s) = g s"
  "gl (eraseDisplay m s) = gl s" "saved0 (eraseDisplay m s) = saved0 s"
  "saved1 (eraseDisplay m s) = saved1 s" "rtop (eraseDisplay m s) = rtop s"
  "rbot (eraseDisplay m s) = rbot s" "tabs (eraseDisplay m s) = tabs s"
  "modes (eraseDisplay m s) = modes s" "cursorStyle (eraseDisplay m s) = cursorStyle s"
  "title (eraseDisplay m s) = title s" "lastRune (eraseDisplay m s) = lastRune s"
  "lastWidth (eraseDisplay m s) = lastWidth s"
  by (simp_all add: eraseDisplay_def)

lemma eraseInLine_frame [simp, frame]:
  "cols (eraseInLine m s) = cols s" "rows (eraseInLine m s) = rows s"
  "altActive (eraseInLine m s) = altActive s" "shist (eraseInLine m s) = shist s"
  "hscrolled (eraseInLine m s) = hscrolled s" "cx (eraseInLine m s) = cx s"
  "cy (eraseInLine m s) = cy s" "pen (eraseInLine m s) = pen s" "g (eraseInLine m s) = g s"
  "gl (eraseInLine m s) = gl s" "saved0 (eraseInLine m s) = saved0 s"
  "saved1 (eraseInLine m s) = saved1 s" "rtop (eraseInLine m s) = rtop s"
  "rbot (eraseInLine m s) = rbot s" "tabs (eraseInLine m s) = tabs s"
  "modes (eraseInLine m s) = modes s" "cursorStyle (eraseInLine m s) = cursorStyle s"
  "title (eraseInLine m s) = title s" "lastRune (eraseInLine m s) = lastRune s"
  "lastWidth (eraseInLine m s) = lastWidth s"
  by (simp_all add: eraseInLine_def)

lemma moveTo_frame [simp, frame]:
  "cols (moveTo x y s) = cols s" "rows (moveTo x y s) = rows s" "mainb (moveTo x y s) = mainb s"
  "altb (moveTo x y s) = altb s" "altActive (moveTo x y s) = altActive s"
  "shist (moveTo x y s) = shist s" "hscrolled (moveTo x y s) = hscrolled s"
  "pen (moveTo x y s) = pen s" "g (moveTo x y s) = g s" "gl (moveTo x y s) = gl s"
  "saved0 (moveTo x y s) = saved0 s" "saved1 (moveTo x y s) = saved1 s"
  "rtop (moveTo x y s) = rtop s" "rbot (moveTo x y s) = rbot s" "tabs (moveTo x y s) = tabs s"
  "modes (moveTo x y s) = modes s" "cursorStyle (moveTo x y s) = cursorStyle s"
  "title (moveTo x y s) = title s" "lastRune (moveTo x y s) = lastRune s"
  "lastWidth (moveTo x y s) = lastWidth s"
  by (simp_all add: moveTo_def)

lemma moveToOrigin_frame [simp, frame]:
  "cols (moveToOrigin x y s) = cols s" "rows (moveToOrigin x y s) = rows s"
  "mainb (moveToOrigin x y s) = mainb s" "altb (moveToOrigin x y s) = altb s"
  "altActive (moveToOrigin x y s) = altActive s" "shist (moveToOrigin x y s) = shist s"
  "hscrolled (moveToOrigin x y s) = hscrolled s" "pen (moveToOrigin x y s) = pen s"
  "g (moveToOrigin x y s) = g s" "gl (moveToOrigin x y s) = gl s"
  "saved0 (moveToOrigin x y s) = saved0 s" "saved1 (moveToOrigin x y s) = saved1 s"
  "rtop (moveToOrigin x y s) = rtop s" "rbot (moveToOrigin x y s) = rbot s"
  "tabs (moveToOrigin x y s) = tabs s" "modes (moveToOrigin x y s) = modes s"
  "cursorStyle (moveToOrigin x y s) = cursorStyle s" "title (moveToOrigin x y s) = title s"
  "lastRune (moveToOrigin x y s) = lastRune s" "lastWidth (moveToOrigin x y s) = lastWidth s"
  by (simp_all add: moveToOrigin_def)

lemma cursorUp_frame [simp, frame]:
  "cols (cursorUp n s) = cols s" "rows (cursorUp n s) = rows s" "mainb (cursorUp n s) = mainb s"
  "altb (cursorUp n s) = altb s" "altActive (cursorUp n s) = altActive s"
  "shist (cursorUp n s) = shist s" "hscrolled (cursorUp n s) = hscrolled s"
  "pen (cursorUp n s) = pen s" "g (cursorUp n s) = g s" "gl (cursorUp n s) = gl s"
  "saved0 (cursorUp n s) = saved0 s" "saved1 (cursorUp n s) = saved1 s"
  "rtop (cursorUp n s) = rtop s" "rbot (cursorUp n s) = rbot s" "tabs (cursorUp n s) = tabs s"
  "modes (cursorUp n s) = modes s" "cursorStyle (cursorUp n s) = cursorStyle s"
  "title (cursorUp n s) = title s" "lastRune (cursorUp n s) = lastRune s"
  "lastWidth (cursorUp n s) = lastWidth s"
  by (simp_all add: cursorUp_def Let_def)

lemma cursorDown_frame [simp, frame]:
  "cols (cursorDown n s) = cols s" "rows (cursorDown n s) = rows s"
  "mainb (cursorDown n s) = mainb s" "altb (cursorDown n s) = altb s"
  "altActive (cursorDown n s) = altActive s" "shist (cursorDown n s) = shist s"
  "hscrolled (cursorDown n s) = hscrolled s" "pen (cursorDown n s) = pen s"
  "g (cursorDown n s) = g s" "gl (cursorDown n s) = gl s" "saved0 (cursorDown n s) = saved0 s"
  "saved1 (cursorDown n s) = saved1 s" "rtop (cursorDown n s) = rtop s"
  "rbot (cursorDown n s) = rbot s" "tabs (cursorDown n s) = tabs s"
  "modes (cursorDown n s) = modes s" "cursorStyle (cursorDown n s) = cursorStyle s"
  "title (cursorDown n s) = title s" "lastRune (cursorDown n s) = lastRune s"
  "lastWidth (cursorDown n s) = lastWidth s"
  by (simp_all add: cursorDown_def Let_def)

lemma widen_frame [simp, frame]:
  "cols (widen x s) = cols s" "rows (widen x s) = rows s" "altActive (widen x s) = altActive s"
  "shist (widen x s) = shist s" "hscrolled (widen x s) = hscrolled s" "cy (widen x s) = cy s"
  "pen (widen x s) = pen s" "g (widen x s) = g s" "gl (widen x s) = gl s"
  "saved0 (widen x s) = saved0 s" "saved1 (widen x s) = saved1 s" "rtop (widen x s) = rtop s"
  "rbot (widen x s) = rbot s" "tabs (widen x s) = tabs s" "modes (widen x s) = modes s"
  "cursorStyle (widen x s) = cursorStyle s" "title (widen x s) = title s"
  "lastRune (widen x s) = lastRune s" "lastWidth (widen x s) = lastWidth s"
  by (simp_all add: widen_def Let_def)

lemma combine_frame [simp, frame]:
  "cols (combine r s) = cols s" "rows (combine r s) = rows s"
  "altActive (combine r s) = altActive s" "shist (combine r s) = shist s"
  "hscrolled (combine r s) = hscrolled s" "cy (combine r s) = cy s" "pen (combine r s) = pen s"
  "g (combine r s) = g s" "gl (combine r s) = gl s" "saved0 (combine r s) = saved0 s"
  "saved1 (combine r s) = saved1 s" "rtop (combine r s) = rtop s" "rbot (combine r s) = rbot s"
  "tabs (combine r s) = tabs s" "modes (combine r s) = modes s"
  "cursorStyle (combine r s) = cursorStyle s" "title (combine r s) = title s"
  "lastRune (combine r s) = lastRune s" "lastWidth (combine r s) = lastWidth s"
  by (simp_all add: combine_def Let_def split: option.split)

lemma joinPrev_frame [simp, frame]:
  "cols (snd (joinPrev r s)) = cols s" "rows (snd (joinPrev r s)) = rows s"
  "altActive (snd (joinPrev r s)) = altActive s" "shist (snd (joinPrev r s)) = shist s"
  "hscrolled (snd (joinPrev r s)) = hscrolled s" "cy (snd (joinPrev r s)) = cy s"
  "pen (snd (joinPrev r s)) = pen s" "g (snd (joinPrev r s)) = g s"
  "gl (snd (joinPrev r s)) = gl s" "saved0 (snd (joinPrev r s)) = saved0 s"
  "saved1 (snd (joinPrev r s)) = saved1 s" "rtop (snd (joinPrev r s)) = rtop s"
  "rbot (snd (joinPrev r s)) = rbot s" "tabs (snd (joinPrev r s)) = tabs s"
  "modes (snd (joinPrev r s)) = modes s" "cursorStyle (snd (joinPrev r s)) = cursorStyle s"
  "title (snd (joinPrev r s)) = title s" "lastRune (snd (joinPrev r s)) = lastRune s"
  "lastWidth (snd (joinPrev r s)) = lastWidth s"
  by (simp_all add: joinPrev_def Let_def split: option.split)

lemma wrap_pending_frame [simp, frame]:
  "cols (wrap_pending s) = cols s" "rows (wrap_pending s) = rows s"
  "altActive (wrap_pending s) = altActive s" "pen (wrap_pending s) = pen s"
  "g (wrap_pending s) = g s" "gl (wrap_pending s) = gl s" "saved0 (wrap_pending s) = saved0 s"
  "saved1 (wrap_pending s) = saved1 s" "rtop (wrap_pending s) = rtop s"
  "rbot (wrap_pending s) = rbot s" "tabs (wrap_pending s) = tabs s"
  "modes (wrap_pending s) = modes s" "cursorStyle (wrap_pending s) = cursorStyle s"
  "title (wrap_pending s) = title s" "lastRune (wrap_pending s) = lastRune s"
  "lastWidth (wrap_pending s) = lastWidth s"
  by (simp_all add: wrap_pending_def)

lemma advance_frame [simp, frame]:
  "cols (advance w s) = cols s" "rows (advance w s) = rows s" "mainb (advance w s) = mainb s"
  "altb (advance w s) = altb s" "altActive (advance w s) = altActive s"
  "shist (advance w s) = shist s" "hscrolled (advance w s) = hscrolled s"
  "cy (advance w s) = cy s" "pen (advance w s) = pen s" "g (advance w s) = g s"
  "gl (advance w s) = gl s" "saved0 (advance w s) = saved0 s" "saved1 (advance w s) = saved1 s"
  "rtop (advance w s) = rtop s" "rbot (advance w s) = rbot s" "tabs (advance w s) = tabs s"
  "modes (advance w s) = modes s" "cursorStyle (advance w s) = cursorStyle s"
  "title (advance w s) = title s" "lastRune (advance w s) = lastRune s"
  "lastWidth (advance w s) = lastWidth s"
  by (simp_all add: advance_def)

lemma glyph_store_frame [simp, frame]:
  "cols (glyph_store r w s) = cols s" "rows (glyph_store r w s) = rows s"
  "altActive (glyph_store r w s) = altActive s" "shist (glyph_store r w s) = shist s"
  "hscrolled (glyph_store r w s) = hscrolled s" "cy (glyph_store r w s) = cy s"
  "pen (glyph_store r w s) = pen s" "g (glyph_store r w s) = g s" "gl (glyph_store r w s) = gl s"
  "saved0 (glyph_store r w s) = saved0 s" "saved1 (glyph_store r w s) = saved1 s"
  "rtop (glyph_store r w s) = rtop s" "rbot (glyph_store r w s) = rbot s"
  "tabs (glyph_store r w s) = tabs s" "modes (glyph_store r w s) = modes s"
  "cursorStyle (glyph_store r w s) = cursorStyle s" "title (glyph_store r w s) = title s"
  by (simp_all add: glyph_store_def Let_def)

lemma printGlyph_frame [simp, frame]:
  "cols (printGlyph r w s) = cols s" "rows (printGlyph r w s) = rows s"
  "altActive (printGlyph r w s) = altActive s" "pen (printGlyph r w s) = pen s"
  "g (printGlyph r w s) = g s" "gl (printGlyph r w s) = gl s"
  "saved0 (printGlyph r w s) = saved0 s" "saved1 (printGlyph r w s) = saved1 s"
  "rtop (printGlyph r w s) = rtop s" "rbot (printGlyph r w s) = rbot s"
  "tabs (printGlyph r w s) = tabs s" "modes (printGlyph r w s) = modes s"
  "cursorStyle (printGlyph r w s) = cursorStyle s" "title (printGlyph r w s) = title s"
  by (simp_all add: printGlyph_def Let_def)

lemma printRune_frame [simp, frame]:
  "cols (printRune r s) = cols s" "rows (printRune r s) = rows s"
  "altActive (printRune r s) = altActive s" "pen (printRune r s) = pen s"
  "g (printRune r s) = g s" "gl (printRune r s) = gl s" "saved0 (printRune r s) = saved0 s"
  "saved1 (printRune r s) = saved1 s" "rtop (printRune r s) = rtop s"
  "rbot (printRune r s) = rbot s" "tabs (printRune r s) = tabs s"
  "modes (printRune r s) = modes s" "cursorStyle (printRune r s) = cursorStyle s"
  "title (printRune r s) = title s"
  by (simp_all add: printRune_def Let_def case_prod_beta)

section \<open>Buffers\<close>

lemma line_okI: "length (cells l) = c \<Longrightarrow> row_ok (cells l) \<Longrightarrow> line_ok c l"
  by (simp add: line_ok_def)

lemma set_copy_at: "set (copy_at i src dst) \<subseteq> set src \<union> set dst"
  by (auto simp: copy_at_def dest: in_set_takeD in_set_dropD)

lemma buf_ok_copy_at:
  "buf_ok c r b \<Longrightarrow> list_all (line_ok c) src \<Longrightarrow> buf_ok c r (copy_at i src b)"
  using set_copy_at [of i src b] by (auto simp: buf_ok_def list_all_iff)

lemma list_all_slice: "list_all P b \<Longrightarrow> list_all P (slice i j b)"
  using set_slice [of i j b] by (auto simp: list_all_iff)

lemma clear_line_ok: "line_ok c l \<Longrightarrow> line_ok c (clear_line (blank s) l)"
  by (simp add: line_ok_def clear_line_def blank_def fillCells_ok)

lemma list_all_clear:
  "list_all (line_ok c) b \<Longrightarrow> list_all (line_ok c) (map (clear_line (blank s)) b)"
  by (auto simp: list_all_iff clear_line_ok)

lemma buf_ok_clear: "buf_ok c r b \<Longrightarrow> buf_ok c r (clearBuffer (blank s) b)"
  by (simp add: buf_ok_def clearBuffer_def list_all_clear)

lemma buf_ok_update: "buf_ok c r b \<Longrightarrow> line_ok c l \<Longrightarrow> buf_ok c r (b[y := l])"
  using set_update_subset_insert [of b y l] by (auto simp: buf_ok_def list_all_iff)

lemma buf_ok_new: "buf_ok c r (newBuffer c r)"
  by (simp add: buf_ok_def newBuffer_def line_ok_def list_all_iff)

lemma buf_ok_list_all: "buf_ok c r b \<Longrightarrow> list_all (line_ok c) b"
  by (simp add: buf_ok_def)

lemma wf_set_buf: "wf s \<Longrightarrow> buf_ok (cols s) (rows s) b \<Longrightarrow> wf (set_buf b s)"
  by (simp add: wf_def set_buf_def)

lemma wf_set_line: "wf s \<Longrightarrow> line_ok (cols s) l \<Longrightarrow> wf (set_line y l s)"
  by (simp add: set_line_def wf_set_buf wf_buf buf_ok_update)

lemma wf_pushes [wf_ops]: "wf s \<Longrightarrow> wf (fold pushHistory css s)"
  by (simp add: wf_def pushes_eq pushes_ok)

lemma wf_hscrolled [wf_ops]: "wf s \<Longrightarrow> wf (s\<lparr>hscrolled := k\<rparr>)"
  by (simp add: wf_def)

lemma wf_pendingWrap [wf_ops]: "wf s \<Longrightarrow> wf (s\<lparr>pendingWrap := False\<rparr>)"
  by (simp add: wf_def)

lemma wf_cx: "wf s \<Longrightarrow> x < cols s \<Longrightarrow> \<not> pendingWrap s \<Longrightarrow> wf (s\<lparr>cx := x\<rparr>)"
  by (simp add: wf_def)

lemma wf_lastRune [wf_ops]: "wf s \<Longrightarrow> wf (s\<lparr>lastRune := 0\<rparr>)"
  by (simp add: wf_def)

section \<open>Scrolling\<close>

lemma wf_scrollUp [wf_ops]:
  assumes "wf s"
  shows "wf (scrollUp tp bt n h s)"
proof -
  have b: "buf_ok (cols s) (rows s) (buf s)" using assms by (rule wf_buf)
  then have l: "list_all (line_ok (cols s)) (buf s)" by (rule buf_ok_list_all)
  have k: "buf_ok (cols s) (rows s)
      (copy_at i (map (clear_line (blank s)) (slice a d (buf s))) (copy_at j (slice e f (buf s)) (buf s)))"
    for i j a d e f
    using b l by (simp add: buf_ok_copy_at list_all_slice list_all_clear)
  show ?thesis
    unfolding scrollUp_def Let_def using assms k
    by (auto intro!: wf_set_buf wf_hscrolled wf_pushes [unfolded pushes_eq] simp: pushes_eq)
qed

lemma wf_scrollDown [wf_ops]:
  assumes "wf s"
  shows "wf (scrollDown tp bt n s)"
proof -
  have b: "buf_ok (cols s) (rows s) (buf s)" using assms by (rule wf_buf)
  then have l: "list_all (line_ok (cols s)) (buf s)" by (rule buf_ok_list_all)
  show ?thesis
    unfolding scrollDown_def Let_def
    using assms b l by (auto intro!: wf_set_buf buf_ok_copy_at list_all_clear list_all_slice)
qed

lemma wf_cy: "wf s \<Longrightarrow> y < rows s \<Longrightarrow> wf (s\<lparr>cy := y\<rparr>)"
  by (simp add: wf_def)

lemma wf_index [wf_ops]: "wf s \<Longrightarrow> wf (index s)"
  by (auto simp: index_def intro!: wf_scrollUp wf_cy)

lemma wf_reverseIndex [wf_ops]: "wf s \<Longrightarrow> wf (reverseIndex s)"
  by (auto simp: reverseIndex_def dest: wfD(4) intro!: wf_scrollDown wf_cy)

lemma cy_index: "wf s \<Longrightarrow> cy (index s) < rows s"
  using wfD(4) [OF wf_index] by simp

section \<open>Printing\<close>

lemma row_ok_update_plain:
  assumes "row_ok cs" "x < length cs" "plain (cs ! x)" "cell_ok c" "plain c"
  shows "row_ok (cs[x := c])"
proof -
  have "uncut cs x" "uncut cs (Suc x)"
    using assms uncut_after [of cs "Suc x"] by (auto simp: uncut_def plain_def)
  then have "row_ok (take x cs @ [c] @ drop (Suc x) cs)"
    using assms by (intro row_ok_append row_ok_take row_ok_drop row_ok_singleton) simp_all
  then show ?thesis using assms by (simp add: upd_conv_take_nth_drop)
qed

lemma wide_pair_ok:
  assumes "cell_ok c" "isWide c" "cell_ok p" "isPad p"
  shows "row_ok [c, p]"
proof (rule row_okI)
  fix i assume "i < length [c, p]"
  then have i: "i = 0 \<or> i = 1" by auto
  show "cell_ok ([c, p] ! i)" using i assms by auto
  show "isWide ([c, p] ! i) \<Longrightarrow> i + 1 < length [c, p] \<and> isPad ([c, p] ! (i + 1))"
    using i assms not_both [of p] by auto
  show "isPad ([c, p] ! i) \<Longrightarrow> 0 < i \<and> isWide ([c, p] ! (i - 1))"
    using i assms not_both [of c] by auto
qed

lemma row_ok_update_wide:
  assumes "row_ok cs" "x + 1 < length cs" "\<not> isPad (cs ! x)" "plain (cs ! (x + 1))"
    and "row_ok [c, p]"
  shows "row_ok (cs[x := c, x + 1 := p])"
proof -
  have "uncut cs x" "uncut cs (x + 2)"
    using assms uncut_after [of cs "x + 2"] by (auto simp: uncut_def plain_def)
  then have "row_ok (take x cs @ [c, p] @ drop (x + 2) cs)"
    using assms by (intro row_ok_append row_ok_take row_ok_drop) simp_all
  moreover have "cs[x := c, x + 1 := p] = take x cs @ [c, p] @ drop (x + 2) cs"
  proof -
    have "cs[x := c] = take x cs @ c # drop (Suc x) cs"
      using assms(2) by (simp add: upd_conv_take_nth_drop)
    moreover have "drop (Suc x) cs = cs ! Suc x # drop (x + 2) cs"
      using assms(2) by (simp add: Cons_nth_drop_Suc)
    ultimately show ?thesis using assms(2) by (simp add: list_update_append)
  qed
  ultimately show ?thesis by simp
qed

lemma flagged_split:
  assumes "row_ok cs" "x < length cs"
  shows "row_ok (if cflags (cs ! x) \<noteq> 0 then splitWide cs x else cs)"
    and "plain ((if cflags (cs ! x) \<noteq> 0 then splitWide cs x else cs) ! x)"
  using assms splitWide_ok splitWide_plain by (auto simp: flags_eq_0 row_okD(1))

lemma length_glyph_cells [simp, len]: "length (glyph_cells r w x a cs) = length cs"
  by (simp add: glyph_cells_def Let_def)

lemma glyph_cells_ok:
  assumes "row_ok cs" "x < length cs" "w = 1 \<or> w = 2 \<and> x + 1 < length cs"
  shows "row_ok (glyph_cells r w x a cs)"
proof -
  define c1 where "c1 = (if cflags (cs ! x) \<noteq> 0 then splitWide cs x else cs)"
  have c1: "row_ok c1" "plain (c1 ! x)" "length c1 = length cs"
    using flagged_split [OF assms(1,2)] by (simp_all add: c1_def)
  show ?thesis
  proof (cases "w = 2")
    case False
    then show ?thesis
      using assms c1
      by (simp add: glyph_cells_def Let_def c1_def [symmetric] row_ok_update_plain cell_ok_def isPad_def)
  next
    case True
    with assms have x1: "x + 1 < length c1" using c1 by simp
    define c2 where "c2 = (if cflags (c1 ! (x + 1)) \<noteq> 0 then splitWide c1 (x + 1) else c1)"
    have c2: "row_ok c2" "plain (c2 ! (x + 1))" "length c2 = length cs"
      using flagged_split [OF c1(1) x1] c1 by (simp_all add: c2_def)
    have "\<not> isPad (c2 ! x)"
      using splitWide_cases [OF c1(1) x1, of x] c1 x1 by (auto simp: c2_def plain_def)
    moreover have "row_ok [\<lparr>rn = r, cflags = cellWide, ca = a, comb = []\<rparr>,
        \<lparr>rn = 0, cflags = cellPad, ca = a, comb = []\<rparr>]"
      by (rule wide_pair_ok) (simp_all add: cell_ok_def isWide_def isPad_def cellWide_def cellPad_def)
    ultimately have "row_ok (c2[x := \<lparr>rn = r, cflags = cellWide, ca = a, comb = []\<rparr>,
        x + 1 := \<lparr>rn = 0, cflags = cellPad, ca = a, comb = []\<rparr>])"
      using row_ok_update_wide c2 x1 c1 by simp
    then show ?thesis
      unfolding glyph_cells_def Let_def c1_def [symmetric] c2_def [symmetric] using True by simp
  qed
qed

lemma wf_advance:
  "wf s \<Longrightarrow> 0 < w \<Longrightarrow> wf (advance w s)"
  by (auto simp: advance_def wf_def)

lemma wf_last: "wf s \<Longrightarrow> w = 1 \<or> w = 2 \<Longrightarrow> wf (s\<lparr>lastRune := r, lastWidth := w\<rparr>)"
  by (auto simp: wf_def)

lemma blank_ok [simp]: "cell_ok (blank s)" "plain (blank s)"
  by (simp_all add: blank_def)

lemma wf_glyph_store:
  assumes "wf s" "w = 1 \<or> w = 2 \<and> cx s + 1 < cols s"
  shows "wf (glyph_store r w s)"
proof -
  define c0 where
    "c0 = (if Insert (modes s) then insertCells (blank s) (cells (buf s ! cy s)) (cx s) w
           else cells (buf s ! cy s))"
  have r: "length (cells (buf s ! cy s)) = cols s" "row_ok (cells (buf s ! cy s))"
    using assms wf_row wfD(4) by auto
  then have "length c0 = cols s" "row_ok c0"
    using wfD(3) [OF assms(1)] by (simp_all add: c0_def insertCells_ok)
  then have "line_ok (cols s) \<lparr>cells = glyph_cells r w (cx s) (pen s) c0, used = True\<rparr>"
    using assms wfD(3) [OF assms(1)] by (auto simp: line_ok_def intro!: glyph_cells_ok)
  then show ?thesis
    unfolding glyph_store_def Let_def c0_def [symmetric]
    using assms by (intro wf_advance wf_last wf_set_line) auto
qed

lemma wf_wrap_pending [wf_ops]: "wf s \<Longrightarrow> wf (wrap_pending s)"
  by (auto simp: wrap_pending_def intro!: wf_index wf_cx [of "s\<lparr>pendingWrap := False\<rparr>", simplified]
      wf_pendingWrap dest: wfD(1))

lemma pendingWrap_wrap_pending [simp]: "\<not> pendingWrap (wrap_pending s)"
  by (simp add: wrap_pending_def)

lemma wf_printGlyph [wf_ops]:
  assumes "wf s" "w = 1 \<or> w = 2"
  shows "wf (printGlyph r w s)"
proof (cases "w = 2 \<and> cols s < 2")
  case True
  then show ?thesis using assms by (simp add: printGlyph_def)
next
  case False
  define s1 where "s1 = wrap_pending s"
  have s1: "wf s1" "\<not> pendingWrap s1" "cols s1 = cols s"
    using assms by (simp_all add: s1_def wf_wrap_pending)
  have i: "wf (index (s1\<lparr>cx := 0\<rparr>))"
    using s1 wfD(1) [OF s1(1)] by (intro wf_index wf_cx) auto
  have st1: "w = 2 \<Longrightarrow> wf (glyph_store r w (index (s1\<lparr>cx := 0\<rparr>)))"
    using i False s1 by (intro wf_glyph_store) auto
  have st2: "\<not> (w = 2 \<and> cx s1 = cols s1 - 1) \<Longrightarrow> wf (glyph_store r w s1)"
    using s1 assms(2) wfD(3) [OF s1(1)] by (intro wf_glyph_store) auto
  show ?thesis
    using False s1 st1 st2 by (auto simp: printGlyph_def Let_def s1_def [symmetric])
qed

lemma wf_cx_pending:
  "wf s \<Longrightarrow> x < cols s \<Longrightarrow> wf (s\<lparr>cx := x, pendingWrap := False\<rparr>)"
  "wf s \<Longrightarrow> wf (s\<lparr>cx := cols s - Suc 0, pendingWrap := Autowrap (modes s)\<rparr>)"
  by (auto simp: wf_def)

lemma prevCellX_Some:
  assumes "wf s" "prevCellX s = Some x"
  shows "x < cols s" "\<not> isPad (cells (buf s ! cy s) ! x)"
proof -
  have r: "row_ok (cells (buf s ! cy s))" "length (cells (buf s ! cy s)) = cols s"
    using assms wf_row wfD(4) by auto
  have v: "(if pendingWrap s then cols s else cx s) \<le> cols s" using wfD(3) [OF assms(1)] by auto
  show "x < cols s"
    using assms(2) v by (auto simp: prevCellX_def Let_def split: if_splits)
  then show "\<not> isPad (cells (buf s ! cy s) ! x)"
    using assms(2) row_okD(4) [OF r(1)] r(2) by (auto simp: prevCellX_def Let_def split: if_splits)
qed

lemma wf_widen [wf_ops]:
  assumes "wf s" "\<not> isPad (cells (buf s ! cy s) ! x)" "\<not> isWide (cells (buf s ! cy s) ! x)"
  shows "wf (widen x s)"
proof (cases "x + 1 < cols s")
  case False
  then show ?thesis using assms by (simp add: widen_def)
next
  case True
  define c0 where "c0 = cells (buf s ! cy s)"
  define c1 where "c1 = (if cflags (c0 ! (x + 1)) \<noteq> 0 then splitWide c0 (x + 1) else c0)"
  have r: "row_ok c0" "length c0 = cols s"
    using assms wf_row wfD(4) by (auto simp: c0_def)
  have x1: "x + 1 < length c0" using True r by simp
  have c1: "row_ok c1" "plain (c1 ! (x + 1))" "length c1 = cols s"
    using flagged_split [OF r(1) x1] r by (simp_all add: c1_def)
  have cx0: "c1 ! x = cell0 \<or> c1 ! x = c0 ! x"
    using splitWide_cases [OF r(1) x1, of x] x1 by (auto simp: c1_def)
  have np: "\<not> isPad (c1 ! x)" and nw: "\<not> isWide (c1 ! x)"
    using cx0 assms by (auto simp: c0_def)
  have ok: "cell_ok (c1 ! x)" using row_okD(1) [OF c1(1)] c1(3) True by simp
  let ?c = "(c1 ! x)\<lparr>cflags := cellWide\<rparr>"
  let ?p = "\<lparr>rn = 0, cflags = cellPad, ca = ca (c1[x := ?c] ! x), comb = []\<rparr>"
  have "row_ok [?c, ?p]"
    using ok by (intro wide_pair_ok) (auto simp: cell_ok_def isWide_def isPad_def cellWide_def cellPad_def)
  then have "row_ok (c1[x := ?c, x + 1 := ?p])"
    using row_ok_update_wide c1 True np by simp
  then have "wf (set_line (cy s) ((buf s ! cy s)\<lparr>cells := c1[x := ?c, x + 1 := ?p]\<rparr>) s)"
    using assms(1) c1(3) by (intro wf_set_line) (simp_all add: line_ok_def)
  note t = wf_cx_pending(1) [OF this, simplified frame] wf_cx_pending(2) [OF this, simplified frame]
  show ?thesis
    unfolding widen_def Let_def c0_def [symmetric] c1_def [symmetric]
    using True t wfD(3) [OF assms(1)] by auto
qed

lemma line_ok_comb:
  assumes "wf s" "prevCellX s = Some x" "cell_ok c"
    and "cflags c = cflags (cells (buf s ! cy s) ! x)"
  shows "line_ok (cols s) ((buf s ! cy s)\<lparr>cells := (cells (buf s ! cy s))[x := c]\<rparr>)"
proof -
  let ?cs = "cells (buf s ! cy s)"
  have r: "row_ok ?cs" "length ?cs = cols s" using assms wf_row wfD(4) by auto
  have x: "x < length ?cs" using prevCellX_Some [OF assms(1,2)] r by simp
  have w: "isWide (?cs[x := c] ! i) = isWide (?cs ! i)" "isPad (?cs[x := c] ! i) = isPad (?cs ! i)" for i
    using x assms(4) by (auto simp: nth_list_update isWide_def isPad_def)
  have k: "cell_ok (?cs[x := c] ! i)" if "i < length ?cs" for i
    using row_okD(1) [OF r(1) that] assms(3) x by (cases "i = x") simp_all
  have "row_ok (?cs[x := c])"
  proof (rule row_okI)
    fix i assume "i < length (?cs[x := c])"
    then have i: "i < length ?cs" by simp
    show "cell_ok (?cs[x := c] ! i)" using k i by simp
    show "isWide (?cs[x := c] ! i) \<Longrightarrow> i + 1 < length (?cs[x := c]) \<and> isPad (?cs[x := c] ! (i + 1))"
      using row_okD(2) [OF r(1) i] by (simp only: w length_list_update)
    show "isPad (?cs[x := c] ! i) \<Longrightarrow> 0 < i \<and> isWide (?cs[x := c] ! (i - 1))"
      using row_okD(3) [OF r(1) i] by (simp only: w)
  qed
  then show ?thesis using r by (simp add: line_ok_def)
qed

lemma valid_rune_len: "valid_rune r \<Longrightarrow> rune_len r = int (length (encode_rune r))"
  by (simp add: length_encode)

lemma wf_combine [wf_ops]:
  assumes "wf s" "valid_rune r"
  shows "wf (combine r s)"
proof (cases "prevCellX s")
  case None
  then show ?thesis using assms by (simp add: combine_def)
next
  case (Some x)
  let ?ln = "buf s ! cy s"
  let ?c = "cells ?ln ! x"
  define c1 where "c1 = (if rn ?c = 0 then ?c\<lparr>rn := 0x20\<rparr> else ?c)"
  define c2 where "c2 = c1\<lparr>comb := comb c1 @ encode_rune r\<rparr>"
  let ?s1 = "set_line (cy s) \<lparr>cells = (cells ?ln)[x := c2], used = True\<rparr> s"
  note p = prevCellX_Some [OF assms(1) Some]
  have y: "cy s < length (buf s)" using assms wf_length_buf wfD(4) by simp
  have xl: "x < length (cells ?ln)" using p assms wf_row wfD(4) by simp
  show ?thesis
  proof (cases "int (length (comb ?c)) + rune_len r > int maxComb")
    case True
    then show ?thesis using Some assms by (simp add: combine_def Let_def)
  next
    case False
    have "cell_ok ?c" using assms wf_row wfD(4) xl row_okD(1) by auto
    moreover have fl: "cflags c2 = cflags ?c" by (simp add: c2_def c1_def)
    ultimately have "cell_ok c2"
      using False p assms(2) by (auto simp: c1_def c2_def cell_ok_def valid_rune_len isPad_def)
    then have "line_ok (cols s) \<lparr>cells = (cells ?ln)[x := c2], used = True\<rparr>"
      using line_ok_comb [OF assms(1) Some, of c2] fl by (simp add: line_ok_def)
    then have s1: "wf ?s1" using assms by (intro wf_set_line)
    have "wf (widen x ?s1)" if "\<not> isWide c2"
      using s1 p xl y that fl by (intro wf_widen) (auto simp: isWide_def isPad_def)
    then show ?thesis
      unfolding combine_def Some option.case Let_def c1_def [symmetric] c2_def [symmetric]
      using Some False s1 by simp
  qed
qed

lemma wf_joinPrev [wf_ops]:
  assumes "wf s" "valid_rune r"
  shows "wf (snd (joinPrev r s))"
proof (cases "prevCellX s")
  case None
  then show ?thesis using assms by (simp add: joinPrev_def)
next
  case (Some x)
  let ?ln = "buf s ! cy s"
  let ?c = "cells ?ln ! x"
  note p = prevCellX_Some [OF assms(1) Some]
  have y: "cy s < length (buf s)" using assms wf_length_buf wfD(4) by simp
  have xl: "x < length (cells ?ln)" using p assms wf_row wfD(4) by simp
  have ok: "cell_ok ?c" using assms wf_row wfD(4) xl row_okD(1) by auto
  have j: "wf (set_line (cy s) (?ln\<lparr>cells := (cells ?ln)[x := ?c\<lparr>comb := comb ?c @ encode_rune r\<rparr>]\<rparr>) s)"
    if "int (length (comb ?c)) + rune_len r \<le> int maxComb" "comb ?c \<noteq> []"
    using assms that ok
    by (intro wf_set_line line_ok_comb [OF assms(1) Some])
       (auto simp: cell_ok_def valid_rune_len isPad_def)
  have f: "wf (widen x (set_line (cy s) (?ln\<lparr>cells := (cells ?ln)[x := ?c\<lparr>comb := encode_rune r\<rparr>]\<rparr>) s))"
    if "isRegionalIndicator (rn ?c)" "\<not> isWide ?c"
  proof (rule wf_widen)
    have "length (encode_rune r) \<le> maxComb"
      using assms(2) by (simp add: encode_rune_def enc2_def enc3_def enc4_def maxComb_def)
    then show "wf (set_line (cy s) (?ln\<lparr>cells := (cells ?ln)[x := ?c\<lparr>comb := encode_rune r\<rparr>]\<rparr>) s)"
      using assms ok that p
      by (intro wf_set_line line_ok_comb [OF assms(1) Some])
         (auto simp: cell_ok_def isPad_def isRegionalIndicator_def)
  qed (use p y xl that in \<open>auto simp: isWide_def isPad_def\<close>)
  have z: "ends_with_zwj (comb ?c) \<Longrightarrow> comb ?c \<noteq> []" by (auto simp: ends_with_zwj_def)
  show ?thesis
    using Some j f assms z by (auto simp: joinPrev_def Let_def)
qed

lemma wf_printRune [wf_ops]:
  assumes "wf s" "valid_rune r"
  shows "wf (printRune r s)"
proof -
  obtain j s1 where j: "joinPrev r s = (j, s1)" by (cases "joinPrev r s") auto
  have "wf s1" using wf_joinPrev [OF assms] j by simp
  moreover have "RuneWidth r \<noteq> 0 \<Longrightarrow> RuneWidth r = 1 \<or> RuneWidth r = 2"
    using RuneWidth_cases [of r] by auto
  ultimately show ?thesis
    using assms by (auto simp: printRune_def Let_def j intro!: wf_ops)
qed

section \<open>Erasing\<close>

lemma wf_eraseCells [wf_ops]:
  assumes "wf s" "y < rows s"
  shows "wf (eraseCells y x0 x1 s)"
  using wf_row [OF assms] assms
  by (auto simp: eraseCells_def Let_def line_ok_def intro!: wf_set_line eraseRow_ok)

lemma wf_eraseLines [wf_ops]:
  assumes "wf s" "b \<le> rows s"
  shows "wf (eraseLines a b s)"
proof -
  have "wf (fold eraseLine ys s) \<and> rows (fold eraseLine ys s) = rows s" if "\<forall>y \<in> set ys. y < rows s" for ys
    using that assms(1)
  proof (induction ys arbitrary: s)
    case (Cons y ys)
    then have "wf (eraseLine y s)" by (simp add: eraseLine_def wf_eraseCells)
    then show ?case using Cons.IH [of "eraseLine y s"] Cons.prems by simp
  qed simp
  then show ?thesis using assms(2) by (simp add: eraseLines_def)
qed

lemma wf_clearToHistory [wf_ops]: "wf s \<Longrightarrow> wf (clearToHistory s)"
  by (auto simp: clearToHistory_def Let_def pushes_eq [of _ s] intro!: wf_hscrolled wf_eraseLines
      wf_pushes [unfolded pushes_eq])

lemma wf_eraseDisplay [wf_ops]:
  assumes "wf s"
  shows "wf (eraseDisplay m s)"
proof -
  have "wf (s\<lparr>shist := hist_clear (shist s), hscrolled := 0\<rparr>)"
    using assms by (simp add: wf_def)
  then show ?thesis
    using assms wfD(4) [OF assms]
    by (auto simp: eraseDisplay_def intro!: wf_pendingWrap wf_eraseLines wf_eraseCells wf_clearToHistory)
qed

lemma wf_eraseInLine [wf_ops]: "wf s \<Longrightarrow> wf (eraseInLine m s)"
  using wfD(4) by (auto simp: eraseInLine_def intro!: wf_pendingWrap wf_eraseCells)

section \<open>Cursor, tabs, lines\<close>

lemma nat_clamp: "0 < n \<Longrightarrow> nat (clampInt v 0 (int n - 1)) < n"
  by (auto simp: clampInt_def)

lemma wf_moveTo [wf_ops]: "wf s \<Longrightarrow> wf (moveTo x y s)"
  by (simp add: moveTo_def wf_def nat_clamp)

lemma wf_moveToOrigin [wf_ops]: "wf s \<Longrightarrow> wf (moveToOrigin x y s)"
  by (simp add: moveToOrigin_def wf_moveTo)

lemma wf_cursorUp [wf_ops]: "wf s \<Longrightarrow> wf (cursorUp n s)"
  by (simp add: cursorUp_def Let_def wf_moveTo)

lemma wf_cursorDown [wf_ops]: "wf s \<Longrightarrow> wf (cursorDown n s)"
  by (simp add: cursorDown_def Let_def wf_moveTo)

lemma wf_carriageReturn [wf_ops]: "wf s \<Longrightarrow> wf (carriageReturn s)"
  by (simp add: carriageReturn_def wf_def)

lemma wf_backspace [wf_ops]: "wf s \<Longrightarrow> wf (backspace s)"
  by (auto simp: backspace_def wf_def)

lemma skip_to_tab_bounds: "x \<le> m \<Longrightarrow> x \<le> skip_to_tab ts m x \<and> skip_to_tab ts m x \<le> m"
proof (induction ts m x rule: skip_to_tab.induct)
  case (1 ts m x)
  show ?case
  proof (cases "x < m \<and> \<not> ts ! x")
    case True
    then show ?thesis using 1 by (simp add: skip_to_tab.simps [of ts m x])
  next
    case False
    then show ?thesis using 1 by (auto simp: skip_to_tab.simps [of ts m x])
  qed
qed

lemma tab_forward_bounds:
  "x \<le> m \<Longrightarrow> x \<le> tab_forward_loop ts m n x \<and> tab_forward_loop ts m n x \<le> m"
proof (induction n arbitrary: x)
  case (Suc n)
  show ?case
  proof (cases "x < m")
    case True
    define y where "y = skip_to_tab ts m (Suc x)"
    have "x + 1 \<le> y" "y \<le> m" using skip_to_tab_bounds [of "Suc x" m ts] True by (simp_all add: y_def)
    then show ?thesis using Suc.IH [of y] True by (simp add: y_def [symmetric])
  qed (use Suc.prems in simp)
qed simp

lemma skip_back_le: "skip_back_to_tab ts x \<le> x"
  by (induction x) auto

lemma tab_backward_le: "tab_backward_loop ts n x \<le> x"
proof (induction n arbitrary: x)
  case (Suc n)
  then show ?case
    using skip_back_le [of ts "x - 1"] le_trans [OF Suc.IH [of "skip_back_to_tab ts (x - 1)"]] by auto
qed simp

lemma wf_tabForward [wf_ops]:
  assumes "wf s"
  shows "wf (tabForward n s)"
proof -
  have "cx s \<le> cols s - 1" using wfD(3) [OF assms] by simp
  then show ?thesis
    using assms tab_forward_bounds [of "cx s" "cols s - 1" "tabs s" n] wfD(1) [OF assms]
    by (auto simp: tabForward_def intro!: wf_cx)
qed

lemma wf_tabBackward [wf_ops]:
  assumes "wf s"
  shows "wf (tabBackward n s)"
  using assms tab_backward_le [of "tabs s" n "cx s"] wfD(3) [OF assms]
  by (simp add: tabBackward_def wf_def)

lemma wf_insertLines [wf_ops]: "wf s \<Longrightarrow> wf (insertLines n s)"
  by (simp add: insertLines_def wf_ops)

lemma wf_deleteLines [wf_ops]: "wf s \<Longrightarrow> wf (deleteLines n s)"
  by (simp add: deleteLines_def wf_ops)

section \<open>Save, restore, reset, construction\<close>

lemma wf_saveCursor [wf_ops]: "wf s \<Longrightarrow> wf (saveCursor s)"
  by (simp add: saveCursor_def Let_def wf_def saved_ok_def)

lemma ascii_sets_length [simp]: "length ascii_sets = 4"
  by (simp add: ascii_sets_def)

lemma saved_zero_ok: "0 < c \<Longrightarrow> 0 < r \<Longrightarrow> saved_ok c r saved_zero"
  by (simp add: saved_ok_def saved_zero_def)

lemma slot_ok: "wf s \<Longrightarrow> saved_ok (cols s) (rows s) (slot s)"
  by (simp add: slot_def wf_def)

lemma wf_restoreCursor [wf_ops]:
  assumes "wf s"
  shows "wf (restoreCursor s)"
proof -
  define sc where "sc = (if sc_valid (slot s) then slot s else saved_zero\<lparr>sc_g := ascii_sets\<rparr>)"
  have "length (sc_g sc) = 4" "sc_gl sc < 4"
    using slot_ok [OF assms] by (simp_all add: sc_def saved_ok_def saved_zero_def)
  then show ?thesis
    using assms by (simp add: restoreCursor_def Let_def sc_def [symmetric] wf_def nat_clamp)
qed

lemma wf_switchBuffer [wf_ops]: "wf s \<Longrightarrow> wf (snd (switchBuffer b s))"
  by (simp add: switchBuffer_def wf_def)

lemma wf_clear_alt [wf_ops]: "wf s \<Longrightarrow> wf (s\<lparr>altb := clearBuffer (blank t) (altb s)\<rparr>)"
  by (simp add: wf_def buf_ok_clear)

lemma wf_alignmentTest [wf_ops]:
  assumes "wf s"
  shows "wf (alignmentTest s)"
proof -
  have e: "cell_ok (cell0\<lparr>rn := 0x45\<rparr>)" "plain (cell0\<lparr>rn := 0x45\<rparr>)"
    by (simp_all add: cell_ok_def isPad_def)
  have b: "buf_ok (cols s) (rows s)
      (map (\<lambda>l. l\<lparr>cells := map (\<lambda>_. cell0\<lparr>rn := 0x45\<rparr>) (cells l), used := True\<rparr>) (buf s))"
    using wf_buf [OF assms] row_ok_const [OF e]
    by (auto simp: buf_ok_def line_ok_def list_all_iff)
  show ?thesis
    unfolding alignmentTest_def Let_def
    using wf_set_buf [OF assms b] assms by (intro wf_moveTo) (simp add: wf_def)
qed

lemma wf_resetState_gen:
  assumes "0 < cols s" "int (cols s) \<le> maxDim" "0 < rows s" "int (rows s) \<le> maxDim"
    "buf_ok (cols s) (rows s) (mainb s)" "buf_ok (cols s) (rows s) (altb s)" "hist_ok (shist s)"
  shows "wf (resetState s)"
  using assms by (simp add: resetState_def resetTabs_def wf_def saved_zero_ok)

lemma wf_resetState [wf_ops]: "wf s \<Longrightarrow> wf (resetState s)"
  by (rule wf_resetState_gen) (simp_all add: wf_def)

lemma wf_fullReset [wf_ops]:
  assumes "wf s"
  shows "wf (fullReset s)"
proof -
  define s3 where "s3 = (let s1 = snd (switchBuffer False s)
    in s1\<lparr>altb := clearBuffer (blank s1) (altb s1), pen := attr0\<rparr>)"
  have "wf (snd (switchBuffer False s))" using assms by (rule wf_switchBuffer)
  then have s3: "wf s3" by (simp add: s3_def Let_def wf_def buf_ok_clear)
  then have "wf (s3\<lparr>mainb := clearBuffer (blank s3) (mainb s3)\<rparr>)"
    by (simp add: wf_def buf_ok_clear)
  then show ?thesis
    using s3 by (auto simp: fullReset_def Let_def s3_def intro!: wf_resetState wf_clearToHistory)
qed

lemma wf_softReset [wf_ops]: "wf s \<Longrightarrow> wf (softReset s)"
  by (simp add: softReset_def wf_def saved_zero_ok)

lemma wf_New: "wf (New c r h)"
proof -
  have d: "0 < nat (clampInt v 1 maxDim)" "int (nat (clampInt v 1 maxDim)) \<le> maxDim" for v
    by (auto simp: clampInt_def maxDim_def)
  show ?thesis
    unfolding New_def clampSize_def
    using d by (auto intro!: wf_resetState_gen simp: buf_ok_new hist_ok_def)
qed

end
