(* ===== verification/Params.thy ===== *)
theory Params
  imports Cells
begin

text \<open>
  CSI parameters and Select Graphic Rendition (\<open>internal/vt/csi.go\<close>): \<open>params\<close> with its parser
  and accessors, and \<open>sgr\<close>, which applies a parsed parameter list to the pen. The fixed arrays
  of Go's struct are lists as long as their fill counts \<open>n\<close> and \<open>tn\<close>; a value is -1 when
  omitted. The bounds proved here are what makes the saturated 32-bit arithmetic safe.
\<close>

section \<open>Parameters\<close>

definition maxParams :: nat where "maxParams = 32"
definition maxParamValue :: int where "maxParamValue = 65535"

record params =
  pv :: "int list"
  psub :: "bool list"
  ptop :: "nat list"

definition params0 :: params where
  "params0 = \<lparr>pv = [], psub = [], ptop = []\<rparr>"

definition flush :: "int \<Rightarrow> bool \<Rightarrow> bool \<Rightarrow> params \<Rightarrow> params" where
  "flush cur hv isSub p =
     (if length (pv p) < maxParams then
        \<lparr>pv = pv p @ [if hv then cur else -1], psub = psub p @ [isSub],
         ptop = (if isSub then ptop p else ptop p @ [length (pv p)])\<rparr>
      else p)"

text \<open>One digit of a parameter value, saturating.\<close>

definition accum :: "int \<Rightarrow> byte \<Rightarrow> int" where
  "accum cur c =
     (if cur < maxParamValue then
        (let v = cur * 10 + (uint c - 48) in if v > maxParamValue then maxParamValue else v)
      else cur)"

fun parse_loop :: "byte list \<Rightarrow> int \<Rightarrow> bool \<Rightarrow> bool \<Rightarrow> params \<Rightarrow> params option" where
  "parse_loop [] cur hv isSub p = Some (flush cur hv isSub p)"
| "parse_loop (c # b) cur hv isSub p =
     (if is_digit c then parse_loop b (accum cur c) True isSub p
      else if c = bc CHR '';'' then parse_loop b 0 False False (flush cur hv isSub p)
      else if c = bc CHR '':'' then parse_loop b 0 False True (flush cur hv isSub p)
      else if c = 0x7f then parse_loop b cur hv isSub p
      else None)"

definition parse :: "byte list \<Rightarrow> params option" where
  "parse b = (if b = [] then Some params0 else parse_loop b 0 False False params0)"

definition arg :: "params \<Rightarrow> nat \<Rightarrow> int \<Rightarrow> int" where
  "arg p i def =
     (if i \<ge> length (ptop p) then def
      else let v = pv p ! (ptop p ! i) in if v < 0 then def else v)"

definition count :: "params \<Rightarrow> nat \<Rightarrow> int" where
  "count p i = (let v = arg p i 1 in if v = 0 then 1 else v)"

section \<open>Bounds\<close>

definition params_ok :: "params \<Rightarrow> bool" where
  "params_ok p \<longleftrightarrow> length (pv p) \<le> maxParams \<and> length (psub p) = length (pv p)
     \<and> (\<forall>v \<in> set (pv p). -1 \<le> v \<and> v \<le> maxParamValue)
     \<and> (\<forall>i \<in> set (ptop p). i < length (pv p)) \<and> length (ptop p) \<le> length (pv p)"

lemma params0_ok [simp]: "params_ok params0"
  by (simp add: params_ok_def params0_def)

lemma flush_ok:
  "params_ok p \<Longrightarrow> 0 \<le> cur \<Longrightarrow> cur \<le> maxParamValue \<Longrightarrow> params_ok (flush cur hv isSub p)"
  by (auto simp: params_ok_def flush_def maxParamValue_def less_Suc_eq)

lemma digit_value: "is_digit c \<Longrightarrow> 0 \<le> uint c - 48 \<and> uint c - 48 \<le> 9"
  by (simp add: is_digit_def word_le_def)

lemma accum_bounds:
  assumes "0 \<le> cur" "cur \<le> maxParamValue" "is_digit c"
  shows "0 \<le> accum cur c \<and> accum cur c \<le> maxParamValue"
  using assms digit_value [OF assms(3)] by (auto simp: accum_def Let_def maxParamValue_def)

lemma parse_loop_ok:
  "parse_loop b cur hv isSub p = Some q \<Longrightarrow> params_ok p \<Longrightarrow> 0 \<le> cur \<Longrightarrow> cur \<le> maxParamValue \<Longrightarrow>
   params_ok q"
proof (induction b cur hv isSub p rule: parse_loop.induct)
  case (2 c b cur hv isSub p)
  show ?case
  proof (cases "is_digit c")
    case True
    then show ?thesis using 2 accum_bounds [of cur c] by simp
  next
    case False
    then show ?thesis
      using 2 flush_ok [of p cur hv isSub] by (auto split: if_splits simp: maxParamValue_def)
  qed
qed (auto simp: flush_ok)

lemma parse_ok: "parse b = Some p \<Longrightarrow> params_ok p"
  using parse_loop_ok [of b 0 False False params0 p]
  by (auto simp: parse_def maxParamValue_def split: if_splits)

lemma arg_bounds:
  assumes "params_ok p" "-1 \<le> d" "d \<le> maxParamValue"
  shows "-1 \<le> arg p i d \<and> arg p i d \<le> maxParamValue"
proof (cases "i < length (ptop p)")
  case True
  then have "ptop p ! i < length (pv p)" using assms(1) by (auto simp: params_ok_def)
  then have "pv p ! (ptop p ! i) \<in> set (pv p)" by simp
  then show ?thesis using assms by (auto simp: arg_def Let_def params_ok_def)
qed (use assms in \<open>simp add: arg_def\<close>)

lemma arg_nonneg: "0 \<le> d \<Longrightarrow> 0 \<le> arg p i d"
  by (simp add: arg_def Let_def)

lemma count_bounds:
  assumes "params_ok p"
  shows "1 \<le> count p i \<and> count p i \<le> maxParamValue"
  using arg_bounds [OF assms, of 1 i] arg_nonneg [of 1 p i]
  by (auto simp: count_def Let_def maxParamValue_def)

section \<open>Select Graphic Rendition\<close>

fun rgb_loop :: "int list \<Rightarrow> color \<Rightarrow> color option" where
  "rgb_loop [] c = Some c"
| "rgb_loop (x # xs) c =
     (let x1 = (if x < 0 then 0 else x)
      in if x1 > 255 then None else rgb_loop xs (push_bit 8 c OR word_of_int x1))"

text \<open>\<open>None\<close> stands for \<open>(0, false)\<close>.\<close>

definition extColor :: "int list \<Rightarrow> bool \<Rightarrow> color option" where
  "extColor subs colon =
     (if subs = [] then None
      else if subs ! 0 = 5 then
        (if length subs \<ge> 2 \<and> subs ! 1 \<ge> 0 \<and> subs ! 1 \<le> 255
         then Some (colorIndexed OR word_of_int (subs ! 1)) else None)
      else if subs ! 0 = 2 then
        (let rgb = drop 1 subs;
             rgb1 = (if colon \<and> length rgb \<ge> 4 then drop 1 rgb else rgb)
         in if length rgb1 \<ge> 3
            then (case rgb_loop (take 3 rgb1) 0 of None \<Rightarrow> None | Some c \<Rightarrow> Some (colorRGB OR c))
            else None)
      else None)"

definition extColorSemi :: "params \<Rightarrow> nat \<Rightarrow> color option \<times> nat" where
  "extColorSemi p i =
     (let n = length (pv p); v = pv p
      in if i \<ge> n then (None, 0)
         else if v ! i = 5 then
           (if i + 1 < n then (extColor [5, v ! (i + 1)] False, 2) else (None, 0))
         else if v ! i = 2 then
           (if i + 3 < n then (extColor [2, v ! (i + 1), v ! (i + 2), v ! (i + 3)] False, 4)
            else (None, 0))
         else (None, 0))"

text \<open>The cases of \<open>sgr\<close> that touch the pen without reading further parameters.\<close>

definition sgr_simple :: "int \<Rightarrow> int list \<Rightarrow> attr \<Rightarrow> attr" where
  "sgr_simple v subs a =
     (if v \<le> 0 then attr0
      else if v = 1 then a\<lparr>aflags := aflags a OR attrBold\<rparr>
      else if v = 2 then a\<lparr>aflags := aflags a OR attrDim\<rparr>
      else if v = 3 then a\<lparr>aflags := aflags a OR attrItalic\<rparr>
      else if v = 4 then
        (if subs = [] then a\<lparr>ul := 1\<rparr>
         else if subs ! 0 \<le> 0 then a\<lparr>ul := 0\<rparr>
         else if subs ! 0 \<le> 5 then a\<lparr>ul := word_of_int (subs ! 0)\<rparr>
         else a\<lparr>ul := 1\<rparr>)
      else if v = 5 \<or> v = 6 then a\<lparr>aflags := aflags a OR attrBlink\<rparr>
      else if v = 7 then a\<lparr>aflags := aflags a OR attrReverse\<rparr>
      else if v = 8 then a\<lparr>aflags := aflags a OR attrInvisible\<rparr>
      else if v = 9 then a\<lparr>aflags := aflags a OR attrStrike\<rparr>
      else if v = 21 then a\<lparr>ul := 2\<rparr>
      else if v = 22 then a\<lparr>aflags := aflags a AND NOT (attrBold OR attrDim)\<rparr>
      else if v = 23 then a\<lparr>aflags := aflags a AND NOT attrItalic\<rparr>
      else if v = 24 then a\<lparr>ul := 0\<rparr>
      else if v = 25 then a\<lparr>aflags := aflags a AND NOT attrBlink\<rparr>
      else if v = 27 then a\<lparr>aflags := aflags a AND NOT attrReverse\<rparr>
      else if v = 28 then a\<lparr>aflags := aflags a AND NOT attrInvisible\<rparr>
      else if v = 29 then a\<lparr>aflags := aflags a AND NOT attrStrike\<rparr>
      else if 30 \<le> v \<and> v \<le> 37 then a\<lparr>fg := colorIndexed OR word_of_int (v - 30)\<rparr>
      else if v = 39 then a\<lparr>fg := colorDefault\<rparr>
      else if 40 \<le> v \<and> v \<le> 47 then a\<lparr>bg := colorIndexed OR word_of_int (v - 40)\<rparr>
      else if v = 49 then a\<lparr>bg := colorDefault\<rparr>
      else if v = 53 then a\<lparr>aflags := aflags a OR attrOverline\<rparr>
      else if v = 55 then a\<lparr>aflags := aflags a AND NOT attrOverline\<rparr>
      else if v = 59 then a\<lparr>ulc := colorDefault\<rparr>
      else if 90 \<le> v \<and> v \<le> 97 then a\<lparr>fg := colorIndexed OR word_of_int (v - 90 + 8)\<rparr>
      else if 100 \<le> v \<and> v \<le> 107 then a\<lparr>bg := colorIndexed OR word_of_int (v - 100 + 8)\<rparr>
      else a)"

definition set_color :: "int \<Rightarrow> color option \<Rightarrow> attr \<Rightarrow> attr" where
  "set_color v oc a =
     (case oc of None \<Rightarrow> a
      | Some c \<Rightarrow> (if v = 38 then a\<lparr>fg := c\<rparr> else if v = 48 then a\<lparr>bg := c\<rparr> else a\<lparr>ulc := c\<rparr>))"

text \<open>The index after parameter \<open>i\<close> and its sub-parameters.\<close>

definition sub_end :: "params \<Rightarrow> nat \<Rightarrow> nat" where
  "sub_end p i = i + 1 + length (takeWhile (\<lambda>b. b) (drop (i + 1) (psub p)))"

function sgr_loop :: "params \<Rightarrow> nat \<Rightarrow> attr \<Rightarrow> attr" where
  "sgr_loop p i a =
     (if i \<ge> length (pv p) then a
      else let v = pv p ! i; j = sub_end p i; subs = slice (i + 1) j (pv p)
           in if v = 38 \<or> v = 48 \<or> v = 58 then
                (if subs \<noteq> [] then sgr_loop p j (set_color v (extColor subs True) a)
                 else let (oc, n) = extColorSemi p j
                      in if n = 0 then a else sgr_loop p (j + n) (set_color v oc a))
              else sgr_loop p j (sgr_simple v subs a))"
  by pat_completeness auto
termination
  by (relation "measure (\<lambda>(p, i, a). length (pv p) - i)") (auto simp: sub_end_def)

declare sgr_loop.simps [simp del]

definition sgr :: "params \<Rightarrow> attr \<Rightarrow> attr" where
  "sgr p a = (if pv p = [] then attr0 else sgr_loop p 0 a)"

end
