(* ===== verification/Render.thy ===== *)
theory Render
  imports Screen Params
begin

text \<open>
  \<open>internal/vt/render.go\<close>: the bytes that repaint the active buffer on another terminal. Go's
  functions append to a buffer \<open>b\<close>; here each returns the bytes it appends. In \<open>appendSGR\<close> the
  closure \<open>sep\<close>, which writes a semicolon before every parameter but the first, is \<open>join_with\<close>
  over the list of parameters the function appends.
\<close>

section \<open>SGR\<close>

definition CSI_intro :: "byte list" where "CSI_intro = [ESC, bc CHR ''['']"

definition appendRGB :: "color \<Rightarrow> byte \<Rightarrow> byte list" where
  "appendRGB c sep =
     itoa (uint (drop_bit 16 c AND 0xff)) @ [sep] @ itoa (uint (drop_bit 8 c AND 0xff)) @ [sep]
     @ itoa (uint (c AND 0xff))"

definition appendColor :: "color \<Rightarrow> int \<Rightarrow> int \<Rightarrow> byte list \<Rightarrow> byte list" where
  "appendColor c base brightBase ext =
     (if c AND colorKind = colorIndexed then
        (let i = uint (c AND 0xff)
         in if i < 8 then itoa (base + i)
            else if i < 16 then itoa (brightBase + i - 8)
            else ext @ bs '';5;'' @ itoa i)
      else if c AND colorKind = colorRGB then ext @ bs '';2;'' @ appendRGB c (bc CHR '';'')
      else itoa (base + 9))"

definition sgrFlags :: "(16 word \<times> byte list) list" where
  "sgrFlags = [(attrBold, bs ''1''), (attrDim, bs ''2''), (attrItalic, bs ''3''), (attrBlink, bs ''5''),
     (attrReverse, bs ''7''), (attrInvisible, bs ''8''), (attrStrike, bs ''9''), (attrOverline, bs ''53'')]"

definition needs_reset :: "attr \<Rightarrow> attr \<Rightarrow> bool" where
  "needs_reset from to \<longleftrightarrow>
     to = attr0 \<or> aflags from AND NOT (aflags to) \<noteq> 0 \<or> ul from \<noteq> 0 \<and> ul to = 0
     \<or> fg from \<noteq> 0 \<and> fg to = 0 \<or> bg from \<noteq> 0 \<and> bg to = 0 \<or> ulc from \<noteq> 0 \<and> ulc to = 0"

definition flag_codes :: "attr \<Rightarrow> attr \<Rightarrow> byte list list" where
  "flag_codes from to =
     map snd (filter (\<lambda>(f, code). aflags to AND f \<noteq> 0 \<and> aflags from AND f = 0) sgrFlags)"

definition ulc_code :: "color \<Rightarrow> byte list" where
  "ulc_code c =
     (if c AND colorKind = colorIndexed then bs ''58:5:'' @ itoa (uint (c AND 0xff))
      else if c AND colorKind = colorRGB then bs ''58:2::'' @ appendRGB c (bc CHR '':'')
      else [])"

definition sgr_codes :: "attr \<Rightarrow> attr \<Rightarrow> byte list list" where
  "sgr_codes from0 to =
     (let reset = needs_reset from0 to; from = (if reset then attr0 else from0)
      in (if reset then [bs ''0''] else [])
         @ flag_codes from to
         @ (if ul to \<noteq> ul from
            then [if ul to = 1 then bs ''4'' else bs ''4:'' @ itoa (uint (ul to))] else [])
         @ (if fg to \<noteq> fg from then [appendColor (fg to) 30 90 (bs ''38'')] else [])
         @ (if bg to \<noteq> bg from then [appendColor (bg to) 40 100 (bs ''48'')] else [])
         @ (if ulc to \<noteq> ulc from then [ulc_code (ulc to)] else []))"

definition appendSGR :: "attr \<Rightarrow> attr \<Rightarrow> byte list" where
  "appendSGR from to =
     (if from = to then []
      else CSI_intro @ join_with [bc CHR '';''] (sgr_codes from to) @ [bc CHR ''m''])"

section \<open>The repaint\<close>

definition appendCellText :: "cell \<Rightarrow> byte list" where
  "appendCellText c = (if rn c = 0 then [0x20] else encode_rune (rn c) @ comb c)"

definition appendCUP :: "int \<Rightarrow> int \<Rightarrow> byte list" where
  "appendCUP row col =
     CSI_intro @ itoa row @ (if col \<noteq> 1 then bc CHR '';'' # itoa col else []) @ [bc CHR ''H'']"

definition appendMode :: "int \<Rightarrow> bool \<Rightarrow> byte list" where
  "appendMode mode on =
     ESC # bs ''[?'' @ itoa mode @ [if on then bc CHR ''h'' else bc CHR ''l'']"

text \<open>A cell drawn with the rendition \<open>cur\<close> in force, and a row of them.\<close>

definition render_cell :: "attr \<Rightarrow> cell \<Rightarrow> byte list" where
  "render_cell cur c = (if ca c \<noteq> cur then appendSGR cur (ca c) else []) @ appendCellText c"

fun render_cells :: "attr \<Rightarrow> cell list \<Rightarrow> byte list \<times> attr" where
  "render_cells cur [] = ([], cur)"
| "render_cells cur (c # cs) =
     (if isPad c then render_cells cur cs
      else let (b, cur1) = render_cells (ca c) cs in (render_cell cur c @ b, cur1))"

definition render_row :: "attr \<Rightarrow> nat \<Rightarrow> cell list \<Rightarrow> byte list \<times> attr" where
  "render_row cur y cs =
     (let shown = rstrip (\<lambda>c. c = cell0) cs
      in if shown = [] then ([], cur)
         else let (b, cur1) = render_cells cur shown in (appendCUP (int y + 1) 1 @ b, cur1))"

fun render_rows :: "attr \<Rightarrow> nat \<Rightarrow> line list \<Rightarrow> byte list \<times> attr" where
  "render_rows cur y [] = ([], cur)"
| "render_rows cur y (l # ls) =
     (let (b1, cur1) = render_row cur y (cells l); (b2, cur2) = render_rows cur1 (y + 1) ls
      in (b1 @ b2, cur2))"

definition render_prologue :: "byte list" where
  "render_prologue =
     (ESC # bs ''[?25l'') @ (ESC # bs ''[?6l'') @ (ESC # bs ''[r'') @ (ESC # bs ''[4l'')
     @ (ESC # bs ''[?7h'') @ (ESC # bs ''(B'') @ (ESC # bs '')B'') @ (ESC # bs ''*B'')
     @ (ESC # bs ''+B'') @ [0x0f] @ (ESC # bs ''[0m'') @ (ESC # bs ''[H'') @ (ESC # bs ''[2J'')"

text \<open>The cursor: with a wrap pending, the last glyph of the row is drawn again.\<close>

definition render_cursor :: "attr \<Rightarrow> screen \<Rightarrow> byte list \<times> attr" where
  "render_cursor cur s =
     (let rowBase = (if OriginMode (modes s) then int (rtop s) else 0);
          row = max (int (cy s) - rowBase) 0
      in if pendingWrap s then
           (let cs = cells (buf s ! cy s); x0 = cols s - 1;
                x = (if isPad (cs ! x0) \<and> x0 > 0 then x0 - 1 else x0); c = cs ! x
            in (appendCUP (row + 1) (int x + 1) @ render_cell cur c, ca c))
         else (appendCUP (row + 1) (int (cx s) + 1), cur))"

definition render_modes :: "screen \<Rightarrow> byte list" where
  "render_modes s =
     (let m = modes s in
       (if Insert m then ESC # bs ''[4h'' else [])
       @ (if \<not> Autowrap m then ESC # bs ''[?7l'' else [])
       @ appendMode 1 (AppCursor m)
       @ (if AppKeypad m then ESC # bs ''='' else ESC # bs ''>'')
       @ appendMode 2004 (BracketedPaste m)
       @ appendMode 1004 (FocusEvents m)
       @ (ESC # bs ''[?9;1000;1002;1003l'')
       @ (if MouseTracking m \<noteq> 0 then appendMode (MouseTracking m) True else [])
       @ (ESC # bs ''[?1005;1006;1015;1016l'')
       @ (if MouseEncoding m \<noteq> 0 then appendMode (MouseEncoding m) True else [])
       @ CSI_intro @ itoa (cursorStyle s) @ bs '' q'')"

definition render_charsets :: "screen \<Rightarrow> byte list" where
  "render_charsets s =
     concat (map (\<lambda>i. if g s ! i = bc CHR ''0'' then [ESC, bs ''()*+'' ! i, bc CHR ''0''] else [])
               [0..<length (g s)])
     @ (if gl s = 1 then [0x0e] else if gl s = 2 then ESC # bs ''n''
        else if gl s = 3 then ESC # bs ''o'' else [])"

definition appendRender :: "screen \<Rightarrow> byte list" where
  "appendRender s =
     (let (drawn, cur1) = render_rows attr0 0 (buf s);
          region = (if rtop s \<noteq> 0 \<or> rbot s \<noteq> rows s - 1
                    then CSI_intro @ itoa (int (rtop s) + 1) @ [bc CHR '';'']
                         @ itoa (int (rbot s) + 1) @ [bc CHR ''r'']
                    else []);
          origin = (if OriginMode (modes s) then ESC # bs ''[?6h'' else []);
          (cursor, cur2) = render_cursor cur1 s
      in render_prologue @ drawn @ region @ origin @ cursor @ render_modes s @ render_charsets s
         @ appendSGR cur2 (pen s)
         @ (if title s \<noteq> [] then (ESC # bs '']2;'') @ title s @ [BEL] else [])
         @ (if CursorVisible (modes s) then ESC # bs ''[?25h'' else []))"

definition Render :: "screen \<Rightarrow> byte list" where
  "Render s = appendRender s"

end
