(* ===== verification/Terminal.thy ===== *)
theory Terminal
  imports Screen_WF Render
begin

text \<open>
  The full state of Go's \<open>Screen\<close> with its parser (\<open>internal/vt/parser.go\<close>) and the execution
  of complete sequences: the CSI dispatch of \<open>csi.go\<close>, the ESC dispatch, and the OSC, DCS and
  APC strings. \<open>out\<close> and \<open>reply\<close> are the two streams the current \<open>Feed\<close> builds.
\<close>

section \<open>State\<close>

datatype pstate = stGround | stEsc | stEscInter | stCSI | stString | stStringEsc

definition maxString :: nat where "maxString = 64 * 1024"
definition maxCSI :: nat where "maxCSI = 512"

text \<open>\<open>ubuf\<close> holds the first \<open>un\<close> bytes of Go's array: an incomplete UTF-8 sequence.\<close>

record terminal =
  scr :: screen
  pst :: pstate
  seq :: "byte list"
  strKind :: byte
  strOverflow :: bool
  csiOverflow :: bool
  ubuf :: "byte list"
  discardForward :: bool
  out :: "byte list"
  reply :: "byte list"

definition on_scr :: "(screen \<Rightarrow> screen) \<Rightarrow> terminal \<Rightarrow> terminal" where
  "on_scr f t = t\<lparr>scr := f (scr t)\<rparr>"

definition emit :: "byte list \<Rightarrow> terminal \<Rightarrow> terminal" where
  "emit b t = t\<lparr>out := out t @ b\<rparr>"

definition respond :: "byte list \<Rightarrow> terminal \<Rightarrow> terminal" where
  "respond b t = t\<lparr>reply := reply t @ b\<rparr>"

section \<open>Replies\<close>

definition da1Reply :: "byte list" where "da1Reply = ESC # bs ''[?1;2c''"
definition da2Reply :: "byte list" where "da2Reply = ESC # bs ''[>0;10;1c''"
definition xtVerRep :: "byte list" where "xtVerRep = ESC # bs ''P>|pairmux'' @ [ESC, 0x5c]"

definition appendCPR :: "screen \<Rightarrow> bool \<Rightarrow> byte list" where
  "appendCPR s private =
     (let row = int (cy s) + 1;
          row1 = (if OriginMode (modes s) then row - int (rtop s) else row)
      in CSI_intro @ (if private then [bc CHR ''?''] else []) @ itoa row1 @ [bc CHR '';'']
         @ itoa (int (cx s) + 1) @ [bc CHR ''R''])"

definition appendReport :: "int \<Rightarrow> int \<Rightarrow> int \<Rightarrow> byte list" where
  "appendReport code a c =
     CSI_intro @ itoa code @ [bc CHR '';''] @ itoa a @ [bc CHR '';''] @ itoa c @ [bc CHR ''t'']"

definition windowOp :: "params \<Rightarrow> terminal \<Rightarrow> bool \<times> terminal" where
  "windowOp p t =
     (let s = scr t; a = arg p 0 0; r = int (rows s); c = int (cols s)
      in if a = 11 then (False, respond (ESC # bs ''[1t'') t)
         else if a = 13 then (False, respond (ESC # bs ''[3;0;0t'') t)
         else if a = 14 then (False, respond (appendReport 4 (r * 16) (c * 8)) t)
         else if a = 15 then (False, respond (appendReport 5 (r * 16) (c * 8)) t)
         else if a = 16 then (False, respond (ESC # bs ''[6;16;8t'') t)
         else if a = 18 then (False, respond (appendReport 8 r c) t)
         else if a = 19 then (False, respond (appendReport 9 r c) t)
         else if a = 22 \<or> a = 23 then (True, t)
         else (False, t))"

definition mode_value :: "screen \<Rightarrow> bool \<Rightarrow> int \<Rightarrow> int" where
  "mode_value s private mode =
     (let m = modes s; f = (\<lambda>v. if v then 1 else 2)
      in if private then
           (if mode = 1 then f (AppCursor m)
            else if mode = 6 then f (OriginMode m)
            else if mode = 7 then f (Autowrap m)
            else if mode = 9 \<or> mode = 1000 \<or> mode = 1002 \<or> mode = 1003 then f (MouseTracking m = mode)
            else if mode = 25 then f (CursorVisible m)
            else if mode = 47 \<or> mode = 1047 \<or> mode = 1049 then f (altActive s)
            else if mode = 66 then f (AppKeypad m)
            else if mode = 1004 then f (FocusEvents m)
            else if mode = 1005 \<or> mode = 1006 \<or> mode = 1015 \<or> mode = 1016
            then f (MouseEncoding m = mode)
            else if mode = 2004 then f (BracketedPaste m)
            else 0)
         else if mode = 4 then f (Insert m) else 0)"

definition reportMode :: "screen \<Rightarrow> bool \<Rightarrow> int \<Rightarrow> byte list" where
  "reportMode s private mode =
     CSI_intro @ (if private then [bc CHR ''?''] else []) @ itoa mode @ [bc CHR '';'']
     @ itoa (mode_value s private mode) @ bs ''$y''"

section \<open>DEC private modes\<close>

definition isFilteredDECMode :: "int \<Rightarrow> bool" where
  "isFilteredDECMode v \<longleftrightarrow> v = 3 \<or> v = 47 \<or> v = 1047 \<or> v = 1049 \<or> v = 9001"

definition setDECMode :: "int \<Rightarrow> bool \<Rightarrow> screen \<Rightarrow> screen" where
  "setDECMode v on s =
     (let m = modes s
      in if v = 1 then s\<lparr>modes := m\<lparr>AppCursor := on\<rparr>\<rparr>
         else if v = 6 then moveToOrigin 0 0 (s\<lparr>modes := m\<lparr>OriginMode := on\<rparr>\<rparr>)
         else if v = 7 then
           s\<lparr>modes := m\<lparr>Autowrap := on\<rparr>, pendingWrap := (if on then pendingWrap s else False)\<rparr>
         else if v = 9 \<or> v = 1000 \<or> v = 1002 \<or> v = 1003 then
           s\<lparr>modes := m\<lparr>MouseTracking := (if on then v else 0)\<rparr>\<rparr>
         else if v = 25 then s\<lparr>modes := m\<lparr>CursorVisible := on\<rparr>\<rparr>
         else if v = 66 then s\<lparr>modes := m\<lparr>AppKeypad := on\<rparr>\<rparr>
         else if v = 1004 then s\<lparr>modes := m\<lparr>FocusEvents := on\<rparr>\<rparr>
         else if v = 1005 \<or> v = 1006 \<or> v = 1015 \<or> v = 1016 then
           s\<lparr>modes := m\<lparr>MouseEncoding := (if on then v else 0)\<rparr>\<rparr>
         else if v = 1048 then (if on then saveCursor s else restoreCursor s)
         else if v = 2004 then s\<lparr>modes := m\<lparr>BracketedPaste := on\<rparr>\<rparr>
         else s)"

record cursorState =
  cs_x :: nat
  cs_y :: nat
  cs_pendingWrap :: bool
  cs_pen :: attr
  cs_origin :: bool
  cs_g :: "byte list"
  cs_gl :: nat

definition cursorState :: "screen \<Rightarrow> cursorState" where
  "cursorState s = \<lparr>cs_x = cx s, cs_y = cy s, cs_pendingWrap = pendingWrap s, cs_pen = pen s,
     cs_origin = OriginMode (modes s), cs_g = g s, cs_gl = gl s\<rparr>"

definition clear_alt :: "screen \<Rightarrow> screen" where
  "clear_alt s = s\<lparr>altb := clearBuffer (blank s) (altb s)\<rparr>"

text \<open>The switch itself, with the value of \<open>changed\<close>.\<close>

definition alt_switch :: "int \<Rightarrow> bool \<Rightarrow> screen \<Rightarrow> bool \<times> screen" where
  "alt_switch v on s =
     (if v = 47 then switchBuffer on s
      else if v = 1047 \<and> on then switchBuffer True s
      else if v = 1047 then switchBuffer False (if altActive s then clear_alt s else s)
      else if v = 1049 \<and> on then
        (let s1 = saveCursor s
         in if \<not> altActive s1 then switchBuffer True (clear_alt s1) else (False, s1))
      else if v = 1049 then
        (let (changed, s1) = switchBuffer False s; s2 = restoreCursor s1
         in (changed \<or> cursorState s2 \<noteq> cursorState s, s2))
      else (False, s))"

definition altScreen :: "int \<Rightarrow> bool \<Rightarrow> terminal \<Rightarrow> terminal" where
  "altScreen v on t =
     (let (changed, s1) = alt_switch v on (scr t); t1 = t\<lparr>scr := s1\<rparr>
      in if changed then emit (appendRender s1) t1 else t1)"

text \<open>\<open>decset\<close>: the closure \<open>flush\<close> emits the modes kept so far as a sequence of their own.\<close>

definition decset_flush :: "int list \<Rightarrow> bool \<Rightarrow> terminal \<Rightarrow> terminal" where
  "decset_flush keep on t =
     (if keep = [] then t
      else emit ((ESC # bs ''[?'') @ join_with [bc CHR '';''] (map itoa keep)
                 @ [if on then bc CHR ''h'' else bc CHR ''l'']) t)"

fun decset_loop :: "int list \<Rightarrow> bool \<Rightarrow> int list \<Rightarrow> terminal \<Rightarrow> terminal" where
  "decset_loop [] on keep t = decset_flush keep on t"
| "decset_loop (v # vs) on keep t =
     (if v = -1 \<or> v = 3 \<or> v = 9001 then decset_loop vs on keep t
      else if v = 47 \<or> v = 1047 \<or> v = 1049
      then decset_loop vs on [] (altScreen v on (decset_flush keep on t))
      else decset_loop vs on (keep @ [v]) (on_scr (setDECMode v on) t))"

definition top_args :: "params \<Rightarrow> int list" where
  "top_args p = map (\<lambda>i. arg p i (-1)) [0..<length (ptop p)]"

definition decset :: "params \<Rightarrow> bool \<Rightarrow> terminal \<Rightarrow> bool \<times> terminal" where
  "decset p on t =
     (if \<not> list_ex isFilteredDECMode (top_args p)
      then (True, on_scr (\<lambda>s. foldl (\<lambda>s v. setDECMode v on s) s (top_args p)) t)
      else (False, decset_loop (top_args p) on [] t))"

section \<open>CSI dispatch\<close>

definition edit_row :: "(screen \<Rightarrow> cell list \<Rightarrow> cell list) \<Rightarrow> screen \<Rightarrow> screen" where
  "edit_row f s =
     (let s1 = s\<lparr>pendingWrap := False\<rparr>; ln = buf s1 ! cy s1
      in set_line (cy s1) (ln\<lparr>cells := f s1 (cells ln)\<rparr>) s1)"

definition repeatRune :: "nat \<Rightarrow> screen \<Rightarrow> screen" where
  "repeatRune n s = (if lastRune s \<noteq> 0 then (printGlyph (lastRune s) (lastWidth s) ^^ n) s else s)"

definition setMargins :: "params \<Rightarrow> screen \<Rightarrow> screen" where
  "setMargins p s =
     (let tp = count p 0 - 1; b0 = arg p 1 0 - 1;
          bt = (if b0 < 0 \<or> b0 \<ge> int (rows s) then int (rows s) - 1 else b0)
      in if tp < bt then moveToOrigin 0 0 (s\<lparr>rtop := nat tp, rbot := nat bt\<rparr>) else s)"

definition clearTabs :: "int \<Rightarrow> screen \<Rightarrow> screen" where
  "clearTabs a s =
     (if a = 0 then s\<lparr>tabs := (tabs s)[cx s := False]\<rparr>
      else if a = 3 then s\<lparr>tabs := map (\<lambda>_. False) (tabs s)\<rparr>
      else s)"

definition setAnsiModes :: "params \<Rightarrow> bool \<Rightarrow> screen \<Rightarrow> screen" where
  "setAnsiModes p on s =
     foldl (\<lambda>s v. if v = 4 then s\<lparr>modes := (modes s)\<lparr>Insert := on\<rparr>\<rparr> else s) s (top_args p)"

text \<open>The cases of \<open>csiPlain\<close> that only change the screen, and then forward the sequence.\<close>

definition csiScreen :: "byte \<Rightarrow> params \<Rightarrow> screen \<Rightarrow> screen" where
  "csiScreen final p s =
     (let n = count p 0
      in if final = bc CHR ''A'' then cursorUp n s
         else if final = bc CHR ''B'' \<or> final = bc CHR ''e'' then cursorDown n s
         else if final = bc CHR ''C'' \<or> final = bc CHR ''a'' then moveTo (int (cx s) + n) (int (cy s)) s
         else if final = bc CHR ''D'' then moveTo (int (cx s) - n) (int (cy s)) s
         else if final = bc CHR ''E'' then (cursorDown n s)\<lparr>cx := 0\<rparr>
         else if final = bc CHR ''F'' then (cursorUp n s)\<lparr>cx := 0\<rparr>
         else if final = bc CHR ''G'' \<or> final = 0x60 then moveTo (n - 1) (int (cy s)) s
         else if final = bc CHR ''H'' \<or> final = bc CHR ''f'' then moveToOrigin (count p 1 - 1) (n - 1) s
         else if final = bc CHR ''d'' then
           (if OriginMode (modes s) then moveToOrigin (int (cx s)) (n - 1) s
            else moveTo (int (cx s)) (n - 1) s)
         else if final = bc CHR ''I'' then tabForward (nat n) s
         else if final = bc CHR ''Z'' then tabBackward (nat n) s
         else if final = bc CHR ''J'' then eraseDisplay (arg p 0 0) s
         else if final = bc CHR ''K'' then eraseInLine (arg p 0 0) s
         else if final = bc CHR ''@'' then edit_row (\<lambda>s cs. insertCells (blank s) cs (cx s) (nat n)) s
         else if final = bc CHR ''P'' then edit_row (\<lambda>s cs. deleteCells (blank s) cs (cx s) (nat n)) s
         else if final = bc CHR ''X'' then
           eraseCells (cy s) (cx s) (cx s + nat n) (s\<lparr>pendingWrap := False\<rparr>)
         else if final = bc CHR ''L'' then insertLines (nat n) s
         else if final = bc CHR ''M'' then deleteLines (nat n) s
         else if final = bc CHR ''S'' then scrollUp (rtop s) (rbot s) (nat n) True s
         else if final = bc CHR ''T'' then
           (if length (ptop p) \<le> 1 then scrollDown (rtop s) (rbot s) (nat n) s else s)
         else if final = bc CHR ''b'' then repeatRune (nat n) s
         else if final = bc CHR ''r'' then setMargins p s
         else if final = bc CHR ''s'' then (if pv p = [] then saveCursor s else s)
         else if final = bc CHR ''u'' then (if pv p = [] then restoreCursor s else s)
         else if final = bc CHR ''g'' then clearTabs (arg p 0 0) s
         else if final = bc CHR ''m'' then s\<lparr>pen := sgr p (pen s)\<rparr>
         else if final = bc CHR ''h'' \<or> final = bc CHR ''l'' then setAnsiModes p (final = bc CHR ''h'') s
         else s)"

definition csiPlain :: "byte \<Rightarrow> params \<Rightarrow> terminal \<Rightarrow> bool \<times> terminal" where
  "csiPlain final p t =
     (if final = bc CHR ''n'' then
        (False, if arg p 0 0 = 5 then respond (ESC # bs ''[0n'') t
                else if arg p 0 0 = 6 then respond (appendCPR (scr t) False) t
                else t)
      else if final = bc CHR ''c'' then (False, if arg p 0 0 = 0 then respond da1Reply t else t)
      else if final = bc CHR ''t'' then windowOp p t
      else if final = bc CHR ''x'' then (False, t)
      else (True, on_scr (csiScreen final p) t))"

definition csiPrivate :: "byte \<Rightarrow> params \<Rightarrow> terminal \<Rightarrow> bool \<times> terminal" where
  "csiPrivate final p t =
     (if final = bc CHR ''h'' \<or> final = bc CHR ''l'' then decset p (final = bc CHR ''h'') t
      else if final = bc CHR ''J'' then (True, on_scr (eraseDisplay (arg p 0 0)) t)
      else if final = bc CHR ''K'' then (True, on_scr (eraseInLine (arg p 0 0)) t)
      else if final = bc CHR ''n'' then
        (False, if arg p 0 0 = 6 then respond (appendCPR (scr t) True) t else t)
      else if final = bc CHR ''u'' \<or> final = bc CHR ''S'' \<or> final = bc CHR ''m'' \<or> final = bc CHR ''c''
      then (False, t)
      else if final = bc CHR ''W'' then (True, if arg p 0 0 = 5 then on_scr resetTabs t else t)
      else (True, t))"

definition csiOtherPrivate :: "byte \<Rightarrow> byte \<Rightarrow> params \<Rightarrow> terminal \<Rightarrow> bool \<times> terminal" where
  "csiOtherPrivate priv final p t =
     (if final = bc CHR ''c'' then
        (False, if priv = bc CHR ''>'' \<and> arg p 0 0 = 0 then respond da2Reply t else t)
      else if final = bc CHR ''q'' \<and> priv = bc CHR ''>'' \<and> arg p 0 0 = 0 then (False, respond xtVerRep t)
      else if final = bc CHR ''u'' then (False, t)
      else (True, t))"

definition csiIntermediate :: "byte \<Rightarrow> byte \<Rightarrow> byte \<Rightarrow> params \<Rightarrow> terminal \<Rightarrow> bool \<times> terminal" where
  "csiIntermediate priv im final p t =
     (if im = 0x20 \<and> final = bc CHR ''q'' \<and> priv = 0 then
        (True, if arg p 0 0 \<le> 6 then on_scr (\<lambda>s. s\<lparr>cursorStyle := arg p 0 0\<rparr>) t else t)
      else if im = bc CHR ''$'' \<and> final = bc CHR ''p'' \<and> (priv = 0 \<or> priv = bc CHR ''?'') then
        (False, respond (reportMode (scr t) (priv = bc CHR ''?'') (arg p 0 0)) t)
      else if im = bc CHR ''!'' \<and> final = bc CHR ''p'' \<and> priv = 0 then (True, on_scr softReset t)
      else (True, t))"

definition is_param_byte :: "byte \<Rightarrow> bool" where
  "is_param_byte b \<longleftrightarrow> 0x30 \<le> b \<and> b \<le> 0x3f \<or> b = 0x7f"

definition is_inter_byte :: "byte \<Rightarrow> bool" where
  "is_inter_byte b \<longleftrightarrow> 0x20 \<le> b \<and> b \<le> 0x2f"

text \<open>\<open>dispatchCSI\<close> in two parts: \<open>split_private\<close> takes off a private marker, \<open>execCSI\<close> does the
  rest.\<close>

definition execCSI :: "byte \<Rightarrow> byte \<Rightarrow> byte list \<Rightarrow> terminal \<Rightarrow> bool \<times> terminal" where
  "execCSI priv final body t =
     (let pbytes = takeWhile is_param_byte body;
          inter = dropWhile is_param_byte body
      in if list_ex (\<lambda>c. \<not> is_inter_byte c \<and> c \<noteq> 0x7f) inter then (True, t)
         else case parse pbytes of
             None \<Rightarrow> (True, t)
           | Some p \<Rightarrow>
               if length inter > 1 then (True, t)
               else let im = (if length inter = 1 then inter ! 0 else 0)
                    in if im = 0 \<and> priv = 0 then csiPlain final p t
                       else if im = 0 \<and> priv = bc CHR ''?'' then csiPrivate final p t
                       else if im = 0 then csiOtherPrivate priv final p t
                       else csiIntermediate priv im final p t)"

definition split_private :: "byte list \<Rightarrow> byte \<times> byte list" where
  "split_private body =
     (if body \<noteq> [] \<and> 0x3c \<le> hd body \<and> hd body \<le> 0x3f then (hd body, tl body) else (0, body))"

definition dispatchCSI :: "terminal \<Rightarrow> bool \<times> terminal" where
  "dispatchCSI t =
     (let body0 = drop 2 (seq t); final = last body0; (priv, body) = split_private (butlast body0)
      in execCSI priv final body t)"

section \<open>ESC dispatch\<close>

definition passSeq :: "terminal \<Rightarrow> terminal" where
  "passSeq t = emit (seq t) t"

definition no_last :: "screen \<Rightarrow> screen" where
  "no_last s = s\<lparr>lastRune := 0\<rparr>"

text \<open>The cases of \<open>dispatchEsc\<close> that change the screen and then forward the sequence.\<close>

definition escScreen :: "byte \<Rightarrow> screen \<Rightarrow> screen" where
  "escScreen final s =
     (if final = bc CHR ''7'' then saveCursor s
      else if final = bc CHR ''8'' then restoreCursor s
      else if final = bc CHR ''D'' then index (s\<lparr>pendingWrap := False\<rparr>)
      else if final = bc CHR ''E'' then index (carriageReturn s)
      else if final = bc CHR ''M'' then reverseIndex (s\<lparr>pendingWrap := False\<rparr>)
      else if final = bc CHR ''='' then s\<lparr>modes := (modes s)\<lparr>AppKeypad := True\<rparr>\<rparr>
      else if final = bc CHR ''>'' then s\<lparr>modes := (modes s)\<lparr>AppKeypad := False\<rparr>\<rparr>
      else if final = bc CHR ''H'' then s\<lparr>tabs := (tabs s)[cx s := True]\<rparr>
      else if final = bc CHR ''n'' then s\<lparr>gl := 2\<rparr>
      else if final = bc CHR ''o'' then s\<lparr>gl := 3\<rparr>
      else s)"

definition dispatchEsc :: "byte \<Rightarrow> terminal \<Rightarrow> terminal" where
  "dispatchEsc final t0 =
     (let t = on_scr no_last t0
      in if final = bc CHR ''c'' then
           (let t1 = on_scr fullReset t in emit (appendRender (scr t1)) t1)
         else if final = bc CHR ''Z'' then respond da1Reply t
         else passSeq (on_scr (escScreen final) t))"

definition designate :: "byte \<Rightarrow> byte \<Rightarrow> screen \<Rightarrow> screen" where
  "designate i final s =
     (if i \<in> {bc CHR ''('', bc CHR '')'', bc CHR ''*'', bc CHR ''+''} then
        s\<lparr>g := (g s)[unat (i - bc CHR ''('') :=
                      (if final = bc CHR ''0'' then bc CHR ''0'' else bc CHR ''B'')]\<rparr>
      else if i \<in> {bc CHR ''-'', bc CHR ''.'', bc CHR ''/''} then
        s\<lparr>g := (g s)[unat (i - bc CHR '','') := bc CHR ''B'']\<rparr>
      else if i = bc CHR ''#'' then (if final = bc CHR ''8'' then alignmentTest s else s)
      else s)"

definition dispatchEscInter :: "terminal \<Rightarrow> terminal" where
  "dispatchEscInter t0 =
     (let t = on_scr no_last t0; inter = butlast (drop 1 (seq t)); final = last (seq t)
      in passSeq (if length inter = 1 then on_scr (designate (inter ! 0) final) t else t))"

section \<open>OSC, DCS, APC\<close>

definition oscColorReplies :: "int \<Rightarrow> byte list option" where
  "oscColorReplies k =
     (if k = 10 then Some (bs ''rgb:c0c0/c0c0/c0c0'')
      else if k = 11 then Some (bs ''rgb:0000/0000/0000'')
      else if k = 12 then Some (bs ''rgb:c0c0/c0c0/c0c0'')
      else None)"

function sanitize_loop :: "byte list \<Rightarrow> byte list \<Rightarrow> byte list" where
  "sanitize_loop [] acc = acc"
| "sanitize_loop (b # bl) acc =
     (let (r, n) = decode_rune (b # bl); rest = drop n (b # bl)
      in if r < 0x20 \<or> 0x7f \<le> r \<and> r < 0xa0 then sanitize_loop rest acc
         else if int (length acc) + rune_len r > 1024 then acc
         else sanitize_loop rest (acc @ encode_rune r))"
  by pat_completeness auto
termination
proof (relation "measure (\<lambda>(p, acc). length p)", goal_cases)
  case (2 b bl acc z r n rest)
  then have "snd (decode_rune (b # bl)) = n" by (metis snd_conv)
  then have "0 < n" using decode_rune_size_pos [of "b # bl"] by simp
  then show ?case using 2 by simp
next
  case (3 b bl acc z r n rest)
  then have "snd (decode_rune (b # bl)) = n" by (metis snd_conv)
  then have "0 < n" using decode_rune_size_pos [of "b # bl"] by simp
  then show ?case using 3 by simp
qed simp

definition sanitizeTitle :: "byte list \<Rightarrow> byte list" where
  "sanitizeTitle p = sanitize_loop p []"

text \<open>The index loop \<open>for i := 1; i < len(parts); i += 2\<close>.\<close>

fun palette_query :: "byte list list \<Rightarrow> bool" where
  "palette_query (a # b # parts) = (b = bs ''?'' \<or> palette_query parts)"
| "palette_query parts = False"

fun color_replies :: "bool \<Rightarrow> int \<Rightarrow> byte list list \<Rightarrow> byte list" where
  "color_replies st num [] = []"
| "color_replies st num (part # parts) =
     (if part = bs ''?'' then
        (case oscColorReplies num of None \<Rightarrow> []
         | Some v \<Rightarrow> [ESC, bc CHR '']''] @ itoa num @ [bc CHR '';''] @ v
             @ (if st then [ESC, 0x5c] else [BEL]))
      else []) @ color_replies st (num + 1) parts"

definition cut_semi :: "byte list \<Rightarrow> byte list \<times> byte list" where
  "cut_semi payload =
     (case index_of (bc CHR '';'') payload of
        None \<Rightarrow> (payload, []) | Some k \<Rightarrow> (take k payload, drop (k + 1) payload))"

text \<open>The switch of \<open>osc\<close> on the number, then \<open>osc\<close>.\<close>

definition oscNum :: "int \<Rightarrow> byte list \<Rightarrow> bool \<Rightarrow> terminal \<Rightarrow> bool \<times> terminal" where
  "oscNum num rest st t =
     (if num = 0 \<or> num = 2 then (True, on_scr (\<lambda>s. s\<lparr>title := sanitizeTitle rest\<rparr>) t)
      else if num = 4 then (\<not> palette_query (split_on (bc CHR '';'') rest), t)
      else if 10 \<le> num \<and> num \<le> 19 then
        (let parts = split_on (bc CHR '';'') rest
         in (\<not> list_ex (\<lambda>q. q = bs ''?'') parts, respond (color_replies st num parts) t))
      else if num = 52 then
        (case index_of (bc CHR '';'') rest of None \<Rightarrow> (True, t)
         | Some j \<Rightarrow> (drop (j + 1) rest \<noteq> bs ''?'', t))
      else (True, t))"

definition osc :: "byte list \<Rightarrow> bool \<Rightarrow> terminal \<Rightarrow> bool \<times> terminal" where
  "osc payload st t =
     (let (numPart, rest) = cut_semi payload
      in case atoi numPart of
           None \<Rightarrow> (True, t)
         | Some num \<Rightarrow>
             if numPart = [] \<or> \<not> is_digit (hd numPart) then (True, t) else oscNum num rest st t)"

definition dcs :: "byte list \<Rightarrow> terminal \<Rightarrow> bool \<times> terminal" where
  "dcs payload t =
     (let k = length (takeWhile (\<lambda>b. 0x30 \<le> b \<and> b \<le> 0x3f) payload);
          j = k + length (takeWhile is_inter_byte (drop k payload))
      in if j \<ge> length payload \<or> k \<noteq> 0 \<or> j - k \<noteq> 1 \<or> payload ! j \<noteq> bc CHR ''q'' then (True, t)
         else if payload ! k = bc CHR ''$'' then (False, respond (ESC # bs ''P0$r'' @ [ESC, 0x5c]) t)
         else if payload ! k = bc CHR ''+'' then (False, respond (ESC # bs ''P0+r'' @ [ESC, 0x5c]) t)
         else (True, t))"

definition isKittyGraphicsQuery :: "byte list \<Rightarrow> bool" where
  "isKittyGraphicsQuery payload =
     (if payload = [] \<or> hd payload \<noteq> bc CHR ''G'' then False
      else let ctrl0 = tl payload;
               ctrl = (case index_of (bc CHR '';'') ctrl0 of None \<Rightarrow> ctrl0 | Some k \<Rightarrow> take k ctrl0)
           in list_ex (\<lambda>kv. kv = bs ''a=q'') (split_on (bc CHR '','') ctrl))"

definition finishString :: "bool \<Rightarrow> terminal \<Rightarrow> terminal" where
  "finishString st t0 =
     (let t = on_scr no_last (t0\<lparr>pst := stGround\<rparr>);
          tm = (if st then 2 else 1);
          payload = slice 2 (length (seq t) - tm) (seq t);
          (pass, t1) =
            (if strKind t = bc CHR '']'' then osc payload st t
             else if strKind t = bc CHR ''P'' then dcs payload t
             else if strKind t = bc CHR ''_'' then (\<not> isKittyGraphicsQuery payload, t)
             else (True, t));
          t2 = (if pass then passSeq t1 else t1)
      in t2\<lparr>seq := []\<rparr>)"

end
