(* ===== verification/Parser.thy ===== *)
theory Parser
  imports Terminal
begin

text \<open>
  \<open>internal/vt/parser.go\<close>: the parser state machine that \<open>Feed\<close> runs over program output. Where
  Go's functions take a slice and an index and return the next index, these take and return the
  remaining input. \<open>feed_loop\<close> terminates because every round consumes input or moves an
  unconsumed byte to a state of lower rank. The scratch buffer and the trimming of large
  capacities in \<open>Feed\<close> have no effect on the streams and are left out.
\<close>

section \<open>Ground state\<close>

definition decGraphics :: "rune list" where
  "decGraphics = [0x00A0, 0x25C6, 0x2592, 0x2409, 0x240C, 0x240D, 0x240A, 0x00B0, 0x00B1, 0x2424, 0x240B,
     0x2518, 0x2510, 0x250C, 0x2514, 0x253C, 0x23BA, 0x23BB, 0x2500, 0x23BC, 0x23BD, 0x251C, 0x2524,
     0x2534, 0x252C, 0x2502, 0x2264, 0x2265, 0x03C0, 0x2260, 0x00A3, 0x00B7]"

definition printable :: "byte \<Rightarrow> bool" where
  "printable b \<longleftrightarrow> 0x20 \<le> b \<and> b < 0x7f"

definition glyph_rune :: "screen \<Rightarrow> byte \<Rightarrow> rune" where
  "glyph_rune s b =
     (let r = uint b
      in if g s ! gl s = bc CHR ''0'' \<and> r \<ge> 0x5f then decGraphics ! nat (r - 0x5f) else r)"

text \<open>The fast path of \<open>printASCII\<close>: a run that fits before the last column, in one loop.\<close>

definition run_cells :: "attr \<Rightarrow> byte list \<Rightarrow> cell list" where
  "run_cells a run = map (\<lambda>b. \<lparr>rn = uint b, cflags = 0, ca = a, comb = []\<rparr>) run"

definition store_run :: "attr \<Rightarrow> byte list \<Rightarrow> nat \<Rightarrow> cell list \<Rightarrow> cell list" where
  "store_run a run x cs =
     (let n = length run;
          c1 = (if isPad (cs ! x) then splitWide cs x else cs);
          c2 = (if isWide (c1 ! (x + n - 1)) then splitWide c1 (x + n - 1) else c1)
      in copy_at x (run_cells a run) c2)"

definition print_run :: "byte list \<Rightarrow> screen \<Rightarrow> screen" where
  "print_run run s =
     (set_line (cy s) \<lparr>cells = store_run (pen s) run (cx s) (cells (buf s ! cy s)), used = True\<rparr> s)
       \<lparr>cx := cx s + length run, lastRune := uint (last run), lastWidth := 1\<rparr>"

function printASCII :: "byte list \<Rightarrow> screen \<Rightarrow> screen" where
  "printASCII run s =
     (if run = [] then s
      else let n = min (length run) (cols s - 1 - cx s)
           in if n = 0 \<or> pendingWrap s \<or> Insert (modes s) \<or> g s ! gl s = bc CHR ''0''
              then printASCII (tl run) (printGlyph (glyph_rune s (hd run)) 1 s)
              else printASCII (drop n run) (print_run (take n run) s))"
  by pat_completeness auto
termination
  by (relation "measure (\<lambda>(run, s). length run)") auto

declare printASCII.simps [simp del]

definition control :: "byte \<Rightarrow> terminal \<Rightarrow> terminal" where
  "control b t0 =
     (let t = on_scr no_last t0
      in if b = 0x05 then t
         else emit [b]
           (if b = 0x08 then on_scr backspace t
            else if b = 0x09 then on_scr (tabForward 1) t
            else if b = 0x0a \<or> b = 0x0b \<or> b = 0x0c then on_scr (\<lambda>s. index (s\<lparr>pendingWrap := False\<rparr>)) t
            else if b = 0x0d then on_scr carriageReturn t
            else if b = 0x0e then on_scr (\<lambda>s. s\<lparr>gl := 1\<rparr>) t
            else if b = 0x0f then on_scr (\<lambda>s. s\<lparr>gl := 0\<rparr>) t
            else t))"

definition put_rune :: "rune \<Rightarrow> byte list \<Rightarrow> terminal \<Rightarrow> terminal" where
  "put_rune r b t = emit b (on_scr (printRune r) t)"

function finishRune :: "byte list \<Rightarrow> terminal \<Rightarrow> byte list \<times> terminal" where
  "finishRune p t =
     (if ubuf t = [] then (p, t)
      else let u = take 4 (ubuf t); n = length u; b = u @ take (4 - n) p
           in if \<not> full_rune b then (drop (4 - n) p, t\<lparr>ubuf := b\<rparr>)
              else let (r, size) = decode_rune b; t1 = put_rune r (take size b) t
                   in if size \<ge> n then (drop (size - n) p, t1\<lparr>ubuf := []\<rparr>)
                      else finishRune p (t1\<lparr>ubuf := drop size u\<rparr>))"
  by pat_completeness auto
termination
proof (relation "measure (\<lambda>(p, t). length (ubuf t))", goal_cases)
  case (2 p t u n b z r size t1)
  then have "snd (decode_rune b) = size" by (metis snd_conv)
  moreover have "b \<noteq> []" using 2 by auto
  ultimately have "0 < size" using decode_rune_size_pos by metis
  then show ?case using 2 by auto
qed simp

declare finishRune.simps [simp del]

function ground_loop :: "byte list \<Rightarrow> terminal \<Rightarrow> byte list \<times> terminal" where
  "ground_loop [] t = ([], t)"
| "ground_loop (b # q) t =
     (if printable b then
        (let run = takeWhile printable (b # q)
         in ground_loop (dropWhile printable (b # q)) (emit run (on_scr (printASCII run) t)))
      else if b = ESC then (q, t\<lparr>seq := [ESC], pst := stEsc\<rparr>)
      else if b < 0x20 then ground_loop q (control b t)
      else if b = 0x7f then ground_loop q (emit [b] t)
      else if \<not> full_rune (b # q) then ([], t\<lparr>ubuf := take 4 (b # q)\<rparr>)
      else let (r, n) = decode_rune (b # q)
           in ground_loop (drop n (b # q)) (put_rune r (take n (b # q)) t))"
  by pat_completeness auto
termination
proof (relation "measure (\<lambda>(p, t). length p)", goal_cases)
  case (2 b q t run)
  then show ?case by (simp add: le_imp_less_Suc length_dropWhile_le)
next
  case (5 b q t z r n)
  then have "snd (decode_rune (b # q)) = n" by (metis snd_conv)
  then have "0 < n" using decode_rune_size_pos [of "b # q"] by simp
  then show ?case by simp
qed simp_all

definition ground :: "byte list \<Rightarrow> terminal \<Rightarrow> byte list \<times> terminal" where
  "ground p t =
     (let (p1, t1) = (if ubuf t \<noteq> [] then finishRune p t else (p, t))
      in if ubuf t1 \<noteq> [] then (p1, t1) else ground_loop p1 t1)"

section \<open>Escape and CSI states\<close>

definition abortSeq :: "terminal \<Rightarrow> terminal" where
  "abortSeq t =
     (if \<not> csiOverflow t \<and> \<not> strOverflow t then emit (seq t) t else t)
       \<lparr>seq := [], csiOverflow := False, strOverflow := False, pst := stGround\<rparr>"

definition commonC0 :: "byte \<Rightarrow> terminal \<Rightarrow> bool \<times> terminal" where
  "commonC0 b t =
     (if b = ESC then (True, (abortSeq t)\<lparr>seq := [ESC], pst := stEsc\<rparr>)
      else if b = CAN \<or> b = SUB then (True, emit [b] (abortSeq t))
      else if b < 0x20 then (True, control b t)
      else (False, t))"

definition hold :: "byte \<Rightarrow> terminal \<Rightarrow> terminal" where
  "hold b t = t\<lparr>seq := seq t @ [b]\<rparr>"

definition string_intro :: "byte \<Rightarrow> bool" where
  "string_intro b \<longleftrightarrow> b \<in> {bc CHR '']'', bc CHR ''P'', bc CHR ''X'', bc CHR ''^'', bc CHR ''_''}"

definition escByte :: "byte \<Rightarrow> terminal \<Rightarrow> bool \<times> terminal" where
  "escByte b t =
     (let (common, t1) = commonC0 b t
      in if common then (True, t1)
         else if b = 0x7f then (True, hold b t)
         else if is_inter_byte b then (True, (hold b t)\<lparr>pst := stEscInter\<rparr>)
         else if b = bc CHR ''['' then (True, (hold b t)\<lparr>pst := stCSI, csiOverflow := False\<rparr>)
         else if string_intro b then
           (True, (hold b t)\<lparr>strKind := b, strOverflow := False, pst := stString\<rparr>)
         else if 0x30 \<le> b \<and> b \<le> 0x7e then
           (True, (dispatchEsc b ((hold b t)\<lparr>pst := stGround\<rparr>))\<lparr>seq := []\<rparr>)
         else (False, abortSeq t))"

definition escInterByte :: "byte \<Rightarrow> terminal \<Rightarrow> bool \<times> terminal" where
  "escInterByte b t =
     (let (common, t1) = commonC0 b t
      in if common then (True, t1)
         else if b = 0x7f then (True, hold b t)
         else if is_inter_byte b then
           (if length (seq t) \<ge> 16 then (False, abortSeq t) else (True, hold b t))
         else if 0x30 \<le> b \<and> b \<le> 0x7e then
           (True, (dispatchEscInter ((hold b t)\<lparr>pst := stGround\<rparr>))\<lparr>seq := []\<rparr>)
         else (False, abortSeq t))"

definition lastRuneBeforeCSI :: "terminal \<Rightarrow> terminal" where
  "lastRuneBeforeCSI t = (if last (seq t) \<noteq> bc CHR ''b'' then on_scr no_last t else t)"

definition csiByte :: "byte \<Rightarrow> terminal \<Rightarrow> bool \<times> terminal" where
  "csiByte b t =
     (let (common, t1) = commonC0 b t
      in if common then (True, t1)
         else if 0x20 \<le> b \<and> b \<le> 0x3f \<or> b = 0x7f then
           (if csiOverflow t then (True, emit [b] t)
            else let t2 = hold b t
                 in (True, if length (seq t2) > maxCSI
                           then (emit (seq t2) t2)\<lparr>seq := [], csiOverflow := True\<rparr> else t2))
         else if 0x40 \<le> b \<and> b \<le> 0x7e then
           (if csiOverflow t then (True, (emit [b] t)\<lparr>pst := stGround, csiOverflow := False\<rparr>)
            else let (pass, t2) = dispatchCSI (lastRuneBeforeCSI ((hold b t)\<lparr>pst := stGround\<rparr>))
                 in (True, (if pass then passSeq t2 else t2)\<lparr>seq := []\<rparr>))
         else (False, abortSeq t))"

section \<open>Strings\<close>

definition endPassthroughString :: "terminal \<Rightarrow> terminal" where
  "endPassthroughString t = t\<lparr>seq := [], strOverflow := False, pst := stGround\<rparr>"

definition stringAppend :: "byte list \<Rightarrow> terminal \<Rightarrow> terminal" where
  "stringAppend data t =
     (if data = [] then t
      else if strOverflow t then emit data t
      else if length (seq t) + length data > maxString
      then (emit data (emit (seq t) t))\<lparr>seq := [], strOverflow := True\<rparr>
      else t\<lparr>seq := seq t @ data\<rparr>)"

definition string_stop :: "byte \<Rightarrow> bool" where
  "string_stop c \<longleftrightarrow> c = ESC \<or> c = BEL \<or> c = CAN \<or> c = SUB"

text \<open>The byte that ended the bulk copy.\<close>

definition stringStop :: "byte \<Rightarrow> terminal \<Rightarrow> terminal" where
  "stringStop c t =
     (if c = BEL then
        (if strKind t \<noteq> bc CHR '']'' then stringAppend [BEL] t
         else if strOverflow t then endPassthroughString (emit [BEL] t)
         else finishString False (hold BEL t))
      else if c = CAN \<or> c = SUB then emit [c] (abortSeq t)
      else (if strOverflow t then t\<lparr>seq := [ESC]\<rparr> else hold ESC t)\<lparr>pst := stStringEsc\<rparr>)"

definition stringBytes :: "byte list \<Rightarrow> terminal \<Rightarrow> byte list \<times> terminal" where
  "stringBytes p t =
     (let t1 = stringAppend (takeWhile (\<lambda>c. \<not> string_stop c) p) t
      in case dropWhile (\<lambda>c. \<not> string_stop c) p of
           [] \<Rightarrow> ([], t1)
         | c # q \<Rightarrow> (q, stringStop c t1))"

definition stringEscByte :: "byte \<Rightarrow> terminal \<Rightarrow> bool \<times> terminal" where
  "stringEscByte b t =
     (if b = 0x5c then
        (True, if strOverflow t then endPassthroughString (emit [ESC, 0x5c] t)
               else finishString True (hold b t))
      else (False,
        (if \<not> strOverflow t then emit (butlast (seq t)) t else t)
          \<lparr>seq := [ESC], strOverflow := False, pst := stEsc\<rparr>))"

definition step :: "byte \<Rightarrow> terminal \<Rightarrow> bool \<times> terminal" where
  "step b t =
     (case pst t of
        stEsc \<Rightarrow> escByte b t
      | stEscInter \<Rightarrow> escInterByte b t
      | stCSI \<Rightarrow> csiByte b t
      | stStringEsc \<Rightarrow> stringEscByte b t
      | _ \<Rightarrow> (False, t\<lparr>pst := stGround\<rparr>))"

section \<open>Feed\<close>

text \<open>Every branch of the loop makes progress.\<close>

fun rank :: "pstate \<Rightarrow> nat" where
  "rank stGround = 0"
| "rank stString = 0"
| "rank stStringEsc = 2"
| "rank _ = 1"

lemma finishRune_length: "length (fst (finishRune p t)) \<le> length p"
proof (induction p t rule: finishRune.induct)
  case (1 p t)
  show ?case
    using 1 by (subst finishRune.simps) (auto simp: Let_def case_prod_beta)
qed

lemma finishRune_progress:
  "p \<noteq> [] \<Longrightarrow> ubuf (snd (finishRune p t)) \<noteq> [] \<Longrightarrow> length (fst (finishRune p t)) < length p"
proof (induction p t rule: finishRune.induct)
  case (1 p t)
  define u where "u = take 4 (ubuf t)"
  define b where "b = u @ take (4 - length u) p"
  show ?case
  proof (cases "full_rune b")
    case False
    then have "length b < 4" using not_full_short by blast
    then have "length u < 4" by (simp add: b_def)
    moreover have "0 < length p" using 1 by simp
    ultimately have "length p - (4 - length u) < length p" by linarith
    then show ?thesis
      using False 1 by (auto simp: finishRune.simps [of p t] Let_def u_def [symmetric] b_def [symmetric])
  next
    case True
    then show ?thesis
      using 1 by (auto simp: finishRune.simps [of p t] Let_def u_def [symmetric] b_def [symmetric]
          case_prod_beta split: if_splits)
  qed
qed

lemma ground_loop_length: "length (fst (ground_loop p t)) \<le> length p"
proof (induction p t rule: ground_loop.induct)
  case (2 b q t)
  then show ?case
    using length_dropWhile_le [of printable q]
    by (auto simp: Let_def split: prod.split intro: le_trans le_SucI simp del: takeWhile.simps)
       (metis diff_le_self le_trans)
qed simp

lemma ground_loop_progress: "p \<noteq> [] \<Longrightarrow> length (fst (ground_loop p t)) < length p"
proof (induction p t rule: ground_loop.induct)
  case (2 b q t)
  have l: "length (fst (ground_loop p' t')) \<le> length p'" for p' t'
    by (rule ground_loop_length)
  have "length (dropWhile printable q) \<le> length q" by (rule length_dropWhile_le)
  moreover have "length (drop (snd (decode_rune (b # q))) (b # q)) \<le> length q"
    using decode_rune_size_pos [of "b # q"] by simp
  then have "length (fst (ground_loop (drop (snd (decode_rune (b # q))) (b # q)) t')) \<le> length q" for t'
    using l le_trans by blast
  ultimately show ?case
    using l [of q] l [of "dropWhile printable q"]
    by (auto simp: Let_def case_prod_beta less_Suc_eq_le simp del: takeWhile.simps
        intro: le_trans)
qed simp

lemma ground_progress:
  assumes "p \<noteq> []"
  shows "length (fst (ground p t)) < length p"
proof -
  have *: "length (fst (if ubuf t1 \<noteq> [] then (p1, t1) else ground_loop p1 t1)) < length p"
    if "length p1 \<le> length p" "ubuf t1 \<noteq> [] \<Longrightarrow> length p1 < length p" for p1 t1
    using that ground_loop_progress [of p1 t1] ground_loop_length [of p1 t1] assms
    by (cases "p1 = []") auto
  show ?thesis
    unfolding ground_def Let_def case_prod_beta
    using finishRune_length [of p t] finishRune_progress [OF assms, of t] by (intro *) auto
qed

lemma stringBytes_progress: "p \<noteq> [] \<Longrightarrow> length (fst (stringBytes p t)) < length p"
  using length_dropWhile_le [of "\<lambda>c. \<not> string_stop c" p]
  by (auto simp: stringBytes_def Let_def split: list.split)

lemma step_rank:
  "\<not> fst (step b t) \<Longrightarrow> pst t \<noteq> stGround \<Longrightarrow> pst t \<noteq> stString \<Longrightarrow>
   rank (pst (snd (step b t))) < rank (pst t)"
  by (cases "pst t")
     (auto simp: step_def escByte_def escInterByte_def csiByte_def stringEscByte_def abortSeq_def
       commonC0_def Let_def case_prod_beta split: if_splits)

function feed_loop :: "byte list \<Rightarrow> terminal \<Rightarrow> terminal" where
  "feed_loop p t =
     (if p = [] then t
      else if pst t = stGround then (let (q, t1) = ground p t in feed_loop q t1)
      else if pst t = stString then (let (q, t1) = stringBytes p t in feed_loop q t1)
      else let (used, t1) = step (hd p) t in feed_loop (if used then tl p else p) t1)"
  by pat_completeness auto
termination
proof (relation "measures [\<lambda>(p, t). length p, \<lambda>(p, t). rank (pst t)]", goal_cases)
  case (2 p t z q t1)
  then show ?case using ground_progress [of p t] by (metis (no_types, lifting) case_prod_conv fst_conv measures_less)
next
  case (3 p t z q t1)
  then show ?case using stringBytes_progress [of p t] by (metis (no_types, lifting) case_prod_conv fst_conv measures_less)
next
  case (4 p t z u t1)
  then have "step (hd p) t = (u, t1)" by simp
  then show ?case using 4 step_rank [of "hd p" t] by (cases u) auto
qed simp

declare feed_loop.simps [simp del]

text \<open>\<open>Feed\<close> returns the forward and reply streams and the new state.\<close>

definition Feed :: "byte list \<Rightarrow> terminal \<Rightarrow> (byte list \<times> byte list) \<times> terminal" where
  "Feed p t =
     (let t1 = feed_loop p (t\<lparr>out := [], reply := []\<rparr>)
      in ((if discardForward t1 then [] else out t1, reply t1), t1\<lparr>out := [], reply := []\<rparr>))"

definition SetForwarding :: "bool \<Rightarrow> terminal \<Rightarrow> terminal" where
  "SetForwarding on t = t\<lparr>discardForward := \<not> on\<rparr>"

text \<open>A new screen with its parser in the initial state.\<close>

definition NewTerminal :: "int \<Rightarrow> int \<Rightarrow> int \<Rightarrow> terminal" where
  "NewTerminal c r h =
     \<lparr>scr = New c r h, pst = stGround, seq = [], strKind = 0, strOverflow = False,
      csiOverflow = False, ubuf = [], discardForward = False, out = [], reply = []\<rparr>"

end
