(* ===== verification/Terminal_WF.thy ===== *)
theory Terminal_WF
  imports Parser
begin

text \<open>
  Facts about every step of the parser: it keeps the screen invariant \<open>wf\<close>, it touches only the
  fields it should (frames), and it only appends to the two output streams. The last is stated
  with \<open>pre\<close>, which puts bytes in front of both streams: every step commutes with it, so the
  streams a \<open>Feed\<close> returns do not depend on what earlier ones returned.
\<close>

named_theorems pre_law

section \<open>Frames\<close>

lemma on_scr_frame [simp, frame]:
  "pst (on_scr f t) = pst t" "seq (on_scr f t) = seq t" "strKind (on_scr f t) = strKind t"
  "strOverflow (on_scr f t) = strOverflow t" "csiOverflow (on_scr f t) = csiOverflow t"
  "ubuf (on_scr f t) = ubuf t" "discardForward (on_scr f t) = discardForward t"
  by (simp_all add: on_scr_def)

lemma emit_frame [simp, frame]:
  "pst (emit b t) = pst t" "seq (emit b t) = seq t" "strKind (emit b t) = strKind t"
  "strOverflow (emit b t) = strOverflow t" "csiOverflow (emit b t) = csiOverflow t"
  "ubuf (emit b t) = ubuf t" "discardForward (emit b t) = discardForward t"
  by (simp_all add: emit_def)

lemma respond_frame [simp, frame]:
  "pst (respond b t) = pst t" "seq (respond b t) = seq t" "strKind (respond b t) = strKind t"
  "strOverflow (respond b t) = strOverflow t" "csiOverflow (respond b t) = csiOverflow t"
  "ubuf (respond b t) = ubuf t" "discardForward (respond b t) = discardForward t"
  by (simp_all add: respond_def)

lemma streams_frame [simp, frame]:
  "scr (on_scr f t) = f (scr t)" "scr (emit b t) = scr t" "scr (respond b t) = scr t"
  "out (on_scr f t) = out t" "out (emit b t) = out t @ b" "out (respond b t) = out t"
  "reply (on_scr f t) = reply t" "reply (emit b t) = reply t" "reply (respond b t) = reply t @ b"
  by (simp_all add: on_scr_def emit_def respond_def)

lemma passSeq_frame [simp, frame]:
  "pst (passSeq t) = pst t" "seq (passSeq t) = seq t" "strKind (passSeq t) = strKind t"
  "strOverflow (passSeq t) = strOverflow t" "csiOverflow (passSeq t) = csiOverflow t"
  "ubuf (passSeq t) = ubuf t" "discardForward (passSeq t) = discardForward t"
  by (simp_all add: passSeq_def)

lemma put_rune_frame [simp, frame]:
  "pst (put_rune r b t) = pst t" "seq (put_rune r b t) = seq t"
  "strKind (put_rune r b t) = strKind t" "strOverflow (put_rune r b t) = strOverflow t"
  "csiOverflow (put_rune r b t) = csiOverflow t" "ubuf (put_rune r b t) = ubuf t"
  "discardForward (put_rune r b t) = discardForward t"
  by (simp_all add: put_rune_def)

lemma windowOp_frame [simp, frame]:
  "pst (snd (windowOp p t)) = pst t" "seq (snd (windowOp p t)) = seq t"
  "strKind (snd (windowOp p t)) = strKind t" "strOverflow (snd (windowOp p t)) = strOverflow t"
  "csiOverflow (snd (windowOp p t)) = csiOverflow t" "ubuf (snd (windowOp p t)) = ubuf t"
  "discardForward (snd (windowOp p t)) = discardForward t"
  by (simp_all add: windowOp_def Let_def)

lemma altScreen_frame [simp, frame]:
  "pst (altScreen v on t) = pst t" "seq (altScreen v on t) = seq t"
  "strKind (altScreen v on t) = strKind t" "strOverflow (altScreen v on t) = strOverflow t"
  "csiOverflow (altScreen v on t) = csiOverflow t" "ubuf (altScreen v on t) = ubuf t"
  "discardForward (altScreen v on t) = discardForward t"
  by (simp_all add: altScreen_def Let_def case_prod_beta)

lemma decset_flush_frame [simp, frame]:
  "pst (decset_flush keep on t) = pst t" "seq (decset_flush keep on t) = seq t"
  "strKind (decset_flush keep on t) = strKind t"
  "strOverflow (decset_flush keep on t) = strOverflow t"
  "csiOverflow (decset_flush keep on t) = csiOverflow t" "ubuf (decset_flush keep on t) = ubuf t"
  "discardForward (decset_flush keep on t) = discardForward t"
  by (simp_all add: decset_flush_def)

lemma decset_loop_frame [simp, frame]:
  "pst (decset_loop vs on keep t) = pst t" "seq (decset_loop vs on keep t) = seq t"
  "strKind (decset_loop vs on keep t) = strKind t"
  "strOverflow (decset_loop vs on keep t) = strOverflow t"
  "csiOverflow (decset_loop vs on keep t) = csiOverflow t"
  "ubuf (decset_loop vs on keep t) = ubuf t"
  "discardForward (decset_loop vs on keep t) = discardForward t"
  by (induction vs arbitrary: keep t; simp)+

lemma decset_frame [simp, frame]:
  "pst (snd (decset p on t)) = pst t" "seq (snd (decset p on t)) = seq t"
  "strKind (snd (decset p on t)) = strKind t" "strOverflow (snd (decset p on t)) = strOverflow t"
  "csiOverflow (snd (decset p on t)) = csiOverflow t" "ubuf (snd (decset p on t)) = ubuf t"
  "discardForward (snd (decset p on t)) = discardForward t"
  by (simp_all add: decset_def)

lemma csiPlain_frame [simp, frame]:
  "pst (snd (csiPlain f p t)) = pst t" "seq (snd (csiPlain f p t)) = seq t"
  "strKind (snd (csiPlain f p t)) = strKind t"
  "strOverflow (snd (csiPlain f p t)) = strOverflow t"
  "csiOverflow (snd (csiPlain f p t)) = csiOverflow t" "ubuf (snd (csiPlain f p t)) = ubuf t"
  "discardForward (snd (csiPlain f p t)) = discardForward t"
  by (simp_all add: csiPlain_def)

lemma csiPrivate_frame [simp, frame]:
  "pst (snd (csiPrivate f p t)) = pst t" "seq (snd (csiPrivate f p t)) = seq t"
  "strKind (snd (csiPrivate f p t)) = strKind t"
  "strOverflow (snd (csiPrivate f p t)) = strOverflow t"
  "csiOverflow (snd (csiPrivate f p t)) = csiOverflow t" "ubuf (snd (csiPrivate f p t)) = ubuf t"
  "discardForward (snd (csiPrivate f p t)) = discardForward t"
  by (simp_all add: csiPrivate_def)

lemma csiOtherPrivate_frame [simp, frame]:
  "pst (snd (csiOtherPrivate pr f p t)) = pst t" "seq (snd (csiOtherPrivate pr f p t)) = seq t"
  "strKind (snd (csiOtherPrivate pr f p t)) = strKind t"
  "strOverflow (snd (csiOtherPrivate pr f p t)) = strOverflow t"
  "csiOverflow (snd (csiOtherPrivate pr f p t)) = csiOverflow t"
  "ubuf (snd (csiOtherPrivate pr f p t)) = ubuf t"
  "discardForward (snd (csiOtherPrivate pr f p t)) = discardForward t"
  by (simp_all add: csiOtherPrivate_def)

lemma csiIntermediate_frame [simp, frame]:
  "pst (snd (csiIntermediate pr im f p t)) = pst t"
  "seq (snd (csiIntermediate pr im f p t)) = seq t"
  "strKind (snd (csiIntermediate pr im f p t)) = strKind t"
  "strOverflow (snd (csiIntermediate pr im f p t)) = strOverflow t"
  "csiOverflow (snd (csiIntermediate pr im f p t)) = csiOverflow t"
  "ubuf (snd (csiIntermediate pr im f p t)) = ubuf t"
  "discardForward (snd (csiIntermediate pr im f p t)) = discardForward t"
  by (simp_all add: csiIntermediate_def)

lemma execCSI_frame [simp, frame]:
  "pst (snd (execCSI pr f bd t)) = pst t" "seq (snd (execCSI pr f bd t)) = seq t"
  "strKind (snd (execCSI pr f bd t)) = strKind t"
  "strOverflow (snd (execCSI pr f bd t)) = strOverflow t"
  "csiOverflow (snd (execCSI pr f bd t)) = csiOverflow t"
  "ubuf (snd (execCSI pr f bd t)) = ubuf t"
  "discardForward (snd (execCSI pr f bd t)) = discardForward t"
  by (simp_all add: execCSI_def Let_def split: option.split)

lemma dispatchCSI_frame [simp, frame]:
  "pst (snd (dispatchCSI t)) = pst t" "seq (snd (dispatchCSI t)) = seq t"
  "strKind (snd (dispatchCSI t)) = strKind t" "strOverflow (snd (dispatchCSI t)) = strOverflow t"
  "csiOverflow (snd (dispatchCSI t)) = csiOverflow t" "ubuf (snd (dispatchCSI t)) = ubuf t"
  "discardForward (snd (dispatchCSI t)) = discardForward t"
  by (simp_all add: dispatchCSI_def Let_def case_prod_beta)

lemma dispatchEsc_frame [simp, frame]:
  "pst (dispatchEsc f t) = pst t" "seq (dispatchEsc f t) = seq t"
  "strKind (dispatchEsc f t) = strKind t" "strOverflow (dispatchEsc f t) = strOverflow t"
  "csiOverflow (dispatchEsc f t) = csiOverflow t" "ubuf (dispatchEsc f t) = ubuf t"
  "discardForward (dispatchEsc f t) = discardForward t"
  by (simp_all add: dispatchEsc_def Let_def)

lemma dispatchEscInter_frame [simp, frame]:
  "pst (dispatchEscInter t) = pst t" "seq (dispatchEscInter t) = seq t"
  "strKind (dispatchEscInter t) = strKind t" "strOverflow (dispatchEscInter t) = strOverflow t"
  "csiOverflow (dispatchEscInter t) = csiOverflow t" "ubuf (dispatchEscInter t) = ubuf t"
  "discardForward (dispatchEscInter t) = discardForward t"
  by (simp_all add: dispatchEscInter_def Let_def)

lemma oscNum_frame [simp, frame]:
  "pst (snd (oscNum num rest st t)) = pst t" "seq (snd (oscNum num rest st t)) = seq t"
  "strKind (snd (oscNum num rest st t)) = strKind t"
  "strOverflow (snd (oscNum num rest st t)) = strOverflow t"
  "csiOverflow (snd (oscNum num rest st t)) = csiOverflow t"
  "ubuf (snd (oscNum num rest st t)) = ubuf t"
  "discardForward (snd (oscNum num rest st t)) = discardForward t"
  by (simp_all add: oscNum_def Let_def split: option.split)

lemma osc_frame [simp, frame]:
  "pst (snd (osc pl st t)) = pst t" "seq (snd (osc pl st t)) = seq t"
  "strKind (snd (osc pl st t)) = strKind t" "strOverflow (snd (osc pl st t)) = strOverflow t"
  "csiOverflow (snd (osc pl st t)) = csiOverflow t" "ubuf (snd (osc pl st t)) = ubuf t"
  "discardForward (snd (osc pl st t)) = discardForward t"
  by (simp_all add: osc_def Let_def case_prod_beta split: option.split)

lemma dcs_frame [simp, frame]:
  "pst (snd (dcs pl t)) = pst t" "seq (snd (dcs pl t)) = seq t"
  "strKind (snd (dcs pl t)) = strKind t" "strOverflow (snd (dcs pl t)) = strOverflow t"
  "csiOverflow (snd (dcs pl t)) = csiOverflow t" "ubuf (snd (dcs pl t)) = ubuf t"
  "discardForward (snd (dcs pl t)) = discardForward t"
  by (simp_all add: dcs_def Let_def)

lemma finishString_frame [simp, frame]:
  "strKind (finishString st t) = strKind t" "strOverflow (finishString st t) = strOverflow t"
  "csiOverflow (finishString st t) = csiOverflow t" "ubuf (finishString st t) = ubuf t"
  "discardForward (finishString st t) = discardForward t"
  by (simp_all add: finishString_def Let_def case_prod_beta)

lemma finishString_state [simp, frame]: "pst (finishString st t) = stGround" "seq (finishString st t) = []"
  by (simp_all add: finishString_def Let_def case_prod_beta)

lemma control_frame [simp, frame]:
  "pst (control b t) = pst t" "seq (control b t) = seq t" "strKind (control b t) = strKind t"
  "strOverflow (control b t) = strOverflow t" "csiOverflow (control b t) = csiOverflow t"
  "ubuf (control b t) = ubuf t" "discardForward (control b t) = discardForward t"
  by (simp_all add: control_def Let_def)

lemma abortSeq_frame [simp, frame]:
  "strKind (abortSeq t) = strKind t" "ubuf (abortSeq t) = ubuf t"
  "discardForward (abortSeq t) = discardForward t"
  by (simp_all add: abortSeq_def)

lemma abortSeq_state [simp, frame]:
  "pst (abortSeq t) = stGround" "seq (abortSeq t) = []" "\<not> strOverflow (abortSeq t)" "\<not> csiOverflow (abortSeq t)"
  by (simp_all add: abortSeq_def)

lemma hold_frame [simp, frame]:
  "pst (hold b t) = pst t" "strKind (hold b t) = strKind t"
  "strOverflow (hold b t) = strOverflow t" "csiOverflow (hold b t) = csiOverflow t"
  "ubuf (hold b t) = ubuf t" "discardForward (hold b t) = discardForward t"
  by (simp_all add: hold_def)

lemma hold_state [simp, frame]:
  "seq (hold b t) = seq t @ [b]" "scr (hold b t) = scr t" "out (hold b t) = out t" "reply (hold b t) = reply t"
  by (simp_all add: hold_def)

lemma lastRuneBeforeCSI_frame [simp, frame]:
  "pst (lastRuneBeforeCSI t) = pst t" "seq (lastRuneBeforeCSI t) = seq t"
  "strKind (lastRuneBeforeCSI t) = strKind t" "strOverflow (lastRuneBeforeCSI t) = strOverflow t"
  "csiOverflow (lastRuneBeforeCSI t) = csiOverflow t" "ubuf (lastRuneBeforeCSI t) = ubuf t"
  "discardForward (lastRuneBeforeCSI t) = discardForward t"
  by (simp_all add: lastRuneBeforeCSI_def)

lemma stringAppend_frame [simp, frame]:
  "pst (stringAppend d t) = pst t" "strKind (stringAppend d t) = strKind t"
  "csiOverflow (stringAppend d t) = csiOverflow t" "ubuf (stringAppend d t) = ubuf t"
  "discardForward (stringAppend d t) = discardForward t"
  by (simp_all add: stringAppend_def)

section \<open>Appending only\<close>

definition pre :: "byte list \<Rightarrow> byte list \<Rightarrow> terminal \<Rightarrow> terminal" where
  "pre o1 r1 t = t\<lparr>out := o1 @ out t, reply := r1 @ reply t\<rparr>"

lemma pre_fields [simp]:
  "scr (pre o1 r1 t) = scr t" "pst (pre o1 r1 t) = pst t" "seq (pre o1 r1 t) = seq t"
  "strKind (pre o1 r1 t) = strKind t" "strOverflow (pre o1 r1 t) = strOverflow t"
  "csiOverflow (pre o1 r1 t) = csiOverflow t" "ubuf (pre o1 r1 t) = ubuf t"
  "discardForward (pre o1 r1 t) = discardForward t"
  "out (pre o1 r1 t) = o1 @ out t" "reply (pre o1 r1 t) = r1 @ reply t"
  by (simp_all add: pre_def)

lemma pre_updates [simp]:
  "(pre o1 r1 t)\<lparr>scr := s\<rparr> = pre o1 r1 (t\<lparr>scr := s\<rparr>)"
  "(pre o1 r1 t)\<lparr>pst := st\<rparr> = pre o1 r1 (t\<lparr>pst := st\<rparr>)"
  "(pre o1 r1 t)\<lparr>seq := b\<rparr> = pre o1 r1 (t\<lparr>seq := b\<rparr>)"
  "(pre o1 r1 t)\<lparr>strKind := c\<rparr> = pre o1 r1 (t\<lparr>strKind := c\<rparr>)"
  "(pre o1 r1 t)\<lparr>strOverflow := so\<rparr> = pre o1 r1 (t\<lparr>strOverflow := so\<rparr>)"
  "(pre o1 r1 t)\<lparr>csiOverflow := co\<rparr> = pre o1 r1 (t\<lparr>csiOverflow := co\<rparr>)"
  "(pre o1 r1 t)\<lparr>ubuf := b\<rparr> = pre o1 r1 (t\<lparr>ubuf := b\<rparr>)"
  by (simp_all add: pre_def)

lemma pre_on_scr [simp, pre_law]: "on_scr f (pre o1 r1 t) = pre o1 r1 (on_scr f t)"
  and pre_emit [simp, pre_law]: "emit b (pre o1 r1 t) = pre o1 r1 (emit b t)"
  and pre_respond [simp, pre_law]: "respond b (pre o1 r1 t) = pre o1 r1 (respond b t)"
  by (simp_all add: pre_def on_scr_def emit_def respond_def)

text \<open>Pushing \<open>pre\<close> through the branches of a definition.\<close>

lemma pre_branch:
  "a = apsnd (pre o1 r1) a' \<Longrightarrow> b = apsnd (pre o1 r1) b' \<Longrightarrow>
   (if c then a else b) = apsnd (pre o1 r1) (if c then a' else b')"
  "e = apsnd (pre o1 r1) e' \<Longrightarrow> (\<And>y. f y = apsnd (pre o1 r1) (f' y)) \<Longrightarrow>
   (case x of None \<Rightarrow> e | Some y \<Rightarrow> f y) = apsnd (pre o1 r1) (case x of None \<Rightarrow> e' | Some y \<Rightarrow> f' y)"
  "u = apsnd (pre o1 r1) u' \<Longrightarrow> (\<And>y ys. h y ys = apsnd (pre o1 r1) (h' y ys)) \<Longrightarrow>
   (case l of [] \<Rightarrow> u | y # ys \<Rightarrow> h y ys) = apsnd (pre o1 r1) (case l of [] \<Rightarrow> u' | y # ys \<Rightarrow> h' y ys)"
  by (simp_all split: option.split list.split)

lemma pre_passSeq [simp, pre_law]: "passSeq (pre o1 r1 t) = pre o1 r1 (passSeq t)"
  by (simp add: passSeq_def)

lemma pre_put_rune [simp, pre_law]: "put_rune r b (pre o1 r1 t) = pre o1 r1 (put_rune r b t)"
  by (simp add: put_rune_def)

lemma pre_windowOp [simp, pre_law]: "windowOp p (pre o1 r1 t) = apsnd (pre o1 r1) (windowOp p t)"
  unfolding windowOp_def Let_def pre_fields by (intro pre_branch) simp_all

lemma pre_altScreen [simp, pre_law]: "altScreen v on (pre o1 r1 t) = pre o1 r1 (altScreen v on t)"
  by (simp add: altScreen_def Let_def case_prod_beta)

lemma pre_decset_flush [simp, pre_law]: "decset_flush keep on (pre o1 r1 t) = pre o1 r1 (decset_flush keep on t)"
  by (simp add: decset_flush_def)

lemma pre_decset_loop [simp, pre_law]:
  "decset_loop vs on keep (pre o1 r1 t) = pre o1 r1 (decset_loop vs on keep t)"
  by (induction vs arbitrary: keep t) simp_all

lemma pre_decset [simp, pre_law]: "decset p on (pre o1 r1 t) = apsnd (pre o1 r1) (decset p on t)"
  unfolding decset_def pre_fields by (intro pre_branch) simp_all

lemma pre_csiPlain [simp, pre_law]: "csiPlain f p (pre o1 r1 t) = apsnd (pre o1 r1) (csiPlain f p t)"
  unfolding csiPlain_def pre_fields by (intro pre_branch) simp_all

lemma pre_csiPrivate [simp, pre_law]: "csiPrivate f p (pre o1 r1 t) = apsnd (pre o1 r1) (csiPrivate f p t)"
  unfolding csiPrivate_def pre_fields by (intro pre_branch) simp_all

lemma pre_csiOtherPrivate [simp, pre_law]: "csiOtherPrivate pr f p (pre o1 r1 t) = apsnd (pre o1 r1) (csiOtherPrivate pr f p t)"
  unfolding csiOtherPrivate_def pre_fields by (intro pre_branch) simp_all

lemma pre_csiIntermediate [simp, pre_law]: "csiIntermediate pr im f p (pre o1 r1 t) = apsnd (pre o1 r1) (csiIntermediate pr im f p t)"
  unfolding csiIntermediate_def pre_fields by (intro pre_branch) simp_all

lemma pre_execCSI [simp, pre_law]: "execCSI pr f bd (pre o1 r1 t) = apsnd (pre o1 r1) (execCSI pr f bd t)"
  unfolding execCSI_def Let_def pre_fields by (intro pre_branch) simp_all

lemma pre_dispatchCSI [simp, pre_law]: "dispatchCSI (pre o1 r1 t) = apsnd (pre o1 r1) (dispatchCSI t)"
  by (simp add: dispatchCSI_def Let_def case_prod_beta)

lemma pre_dispatchEsc [simp, pre_law]: "dispatchEsc f (pre o1 r1 t) = pre o1 r1 (dispatchEsc f t)"
  by (simp add: dispatchEsc_def Let_def)

lemma pre_dispatchEscInter [simp, pre_law]: "dispatchEscInter (pre o1 r1 t) = pre o1 r1 (dispatchEscInter t)"
  by (simp add: dispatchEscInter_def Let_def)

lemma pre_oscNum [simp, pre_law]: "oscNum num rest st (pre o1 r1 t) = apsnd (pre o1 r1) (oscNum num rest st t)"
  unfolding oscNum_def Let_def pre_fields by (intro pre_branch) simp_all

lemma pre_osc [simp, pre_law]: "osc pl st (pre o1 r1 t) = apsnd (pre o1 r1) (osc pl st t)"
  unfolding osc_def Let_def case_prod_beta pre_fields by (intro pre_branch) simp_all

lemma pre_dcs [simp, pre_law]: "dcs pl (pre o1 r1 t) = apsnd (pre o1 r1) (dcs pl t)"
  unfolding dcs_def Let_def pre_fields by (intro pre_branch) simp_all

lemma pre_finishString [simp, pre_law]: "finishString st (pre o1 r1 t) = pre o1 r1 (finishString st t)"
  by (simp add: finishString_def Let_def case_prod_beta)

lemma pre_control [simp, pre_law]: "control b (pre o1 r1 t) = pre o1 r1 (control b t)"
  by (simp add: control_def Let_def)

lemma pre_abortSeq [simp, pre_law]: "abortSeq (pre o1 r1 t) = pre o1 r1 (abortSeq t)"
  by (simp add: abortSeq_def)

lemma pre_hold [simp, pre_law]: "hold b (pre o1 r1 t) = pre o1 r1 (hold b t)"
  by (simp add: hold_def)

lemma pre_commonC0 [simp, pre_law]: "commonC0 b (pre o1 r1 t) = apsnd (pre o1 r1) (commonC0 b t)"
  unfolding commonC0_def pre_fields by (intro pre_branch) simp_all

lemma pre_escByte [simp, pre_law]: "escByte b (pre o1 r1 t) = apsnd (pre o1 r1) (escByte b t)"
  unfolding escByte_def Let_def case_prod_beta pre_commonC0 fst_apsnd snd_apsnd pre_fields by (intro pre_branch) simp_all

lemma pre_escInterByte [simp, pre_law]: "escInterByte b (pre o1 r1 t) = apsnd (pre o1 r1) (escInterByte b t)"
  unfolding escInterByte_def Let_def case_prod_beta pre_commonC0 fst_apsnd snd_apsnd pre_fields by (intro pre_branch) simp_all

lemma pre_lastRuneBeforeCSI [simp, pre_law]: "lastRuneBeforeCSI (pre o1 r1 t) = pre o1 r1 (lastRuneBeforeCSI t)"
  by (simp add: lastRuneBeforeCSI_def)

lemma pre_csiByte [simp, pre_law]: "csiByte b (pre o1 r1 t) = apsnd (pre o1 r1) (csiByte b t)"
  unfolding csiByte_def Let_def case_prod_beta pre_commonC0 fst_apsnd snd_apsnd pre_fields by (intro pre_branch) simp_all

lemma pre_endPassthroughString [simp, pre_law]: "endPassthroughString (pre o1 r1 t) = pre o1 r1 (endPassthroughString t)"
  by (simp add: endPassthroughString_def)

lemma pre_stringAppend [simp, pre_law]: "stringAppend d (pre o1 r1 t) = pre o1 r1 (stringAppend d t)"
  by (simp add: stringAppend_def)

lemma pre_stringStop [simp, pre_law]: "stringStop c (pre o1 r1 t) = pre o1 r1 (stringStop c t)"
  by (simp add: stringStop_def)

lemma pre_stringBytes [simp, pre_law]: "stringBytes p (pre o1 r1 t) = apsnd (pre o1 r1) (stringBytes p t)"
  unfolding stringBytes_def Let_def pre_fields by (intro pre_branch) simp_all

lemma pre_stringEscByte [simp, pre_law]: "stringEscByte b (pre o1 r1 t) = apsnd (pre o1 r1) (stringEscByte b t)"
  unfolding stringEscByte_def pre_fields by (intro pre_branch) simp_all

lemma pre_step [simp, pre_law]: "step b (pre o1 r1 t) = apsnd (pre o1 r1) (step b t)"
  by (simp add: step_def split: pstate.split)

section \<open>The screen invariant\<close>

lemma wf_if: "(c \<Longrightarrow> wf a) \<Longrightarrow> (\<not> c \<Longrightarrow> wf b) \<Longrightarrow> wf (if c then a else b)"
  by simp

lemma wf_modes_update:
  "wf s \<Longrightarrow> (pendingWrap s \<Longrightarrow> Autowrap m) \<Longrightarrow> wf (s\<lparr>modes := m\<rparr>)"
  by (auto simp: wf_def)

lemma wf_simple_updates [wf_ops]:
  "wf s \<Longrightarrow> wf (s\<lparr>pen := a\<rparr>)" "wf s \<Longrightarrow> wf (s\<lparr>title := b\<rparr>)" "wf s \<Longrightarrow> wf (no_last s)"
  "wf s \<Longrightarrow> length ts = length (tabs s) \<Longrightarrow> wf (s\<lparr>tabs := ts\<rparr>)"
  "wf s \<Longrightarrow> k < 4 \<Longrightarrow> wf (s\<lparr>gl := k\<rparr>)"
  "wf s \<Longrightarrow> length gs = 4 \<Longrightarrow> wf (s\<lparr>g := gs\<rparr>)"
  "wf s \<Longrightarrow> 0 \<le> st \<Longrightarrow> st \<le> 6 \<Longrightarrow> wf (s\<lparr>cursorStyle := st\<rparr>)"
  by (simp_all add: wf_def no_last_def)

lemma wf_resetTabs [wf_ops]: "wf s \<Longrightarrow> wf (resetTabs s)"
  by (simp add: resetTabs_def wf_def)

lemma wf_edit_row:
  assumes "wf s"
    and "\<And>t cs. cx t = cx s \<Longrightarrow> length cs = cols s \<Longrightarrow> row_ok cs \<Longrightarrow> length (f t cs) = cols s \<and> row_ok (f t cs)"
  shows "wf (edit_row f s)"
proof -
  have w: "wf (s\<lparr>pendingWrap := False\<rparr>)" using assms(1) by (rule wf_pendingWrap)
  have "line_ok (cols s) (buf s ! cy s)"
    using wf_row [OF assms(1) wfD(4) [OF assms(1)]] by (simp add: line_ok_def)
  then show ?thesis
    using w assms by (auto simp: edit_row_def Let_def line_ok_def intro!: wf_set_line)
qed

lemma wf_repeatRune [wf_ops]:
  assumes "wf s"
  shows "wf (repeatRune n s)"
proof -
  have "wf ((printGlyph r w ^^ n) s)" if "w = 1 \<or> w = 2" for r w
    using assms that by (induction n) (simp_all add: wf_printGlyph)
  then show ?thesis using assms wfD(14) [OF assms] by (auto simp: repeatRune_def)
qed

lemma wf_setMargins [wf_ops]:
  assumes "wf s"
  shows "wf (setMargins p s)"
proof -
  define tp where "tp = count p 0 - 1"
  define b0 where "b0 = arg p 1 0 - 1"
  define bt where "bt = (if b0 < 0 \<or> b0 \<ge> int (rows s) then int (rows s) - 1 else b0)"
  have "0 \<le> tp" using arg_nonneg [of 1 p 0] by (auto simp: tp_def count_def Let_def)
  moreover have "bt < int (rows s)" by (simp add: bt_def)
  ultimately have "tp < bt \<Longrightarrow> wf (s\<lparr>rtop := nat tp, rbot := nat bt\<rparr>)"
    using assms by (auto simp: wf_def nat_less_iff nat_mono)
  then show ?thesis
    unfolding setMargins_def Let_def tp_def [symmetric] b0_def [symmetric] bt_def [symmetric]
    using assms by (simp add: wf_moveToOrigin)
qed

lemma wf_setAnsiModes [wf_ops]:
  assumes "wf s"
  shows "wf (setAnsiModes p on s)"
proof -
  have "wf (s\<lparr>modes := (modes s)\<lparr>Insert := on\<rparr>\<rparr>)" if "wf s" for s
    using that wfD(13) [OF that] by (intro wf_modes_update) auto
  then have "wf (foldl (\<lambda>s v. if v = 4 then s\<lparr>modes := (modes s)\<lparr>Insert := on\<rparr>\<rparr> else s) s vs)" for vs
    using assms by (induction vs arbitrary: s) simp_all
  then show ?thesis by (simp add: setAnsiModes_def)
qed

lemma wf_clearTabs [wf_ops]: "wf s \<Longrightarrow> wf (clearTabs a s)"
  by (auto simp: clearTabs_def intro!: wf_simple_updates)

lemma no_pending_moves [simp]:
  "\<not> pendingWrap (moveTo x y s)" "\<not> pendingWrap (cursorUp n s)" "\<not> pendingWrap (cursorDown n s)"
  by (simp_all add: moveTo_def cursorUp_def cursorDown_def Let_def)

lemma wf_column0:
  "wf s \<Longrightarrow> wf ((cursorDown n s)\<lparr>cx := 0\<rparr>)" "wf s \<Longrightarrow> wf ((cursorUp n s)\<lparr>cx := 0\<rparr>)"
  using wfD(1) by (auto intro!: wf_cx wf_cursorDown wf_cursorUp)

lemma wf_csiScreen [wf_ops]:
  assumes "wf s"
  shows "wf (csiScreen f p s)"
proof -
  have x: "cx s < cols s" "cy s < rows s" using wfD(3,4) [OF assms] .
  show ?thesis
    unfolding csiScreen_def Let_def
    by (intro wf_if wf_ops wf_edit_row wf_column0 conjI insertCells_ok deleteCells_ok assms)
       (simp_all add: x wf_simple_updates assms)
qed

lemma wf_setDECMode [wf_ops]:
  assumes "wf s"
  shows "wf (setDECMode v on s)"
proof -
  have m: "wf (s\<lparr>modes := m\<rparr>)" if "Autowrap m = Autowrap (modes s)" for m
    using assms that wfD(13) [OF assms] by (intro wf_modes_update) auto
  have a: "wf (s\<lparr>modes := (modes s)\<lparr>Autowrap := on\<rparr>, pendingWrap := (if on then pendingWrap s else False)\<rparr>)"
    using assms by (auto simp: wf_def)
  show ?thesis
    unfolding setDECMode_def Let_def by (intro wf_if a wf_ops assms m) simp_all
qed

lemma wf_setDECModes: "wf s \<Longrightarrow> wf (foldl (\<lambda>s v. setDECMode v on s) s vs)"
  by (induction vs arbitrary: s) (simp_all add: wf_setDECMode)

lemma wf_alt_clear [wf_ops]: "wf s \<Longrightarrow> wf (clear_alt s)"
  by (simp add: clear_alt_def wf_clear_alt)

lemma wf_alt_switch [wf_ops]:
  assumes "wf s"
  shows "wf (snd (alt_switch v on s))"
  using assms by (simp add: alt_switch_def Let_def case_prod_beta wf_ops)

lemma wf_altScreen [wf_ops]: "wf (scr t) \<Longrightarrow> wf (scr (altScreen v on t))"
  by (simp add: altScreen_def Let_def case_prod_beta wf_alt_switch)

lemma wf_decset_loop [wf_ops]: "wf (scr t) \<Longrightarrow> wf (scr (decset_loop vs on keep t))"
  by (induction vs arbitrary: keep t) (simp_all add: decset_flush_def wf_ops)

lemma wf_decset [wf_ops]: "wf (scr t) \<Longrightarrow> wf (scr (snd (decset p on t)))"
  by (simp add: decset_def wf_decset_loop wf_setDECModes)

lemma wf_windowOp [wf_ops]: "wf (scr t) \<Longrightarrow> wf (scr (snd (windowOp p t)))"
  by (simp add: windowOp_def Let_def)

lemma wf_csiPlain [wf_ops]: "wf (scr t) \<Longrightarrow> wf (scr (snd (csiPlain f p t)))"
  by (simp add: csiPlain_def wf_ops)

lemma wf_csiPrivate [wf_ops]: "wf (scr t) \<Longrightarrow> wf (scr (snd (csiPrivate f p t)))"
  by (simp add: csiPrivate_def wf_ops)

lemma wf_csiOtherPrivate [wf_ops]: "wf (scr t) \<Longrightarrow> wf (scr (snd (csiOtherPrivate pr f p t)))"
  by (simp add: csiOtherPrivate_def)

lemma wf_csiIntermediate [wf_ops]: "wf (scr t) \<Longrightarrow> wf (scr (snd (csiIntermediate pr im f p t)))"
  by (simp add: csiIntermediate_def wf_ops arg_nonneg)

lemma wf_execCSI [wf_ops]: "wf (scr t) \<Longrightarrow> wf (scr (snd (execCSI pr f b t)))"
  by (simp add: execCSI_def Let_def wf_ops split: option.split)

lemma wf_dispatchCSI [wf_ops]: "wf (scr t) \<Longrightarrow> wf (scr (snd (dispatchCSI t)))"
  by (simp add: dispatchCSI_def Let_def case_prod_beta wf_execCSI)

lemma wf_passSeq [wf_ops]: "wf (scr t) \<Longrightarrow> wf (scr (passSeq t))"
  by (simp add: passSeq_def)

lemma wf_escScreen [wf_ops]:
  assumes "wf s"
  shows "wf (escScreen f s)"
proof -
  have "wf (s\<lparr>modes := (modes s)\<lparr>AppKeypad := b\<rparr>\<rparr>)" for b
    using assms wfD(13) [OF assms] by (intro wf_modes_update) auto
  then show ?thesis
    unfolding escScreen_def using assms by (intro wf_if wf_ops) simp_all
qed

lemma wf_dispatchEsc [wf_ops]: "wf (scr t) \<Longrightarrow> wf (scr (dispatchEsc f t))"
  by (simp add: dispatchEsc_def Let_def wf_ops)

lemma wf_designate [wf_ops]: "wf s \<Longrightarrow> wf (designate i f s)"
  unfolding designate_def by (intro wf_if wf_ops) (simp_all add: wf_def)

lemma wf_dispatchEscInter [wf_ops]: "wf (scr t) \<Longrightarrow> wf (scr (dispatchEscInter t))"
  by (simp add: dispatchEscInter_def Let_def wf_ops)

lemma wf_osc [wf_ops]: "wf (scr t) \<Longrightarrow> wf (scr (snd (osc pl st t)))"
  by (simp add: osc_def oscNum_def Let_def case_prod_beta wf_ops split: option.split)

lemma wf_dcs [wf_ops]: "wf (scr t) \<Longrightarrow> wf (scr (snd (dcs pl t)))"
  by (simp add: dcs_def Let_def)

lemma scr_pst_seq [simp]:
  "scr (t\<lparr>pst := x\<rparr>) = scr t" "scr (t\<lparr>seq := b\<rparr>) = scr t"
  by simp_all

lemma wf_finishString [wf_ops]: "wf (scr t) \<Longrightarrow> wf (scr (finishString st t))"
  by (simp add: finishString_def Let_def case_prod_beta wf_ops)

lemma wf_control [wf_ops]:
  assumes "wf (scr t)"
  shows "wf (scr (control b t))"
  using assms by (simp add: control_def Let_def wf_ops)

lemma wf_abortSeq [wf_ops]: "wf (scr t) \<Longrightarrow> wf (scr (abortSeq t))"
  by (simp add: abortSeq_def)

lemma wf_hold [wf_ops]: "wf (scr t) \<Longrightarrow> wf (scr (hold b t))"
  by simp

lemma wf_lastRuneBeforeCSI [wf_ops]: "wf (scr t) \<Longrightarrow> wf (scr (lastRuneBeforeCSI t))"
  by (simp add: lastRuneBeforeCSI_def wf_ops)

lemma wf_commonC0 [wf_ops]: "wf (scr t) \<Longrightarrow> wf (scr (snd (commonC0 b t)))"
  by (simp add: commonC0_def wf_ops)

lemma wf_stringAppend [wf_ops]: "wf (scr t) \<Longrightarrow> wf (scr (stringAppend d t))"
  by (simp add: stringAppend_def)

lemma wf_stringStop [wf_ops]: "wf (scr t) \<Longrightarrow> wf (scr (stringStop c t))"
  by (simp add: stringStop_def endPassthroughString_def wf_ops)

lemma wf_stringBytes [wf_ops]: "wf (scr t) \<Longrightarrow> wf (scr (snd (stringBytes p t)))"
  by (simp add: stringBytes_def Let_def wf_ops split: list.split)

lemma wf_step [wf_ops]: "wf (scr t) \<Longrightarrow> wf (scr (snd (step b t)))"
  by (simp add: step_def escByte_def escInterByte_def csiByte_def stringEscByte_def endPassthroughString_def
      Let_def case_prod_beta wf_ops split: pstate.split)

end
