(* ===== verification/Print.thy ===== *)
theory Print
  imports Terminal_WF
begin

text \<open>
  The bulk path of \<open>printASCII\<close>. The code writes a run of bytes in one loop and only looks at
  the two ends of the run for wide glyphs it cuts in half; here that is proved to be the same
  as printing the bytes one at a time through \<open>printGlyph\<close>.
\<close>

section \<open>Rows\<close>

text \<open>One glyph at column \<open>x\<close>, and a run of them from left to right.\<close>

definition put1 :: "cell \<Rightarrow> nat \<Rightarrow> cell list \<Rightarrow> cell list" where
  "put1 c x cs = (if cflags (cs ! x) \<noteq> 0 then splitWide cs x else cs)[x := c]"

fun put_run :: "cell list \<Rightarrow> nat \<Rightarrow> cell list \<Rightarrow> cell list" where
  "put_run [] x cs = cs"
| "put_run (c # cc) x cs = put_run cc (x + 1) (put1 c x cs)"

lemma glyph_cells_1: "glyph_cells r 1 x a cs = put1 \<lparr>rn = r, cflags = 0, ca = a, comb = []\<rparr> x cs"
  by (simp add: glyph_cells_def put1_def Let_def)

lemma length_put1 [simp, len]: "length (put1 c x cs) = length cs"
  by (simp add: put1_def)

lemma length_put_run [simp, len]: "length (put_run cc x cs) = length cs"
  by (induction cc x cs rule: put_run.induct) simp_all

lemma put_run_snoc: "put_run (cc @ [c]) x cs = put1 c (x + length cc) (put_run cc x cs)"
  by (induction cc x cs rule: put_run.induct) simp_all

lemma put1_ok:
  assumes "row_ok cs" "x < length cs" "cell_ok c" "plain c"
  shows "row_ok (put1 c x cs)"
  unfolding put1_def using flagged_split [OF assms(1,2)] assms by (intro row_ok_update_plain) auto

lemma nth_put1:
  assumes "row_ok cs" "x < length cs" "i < length cs"
  shows "put1 c x cs ! i =
    (if i = x then c
     else if isPad (cs ! x) \<and> Suc i = x \<or> isWide (cs ! x) \<and> i = Suc x then cell0 else cs ! i)"
  using nth_splitWide [OF assms] flags_eq_0 [OF row_okD(1) [OF assms(1,2)]] assms
  by (auto simp: put1_def plain_def nth_list_update)

lemma nth_put_run:
  assumes "row_ok cs" "cc \<noteq> []" "x + length cc \<le> length cs" "i < length cs"
    and "\<forall>c \<in> set cc. cell_ok c \<and> plain c"
  shows "put_run cc x cs ! i =
    (if x \<le> i \<and> i < x + length cc then cc ! (i - x)
     else if isPad (cs ! x) \<and> Suc i = x \<or> isWide (cs ! (x + length cc - 1)) \<and> i = x + length cc
     then cell0 else cs ! i)"
  using assms
proof (induction cc arbitrary: x cs)
  case (Cons c cc)
  have x: "x < length cs" using Cons.prems by simp
  note n = nth_put1 [OF Cons.prems(1) x]
  show ?case
  proof (cases "cc = []")
    case True
    then show ?thesis using Cons.prems x by (auto simp: n)
  next
    case False
    define cs' where "cs' = put1 c x cs"
    have x1: "Suc x < length cs" using Cons.prems False by (cases cc) auto
    have ok: "row_ok cs'" using Cons.prems x by (simp add: cs'_def put1_ok)
    have IH: "put_run cc (x + 1) cs' ! i =
      (if x + 1 \<le> i \<and> i < x + 1 + length cc then cc ! (i - (x + 1))
       else if isPad (cs' ! (x + 1)) \<and> Suc i = x + 1
         \<or> isWide (cs' ! (x + 1 + length cc - 1)) \<and> i = x + 1 + length cc
       then cell0 else cs' ! i)"
      using Cons.prems False ok by (intro Cons.IH) (simp_all add: cs'_def)
    have p: "\<not> isPad (cs' ! (x + 1))"
      using row_okD(3) [OF Cons.prems(1) x1] n [of "Suc x"] x1 by (auto simp: cs'_def)
    have l: "x + length cc < length cs" using Cons.prems by simp
    have w: "isWide (cs' ! (x + 1 + length cc - 1)) = isWide (cs ! (x + length cc))"
    proof (cases "isWide (cs ! x) \<and> length cc = 1")
      case True
      then have "isPad (cs ! Suc x)" using row_okD(2) [OF Cons.prems(1) x] by simp
      then have "\<not> isWide (cs ! Suc x)" using row_okD(4) [OF Cons.prems(1) x1] by blast
      then show ?thesis using True n [of "Suc x"] x1 by (simp add: cs'_def)
    next
      case F: False
      have "cs' ! (x + length cc) = cs ! (x + length cc)"
        using F l False n [of "x + length cc"] by (auto simp: cs'_def)
      then show ?thesis by simp
    qed
    have o: "cs' ! i = (if isPad (cs ! x) \<and> Suc i = x then cell0 else cs ! i)"
      if "\<not> (x \<le> i \<and> i < x + length (c # cc))"
      using n [OF Cons.prems(4)] that False by (cases cc) (auto simp: cs'_def)
    have o1: "cs' ! i = c" if "i = x" using n [OF Cons.prems(4)] that by (simp add: cs'_def)
    show ?thesis
      using IH p w o o1 by (auto simp: cs'_def [symmetric] nth_Cons' Suc_le_eq)
  qed
qed simp

lemma run_cells_simps [simp]:
  "length (run_cells a run) = length run" "run_cells a (run @ [b]) =
     run_cells a run @ [\<lparr>rn = uint b, cflags = 0, ca = a, comb = []\<rparr>]"
  "run_cells a [] = []" "run_cells a run = [] \<longleftrightarrow> run = []"
  by (simp_all add: run_cells_def)

lemma run_cells_ok: "c \<in> set (run_cells a run) \<Longrightarrow> cell_ok c \<and> plain c"
  by (auto simp: run_cells_def cell_ok_def isPad_def)

lemma store_run_eq:
  assumes "row_ok cs" "run \<noteq> []" "x + length run \<le> length cs"
  shows "store_run a run x cs = put_run (run_cells a run) x cs"
proof (rule nth_equalityI)
  define n where "n = length run"
  define c1 where "c1 = (if isPad (cs ! x) then splitWide cs x else cs)"
  define c2 where "c2 = (if isWide (c1 ! (x + n - 1)) then splitWide c1 (x + n - 1) else c1)"
  have n: "0 < n" "x < length cs" "x + n - 1 < length cs" "x + n \<le> length cs"
    using assms by (cases run; simp add: n_def)+
  have c1: "row_ok c1" "length c1 = length cs" using assms by (simp_all add: c1_def splitWide_ok)
  have s: "store_run a run x cs = copy_at x (run_cells a run) c2"
    unfolding store_run_def Let_def n_def [symmetric] c1_def [symmetric] c2_def [symmetric] ..
  show "length (store_run a run x cs) = length (put_run (run_cells a run) x cs)"
    using c1 by (simp add: s c2_def)
  fix i assume "i < length (store_run a run x cs)"
  then have i: "i < length cs" using c1 by (simp add: s c2_def split: if_splits)
  have w1: "isWide (c1 ! (x + n - 1)) = isWide (cs ! (x + n - 1))"
  proof (cases "isPad (cs ! x)")
    case True
    then have e: "c1 ! (x + n - 1) = (if n = 1 then cell0 else cs ! (x + n - 1))"
      using nth_splitWide [OF assms(1) n(2,3)] n row_okD(4) [OF assms(1) n(2)]
      by (auto simp: c1_def plain_def)
    show ?thesis using e True row_okD(4) [OF assms(1) n(2)] by auto
  qed (simp add: c1_def)
  have o: "c2 ! i = (if isPad (cs ! x) \<and> Suc i = x \<or> isWide (cs ! (x + n - 1)) \<and> i = x + n
      then cell0 else cs ! i)" if "\<not> (x \<le> i \<and> i < x + n)"
  proof -
    have a: "c1 ! i = (if isPad (cs ! x) \<and> Suc i = x then cell0 else cs ! i)"
      using nth_splitWide [OF assms(1) n(2) i] that n row_okD(4) [OF assms(1) n(2)]
      by (auto simp: c1_def plain_def)
    have "c2 ! i = (if isWide (c1 ! (x + n - 1)) \<and> i = x + n then cell0 else c1 ! i)"
      using nth_splitWide [OF c1(1), of "x + n - 1" i] that n i c1 row_okD(4) [OF c1(1), of "x + n - 1"]
      by (auto simp: c2_def plain_def)
    then show ?thesis using a w1 by auto
  qed
  have "put_run (run_cells a run) x cs ! i =
    (if x \<le> i \<and> i < x + n then run_cells a run ! (i - x)
     else if isPad (cs ! x) \<and> Suc i = x \<or> isWide (cs ! (x + n - 1)) \<and> i = x + n then cell0 else cs ! i)"
    using nth_put_run [OF assms(1), of "run_cells a run" x i] assms i run_cells_ok by (simp add: n_def)
  moreover have "length c2 = length cs" using c1 by (simp add: c2_def)
  then have "store_run a run x cs ! i = (if x \<le> i \<and> i < x + n then run_cells a run ! (i - x) else c2 ! i)"
    using i by (simp add: s nth_copy_at n_def)
  ultimately show "store_run a run x cs ! i = put_run (run_cells a run) x cs ! i"
    using o by (cases "x \<le> i \<and> i < x + n") simp_all
qed

section \<open>Screens\<close>

definition print_bytes :: "byte list \<Rightarrow> screen \<Rightarrow> screen" where
  "print_bytes run s = foldl (\<lambda>s b. printGlyph (glyph_rune s b) 1 s) s run"

lemma print_bytes_simps [simp]:
  "print_bytes [] s = s"
  "print_bytes (b # run) s = print_bytes run (printGlyph (glyph_rune s b) 1 s)"
  "print_bytes (r1 @ r2) s = print_bytes r2 (print_bytes r1 s)"
  by (simp_all add: print_bytes_def)

lemma wf_print_bytes [wf_ops]: "wf s \<Longrightarrow> wf (print_bytes run s)"
  by (induction run arbitrary: s) (simp_all add: wf_printGlyph)

lemma set_line_twice: "set_line y l2 (set_line y l1 s) = set_line y l2 s"
  by (simp add: set_line_def set_buf_def buf_def)

lemma set_line_updates [simp]:
  "set_line y l (s\<lparr>cx := x\<rparr>) = (set_line y l s)\<lparr>cx := x\<rparr>"
  "set_line y l (s\<lparr>lastRune := r\<rparr>) = (set_line y l s)\<lparr>lastRune := r\<rparr>"
  "set_line y l (s\<lparr>lastWidth := w\<rparr>) = (set_line y l s)\<lparr>lastWidth := w\<rparr>"
  by (simp_all add: set_line_def set_buf_def buf_def)

lemma fields_commute:
  "s\<lparr>cx := x, lastRune := r, lastWidth := w\<rparr> = s\<lparr>lastRune := r, lastWidth := w, cx := x\<rparr>"
  "s\<lparr>lastRune := r, lastWidth := w, cx := x, lastRune := r', lastWidth := w', cx := x'\<rparr> =
   s\<lparr>lastRune := r', lastWidth := w', cx := x'\<rparr>"
  by simp_all

text \<open>One byte in the situation the fast path is for.\<close>

lemma printGlyph_replace:
  assumes "\<not> pendingWrap s" "\<not> Insert (modes s)" "cx s + 1 < cols s"
  shows "printGlyph r 1 s =
    (set_line (cy s) \<lparr>cells = put1 \<lparr>rn = r, cflags = 0, ca = pen s, comb = []\<rparr> (cx s)
                                  (cells (buf s ! cy s)), used = True\<rparr> s)
      \<lparr>lastRune := r, lastWidth := 1, cx := cx s + 1\<rparr>"
  using assms
  by (simp add: printGlyph_def wrap_pending_def glyph_store_def advance_def glyph_cells_1 [simplified] Let_def)

lemma print_run_snoc:
  assumes "wf s" "cx s + length (run @ [b]) < cols s" "run \<noteq> []"
    and "\<not> pendingWrap s" "\<not> Insert (modes s)" "g s ! gl s \<noteq> bc CHR ''0''"
  shows "printGlyph (uint b) 1 (print_run run s) = print_run (run @ [b]) s"
proof -
  have y: "cy s < length (buf s)" using assms(1) wf_length_buf wfD(4) by simp
  have r: "row_ok (cells (buf s ! cy s))" "length (cells (buf s ! cy s)) = cols s"
    using assms(1) wf_row wfD(4) by auto
  have e1: "store_run (pen s) run (cx s) (cells (buf s ! cy s)) =
      put_run (run_cells (pen s) run) (cx s) (cells (buf s ! cy s))"
    using assms r by (intro store_run_eq) simp_all
  have e2: "store_run (pen s) (run @ [b]) (cx s) (cells (buf s ! cy s)) =
      put_run (run_cells (pen s) (run @ [b])) (cx s) (cells (buf s ! cy s))"
    using assms r by (intro store_run_eq) simp_all
  have "printGlyph (uint b) 1 (print_run run s) =
    (set_line (cy s) \<lparr>cells = put1 \<lparr>rn = uint b, cflags = 0, ca = pen s, comb = []\<rparr> (cx s + length run)
        (store_run (pen s) run (cx s) (cells (buf s ! cy s))), used = True\<rparr> s)
      \<lparr>lastRune := uint b, lastWidth := 1, cx := cx s + length run + 1\<rparr>"
    using assms y
    by (subst printGlyph_replace)
       (simp_all add: print_run_def set_line_twice fields_commute)
  then show ?thesis
    by (simp add: print_run_def e1 e2 put_run_snoc fields_commute)
qed

lemma print_run_single:
  assumes "wf s" "cx s + 1 < cols s" "\<not> pendingWrap s" "\<not> Insert (modes s)"
  shows "printGlyph (uint b) 1 s = print_run [b] s"
proof -
  have r: "row_ok (cells (buf s ! cy s))" "length (cells (buf s ! cy s)) = cols s"
    using assms(1) wf_row wfD(4) by auto
  have "store_run (pen s) [b] (cx s) (cells (buf s ! cy s)) =
      put_run (run_cells (pen s) [b]) (cx s) (cells (buf s ! cy s))"
    using assms r by (intro store_run_eq) simp_all
  moreover have "run_cells (pen s) [b] = [\<lparr>rn = uint b, cflags = 0, ca = pen s, comb = []\<rparr>]"
    by (simp add: run_cells_def)
  ultimately show ?thesis
    using assms by (subst printGlyph_replace) (simp_all add: print_run_def fields_commute)
qed

lemma print_run_frames [simp]:
  "pendingWrap (print_run run s) = pendingWrap s" "modes (print_run run s) = modes s"
  "g (print_run run s) = g s" "gl (print_run run s) = gl s" "cols (print_run run s) = cols s"
  "cx (print_run run s) = cx s + length run"
  by (simp_all add: print_run_def)

lemma print_run_bytes:
  assumes "wf s" "cx s + length run < cols s" "run \<noteq> []"
    and "\<not> pendingWrap s" "\<not> Insert (modes s)" "g s ! gl s \<noteq> bc CHR ''0''"
  shows "print_bytes run s = print_run run s"
  using assms(2,3)
proof (induction run rule: rev_induct)
  case (snoc b run)
  have gr: "glyph_rune t b = uint b" if "g t = g s" "gl t = gl s" for t
    using assms(6) that by (simp add: glyph_rune_def Let_def)
  show ?case
  proof (cases "run = []")
    case True
    then show ?thesis using snoc assms print_run_single [of s b] by (simp add: gr)
  next
    case False
    then have "print_bytes run s = print_run run s" using snoc by simp
    then show ?thesis
      using snoc.prems assms False by (simp add: gr print_run_snoc del: One_nat_def)
  qed
qed simp

lemma print_bytes_fast: "wf s \<Longrightarrow> printASCII run s = print_bytes run s"
proof (induction run s rule: printASCII.induct)
  case (1 run s)
  show ?case
  proof (cases "run = []")
    case True
    then show ?thesis by (simp add: printASCII.simps [of "[]" s])
  next
    case False
    define n where "n = min (length run) (cols s - 1 - cx s)"
    show ?thesis
    proof (cases "n = 0 \<or> pendingWrap s \<or> Insert (modes s) \<or> g s ! gl s = bc CHR ''0''")
      case slow: True
      then have "printASCII run s = printASCII (tl run) (printGlyph (glyph_rune s (hd run)) 1 s)"
        unfolding printASCII.simps [of run s] Let_def n_def [symmetric] using False by simp
      also have "\<dots> = print_bytes (tl run) (printGlyph (glyph_rune s (hd run)) 1 s)"
        using 1(1) [OF False n_def slow] 1(3) by (simp add: wf_printGlyph)
      also have "\<dots> = print_bytes run s" using False by (cases run) simp_all
      finally show ?thesis .
    next
      case fast: False
      have len: "length (take n run) = n" by (simp add: n_def)
      have e: "print_bytes (take n run) s = print_run (take n run) s"
        using fast 1(3) False by (intro print_run_bytes) (auto simp: n_def)
      then have w: "wf (print_run (take n run) s)" using wf_print_bytes [OF 1(3)] by metis
      have "printASCII run s = printASCII (drop n run) (print_run (take n run) s)"
        unfolding printASCII.simps [of run s] Let_def n_def [symmetric] using False fast by simp
      also have "\<dots> = print_bytes (drop n run) (print_run (take n run) s)"
        using 1(2) [OF False n_def fast] w by simp
      also have "\<dots> = print_bytes (take n run @ drop n run) s" using e by (simp del: append_take_drop_id)
      finally show ?thesis by simp
    qed
  qed
qed

lemma wf_printASCII [wf_ops]: "wf s \<Longrightarrow> wf (printASCII run s)"
  by (simp add: print_bytes_fast wf_print_bytes)

lemma printASCII_append: "wf s \<Longrightarrow> printASCII (r1 @ r2) s = printASCII r2 (printASCII r1 s)"
  by (simp add: print_bytes_fast wf_print_bytes)

end
