(* ===== verification/Feed_Laws.thy ===== *)
theory Feed_Laws
  imports Print
begin

text \<open>
  The laws of \<open>Feed\<close>. \<open>term_ok\<close> is the invariant of the whole terminal: the screen invariant,
  and for every parser state the shape of the held bytes that the slice expressions of the
  dispatch functions rely on. \<open>feed_loop\<close> keeps it, does not depend on how its input is cut
  into chunks (interpretation \<open>vt\<close> of the locale \<open>incremental\<close>), and only appends to its output
  streams.
\<close>

section \<open>The terminal invariant\<close>

definition parser_ok :: "terminal \<Rightarrow> bool" where
  "parser_ok t \<longleftrightarrow>
     (case pst t of
        stGround \<Rightarrow> seq t = [] \<and> \<not> csiOverflow t \<and> \<not> strOverflow t
          \<and> (ubuf t = [] \<or> \<not> full_rune (ubuf t))
      | stEsc \<Rightarrow> seq t \<noteq> [] \<and> \<not> csiOverflow t \<and> \<not> strOverflow t \<and> ubuf t = []
      | stEscInter \<Rightarrow> 2 \<le> length (seq t) \<and> \<not> csiOverflow t \<and> \<not> strOverflow t \<and> ubuf t = []
      | stCSI \<Rightarrow> (if csiOverflow t then seq t = [] else 2 \<le> length (seq t)) \<and> \<not> strOverflow t
          \<and> ubuf t = []
      | stString \<Rightarrow> (if strOverflow t then seq t = [] else 2 \<le> length (seq t)) \<and> \<not> csiOverflow t
          \<and> ubuf t = []
      | stStringEsc \<Rightarrow> (if strOverflow t then seq t = [ESC] else 3 \<le> length (seq t))
          \<and> \<not> csiOverflow t \<and> ubuf t = [])"

definition term_ok :: "terminal \<Rightarrow> bool" where
  "term_ok t \<longleftrightarrow> wf (scr t) \<and> parser_ok t"

lemma term_okD: "term_ok t \<Longrightarrow> wf (scr t)" "term_ok t \<Longrightarrow> parser_ok t"
  by (simp_all add: term_ok_def)

lemma parser_ok_new: "parser_ok (NewTerminal c r h)"
  by (simp add: parser_ok_def NewTerminal_def)

lemma term_ok_new: "term_ok (NewTerminal c r h)"
  using parser_ok_new by (simp add: term_ok_def NewTerminal_def wf_New)

lemma parser_ok_commonC0:
  "parser_ok t \<Longrightarrow> pst t \<noteq> stGround \<Longrightarrow> fst (commonC0 b t) \<Longrightarrow> parser_ok (snd (commonC0 b t))"
  by (auto simp: commonC0_def parser_ok_def abortSeq_def split: pstate.splits)

lemma parser_ok_abortSeq: "ubuf t = [] \<Longrightarrow> parser_ok (abortSeq t)"
  by (simp add: parser_ok_def)

lemma parser_ok_escByte:
  assumes "parser_ok t" "pst t = stEsc"
  shows "parser_ok (snd (escByte b t))"
proof (cases "fst (commonC0 b t)")
  case True
  then show ?thesis using parser_ok_commonC0 [OF assms(1) _ True] assms(2) by (simp add: escByte_def case_prod_beta)
next
  case False
  have s: "seq t \<noteq> []" "\<not> csiOverflow t" "\<not> strOverflow t" "ubuf t = []"
    using assms by (simp_all add: parser_ok_def)
  then have "2 \<le> length (seq t @ [b])" by (cases "seq t") auto
  with False s assms show ?thesis
    by (auto simp: escByte_def case_prod_beta parser_ok_def)
qed

lemma parser_ok_escInterByte:
  assumes "parser_ok t" "pst t = stEscInter"
  shows "parser_ok (snd (escInterByte b t))"
proof (cases "fst (commonC0 b t)")
  case True
  then show ?thesis using parser_ok_commonC0 [OF assms(1) _ True] assms(2) by (simp add: escInterByte_def case_prod_beta)
next
  case False
  with assms show ?thesis
    by (auto simp: escInterByte_def case_prod_beta parser_ok_def)
qed

lemma parser_ok_csiByte:
  assumes "parser_ok t" "pst t = stCSI"
  shows "parser_ok (snd (csiByte b t))"
proof (cases "fst (commonC0 b t)")
  case True
  then show ?thesis using parser_ok_commonC0 [OF assms(1) _ True] assms(2) by (simp add: csiByte_def case_prod_beta)
next
  case False
  with assms show ?thesis
    by (auto simp: csiByte_def case_prod_beta parser_ok_def Let_def split: if_splits)
qed

lemma parser_ok_stringEscByte:
  assumes "parser_ok t" "pst t = stStringEsc"
  shows "parser_ok (snd (stringEscByte b t))"
  using assms by (auto simp: stringEscByte_def endPassthroughString_def parser_ok_def split: if_splits)

lemma parser_ok_step:
  assumes "parser_ok t" "pst t \<noteq> stGround" "pst t \<noteq> stString"
  shows "parser_ok (snd (step b t))"
  using assms parser_ok_escByte parser_ok_escInterByte parser_ok_csiByte parser_ok_stringEscByte
  by (cases "pst t") (simp_all add: step_def)

lemma parser_ok_stringAppend:
  "parser_ok t \<Longrightarrow> pst t = stString \<Longrightarrow> parser_ok (stringAppend d t)"
  by (auto simp: parser_ok_def stringAppend_def split: if_splits)

lemma parser_ok_stringStop:
  "parser_ok t \<Longrightarrow> pst t = stString \<Longrightarrow> parser_ok (stringStop c t)"
  using parser_ok_stringAppend [of t "[BEL]"]
  by (auto simp: stringStop_def endPassthroughString_def parser_ok_def split: if_splits)

lemma parser_ok_stringBytes:
  "parser_ok t \<Longrightarrow> pst t = stString \<Longrightarrow> parser_ok (snd (stringBytes p t))"
  by (auto simp: stringBytes_def Let_def parser_ok_stringAppend parser_ok_stringStop split: list.split)

section \<open>The ground state\<close>

lemma ubuf_id [simp]: "ubuf t = [] \<Longrightarrow> t\<lparr>ubuf := []\<rparr> = t"
  by (cases t) simp

lemma emit_Nil [simp]: "emit [] t = t"
  by (simp add: emit_def)

lemma emit_emit [simp]: "emit b (emit a t) = emit (a @ b) t"
  by (simp add: emit_def)

lemma on_scr_id [simp]: "on_scr f t = t" if "f (scr t) = scr t"
  using that by (simp add: on_scr_def)

lemma on_scr_emit: "on_scr f (emit b t) = emit b (on_scr f t)"
  by (simp add: on_scr_def emit_def)

lemma on_scr_on_scr [simp]: "on_scr f (on_scr h t) = on_scr (\<lambda>s. f (h s)) t"
  by (simp add: on_scr_def)

lemma ubuf_commutes [simp]:
  "(put_rune r b t)\<lparr>ubuf := u\<rparr> = put_rune r b (t\<lparr>ubuf := u\<rparr>)"
  by (simp add: put_rune_def emit_def on_scr_def)

lemma printASCII_Nil [simp]: "printASCII [] s = s"
  by (simp add: printASCII.simps [of "[]" s])

text \<open>The state after a run of printable bytes, and the same run at any point of the input.\<close>

definition put_ascii :: "byte list \<Rightarrow> terminal \<Rightarrow> terminal" where
  "put_ascii run t = emit run (on_scr (printASCII run) t)"

lemma put_ascii_Nil [simp]: "put_ascii [] t = t"
  by (simp add: put_ascii_def)

lemma put_ascii_append:
  "wf (scr t) \<Longrightarrow> put_ascii (r1 @ r2) t = put_ascii r2 (put_ascii r1 t)"
  by (simp add: put_ascii_def printASCII_append emit_def on_scr_def)

lemma ground_loop_run:
  "ground_loop q t = ground_loop (dropWhile printable q) (put_ascii (takeWhile printable q) t)"
proof (cases q)
  case (Cons b q')
  show ?thesis
  proof (cases "printable b")
    case True
    then show ?thesis unfolding Cons ground_loop.simps(2) Let_def put_ascii_def by (simp only: if_True)
  next
    case False
    then show ?thesis by (simp only: Cons takeWhile.simps dropWhile.simps if_False put_ascii_Nil)
  qed
qed simp

lemma put_ascii_frame [simp]:
  "pst (put_ascii r t) = pst t" "ubuf (put_ascii r t) = ubuf t" "seq (put_ascii r t) = seq t"
  "csiOverflow (put_ascii r t) = csiOverflow t" "strOverflow (put_ascii r t) = strOverflow t"
  "scr (put_ascii r t) = printASCII r (scr t)" "discardForward (put_ascii r t) = discardForward t"
  by (simp_all add: put_ascii_def)

lemma not_printable_high: "0x80 \<le> b \<Longrightarrow> \<not> printable b \<and> b \<noteq> ESC \<and> \<not> b < 0x20 \<and> b \<noteq> 0x7f"
  by (auto simp: printable_def word_le_def word_less_def)

text \<open>What ends a round in the ground state: the end of the input, perhaps inside a rune, or an
  ESC.\<close>

lemma ground_loop_ok:
  assumes "wf (scr t)" "parser_ok t" "pst t = stGround" "ubuf t = []"
  shows "wf (scr (snd (ground_loop p t))) \<and> parser_ok (snd (ground_loop p t))
    \<and> (pst (snd (ground_loop p t)) = stGround \<and> fst (ground_loop p t) = []
       \<or> pst (snd (ground_loop p t)) = stEsc \<and> ubuf (snd (ground_loop p t)) = [])"
  using assms
proof (induction p t rule: ground_loop.induct)
  case (2 b q t)
  consider "printable b" | "\<not> printable b" "b = ESC" | "\<not> printable b" "b \<noteq> ESC" "b < 0x20"
    | "\<not> printable b" "b \<noteq> ESC" "\<not> b < 0x20" "b = 0x7f"
    | "\<not> printable b" "b \<noteq> ESC" "\<not> b < 0x20" "b \<noteq> 0x7f" "\<not> full_rune (b # q)"
    | "\<not> printable b" "b \<noteq> ESC" "\<not> b < 0x20" "b \<noteq> 0x7f" "full_rune (b # q)"
    by blast
  then show ?case
  proof cases
    case 1
    have "parser_ok (emit (takeWhile printable (b # q)) (on_scr (printASCII (takeWhile printable (b # q))) t))"
      using 2 by (simp add: parser_ok_def)
    then show ?thesis using 2(1) [OF 1 refl] 2(5-8) 1 by (simp add: Let_def wf_printASCII)
  next
    case 2
    then show ?thesis using \<open>wf (scr t)\<close> \<open>parser_ok t\<close> \<open>ubuf t = []\<close> \<open>pst t = _\<close> by (simp add: parser_ok_def)
  next
    case 3
    have "parser_ok (control b t)" using 2 by (simp add: parser_ok_def)
    then show ?thesis using 2(2) [OF 3] 2(5-8) 3 by (simp add: wf_control)
  next
    case 4
    have "parser_ok (emit [b] t)" using 2 by (simp add: parser_ok_def)
    then show ?thesis using 2(3) [OF 4] 2(5-8) 4 by simp
  next
    case 5
    then have "length (b # q) < 4" using not_full_short by blast
    then show ?thesis using 5 2(5-8) by (simp add: parser_ok_def)
  next
    case 6
    obtain r n where d: "decode_rune (b # q) = (r, n)" by (cases "decode_rune (b # q)") auto
    have "valid_rune r" using decode_rune_valid [of "b # q"] d by simp
    then have "wf (scr (put_rune r (take n (b # q)) t))" using 2(5) by (simp add: put_rune_def wf_printRune)
    moreover have "parser_ok (put_rune r (take n (b # q)) t)" using 2 by (simp add: parser_ok_def)
    ultimately show ?thesis using 2(4) [OF 6(1-4)] 2(5-8) 6 d by simp
  qed
qed simp

text \<open>Finishing a rune held from an earlier chunk is the same as having had all of it at once.\<close>

lemma finish_ground:
  assumes "\<forall>b \<in> set (ubuf t). 0x80 \<le> b" "length (ubuf t) \<le> 4"
  shows "(let (p1, t1) = finishRune p t in if ubuf t1 \<noteq> [] then (p1, t1) else ground_loop p1 t1) =
    ground_loop (ubuf t @ p) (t\<lparr>ubuf := []\<rparr>)"
  using assms
proof (induction p t rule: finishRune.induct)
  case (1 p t)
  show ?case
  proof (cases "ubuf t = []")
    case True
    then show ?thesis by (simp add: finishRune.simps [of p t])
  next
    case False
    define u where "u = ubuf t"
    define n where "n = length u"
    define b where "b = u @ take (4 - n) p"
    have u4: "take 4 (ubuf t) = u" using 1(3) by (simp add: u_def)
    have b4: "b = take 4 (u @ p)" using 1(3) by (simp add: b_def n_def u_def)
    have "u \<noteq> []" using False by (simp add: u_def)
    then obtain c u' where c: "u = c # u'" by (cases u) auto
    then have hi: "\<not> printable c" "c \<noteq> ESC" "\<not> c < 0x20" "c \<noteq> 0x7f"
      using 1(2) not_printable_high [of c] by (auto simp: u_def)
    have F: "finishRune p t = (if \<not> full_rune b then (drop (4 - n) p, t\<lparr>ubuf := b\<rparr>)
        else let (r, size) = decode_rune b; t1 = put_rune r (take size b) t
             in if size \<ge> n then (drop (size - n) p, t1\<lparr>ubuf := []\<rparr>)
                else finishRune p (t1\<lparr>ubuf := drop size u\<rparr>))"
      using False unfolding finishRune.simps [of p t] Let_def u4 n_def [symmetric] b_def [symmetric] by simp
    have full: "full_rune b = full_rune (u @ p)" unfolding b4 by (rule full_rune_take4)
    have t0: "t\<lparr>ubuf := []\<rparr>\<lparr>ubuf := x\<rparr> = t\<lparr>ubuf := x\<rparr>" for x by simp
    show ?thesis
    proof (cases "full_rune b")
      case nf: False
      then have "length (u @ p) < 4" using full not_full_short by blast
      then have "b = u @ p" "drop (4 - n) p = []" "take 3 u' @ take (3 - length u') p = u' @ p"
        using c by (simp_all add: b4 n_def)
      then show ?thesis
        using nf F False full hi c by (simp add: u_def [symmetric])
    next
      case f: True
      obtain r size where d: "decode_rune b = (r, size)" by (cases "decode_rune b") auto
      then have d': "decode_rune (u @ p) = (r, size)" using f full b4 decode_rune_take4 by metis
      have s4: "size \<le> 4" using decode_rune_size_le4 [of b] d by simp
      have tk: "take size b = take size (u @ p)" using s4 by (simp add: b4 min_def)
      have R: "ground_loop (u @ p) (t\<lparr>ubuf := []\<rparr>) =
          ground_loop (drop size (u @ p)) (put_rune r (take size (u @ p)) (t\<lparr>ubuf := []\<rparr>))"
        using hi c f full d' by simp
      show ?thesis
      proof (cases "size \<ge> n")
        case True
        then show ?thesis
          using F f d R tk by (simp add: u_def [symmetric] n_def)
      next
        case less: False
        define t1 where "t1 = (put_rune r (take size b) t)\<lparr>ubuf := drop size u\<rparr>"
        have "\<forall>x \<in> set (drop size u). 0x80 \<le> x" "length (drop size u) \<le> 4"
          using 1(2,3) by (auto simp: u_def dest: in_set_dropD)
        then have "(let (p1, t1) = finishRune p t1 in if ubuf t1 \<noteq> [] then (p1, t1) else ground_loop p1 t1) =
            ground_loop (ubuf t1 @ p) (t1\<lparr>ubuf := []\<rparr>)"
          unfolding t1_def
          using 1(1) [OF False u4 [symmetric] n_def b_def _ d [symmetric] refl refl] f less
          by simp
        then show ?thesis
          using F f d less R tk by (simp add: u_def [symmetric] n_def t1_def)
      qed
    qed
  qed
qed

lemma ground_eq:
  assumes "parser_ok t" "pst t = stGround"
  shows "ground p t = ground_loop (ubuf t @ p) (t\<lparr>ubuf := []\<rparr>)"
proof (cases "ubuf t = []")
  case True
  then show ?thesis by (simp add: ground_def)
next
  case False
  then have nf: "\<not> full_rune (ubuf t)" using assms by (simp add: parser_ok_def)
  then have "\<forall>b \<in> set (ubuf t). 0x80 \<le> b" "length (ubuf t) \<le> 4"
    using held_high not_full_short by (blast, fastforce)
  then show ?thesis using finish_ground [of t p] False by (simp add: ground_def)
qed

lemma takeWhile_append_all: "dropWhile P xs = [] \<Longrightarrow> takeWhile P (xs @ ys) = xs @ takeWhile P ys"
  by (induction xs) (auto split: if_splits)

lemma dropWhile_append_all: "dropWhile P xs = [] \<Longrightarrow> dropWhile P (xs @ ys) = dropWhile P ys"
  by (induction xs) (auto split: if_splits)

lemma takeWhile_append_some: "dropWhile P xs \<noteq> [] \<Longrightarrow> takeWhile P (xs @ ys) = takeWhile P xs"
  by (induction xs) (auto split: if_splits)

lemma dropWhile_append_some: "dropWhile P xs \<noteq> [] \<Longrightarrow> dropWhile P (xs @ ys) = dropWhile P xs @ ys"
  by (induction xs) (auto split: if_splits)

lemma takeWhile_all: "dropWhile P xs = [] \<Longrightarrow> takeWhile P xs = xs"
  by (induction xs) (auto split: if_splits)

lemma ground_loop_append:
  assumes "wf (scr t)" "pst t = stGround" "ubuf t = []"
  shows "ground_loop (p @ q) t =
    (let (r, t1) = ground_loop p t
     in if pst t1 = stEsc then (r @ q, t1) else ground_loop (ubuf t1 @ q) (t1\<lparr>ubuf := []\<rparr>))"
  using assms
proof (induction p t rule: ground_loop.induct)
  case (2 b p t)
  consider "printable b" | "\<not> printable b" "b = ESC" | "\<not> printable b" "b \<noteq> ESC" "b < 0x20"
    | "\<not> printable b" "b \<noteq> ESC" "\<not> b < 0x20" "b = 0x7f"
    | "\<not> printable b" "b \<noteq> ESC" "\<not> b < 0x20" "b \<noteq> 0x7f" "\<not> full_rune (b # p)"
    | "\<not> printable b" "b \<noteq> ESC" "\<not> b < 0x20" "b \<noteq> 0x7f" "full_rune (b # p)"
    by blast
  then show ?case
  proof cases
    case 1
    define run where "run = takeWhile printable (b # p)"
    define rest where "rest = dropWhile printable (b # p)"
    have IH: "ground_loop (rest @ q) (put_ascii run t) =
        (let (r, t1) = ground_loop rest (put_ascii run t)
         in if pst t1 = stEsc then (r @ q, t1) else ground_loop (ubuf t1 @ q) (t1\<lparr>ubuf := []\<rparr>))"
      unfolding rest_def run_def put_ascii_def using 2(1) [OF 1 refl] 2(5-7) by (simp add: wf_printASCII)
    have L: "ground_loop (b # p) t = ground_loop rest (put_ascii run t)"
      unfolding rest_def run_def by (rule ground_loop_run)
    show ?thesis
    proof (cases "rest = []")
      case True
      then have a: "takeWhile printable ((b # p) @ q) = run @ takeWhile printable q"
        "dropWhile printable ((b # p) @ q) = dropWhile printable q"
        using takeWhile_append_all [of printable "b # p" q] dropWhile_append_all [of printable "b # p" q]
          takeWhile_all [of printable "b # p"] unfolding run_def rest_def by simp_all
      have "ground_loop ((b # p) @ q) t =
          ground_loop (dropWhile printable q) (put_ascii (takeWhile printable q) (put_ascii run t))"
        using ground_loop_run [of "(b # p) @ q" t] a 2(5) by (simp only: put_ascii_append)
      also have "\<dots> = ground_loop q (put_ascii run t)" by (rule ground_loop_run [symmetric])
      finally show ?thesis using L True 2(6,7) by simp
    next
      case False
      then have a: "takeWhile printable ((b # p) @ q) = run"
        "dropWhile printable ((b # p) @ q) = rest @ q"
        using takeWhile_append_some [of printable "b # p" q] dropWhile_append_some [of printable "b # p" q]
        unfolding run_def rest_def by simp_all
      have "ground_loop ((b # p) @ q) t = ground_loop (rest @ q) (put_ascii run t)"
        using ground_loop_run [of "(b # p) @ q" t] a by simp
      then show ?thesis using IH L by simp
    qed
  next
    case 2
    then show ?thesis by simp
  next
    case 3
    then show ?thesis using 2(2) [OF 3] 2(5-7) by (simp add: wf_control)
  next
    case 4
    then show ?thesis using 2(3) [OF 4] 2(5-7) by simp
  next
    case 5
    then have "length (b # p) < 4" using not_full_short by blast
    then show ?thesis using 5 2(5-7) by simp
  next
    case 6
    obtain r n where d: "decode_rune (b # p) = (r, n)" by (cases "decode_rune (b # p)") auto
    have "valid_rune r" using decode_rune_valid [of "b # p"] d by simp
    then have w: "wf (scr (put_rune r (take n (b # p)) t))" using 2(5) by (simp add: put_rune_def wf_printRune)
    have n: "n \<le> length (b # p)" using decode_rune_size_le [of "b # p"] d by simp
    have d': "decode_rune (b # p @ q) = (r, n)" using decode_rune_append [of "b # p" q] 6(5) d by simp
    have f': "full_rune (b # p @ q)" using full_rune_append [of "b # p" q] 6(5) by simp
    have dr: "drop n (b # p @ q) = drop n (b # p) @ q" "take n (b # p @ q) = take n (b # p)"
      using n drop_append [of n "b # p" q] take_append [of n "b # p" q] by simp_all
    show ?thesis
      using 2(4) [OF 6(1-4) _ d [symmetric] refl] 2(5-7) 6 d d' f' w
      by (simp add: dr)
  qed
qed simp

section \<open>Chunks\<close>

lemma string_append: "stringAppend (a @ b) t = stringAppend b (stringAppend a t)"
  by (auto simp: stringAppend_def)

lemma stringBytes_all:
  "dropWhile (\<lambda>c. \<not> string_stop c) p = [] \<Longrightarrow> stringBytes p t = ([], stringAppend p t)"
  unfolding stringBytes_def Let_def by (simp only: takeWhile_all list.case)

lemma stringBytes_append:
  "stringBytes (p @ q) t =
    (if dropWhile (\<lambda>c. \<not> string_stop c) p = [] then stringBytes q (snd (stringBytes p t))
     else (fst (stringBytes p t) @ q, snd (stringBytes p t)))"
proof (cases "dropWhile (\<lambda>c. \<not> string_stop c) p")
  case Nil
  have "stringBytes (p @ q) t = stringBytes q (stringAppend p t)"
    unfolding stringBytes_def Let_def takeWhile_append_all [OF Nil] dropWhile_append_all [OF Nil]
    by (cases "dropWhile (\<lambda>c. \<not> string_stop c) q") 
       (simp_all add: string_append del: dropWhile_eq_Nil_conv)
  then show ?thesis using Nil by (simp only: stringBytes_all [OF Nil] snd_conv if_True refl)
next
  case (Cons c r)
  then show ?thesis
    by (simp add: stringBytes_def Let_def takeWhile_append_some dropWhile_append_some)
qed

lemma feed_loop_Nil [simp]: "feed_loop [] t = t"
  by (simp add: feed_loop.simps)

lemma feed_loop_ground:
  "pst t = stGround \<Longrightarrow> p \<noteq> [] \<Longrightarrow> feed_loop p t = feed_loop (fst (ground p t)) (snd (ground p t))"
  by (simp add: feed_loop.simps [of p t] case_prod_beta)

lemma feed_loop_string:
  "pst t = stString \<Longrightarrow> p \<noteq> [] \<Longrightarrow>
   feed_loop p t = feed_loop (fst (stringBytes p t)) (snd (stringBytes p t))"
  by (simp add: feed_loop.simps [of p t] case_prod_beta)

lemma feed_loop_step:
  "pst t \<noteq> stGround \<Longrightarrow> pst t \<noteq> stString \<Longrightarrow> p \<noteq> [] \<Longrightarrow>
   feed_loop p t = feed_loop (if fst (step (hd p) t) then tl p else p) (snd (step (hd p) t))"
  by (simp add: feed_loop.simps [of p t] case_prod_beta)

lemma term_ok_ground:
  assumes "term_ok t" "pst t = stGround"
  shows "term_ok (snd (ground p t))"
    and "pst (snd (ground p t)) = stGround \<and> fst (ground p t) = [] \<or> pst (snd (ground p t)) = stEsc"
proof -
  have "wf (scr (t\<lparr>ubuf := []\<rparr>))" "parser_ok (t\<lparr>ubuf := []\<rparr>)"
    using assms by (simp_all add: term_ok_def parser_ok_def)
  then show "term_ok (snd (ground p t))"
    and "pst (snd (ground p t)) = stGround \<and> fst (ground p t) = [] \<or> pst (snd (ground p t)) = stEsc"
    using ground_loop_ok [of "t\<lparr>ubuf := []\<rparr>" "ubuf t @ p"] ground_eq [OF term_okD(2) [OF assms(1)] assms(2), of p]
      assms(2) by (auto simp: term_ok_def)
qed

lemma term_ok_stringBytes: "term_ok t \<Longrightarrow> pst t = stString \<Longrightarrow> term_ok (snd (stringBytes p t))"
  by (simp add: term_ok_def parser_ok_stringBytes wf_stringBytes)

lemma term_ok_step:
  "term_ok t \<Longrightarrow> pst t \<noteq> stGround \<Longrightarrow> pst t \<noteq> stString \<Longrightarrow> term_ok (snd (step b t))"
  by (simp add: term_ok_def parser_ok_step wf_step)

lemma term_ok_feed_loop: "term_ok t \<Longrightarrow> term_ok (feed_loop p t)"
proof (induction p t rule: feed_loop.induct)
  case (1 p t)
  consider "p = []" | "p \<noteq> []" "pst t = stGround" | "p \<noteq> []" "pst t = stString"
    | "p \<noteq> []" "pst t \<noteq> stGround" "pst t \<noteq> stString" by blast
  then show ?case
  proof cases
    case 2
    then show ?thesis
      using 1(1) [OF 2 refl prod.collapse] term_ok_ground(1) 1(4) by (simp add: feed_loop_ground)
  next
    case 3
    then show ?thesis
      using 1(2) [OF 3(1) _ 3(2) refl prod.collapse] term_ok_stringBytes 1(4)
      by (simp add: feed_loop_string)
  next
    case 4
    then show ?thesis
      using 1(3) [OF 4 refl prod.collapse] term_ok_step 1(4) by (simp add: feed_loop_step)
  qed (use 1 in simp)
qed

lemma ground_append:
  assumes "term_ok t" "pst t = stGround"
  shows "ground (p @ q) t =
    (if pst (snd (ground p t)) = stEsc then (fst (ground p t) @ q, snd (ground p t))
     else ground q (snd (ground p t)))"
proof -
  have w: "wf (scr (t\<lparr>ubuf := []\<rparr>))" using assms(1) by (simp add: term_ok_def)
  have e: "ground x t = ground_loop (ubuf t @ x) (t\<lparr>ubuf := []\<rparr>)" for x
    using ground_eq assms term_okD(2) by blast
  obtain r t1 where g: "ground p t = (r, t1)" by (cases "ground p t") auto
  have "ground q t1 = ground_loop (ubuf t1 @ q) (t1\<lparr>ubuf := []\<rparr>)" if "pst t1 \<noteq> stEsc"
    using term_ok_ground [OF assms, of p] g that by (intro ground_eq) (auto simp: term_ok_def)
  moreover have "ground_loop (ubuf t @ p) (t\<lparr>ubuf := []\<rparr>) = (r, t1)" using g e by simp
  then have "ground (p @ q) t =
      (if pst t1 = stEsc then (r @ q, t1) else ground_loop (ubuf t1 @ q) (t1\<lparr>ubuf := []\<rparr>))"
    using ground_loop_append [OF w, of "ubuf t @ p" q] assms(2) by (simp add: e [of "p @ q"])
  ultimately show ?thesis by (simp add: g)
qed

lemma feed_loop_append: "term_ok t \<Longrightarrow> feed_loop (p @ q) t = feed_loop q (feed_loop p t)"
proof (induction p t rule: feed_loop.induct)
  case (1 p t)
  consider "p = [] \<or> q = []" | "p \<noteq> []" "q \<noteq> []" "pst t = stGround" | "p \<noteq> []" "q \<noteq> []" "pst t = stString"
    | "p \<noteq> []" "q \<noteq> []" "pst t \<noteq> stGround" "pst t \<noteq> stString" by blast
  then show ?case
  proof cases
    case 2
    obtain r t1 where g: "ground p t = (r, t1)" by (cases "ground p t") auto
    have L: "feed_loop (p @ q) t = feed_loop (fst (ground (p @ q) t)) (snd (ground (p @ q) t))"
      using 2 by (intro feed_loop_ground) simp_all
    have IH: "feed_loop (r @ q) t1 = feed_loop q (feed_loop r t1)"
      using 1(1) [OF 2(1,3) refl g [symmetric]] term_ok_ground(1) [OF 1(4) 2(3), of p] g by simp
    have P: "feed_loop p t = feed_loop r t1" using 2 g by (simp add: feed_loop_ground)
    show ?thesis
    proof (cases "pst t1 = stEsc")
      case True
      then show ?thesis using L P IH ground_append [OF 1(4) 2(3), of p q] g by simp
    next
      case False
      then have "r = []" "pst t1 = stGround" using term_ok_ground(2) [OF 1(4) 2(3), of p] g by auto
      then show ?thesis
        using L P ground_append [OF 1(4) 2(3), of p q] g False 2 by (simp add: feed_loop_ground)
    qed
  next
    case 3
    obtain r t1 where g: "stringBytes p t = (r, t1)" by (cases "stringBytes p t") auto
    have L: "feed_loop (p @ q) t = feed_loop (fst (stringBytes (p @ q) t)) (snd (stringBytes (p @ q) t))"
      using 3 by (intro feed_loop_string) simp_all
    have IH: "feed_loop (r @ q) t1 = feed_loop q (feed_loop r t1)"
      using 1(2) [OF 3(1) _ 3(3) refl g [symmetric]] term_ok_stringBytes [OF 1(4) 3(3), of p] g 3 by simp
    have P: "feed_loop p t = feed_loop r t1" using 3 g by (simp add: feed_loop_string)
    show ?thesis
    proof (cases "dropWhile (\<lambda>c. \<not> string_stop c) p = []")
      case True
      then have "r = []" "pst t1 = stString" using g 3 stringBytes_all [OF True, of t] by auto
      then show ?thesis
        using L P stringBytes_append [of p q t] g True 3 by (simp add: feed_loop_string)
    next
      case False
      then have "stringBytes (p @ q) t = (r @ q, t1)" by (simp only: stringBytes_append [of p q t] g if_False fst_conv snd_conv)
      then show ?thesis using L P IH by simp
    qed
  next
    case 4
    obtain u t1 where g: "step (hd p) t = (u, t1)" by (cases "step (hd p) t") auto
    have "feed_loop ((if u then tl p else p) @ q) t1 = feed_loop q (feed_loop (if u then tl p else p) t1)"
      using 1(3) [OF 4(1,3,4) refl g [symmetric]] term_ok_step [OF 1(4) 4(3,4), of "hd p"] g by simp
    moreover have "feed_loop (p @ q) t = feed_loop ((if u then tl p else p) @ q) t1"
      using 4 g by (cases p) (simp_all add: feed_loop_step)
    moreover have "feed_loop p t = feed_loop (if u then tl p else p) t1"
      using 4 g by (simp add: feed_loop_step)
    ultimately show ?thesis by simp
  qed auto
qed

interpretation vt: incremental term_ok "\<lambda>t p. feed_loop p t"
proof
  fix t :: terminal and b :: byte and p :: "byte list"
  assume ok: "term_ok t"
  show "feed_loop [] t = t" by simp
  show "feed_loop (b # p) t = feed_loop p (feed_loop [b] t)"
    using feed_loop_append [OF ok, of "[b]" p] by simp
  show "term_ok (feed_loop p t)" using ok by (rule term_ok_feed_loop)
qed

section \<open>Streams\<close>

lemma pre_put_ascii [pre_law]:
  "emit r (on_scr (printASCII r) (pre o1 r1 t)) = pre o1 r1 (emit r (on_scr (printASCII r) t))"
  by simp

lemma pre_ground_loop [pre_law]: "ground_loop p (pre o1 r1 t) = apsnd (pre o1 r1) (ground_loop p t)"
proof (induction p t rule: ground_loop.induct)
  case (2 b p t)
  then show ?case
    by (cases "decode_rune (b # p)") (simp add: Let_def del: takeWhile.simps dropWhile.simps)
qed simp

lemma pre_ground [pre_law]:
  assumes "term_ok t" "pst t = stGround"
  shows "ground p (pre o1 r1 t) = apsnd (pre o1 r1) (ground p t)"
proof -
  have "parser_ok (pre o1 r1 t)" using assms by (simp add: term_ok_def parser_ok_def)
  then show ?thesis
    using ground_eq [of "pre o1 r1 t" p] ground_eq [of t p] assms
    by (simp add: term_ok_def pre_ground_loop)
qed

lemma term_ok_pre [simp]: "term_ok (pre o1 r1 t) = term_ok t"
  unfolding term_ok_def parser_ok_def pre_fields ..

lemma pre_feed_loop: "term_ok t \<Longrightarrow> feed_loop p (pre o1 r1 t) = pre o1 r1 (feed_loop p t)"
proof (induction p t rule: feed_loop.induct)
  case (1 p t)
  consider "p = []" | "p \<noteq> []" "pst t = stGround" | "p \<noteq> []" "pst t = stString"
    | "p \<noteq> []" "pst t \<noteq> stGround" "pst t \<noteq> stString" by blast
  then show ?case
  proof cases
    case 2
    then show ?thesis
      using 1(1) [OF 2 refl prod.collapse] term_ok_ground(1) 1(4)
      by (simp add: feed_loop_ground pre_ground)
  next
    case 3
    then show ?thesis
      using 1(2) [OF 3(1) _ 3(2) refl prod.collapse] term_ok_stringBytes 1(4)
      by (simp add: feed_loop_string)
  next
    case 4
    then show ?thesis
      using 1(3) [OF 4 refl prod.collapse] term_ok_step 1(4) by (simp add: feed_loop_step)
  qed simp
qed

text \<open>The terminal as it is between two calls of \<open>Feed\<close>.\<close>

definition idle :: "terminal \<Rightarrow> bool" where
  "idle t \<longleftrightarrow> out t = [] \<and> reply t = []"

lemma feed_loop_discard: "discardForward (feed_loop p t) = discardForward t"
proof -
  have gl: "discardForward (snd (ground_loop p t)) = discardForward t" for p t
    by (induction p t rule: ground_loop.induct) (simp_all add: Let_def case_prod_beta)
  have fr: "discardForward (snd (finishRune p t)) = discardForward t" for p t
  proof (induction p t rule: finishRune.induct)
    case (1 p t)
    then show ?case by (subst finishRune.simps) (simp add: Let_def case_prod_beta)
  qed
  have gr: "discardForward (snd (ground p t)) = discardForward t" for p t
    by (simp add: ground_def case_prod_beta gl fr)
  have ss: "discardForward (stringStop c t) = discardForward t" for c t
    by (simp add: stringStop_def endPassthroughString_def)
  have sb: "discardForward (snd (stringBytes p t)) = discardForward t" for p t
    by (simp add: stringBytes_def Let_def ss split: list.split)
  have cc: "discardForward (snd (commonC0 b t)) = discardForward t" for b t
    by (simp add: commonC0_def)
  have st: "discardForward (snd (step b t)) = discardForward t" for b t
    by (simp add: step_def escByte_def escInterByte_def csiByte_def stringEscByte_def
        endPassthroughString_def Let_def case_prod_beta cc split: pstate.split)
  show ?thesis
  proof (induction p t rule: feed_loop.induct)
    case (1 p t)
    then show ?case
      by (subst feed_loop.simps) (simp add: case_prod_beta gr sb st)
  qed
qed

lemma term_ok_idle: "term_ok t \<Longrightarrow> term_ok (t\<lparr>out := o1, reply := r1\<rparr>)"
  by (cases "pst t") (simp_all add: term_ok_def parser_ok_def)

lemma Feed_term_ok:
  assumes "term_ok t"
  shows "term_ok (snd (Feed p t))"
proof -
  have "term_ok (feed_loop p (t\<lparr>out := [], reply := []\<rparr>))"
    using assms by (intro term_ok_feed_loop term_ok_idle)
  then show ?thesis by (simp add: Feed_def Let_def term_ok_idle)
qed

text \<open>Two calls of \<open>Feed\<close> against one: same state, the streams one after the other.\<close>

lemma Feed_append:
  assumes "term_ok t"
  shows "Feed (p @ q) t =
    (let ((f1, r1), t1) = Feed p t; ((f2, r2), t2) = Feed q t1 in ((f1 @ f2, r1 @ r2), t2))"
proof -
  define t0 where "t0 = t\<lparr>out := [], reply := []\<rparr>"
  define t1 where "t1 = feed_loop p t0"
  have ok0: "term_ok t0" using assms by (simp add: t0_def term_ok_idle)
  have ok1: "term_ok t1" using ok0 by (simp add: t1_def term_ok_feed_loop)
  have "t1 = pre (out t1) (reply t1) (t1\<lparr>out := [], reply := []\<rparr>)" by (simp add: pre_def)
  then have "feed_loop q t1 = pre (out t1) (reply t1) (feed_loop q (t1\<lparr>out := [], reply := []\<rparr>))"
    using pre_feed_loop [OF term_ok_idle [OF ok1]] by metis
  moreover have "feed_loop (p @ q) t0 = feed_loop q t1" using feed_loop_append [OF ok0] by (simp add: t1_def)
  ultimately show ?thesis
    by (simp add: Feed_def Let_def t0_def [symmetric] t1_def [symmetric] feed_loop_discard pre_def)
qed

text \<open>A sequence of calls, with the streams collected.\<close>

fun feeds :: "byte list list \<Rightarrow> terminal \<Rightarrow> (byte list \<times> byte list) \<times> terminal" where
  "feeds [] t = (([], []), t)"
| "feeds (p # ps) t =
     (let ((f1, r1), t1) = Feed p t; ((f2, r2), t2) = feeds ps t1 in ((f1 @ f2, r1 @ r2), t2))"

lemma Feed_idle [simp]: "idle (snd (Feed p t))"
  by (simp add: Feed_def idle_def Let_def)

lemma feeds_concat: "term_ok t \<Longrightarrow> idle t \<Longrightarrow> feeds ps t = Feed (concat ps) t"
proof (induction ps arbitrary: t)
  case Nil
  then show ?case by (cases t) (simp add: Feed_def idle_def Let_def)
next
  case (Cons p ps)
  have "feeds ps (snd (Feed p t)) = Feed (concat ps) (snd (Feed p t))"
    using Cons Feed_term_ok by simp
  then show ?case
    using Feed_append [OF Cons.prems(1), of p "concat ps"] by (simp add: case_prod_beta)
qed

end
