(* ===== verification/Frames.thy ===== *)
theory Frames
  imports Feed_Laws
begin

text \<open>
  What the operations of a screen leave alone. No operation of the parser changes the size of the
  screen or the history limit, and none that runs on the alternate screen touches the
  main buffer; only the switch of buffers and the full reset do.
\<close>

named_theorems size_frame
named_theorems main_frame

section \<open>Size\<close>

lemma scrollUp_size [simp, size_frame]:
  "limit (shist (scrollUp tp bt n h s)) = limit (shist s)"
  by (simp_all add: scrollUp_def Let_def pushes_eq)

lemma index_size [simp, size_frame]:
  "limit (shist (index s)) = limit (shist s)"
  by (simp_all add: index_def)

lemma wrap_pending_size [simp, size_frame]:
  "limit (shist (wrap_pending s)) = limit (shist s)"
  by (simp_all add: wrap_pending_def)

lemma printGlyph_size [simp, size_frame]:
  "limit (shist (printGlyph r w s)) = limit (shist s)"
  by (simp_all add: printGlyph_def Let_def)

lemma printRune_size [simp, size_frame]:
  "limit (shist (printRune r s)) = limit (shist s)"
  by (simp_all add: printRune_def Let_def case_prod_beta)

lemma clearToHistory_size [simp, size_frame]:
  "limit (shist (clearToHistory s)) = limit (shist s)"
  by (simp_all add: clearToHistory_def Let_def pushes_eq)

lemma eraseDisplay_size [simp, size_frame]:
  "limit (shist (eraseDisplay m s)) = limit (shist s)"
  by (simp_all add: eraseDisplay_def)

lemma insertLines_size [simp, size_frame]:
  "cols (insertLines n s) = cols s"
  "rows (insertLines n s) = rows s"
  "limit (shist (insertLines n s)) = limit (shist s)"
  "altActive (insertLines n s) = altActive s"
  by (simp_all add: insertLines_def)

lemma deleteLines_size [simp, size_frame]:
  "cols (deleteLines n s) = cols s"
  "rows (deleteLines n s) = rows s"
  "limit (shist (deleteLines n s)) = limit (shist s)"
  "altActive (deleteLines n s) = altActive s"
  by (simp_all add: deleteLines_def)

lemma tabForward_size [simp, size_frame]:
  "cols (tabForward n s) = cols s"
  "rows (tabForward n s) = rows s"
  "limit (shist (tabForward n s)) = limit (shist s)"
  "altActive (tabForward n s) = altActive s"
  by (simp_all add: tabForward_def)

lemma tabBackward_size [simp, size_frame]:
  "cols (tabBackward n s) = cols s"
  "rows (tabBackward n s) = rows s"
  "limit (shist (tabBackward n s)) = limit (shist s)"
  "altActive (tabBackward n s) = altActive s"
  by (simp_all add: tabBackward_def)

lemma carriageReturn_size [simp, size_frame]:
  "cols (carriageReturn s) = cols s"
  "rows (carriageReturn s) = rows s"
  "limit (shist (carriageReturn s)) = limit (shist s)"
  "altActive (carriageReturn s) = altActive s"
  by (simp_all add: carriageReturn_def)

lemma backspace_size [simp, size_frame]:
  "cols (backspace s) = cols s"
  "rows (backspace s) = rows s"
  "limit (shist (backspace s)) = limit (shist s)"
  "altActive (backspace s) = altActive s"
  by (simp_all add: backspace_def)

lemma saveCursor_size [simp, size_frame]:
  "cols (saveCursor s) = cols s"
  "rows (saveCursor s) = rows s"
  "limit (shist (saveCursor s)) = limit (shist s)"
  "altActive (saveCursor s) = altActive s"
  by (simp_all add: saveCursor_def Let_def)

lemma restoreCursor_size [simp, size_frame]:
  "cols (restoreCursor s) = cols s"
  "rows (restoreCursor s) = rows s"
  "limit (shist (restoreCursor s)) = limit (shist s)"
  "altActive (restoreCursor s) = altActive s"
  by (simp_all add: restoreCursor_def Let_def)

lemma alignmentTest_size [simp, size_frame]:
  "cols (alignmentTest s) = cols s"
  "rows (alignmentTest s) = rows s"
  "limit (shist (alignmentTest s)) = limit (shist s)"
  "altActive (alignmentTest s) = altActive s"
  by (simp_all add: alignmentTest_def Let_def)

lemma softReset_size [simp, size_frame]:
  "cols (softReset s) = cols s"
  "rows (softReset s) = rows s"
  "limit (shist (softReset s)) = limit (shist s)"
  "altActive (softReset s) = altActive s"
  by (simp_all add: softReset_def)

lemma resetTabs_size [simp, size_frame]:
  "cols (resetTabs s) = cols s"
  "rows (resetTabs s) = rows s"
  "limit (shist (resetTabs s)) = limit (shist s)"
  "altActive (resetTabs s) = altActive s"
  by (simp_all add: resetTabs_def)

lemma no_last_size [simp, size_frame]:
  "cols (no_last s) = cols s"
  "rows (no_last s) = rows s"
  "limit (shist (no_last s)) = limit (shist s)"
  "altActive (no_last s) = altActive s"
  by (simp_all add: no_last_def)

lemma edit_row_size [simp, size_frame]:
  "cols (edit_row f s) = cols s"
  "rows (edit_row f s) = rows s"
  "limit (shist (edit_row f s)) = limit (shist s)"
  "altActive (edit_row f s) = altActive s"
  by (simp_all add: edit_row_def Let_def)

lemma setMargins_size [simp, size_frame]:
  "cols (setMargins p s) = cols s"
  "rows (setMargins p s) = rows s"
  "limit (shist (setMargins p s)) = limit (shist s)"
  "altActive (setMargins p s) = altActive s"
  by (simp_all add: setMargins_def Let_def)

lemma clearTabs_size [simp, size_frame]:
  "cols (clearTabs a s) = cols s"
  "rows (clearTabs a s) = rows s"
  "limit (shist (clearTabs a s)) = limit (shist s)"
  "altActive (clearTabs a s) = altActive s"
  by (simp_all add: clearTabs_def)

lemma clear_alt_size [simp, size_frame]:
  "cols (clear_alt s) = cols s"
  "rows (clear_alt s) = rows s"
  "limit (shist (clear_alt s)) = limit (shist s)"
  "altActive (clear_alt s) = altActive s"
  by (simp_all add: clear_alt_def)

lemma repeatRune_size [simp, size_frame]:
  "cols (repeatRune n s) = cols s"
  "rows (repeatRune n s) = rows s"
  "limit (shist (repeatRune n s)) = limit (shist s)"
  "altActive (repeatRune n s) = altActive s"
  proof -
  have "cols ((printGlyph r w ^^ n) s) = cols s \<and> rows ((printGlyph r w ^^ n) s) = rows s
      \<and> limit (shist ((printGlyph r w ^^ n) s)) = limit (shist s)
      \<and> altActive ((printGlyph r w ^^ n) s) = altActive s" for r w
    by (induction n) simp_all
  then show "cols (repeatRune n s) = cols s" "rows (repeatRune n s) = rows s"
    "limit (shist (repeatRune n s)) = limit (shist s)" "altActive (repeatRune n s) = altActive s"
    by (simp_all add: repeatRune_def)
qed

lemma setAnsiModes_size [simp, size_frame]:
  "cols (setAnsiModes p on s) = cols s"
  "rows (setAnsiModes p on s) = rows s"
  "limit (shist (setAnsiModes p on s)) = limit (shist s)"
  "altActive (setAnsiModes p on s) = altActive s"
  proof -
  let ?f = "\<lambda>s v. if v = (4 :: int) then s\<lparr>modes := (modes s)\<lparr>Insert := on\<rparr>\<rparr> else s"
  have "cols (foldl ?f s vs) = cols s \<and> rows (foldl ?f s vs) = rows s
      \<and> limit (shist (foldl ?f s vs)) = limit (shist s) \<and> altActive (foldl ?f s vs) = altActive s" for vs
    by (induction vs arbitrary: s) simp_all
  then show "cols (setAnsiModes p on s) = cols s" "rows (setAnsiModes p on s) = rows s"
    "limit (shist (setAnsiModes p on s)) = limit (shist s)" "altActive (setAnsiModes p on s) = altActive s"
    by (simp_all add: setAnsiModes_def)
qed

lemma csiScreen_size [simp, size_frame]:
  "cols (csiScreen f p s) = cols s"
  "rows (csiScreen f p s) = rows s"
  "limit (shist (csiScreen f p s)) = limit (shist s)"
  "altActive (csiScreen f p s) = altActive s"
  by (simp_all add: csiScreen_def Let_def)

lemma escScreen_size [simp, size_frame]:
  "cols (escScreen f s) = cols s"
  "rows (escScreen f s) = rows s"
  "limit (shist (escScreen f s)) = limit (shist s)"
  "altActive (escScreen f s) = altActive s"
  by (simp_all add: escScreen_def)

lemma setDECMode_size [simp, size_frame]:
  "cols (setDECMode v on s) = cols s"
  "rows (setDECMode v on s) = rows s"
  "limit (shist (setDECMode v on s)) = limit (shist s)"
  "altActive (setDECMode v on s) = altActive s"
  by (simp_all add: setDECMode_def Let_def)

lemma designate_size [simp, size_frame]:
  "cols (designate i f s) = cols s"
  "rows (designate i f s) = rows s"
  "limit (shist (designate i f s)) = limit (shist s)"
  "altActive (designate i f s) = altActive s"
  by (simp_all add: designate_def)

lemma switchBuffer_size [simp, size_frame]:
  "cols (snd (switchBuffer b s)) = cols s"
  "rows (snd (switchBuffer b s)) = rows s"
  "limit (shist (snd (switchBuffer b s))) = limit (shist s)"
  by (simp_all add: switchBuffer_def)

lemma alt_switch_size [simp, size_frame]:
  "cols (snd (alt_switch v on s)) = cols s"
  "rows (snd (alt_switch v on s)) = rows s"
  "limit (shist (snd (alt_switch v on s))) = limit (shist s)"
  by (simp_all add: alt_switch_def Let_def case_prod_beta)

lemma resetState_size [simp, size_frame]:
  "cols (resetState s) = cols s"
  "rows (resetState s) = rows s"
  "limit (shist (resetState s)) = limit (shist s)"
  by (simp_all add: resetState_def)

lemma fullReset_size [simp, size_frame]:
  "cols (fullReset s) = cols s"
  "rows (fullReset s) = rows s"
  "limit (shist (fullReset s)) = limit (shist s)"
  by (simp_all add: fullReset_def Let_def)

lemma print_bytes_size [simp, size_frame]:
  "cols (print_bytes b s) = cols s"
  "rows (print_bytes b s) = rows s"
  "limit (shist (print_bytes b s)) = limit (shist s)"
  "altActive (print_bytes b s) = altActive s"
  by (induction b arbitrary: s) simp_all

section \<open>The main buffer while the alternate one is active\<close>

lemma set_buf_main [simp, main_frame]:
  "altActive s \<Longrightarrow> mainb (set_buf b s) = mainb s" "altActive s \<Longrightarrow> mainb (set_line y l s) = mainb s"
  by (simp_all add: set_buf_def set_line_def)

lemma scrollUp_main [simp, main_frame]:
  "altActive s \<Longrightarrow> mainb (scrollUp tp bt n h s) = mainb s"
  "altActive s \<Longrightarrow> shist (scrollUp tp bt n h s) = shist s"
  by (simp_all add: scrollUp_def Let_def)

lemma scrollDown_main [simp, main_frame]:
  "altActive s \<Longrightarrow> mainb (scrollDown tp bt n s) = mainb s"
  "altActive s \<Longrightarrow> shist (scrollDown tp bt n s) = shist s"
  by (simp_all add: scrollDown_def Let_def)

lemma index_main [simp, main_frame]:
  "altActive s \<Longrightarrow> mainb (index s) = mainb s"
  "altActive s \<Longrightarrow> shist (index s) = shist s"
  by (simp_all add: index_def)

lemma reverseIndex_main [simp, main_frame]:
  "altActive s \<Longrightarrow> mainb (reverseIndex s) = mainb s"
  "altActive s \<Longrightarrow> shist (reverseIndex s) = shist s"
  by (simp_all add: reverseIndex_def)

lemma wrap_pending_main [simp, main_frame]:
  "altActive s \<Longrightarrow> mainb (wrap_pending s) = mainb s"
  "altActive s \<Longrightarrow> shist (wrap_pending s) = shist s"
  by (simp_all add: wrap_pending_def)

lemma advance_main [simp, main_frame]:
  "altActive s \<Longrightarrow> mainb (advance w s) = mainb s"
  "altActive s \<Longrightarrow> shist (advance w s) = shist s"
  by (simp_all add: advance_def)

lemma glyph_store_main [simp, main_frame]:
  "altActive s \<Longrightarrow> mainb (glyph_store r w s) = mainb s"
  "altActive s \<Longrightarrow> shist (glyph_store r w s) = shist s"
  by (simp_all add: glyph_store_def Let_def)

lemma printGlyph_main [simp, main_frame]:
  "altActive s \<Longrightarrow> mainb (printGlyph r w s) = mainb s"
  "altActive s \<Longrightarrow> shist (printGlyph r w s) = shist s"
  by (simp_all add: printGlyph_def Let_def)

lemma widen_main [simp, main_frame]:
  "altActive s \<Longrightarrow> mainb (widen x s) = mainb s"
  "altActive s \<Longrightarrow> shist (widen x s) = shist s"
  by (simp_all add: widen_def Let_def)

lemma combine_main [simp, main_frame]:
  "altActive s \<Longrightarrow> mainb (combine r s) = mainb s"
  "altActive s \<Longrightarrow> shist (combine r s) = shist s"
  by (simp_all add: combine_def Let_def split: option.split)

lemma joinPrev_main [simp, main_frame]:
  "altActive s \<Longrightarrow> mainb (snd (joinPrev r s)) = mainb s"
  "altActive s \<Longrightarrow> shist (snd (joinPrev r s)) = shist s"
  by (simp_all add: joinPrev_def Let_def split: option.split)

lemma printRune_main [simp, main_frame]:
  "altActive s \<Longrightarrow> mainb (printRune r s) = mainb s"
  "altActive s \<Longrightarrow> shist (printRune r s) = shist s"
  by (simp_all add: printRune_def Let_def case_prod_beta)

lemma eraseCells_main [simp, main_frame]:
  "altActive s \<Longrightarrow> mainb (eraseCells y x0 x1 s) = mainb s"
  "altActive s \<Longrightarrow> shist (eraseCells y x0 x1 s) = shist s"
  by (simp_all add: eraseCells_def Let_def)

lemma eraseLine_main [simp, main_frame]:
  "altActive s \<Longrightarrow> mainb (eraseLine y s) = mainb s"
  "altActive s \<Longrightarrow> shist (eraseLine y s) = shist s"
  by (simp_all add: eraseLine_def)

lemma eraseLines_main [simp, main_frame]:
  "altActive s \<Longrightarrow> mainb (eraseLines a b s) = mainb s"
  "altActive s \<Longrightarrow> shist (eraseLines a b s) = shist s"
  proof -
  assume a: "altActive s"
  have "altActive (eraseLines a b s) \<and> mainb (eraseLines a b s) = mainb s \<and> shist (eraseLines a b s) = shist s"
    by (rule eraseLines_ind) (simp_all add: a)
  then show "mainb (eraseLines a b s) = mainb s" "shist (eraseLines a b s) = shist s" by simp_all
qed

lemma eraseDisplay_main [simp, main_frame]:
  "altActive s \<Longrightarrow> mainb (eraseDisplay m s) = mainb s"
  by (simp_all add: eraseDisplay_def canScrollOnClear_def)

lemma eraseInLine_main [simp, main_frame]:
  "altActive s \<Longrightarrow> mainb (eraseInLine m s) = mainb s"
  "altActive s \<Longrightarrow> shist (eraseInLine m s) = shist s"
  by (simp_all add: eraseInLine_def)

lemma moveTo_main [simp, main_frame]:
  "altActive s \<Longrightarrow> mainb (moveTo x y s) = mainb s"
  "altActive s \<Longrightarrow> shist (moveTo x y s) = shist s"
  by (simp_all add: moveTo_def)

lemma moveToOrigin_main [simp, main_frame]:
  "altActive s \<Longrightarrow> mainb (moveToOrigin x y s) = mainb s"
  "altActive s \<Longrightarrow> shist (moveToOrigin x y s) = shist s"
  by (simp_all add: moveToOrigin_def)

lemma cursorUp_main [simp, main_frame]:
  "altActive s \<Longrightarrow> mainb (cursorUp n s) = mainb s"
  "altActive s \<Longrightarrow> shist (cursorUp n s) = shist s"
  by (simp_all add: cursorUp_def Let_def)

lemma cursorDown_main [simp, main_frame]:
  "altActive s \<Longrightarrow> mainb (cursorDown n s) = mainb s"
  "altActive s \<Longrightarrow> shist (cursorDown n s) = shist s"
  by (simp_all add: cursorDown_def Let_def)

lemma carriageReturn_main [simp, main_frame]:
  "altActive s \<Longrightarrow> mainb (carriageReturn s) = mainb s"
  "altActive s \<Longrightarrow> shist (carriageReturn s) = shist s"
  by (simp_all add: carriageReturn_def)

lemma backspace_main [simp, main_frame]:
  "altActive s \<Longrightarrow> mainb (backspace s) = mainb s"
  "altActive s \<Longrightarrow> shist (backspace s) = shist s"
  by (simp_all add: backspace_def)

lemma tabForward_main [simp, main_frame]:
  "altActive s \<Longrightarrow> mainb (tabForward n s) = mainb s"
  "altActive s \<Longrightarrow> shist (tabForward n s) = shist s"
  by (simp_all add: tabForward_def)

lemma tabBackward_main [simp, main_frame]:
  "altActive s \<Longrightarrow> mainb (tabBackward n s) = mainb s"
  "altActive s \<Longrightarrow> shist (tabBackward n s) = shist s"
  by (simp_all add: tabBackward_def)

lemma insertLines_main [simp, main_frame]:
  "altActive s \<Longrightarrow> mainb (insertLines n s) = mainb s"
  "altActive s \<Longrightarrow> shist (insertLines n s) = shist s"
  by (simp_all add: insertLines_def)

lemma deleteLines_main [simp, main_frame]:
  "altActive s \<Longrightarrow> mainb (deleteLines n s) = mainb s"
  "altActive s \<Longrightarrow> shist (deleteLines n s) = shist s"
  by (simp_all add: deleteLines_def)

lemma saveCursor_main [simp, main_frame]:
  "altActive s \<Longrightarrow> mainb (saveCursor s) = mainb s"
  "altActive s \<Longrightarrow> shist (saveCursor s) = shist s"
  by (simp_all add: saveCursor_def Let_def)

lemma restoreCursor_main [simp, main_frame]:
  "altActive s \<Longrightarrow> mainb (restoreCursor s) = mainb s"
  "altActive s \<Longrightarrow> shist (restoreCursor s) = shist s"
  by (simp_all add: restoreCursor_def Let_def)

lemma alignmentTest_main [simp, main_frame]:
  "altActive s \<Longrightarrow> mainb (alignmentTest s) = mainb s"
  "altActive s \<Longrightarrow> shist (alignmentTest s) = shist s"
  by (simp_all add: alignmentTest_def Let_def)

lemma softReset_main [simp, main_frame]:
  "altActive s \<Longrightarrow> mainb (softReset s) = mainb s"
  "altActive s \<Longrightarrow> shist (softReset s) = shist s"
  by (simp_all add: softReset_def)

lemma resetTabs_main [simp, main_frame]:
  "altActive s \<Longrightarrow> mainb (resetTabs s) = mainb s"
  "altActive s \<Longrightarrow> shist (resetTabs s) = shist s"
  by (simp_all add: resetTabs_def)

lemma no_last_main [simp, main_frame]:
  "altActive s \<Longrightarrow> mainb (no_last s) = mainb s"
  "altActive s \<Longrightarrow> shist (no_last s) = shist s"
  by (simp_all add: no_last_def)

lemma edit_row_main [simp, main_frame]:
  "altActive s \<Longrightarrow> mainb (edit_row f s) = mainb s"
  "altActive s \<Longrightarrow> shist (edit_row f s) = shist s"
  by (simp_all add: edit_row_def Let_def)

lemma setMargins_main [simp, main_frame]:
  "altActive s \<Longrightarrow> mainb (setMargins p s) = mainb s"
  "altActive s \<Longrightarrow> shist (setMargins p s) = shist s"
  by (simp_all add: setMargins_def Let_def)

lemma clearTabs_main [simp, main_frame]:
  "altActive s \<Longrightarrow> mainb (clearTabs a s) = mainb s"
  "altActive s \<Longrightarrow> shist (clearTabs a s) = shist s"
  by (simp_all add: clearTabs_def)

lemma repeatRune_main [simp, main_frame]:
  "altActive s \<Longrightarrow> mainb (repeatRune n s) = mainb s"
  "altActive s \<Longrightarrow> shist (repeatRune n s) = shist s"
  proof -
  assume a: "altActive s"
  have "altActive ((printGlyph r w ^^ n) s) \<and> mainb ((printGlyph r w ^^ n) s) = mainb s
      \<and> shist ((printGlyph r w ^^ n) s) = shist s" for r w
    using a by (induction n) simp_all
  then show "mainb (repeatRune n s) = mainb s" "shist (repeatRune n s) = shist s"
    by (simp_all add: repeatRune_def)
qed

lemma setAnsiModes_main [simp, main_frame]:
  "altActive s \<Longrightarrow> mainb (setAnsiModes p on s) = mainb s"
  "altActive s \<Longrightarrow> shist (setAnsiModes p on s) = shist s"
  proof -
  let ?f = "\<lambda>s v. if v = (4 :: int) then s\<lparr>modes := (modes s)\<lparr>Insert := on\<rparr>\<rparr> else s"
  have "mainb (foldl ?f s vs) = mainb s \<and> shist (foldl ?f s vs) = shist s" for vs
    by (induction vs arbitrary: s) simp_all
  then show "mainb (setAnsiModes p on s) = mainb s" "shist (setAnsiModes p on s) = shist s"
    by (simp_all add: setAnsiModes_def)
qed

lemma csiScreen_main [simp, main_frame]:
  "altActive s \<Longrightarrow> mainb (csiScreen f p s) = mainb s"
  by (simp_all add: csiScreen_def Let_def)

lemma escScreen_main [simp, main_frame]:
  "altActive s \<Longrightarrow> mainb (escScreen f s) = mainb s"
  "altActive s \<Longrightarrow> shist (escScreen f s) = shist s"
  by (simp_all add: escScreen_def)

lemma setDECMode_main [simp, main_frame]:
  "altActive s \<Longrightarrow> mainb (setDECMode v on s) = mainb s"
  "altActive s \<Longrightarrow> shist (setDECMode v on s) = shist s"
  by (simp_all add: setDECMode_def Let_def)

lemma designate_main [simp, main_frame]:
  "altActive s \<Longrightarrow> mainb (designate i f s) = mainb s"
  "altActive s \<Longrightarrow> shist (designate i f s) = shist s"
  by (simp_all add: designate_def)

lemma print_bytes_main [simp, main_frame]:
  "altActive s \<Longrightarrow> mainb (print_bytes b s) = mainb s"
  "altActive s \<Longrightarrow> shist (print_bytes b s) = shist s"
  by (induction b arbitrary: s) simp_all

section \<open>Terminal operations\<close>

text \<open>The size of a terminal: columns, rows, history limit.\<close>

definition dims :: "screen \<Rightarrow> nat \<times> nat \<times> nat" where
  "dims s = (cols s, rows s, limit (shist s))"

lemma dims_setDECModes: "dims (foldl (\<lambda>s v. setDECMode v on s) s vs) = dims s"
  by (induction vs arbitrary: s) (simp_all add: dims_def)

lemma dims_altScreen: "dims (scr (altScreen v on t)) = dims (scr t)"
  by (simp add: altScreen_def Let_def case_prod_beta dims_def)

lemma dims_decset_flush: "dims (scr (decset_flush k on t)) = dims (scr t)"
  by (simp add: decset_flush_def)

lemma dims_decset_loop: "dims (scr (decset_loop vs on k t)) = dims (scr t)"
  by (induction vs arbitrary: k t) (simp_all add: dims_altScreen dims_decset_flush, simp_all add: dims_def)

lemma dims_execCSI: "dims (scr (snd (execCSI pr f b t))) = dims (scr t)"
proof -
  have "dims (scr (snd (windowOp p t))) = dims (scr t)" for p
    by (simp add: windowOp_def Let_def)
  then have a: "dims (scr (snd (csiPlain f p t))) = dims (scr t)" for p
    by (simp add: csiPlain_def) (simp add: dims_def)
  have "dims (scr (snd (decset p on t))) = dims (scr t)" for p on
    by (simp add: decset_def dims_decset_loop dims_setDECModes)
  then have b: "dims (scr (snd (csiPrivate f p t))) = dims (scr t)" for p
    by (simp add: csiPrivate_def) (simp add: dims_def)
  have c: "dims (scr (snd (csiOtherPrivate pr f p t))) = dims (scr t)" for p
    by (simp add: csiOtherPrivate_def)
  have d: "dims (scr (snd (csiIntermediate pr im f p t))) = dims (scr t)" for p im pr
    by (simp add: csiIntermediate_def) (simp add: dims_def)
  show ?thesis by (simp add: execCSI_def Let_def a b c d split: option.split)
qed

lemma dims_dispatchCSI: "dims (scr (snd (dispatchCSI t))) = dims (scr t)"
  by (simp add: dispatchCSI_def Let_def case_prod_beta dims_execCSI)

lemma dims_control: "dims (scr (control b t)) = dims (scr t)"
  by (simp add: control_def Let_def) (simp add: dims_def)

lemma dims_dispatchEsc: "dims (scr (dispatchEsc b t)) = dims (scr t)"
  by (simp add: dispatchEsc_def Let_def passSeq_def) (simp add: dims_def)

lemma dims_dispatchEscInter: "dims (scr (dispatchEscInter t)) = dims (scr t)"
  by (simp add: dispatchEscInter_def Let_def passSeq_def) (simp add: dims_def)

lemma dims_finishString: "dims (scr (finishString st t)) = dims (scr t)"
proof -
  have "dims (scr (snd (osc pl st t))) = dims (scr t)" for pl t
    by (simp add: osc_def oscNum_def Let_def case_prod_beta split: option.split) (simp add: dims_def)
  moreover have "dims (scr (snd (dcs pl t))) = dims (scr t)" for pl t
    by (simp add: dcs_def Let_def)
  ultimately show ?thesis
    by (simp add: finishString_def Let_def case_prod_beta passSeq_def) (simp add: dims_def)
qed

lemma dims_abortSeq [simp]: "dims (scr (abortSeq t)) = dims (scr t)"
  by (simp add: abortSeq_def)

lemma dims_commonC0: "dims (scr (snd (commonC0 b t))) = dims (scr t)"
  by (simp add: commonC0_def dims_control)

lemma dims_last: "dims (scr (lastRuneBeforeCSI t)) = dims (scr t)"
  by (simp add: lastRuneBeforeCSI_def dims_def)

lemma dims_step: "dims (scr (snd (step b t))) = dims (scr t)"
  by (simp add: step_def escByte_def escInterByte_def csiByte_def stringEscByte_def endPassthroughString_def
      Let_def case_prod_beta dims_commonC0 dims_dispatchEsc dims_dispatchEscInter dims_finishString
      dims_dispatchCSI dims_last passSeq_def split: pstate.split)

lemma dims_stringBytes: "dims (scr (snd (stringBytes p t))) = dims (scr t)"
proof -
  have a: "dims (scr (stringAppend d t)) = dims (scr t)" for d t by (simp add: stringAppend_def)
  then have "dims (scr (stringStop c t)) = dims (scr t)" for c t
    by (simp add: stringStop_def endPassthroughString_def dims_finishString)
  then show ?thesis by (simp add: stringBytes_def Let_def a split: list.split)
qed

lemma dims_ground_loop: "wf (scr t) \<Longrightarrow> dims (scr (snd (ground_loop p t))) = dims (scr t)"
proof (induction p t rule: ground_loop.induct)
  case (2 b p t)
  have "wf (scr (put_rune (fst (decode_rune (b # p))) u t))" for u
    using 2(5) decode_rune_valid by (simp add: put_rune_def wf_printRune)
  moreover have "dims (scr (put_rune r u t)) = dims (scr t)" for r u
    by (simp add: put_rune_def dims_def)
  moreover have "dims (printASCII r (scr t)) = dims (scr t)" for r
    using 2(5) by (simp add: print_bytes_fast dims_def)
  ultimately show ?case
    using 2 by (simp add: Let_def case_prod_beta wf_printASCII wf_control dims_control
        del: takeWhile.simps dropWhile.simps)
qed simp

lemma dims_feed_loop: "term_ok t \<Longrightarrow> dims (scr (feed_loop p t)) = dims (scr t)"
proof (induction p t rule: feed_loop.induct)
  case (1 p t)
  consider "p = []" | "p \<noteq> []" "pst t = stGround" | "p \<noteq> []" "pst t = stString"
    | "p \<noteq> []" "pst t \<noteq> stGround" "pst t \<noteq> stString" by blast
  then show ?case
  proof cases
    case 2
    then have "dims (scr (snd (ground p t))) = dims (scr t)"
      using 1(4) dims_ground_loop [of "t\<lparr>ubuf := []\<rparr>" "ubuf t @ p"] by (simp add: ground_eq term_ok_def)
    then show ?thesis
      using 1(1) [OF 2 refl prod.collapse] term_ok_ground(1) 1(4) 2 by (simp add: feed_loop_ground)
  next
    case 3
    then show ?thesis
      using 1(2) [OF 3(1) _ 3(2) refl prod.collapse] term_ok_stringBytes 1(4)
      by (simp add: feed_loop_string dims_stringBytes)
  next
    case 4
    then show ?thesis
      using 1(3) [OF 4 refl prod.collapse] term_ok_step 1(4) by (simp add: feed_loop_step dims_step)
  qed simp
qed

lemma Feed_dims:
  assumes "term_ok t"
  shows "dims (scr (snd (Feed p t))) = dims (scr t)"
  using dims_feed_loop [OF term_ok_idle [OF assms, of "[]" "[]"], of p] by (simp add: Feed_def Let_def)

end
