(* ===== verification/Resize.thy ===== *)
theory Resize
  imports Frames
begin

text \<open>
  \<open>Resize\<close> of \<open>internal/vt/screen.go\<close>: rows are truncated or padded, rows leave through the top
  into the history when the screen gets shorter and are pulled back when it gets taller. A
  pulled-back row is rebuilt by feeding its text to a scratch one-row screen
  (\<open>cellsFromText\<close>), so this theory comes after the parser. The row pivot \<open>cy\<close>, a pointer in
  Go, is passed and returned.
\<close>

section \<open>Definitions\<close>

definition cellsFromText :: "nat \<Rightarrow> byte list \<Rightarrow> cell list" where
  "cellsFromText c text =
     (let t0 = NewTerminal (int c) 1 0;
          t1 = on_scr (\<lambda>s. s\<lparr>modes := (modes s)\<lparr>Autowrap := False\<rparr>\<rparr>) t0
      in cells (mainb (scr (snd (Feed text t1))) ! 0))"

definition resizeCols :: "nat \<Rightarrow> line list \<Rightarrow> line list" where
  "resizeCols c b = map (\<lambda>l. l\<lparr>cells := fitCells (cells l) c\<rparr>) b"

text \<open>The loop that pulls \<open>n\<close> lines back, newest first, into \<open>pulled[n-1] .. pulled[0]\<close>.\<close>

fun pull_lines :: "nat \<Rightarrow> nat \<Rightarrow> history \<Rightarrow> line list \<Rightarrow> line list \<times> history" where
  "pull_lines c 0 h acc = (acc, h)"
| "pull_lines c (Suc n) h acc =
     (let (text, h1) = hist_popNewest h
      in pull_lines c n h1 (\<lparr>cells = cellsFromText c text, used = (text \<noteq> [])\<rparr> # acc))"

text \<open>\<open>resizeRows\<close> on buffer \<open>b\<close> with pivot \<open>y\<close>: the new buffer, pivot and screen (of which only
  the history changes).\<close>

definition resizeRows :: "nat \<Rightarrow> bool \<Rightarrow> line list \<Rightarrow> nat \<Rightarrow> screen \<Rightarrow> line list \<times> nat \<times> screen" where
  "resizeRows r isMain b y s =
     (let old = length b
      in if r < old then
           (let needed = old - r;
                avail = min (old - 1 - y) needed;
                ls = take (old - avail) b;
                n = needed - avail
            in if n > 0 then
                 (drop n ls, y - n,
                  if isMain \<and> limit (shist s) > 0
                  then (fold pushHistory (map cells (take n ls)) s)\<lparr>hscrolled := hscrolled s + n\<rparr>
                  else s)
               else (ls, y, s))
         else if r > old then
           (let needed = r - old;
                n = (if isMain then min (min needed (hscrolled s)) (hist_len (shist s)) else 0);
                (pulled, h1) = pull_lines (cols s) n (shist s) []
            in (pulled @ b @ replicate (needed - n) \<lparr>cells = replicate (cols s) cell0, used = False\<rparr>,
                y + n, s\<lparr>shist := h1, hscrolled := hscrolled s - n\<rparr>))
         else (b, y, s))"

definition resizeTabs :: "nat \<Rightarrow> screen \<Rightarrow> bool list" where
  "resizeTabs c s = map (\<lambda>i. if i < cols s then tabs s ! i else i mod 8 = 0 \<and> i > 0) [0..<c]"

definition resize_width :: "nat \<Rightarrow> screen \<Rightarrow> screen" where
  "resize_width c s =
     (if c \<noteq> cols s
      then s\<lparr>mainb := resizeCols c (mainb s), altb := resizeCols c (altb s), tabs := resizeTabs c s,
             cols := c, pendingWrap := False\<rparr>
      else s)"

definition resize_height :: "nat \<Rightarrow> screen \<Rightarrow> screen" where
  "resize_height r s =
     (if r \<noteq> rows s then
        (if altActive s then
           (let (a, y1, s1) = resizeRows r False (altb s) (cy s) s;
                y = (if sc_valid (saved0 s) then sc_y (saved0 s) else y1);
                yc = nat (clampInt (int y) 0 (int (length (mainb s)) - 1));
                (m, y2, s2) = resizeRows r True (mainb s) yc s1
            in s2\<lparr>altb := a, mainb := m, cy := y1, rows := r,
                  saved0 := (if sc_valid (saved0 s) then (saved0 s)\<lparr>sc_y := y2\<rparr> else saved0 s)\<rparr>)
         else
           (let (m, y1, s1) = resizeRows r True (mainb s) (cy s) s;
                (a, y2, s2) = resizeRows r False (altb s) 0 s1
            in s2\<lparr>altb := a, mainb := m, cy := y1, rows := r\<rparr>))
      else s)"

definition clampNat :: "nat \<Rightarrow> nat \<Rightarrow> nat" where
  "clampNat v n = nat (clampInt (int v) 0 (int n - 1))"

definition resize_clamp :: "screen \<Rightarrow> screen" where
  "resize_clamp s =
     (let fit = (\<lambda>sc. sc\<lparr>sc_x := clampNat (sc_x sc) (cols s), sc_y := clampNat (sc_y sc) (rows s)\<rparr>)
      in s\<lparr>rtop := 0, rbot := rows s - 1, cx := clampNat (cx s) (cols s),
           cy := clampNat (cy s) (rows s), saved0 := fit (saved0 s), saved1 := fit (saved1 s)\<rparr>)"

definition resizeScreen :: "int \<Rightarrow> int \<Rightarrow> screen \<Rightarrow> screen" where
  "resizeScreen c0 r0 s =
     (let (c, r) = clampSize c0 r0
      in if c = cols s \<and> r = rows s then s
         else resize_clamp (resize_height r (resize_width c s)))"

definition Resize :: "int \<Rightarrow> int \<Rightarrow> terminal \<Rightarrow> terminal" where
  "Resize c r t = on_scr (resizeScreen c r) t"

section \<open>Rebuilt rows\<close>

lemma term_ok_no_wrap:
  "term_ok (on_scr (\<lambda>s. s\<lparr>modes := (modes s)\<lparr>Autowrap := False\<rparr>\<rparr>) (NewTerminal c r h))"
proof -
  have "\<not> pendingWrap (New c r h)"
    by (simp add: New_def clampSize_def resetState_def resetTabs_def)
  then have "wf ((New c r h)\<lparr>modes := (modes (New c r h))\<lparr>Autowrap := False\<rparr>\<rparr>)"
    by (intro wf_modes_update wf_New) simp
  then show ?thesis by (simp add: term_ok_def NewTerminal_def on_scr_def parser_ok_def)
qed

lemma clampNat_less: "0 < n \<Longrightarrow> clampNat v n < n"
  by (auto simp: clampNat_def clampInt_def)

lemma clampNat_id: "v < n \<Longrightarrow> clampNat v n = v"
  by (simp add: clampNat_def clampInt_id)

lemma dims_New: "0 < c \<Longrightarrow> int c \<le> maxDim \<Longrightarrow> dims (New (int c) 1 0) = (c, 1, 0)"
  by (simp add: dims_def New_def clampSize_def clampInt_id maxDim_def resetState_def resetTabs_def)

lemma cellsFromText_ok:
  assumes "0 < c" "int c \<le> maxDim"
  shows "length (cellsFromText c tx) = c" "row_ok (cellsFromText c tx)"
proof -
  define t1 where "t1 = on_scr (\<lambda>s. s\<lparr>modes := (modes s)\<lparr>Autowrap := False\<rparr>\<rparr>) (NewTerminal (int c) 1 0)"
  define t2 where "t2 = snd (Feed tx t1)"
  have ok: "term_ok t1" unfolding t1_def by (rule term_ok_no_wrap)
  have "dims (scr t1) = (c, 1, 0)"
    using dims_New [OF assms] by (simp add: t1_def NewTerminal_def on_scr_def dims_def)
  then have d: "cols (scr t2) = c" "rows (scr t2) = 1"
    using Feed_dims [OF ok, of tx] by (simp_all add: t2_def dims_def)
  have "wf (scr t2)" using Feed_term_ok [OF ok] term_okD(1) by (simp add: t2_def)
  then have "buf_ok c 1 (mainb (scr t2))" using wfD(11) d by metis
  then have "length (cells (mainb (scr t2) ! 0)) = c \<and> row_ok (cells (mainb (scr t2) ! 0))"
    using buf_okD(2) by blast
  then show "length (cellsFromText c tx) = c" "row_ok (cellsFromText c tx)"
    by (simp_all add: cellsFromText_def Let_def t1_def [symmetric] t2_def [symmetric])
qed

lemma pull_lines_ok:
  "hist_ok h \<Longrightarrow> n \<le> length (hlines h) \<Longrightarrow> 0 < c \<Longrightarrow> int c \<le> maxDim \<Longrightarrow> list_all (line_ok c) acc \<Longrightarrow>
   length (fst (pull_lines c n h acc)) = n + length acc
   \<and> list_all (line_ok c) (fst (pull_lines c n h acc))
   \<and> hist_ok (snd (pull_lines c n h acc)) \<and> limit (snd (pull_lines c n h acc)) = limit h"
proof (induction n arbitrary: h acc)
  case (Suc n)
  have ne: "hist_items h \<noteq> []" using Suc.prems(2) by (metis hist_items_length list.size(3) not_less_eq_eq zero_le)
  have "length (hist_items (snd (hist_popNewest h))) = length (hist_items h) - 1"
    using hist_popNewest_items [OF Suc.prems(1) ne] by simp
  then have "n \<le> length (hlines (snd (hist_popNewest h)))" using Suc.prems(2) by simp
  then show ?case
    using Suc.IH [of "snd (hist_popNewest h)"] Suc.prems hist_popNewest_ok [OF Suc.prems(1)]
    by (simp add: case_prod_beta line_ok_def cellsFromText_ok)
qed simp

section \<open>Rows\<close>

lemma pushes_only_history:
  "fold pushHistory css s = s\<lparr>shist := shist (fold pushHistory css s)\<rparr>"
  by (simp add: pushes_eq)

lemma resizeRows_history:
  "\<exists>h k. snd (snd (resizeRows r im b y s)) = s\<lparr>shist := h, hscrolled := k\<rparr>"
proof -
  have "\<exists>h k. s = s\<lparr>shist := h, hscrolled := k\<rparr>"
    by (rule exI [of _ "shist s"], rule exI [of _ "hscrolled s"]) simp
  moreover have "\<exists>h' k'. s\<lparr>shist := h, hscrolled := k\<rparr> = s\<lparr>shist := h', hscrolled := k'\<rparr>" for h k
    by blast
  ultimately show ?thesis
    by (auto simp: resizeRows_def Let_def pushes_eq case_prod_beta)
qed

lemma resizeRows_ok:
  fixes im :: bool
  assumes "buf_ok (cols s) o1 b" "y < o1" "0 < r" "0 < cols s" "int (cols s) \<le> maxDim" "hist_ok (shist s)"
  defines "res \<equiv> resizeRows r im b y s"
  shows "buf_ok (cols s) r (fst res) \<and> fst (snd res) < r \<and> hist_ok (shist (snd (snd res)))
    \<and> limit (shist (snd (snd res))) = limit (shist s)"
proof -
  have l: "length b = o1" "list_all (line_ok (cols s)) b" using assms(1) by (simp_all add: buf_ok_def)
  have la: "list_all (line_ok (cols s)) (take i b)" "list_all (line_ok (cols s)) (drop j (take i b))" for i j
    using l(2) by (auto simp: list_all_iff dest: in_set_takeD in_set_dropD)
  consider "r < o1" | "r > o1" | "r = o1" by linarith
  then show ?thesis
  proof cases
    case 1
    then show ?thesis
      using assms la l by (auto simp: resizeRows_def Let_def buf_ok_def pushes_eq pushes_ok)
  next
    case 2
    define n where "n = (if im then min (min (r - o1) (hscrolled s)) (hist_len (shist s)) else 0)"
    have n: "n \<le> r - o1" "n \<le> length (hlines (shist s))" by (auto simp: n_def hist_len_def)
    have p: "length (fst (pull_lines (cols s) n (shist s) [])) = n
      \<and> list_all (line_ok (cols s)) (fst (pull_lines (cols s) n (shist s) []))
      \<and> hist_ok (snd (pull_lines (cols s) n (shist s) []))
      \<and> limit (snd (pull_lines (cols s) n (shist s) [])) = limit (shist s)"
      using pull_lines_ok [OF assms(6) n(2) assms(4,5), of "[]"] by simp
    have e: "res = (fst (pull_lines (cols s) n (shist s) []) @ b
        @ replicate (r - o1 - n) \<lparr>cells = replicate (cols s) cell0, used = False\<rparr>, y + n,
        s\<lparr>shist := snd (pull_lines (cols s) n (shist s) []), hscrolled := hscrolled s - n\<rparr>)"
      unfolding res_def resizeRows_def Let_def l n_def [symmetric] case_prod_beta using 2 by simp
    have "line_ok (cols s) \<lparr>cells = replicate (cols s) cell0, used = False\<rparr>" by (simp add: line_ok_def)
    then show ?thesis
      unfolding e using p n 2 l assms(2) by (auto simp: buf_ok_def list_all_iff)
  next
    case 3
    then show ?thesis using assms l by (simp add: resizeRows_def Let_def)
  qed
qed

section \<open>The invariant\<close>

text \<open>What holds before the final clamping: everything but the ranges of cursors and margins.\<close>

definition rwf :: "screen \<Rightarrow> bool" where
  "rwf s \<longleftrightarrow>
     0 < cols s \<and> int (cols s) \<le> maxDim \<and> 0 < rows s \<and> int (rows s) \<le> maxDim
     \<and> buf_ok (cols s) (rows s) (mainb s) \<and> buf_ok (cols s) (rows s) (altb s)
     \<and> hist_ok (shist s)
     \<and> (pendingWrap s \<longrightarrow> cx s = cols s - 1 \<and> Autowrap (modes s))
     \<and> length (g s) = 4 \<and> gl s < 4
     \<and> length (sc_g (saved0 s)) = 4 \<and> sc_gl (saved0 s) < 4
     \<and> length (sc_g (saved1 s)) = 4 \<and> sc_gl (saved1 s) < 4
     \<and> length (tabs s) = cols s
     \<and> (lastRune s \<noteq> 0 \<longrightarrow> lastWidth s = 1 \<or> lastWidth s = 2)
     \<and> 0 \<le> cursorStyle s \<and> cursorStyle s \<le> 6"

lemma wf_rwf: "wf s \<Longrightarrow> rwf s"
  by (simp add: wf_def rwf_def saved_ok_def)

lemma wf_resize_clamp: "rwf s \<Longrightarrow> wf (resize_clamp s)"
  by (auto simp: rwf_def wf_def resize_clamp_def Let_def saved_ok_def clampNat_less clampNat_id)

lemma resizeCols_ok: "buf_ok c0 r b \<Longrightarrow> 0 < c \<Longrightarrow> buf_ok c r (resizeCols c b)"
  by (auto simp: buf_ok_def resizeCols_def list_all_iff line_ok_def fitCells_ok)

lemma rwf_resize_width:
  assumes "rwf s" "0 < c" "int c \<le> maxDim"
  shows "rwf (resize_width c s)" "cols (resize_width c s) = c" "rows (resize_width c s) = rows s"
    "cy (resize_width c s) = cy s" "limit (shist (resize_width c s)) = limit (shist s)"
  using assms by (auto simp: rwf_def resize_width_def resizeTabs_def resizeCols_ok)

lemma rwf_resize_height:
  assumes "rwf s" "cy s < rows s" "0 < r" "int r \<le> maxDim"
  shows "rwf (resize_height r s)" "cols (resize_height r s) = cols s" "rows (resize_height r s) = r"
    "cy (resize_height r s) < r" "limit (shist (resize_height r s)) = limit (shist s)"
proof -
  note R = assms(1) [unfolded rwf_def]
  have "rwf (resize_height r s) \<and> cols (resize_height r s) = cols s \<and> rows (resize_height r s) = r
    \<and> cy (resize_height r s) < r \<and> limit (shist (resize_height r s)) = limit (shist s)"
  proof (cases "r = rows s")
    case True
    then show ?thesis using assms by (simp add: resize_height_def)
  next
    case neq: False
    show ?thesis
    proof (cases "altActive s")
      case True
      define A where "A = resizeRows r False (altb s) (cy s) s"
      define y where "y = (if sc_valid (saved0 s) then sc_y (saved0 s) else fst (snd A))"
      define yc where "yc = nat (clampInt (int y) 0 (int (length (mainb s)) - 1))"
      define B where "B = resizeRows r True (mainb s) yc (snd (snd A))"
      have a: "buf_ok (cols s) r (fst A) \<and> fst (snd A) < r \<and> hist_ok (shist (snd (snd A)))
          \<and> limit (shist (snd (snd A))) = limit (shist s)"
        unfolding A_def using R assms by (intro resizeRows_ok) auto
      obtain h k where sA: "snd (snd A) = s\<lparr>shist := h, hscrolled := k\<rparr>"
        using resizeRows_history unfolding A_def by blast
      have "length (mainb s) = rows s" using R by (simp add: buf_ok_def)
      then have yc: "yc < rows s" using nat_clamp [of "rows s" "int y"] R by (simp add: yc_def)
      have b: "buf_ok (cols s) r (fst B) \<and> fst (snd B) < r \<and> hist_ok (shist (snd (snd B)))
          \<and> limit (shist (snd (snd B))) = limit (shist s)"
        unfolding B_def using R assms a yc sA
        resizeRows_ok [of "snd (snd A)" "rows s" "mainb s" yc r True] by simp
      obtain h' k' where sB: "snd (snd B) = s\<lparr>shist := h', hscrolled := k'\<rparr>"
        using resizeRows_history [of r True "mainb s" yc "snd (snd A)"] sA unfolding B_def by auto
      have "resize_height r s = (snd (snd B))\<lparr>altb := fst A, mainb := fst B, cy := fst (snd A), rows := r,
          saved0 := (if sc_valid (saved0 s) then (saved0 s)\<lparr>sc_y := fst (snd B)\<rparr> else saved0 s)\<rparr>"
        unfolding resize_height_def Let_def case_prod_beta A_def [symmetric] y_def [symmetric]
          yc_def [symmetric] B_def [symmetric] using neq True by simp
      then show ?thesis using sB a b R assms by (simp add: rwf_def)
    next
      case False
      define B where "B = resizeRows r True (mainb s) (cy s) s"
      define A where "A = resizeRows r False (altb s) 0 (snd (snd B))"
      have b: "buf_ok (cols s) r (fst B) \<and> fst (snd B) < r \<and> hist_ok (shist (snd (snd B)))
          \<and> limit (shist (snd (snd B))) = limit (shist s)"
        unfolding B_def using R assms by (intro resizeRows_ok) auto
      obtain h k where sB: "snd (snd B) = s\<lparr>shist := h, hscrolled := k\<rparr>"
        using resizeRows_history unfolding B_def by blast
      have a: "buf_ok (cols s) r (fst A) \<and> fst (snd A) < r \<and> hist_ok (shist (snd (snd A)))
          \<and> limit (shist (snd (snd A))) = limit (shist s)"
        unfolding A_def using R assms b sB
        resizeRows_ok [of "snd (snd B)" "rows s" "altb s" 0 r False] by simp
      obtain h' k' where sA: "snd (snd A) = s\<lparr>shist := h', hscrolled := k'\<rparr>"
        using resizeRows_history [of r False "altb s" 0 "snd (snd B)"] sB unfolding A_def by auto
      have "resize_height r s =
          (snd (snd A))\<lparr>altb := fst A, mainb := fst B, cy := fst (snd B), rows := r\<rparr>"
        unfolding resize_height_def Let_def case_prod_beta B_def [symmetric] A_def [symmetric]
        using neq False by simp
      then show ?thesis using sA a b R assms by (simp add: rwf_def)
    qed
  qed
  then show "rwf (resize_height r s)" "cols (resize_height r s) = cols s" "rows (resize_height r s) = r"
    "cy (resize_height r s) < r" "limit (shist (resize_height r s)) = limit (shist s)" by simp_all
qed

lemma clampSize_ok:
  "clampSize c r = (c', r') \<Longrightarrow> 0 < c' \<and> int c' \<le> maxDim \<and> 0 < r' \<and> int r' \<le> maxDim"
  by (auto simp: clampSize_def clampInt_def maxDim_def)

lemma resizeScreen_ok:
  assumes "wf s"
  shows "wf (resizeScreen c r s)"
    and "dims (resizeScreen c r s) = (fst (clampSize c r), snd (clampSize c r), limit (shist s))"
proof -
  obtain c' r' where e: "clampSize c r = (c', r')" by (cases "clampSize c r") auto
  note k = clampSize_ok [OF e]
  note w = rwf_resize_width [OF wf_rwf [OF assms], of c'] k
  have h: "rwf (resize_height r' (resize_width c' s))"
    "cols (resize_height r' (resize_width c' s)) = c'" "rows (resize_height r' (resize_width c' s)) = r'"
    "limit (shist (resize_height r' (resize_width c' s))) = limit (shist s)"
    using rwf_resize_height [of "resize_width c' s" r'] w wfD(4) [OF assms] by simp_all
  show "wf (resizeScreen c r s)"
    using assms h by (simp add: resizeScreen_def e wf_resize_clamp)
  show "dims (resizeScreen c r s) = (fst (clampSize c r), snd (clampSize c r), limit (shist s))"
    using assms h by (simp add: resizeScreen_def e dims_def resize_clamp_def Let_def)
qed

lemma parser_ok_on_scr [simp]: "parser_ok (on_scr f t) = parser_ok t"
  by (cases "pst t") (simp_all add: parser_ok_def)

lemma Resize_term_ok: "term_ok t \<Longrightarrow> term_ok (Resize c r t)"
  by (simp add: term_ok_def Resize_def resizeScreen_ok)

lemma Resize_idem:
  assumes "wf s"
  shows "resizeScreen c r (resizeScreen c r s) = resizeScreen c r s"
  using resizeScreen_ok(2) [OF assms, of c r] by (simp add: dims_def resizeScreen_def [of _ _ "resizeScreen c r s"] Let_def case_prod_beta)

end
