(* ===== verification/Lifecycle.thy ===== *)
theory Lifecycle
  imports Resize
begin

text \<open>
  The life of a terminal as its owner (\<open>internal/muxd/server.go\<close>) drives it: created by \<open>New\<close>,
  then any sequence of \<open>Feed\<close>, \<open>Resize\<close> and \<open>SetForwarding\<close>. The step relation has one rule per
  call; \<open>reachable\<close> is its closure, and the invariant \<open>term_ok\<close> holds in every reachable state.
  The locale \<open>stepper\<close> is the general argument, interpreted on the step relation.
\<close>

section \<open>Invariants of a step relation\<close>

locale stepper =
  fixes init :: "'s \<Rightarrow> bool"
    and stp :: "'s \<Rightarrow> 'e \<Rightarrow> 's \<Rightarrow> bool"
    and inv :: "'s \<Rightarrow> bool"
  assumes init_inv: "init s \<Longrightarrow> inv s"
    and step_inv: "stp s e s' \<Longrightarrow> inv s \<Longrightarrow> inv s'"
begin

inductive reach :: "'s \<Rightarrow> bool" where
  start: "init s \<Longrightarrow> reach s"
| more: "reach s \<Longrightarrow> stp s e s' \<Longrightarrow> reach s'"

lemma reach_inv: "reach s \<Longrightarrow> inv s"
  by (induction rule: reach.induct) (auto intro: init_inv step_inv)

end

section \<open>The terminal\<close>

datatype tcall = EvFeed "byte list" | EvResize int int | EvForwarding bool

inductive tstep :: "terminal \<Rightarrow> tcall \<Rightarrow> terminal \<Rightarrow> bool" where
  feed: "snd (Feed p t) = t' \<Longrightarrow> tstep t (EvFeed p) t'"
| resize: "Resize c r t = t' \<Longrightarrow> tstep t (EvResize c r) t'"
| forwarding: "SetForwarding on t = t' \<Longrightarrow> tstep t (EvForwarding on) t'"

inductive_cases tstep_cases: "tstep t e t'"
inductive_simps tstep_feed: "tstep t (EvFeed p) t'"
inductive_simps tstep_resize: "tstep t (EvResize c r) t'"
inductive_simps tstep_forwarding: "tstep t (EvForwarding on) t'"

inductive reachable :: "terminal \<Rightarrow> bool" where
  created: "reachable (NewTerminal c r h)"
| stepped: "reachable t \<Longrightarrow> tstep t e t' \<Longrightarrow> reachable t'"

text \<open>Applying a list of events, for concrete runs.\<close>

fun apply_event :: "tcall \<Rightarrow> terminal \<Rightarrow> terminal" where
  "apply_event (EvFeed p) t = snd (Feed p t)"
| "apply_event (EvResize c r) t = Resize c r t"
| "apply_event (EvForwarding on) t = SetForwarding on t"

lemma tstep_apply: "tstep t e t' \<longleftrightarrow> t' = apply_event e t"
  by (cases e) (auto simp: tstep_feed tstep_resize tstep_forwarding)

lemma reachable_run: "reachable t \<Longrightarrow> reachable (fold apply_event es t)"
  by (induction es arbitrary: t) (simp_all add: stepped [OF _ tstep_apply [THEN iffD2]])

lemma term_ok_SetForwarding: "term_ok t \<Longrightarrow> term_ok (SetForwarding on t)"
  by (cases "pst t") (simp_all add: term_ok_def parser_ok_def SetForwarding_def)

lemma term_ok_tstep: "tstep t e t' \<Longrightarrow> term_ok t \<Longrightarrow> term_ok t'"
  by (erule tstep_cases) (auto simp: Feed_term_ok Resize_term_ok term_ok_SetForwarding)

interpretation life: stepper "\<lambda>t. \<exists>c r h. t = NewTerminal c r h" tstep term_ok
  by unfold_locales (auto simp: term_ok_new term_ok_tstep)

lemma reachable_reach: "reachable t \<Longrightarrow> life.reach t"
  by (induction rule: reachable.induct) (auto intro: life.start life.more)

lemma reachable_ok: "reachable t \<Longrightarrow> term_ok t"
  using life.reach_inv reachable_reach by blast

text \<open>Between two calls the stream buffers are empty, and the history limit never changes.\<close>

lemma dims_limit_tstep:
  assumes "tstep t e t'" "term_ok t"
  shows "limit (shist (scr t')) = limit (shist (scr t))"
proof (cases e)
  case (EvFeed p)
  then show ?thesis using assms Feed_dims [OF assms(2), of p] by (simp add: tstep_feed dims_def)
next
  case (EvResize c r)
  then show ?thesis
    using assms resizeScreen_ok(2) [OF term_okD(1) [OF assms(2)], of c r]
    by (auto simp: tstep_resize dims_def Resize_def)
next
  case (EvForwarding on)
  then show ?thesis using assms by (auto simp: tstep_forwarding SetForwarding_def)
qed

section \<open>A DEL in an escape sequence\<close>

text \<open>The parser keeps a DEL that follows ESC in the held sequence, where the dispatch of the control
  sequence then finds it in place of its introducer: the sequence is forwarded although, without the
  DEL, it is one that attached terminals must not see.\<close>

lemma del_in_escape:
  "fst (fst (Feed (ESC # 0x7f # bs ''[?1049h'') (SetForwarding True (NewTerminal 3 2 0)))) = ESC # 0x7f # bs ''[?1049h''
   \<and> fst (fst (Feed (ESC # bs ''[?1049h'') (SetForwarding True (NewTerminal 3 2 0)))) \<noteq> ESC # bs ''[?1049h''"
  by code_simp

end
