(* ===== verification/Proto.thy ===== *)
theory Proto
  imports Prelude
begin

text \<open>
  \<open>internal/muxd/proto.go\<close> and \<open>keys.go\<close>: control messages, attach frames, key names. A connection is
  the bytes still to come; a read that meets the end of them is \<open>ErrShort\<close>. JSON is the argument
  \<open>enc\<close>/\<open>dec\<close> of the message functions.
\<close>

section \<open>Managed panes\<close>

text \<open>\<open>mux.PaneInfo\<close>, what every multiplexer reports of a terminal.\<close>

record pane_info =
  PaneID :: "byte list"
  Window :: "byte list"
  InfoName :: "byte list"
  CurrentCmd :: "byte list"
  PaneDead :: bool

section \<open>Big-endian numbers\<close>

definition PutUint32 :: "32 word \<Rightarrow> byte list" where
  "PutUint32 n = [ucast (drop_bit 24 n), ucast (drop_bit 16 n), ucast (drop_bit 8 n), ucast n]"

definition Uint32 :: "byte list \<Rightarrow> 32 word" where
  "Uint32 b = push_bit 24 (ucast (b ! 0)) OR push_bit 16 (ucast (b ! 1)) OR push_bit 8 (ucast (b ! 2)) OR ucast (b ! 3)"

definition PutUint16 :: "16 word \<Rightarrow> byte list" where
  "PutUint16 n = [ucast (drop_bit 8 n), ucast n]"

definition Uint16 :: "byte list \<Rightarrow> 16 word" where
  "Uint16 b = push_bit 8 (ucast (b ! 0)) OR ucast (b ! 1)"

lemma length_PutUint32 [simp]: "length (PutUint32 n) = 4"
  by (simp add: PutUint32_def)

lemma Uint32_PutUint32 [simp]: "Uint32 (PutUint32 n @ q) = n"
proof (rule bit_word_eqI)
  fix i :: nat
  assume "i < LENGTH(32)"
  then consider "i < 8" | "8 \<le> i" "i < 16" | "16 \<le> i" "i < 24" | "24 \<le> i" "i < 32" by fastforce
  then show "bit (Uint32 (PutUint32 n @ q)) i \<longleftrightarrow> bit n i"
    by cases (simp_all add: Uint32_def PutUint32_def bit_or_iff bit_push_bit_iff bit_ucast_iff bit_drop_bit_eq, linarith+)
qed

lemma Uint16_PutUint16 [simp]: "Uint16 (PutUint16 n @ q) = n"
  by (rule bit_word_eqI)
     (auto simp: Uint16_def PutUint16_def bit_or_iff bit_push_bit_iff bit_ucast_iff bit_drop_bit_eq nth_append)

section \<open>Reading exactly\<close>

datatype io_error = ErrShort | ErrTooLarge | ErrDecode

text \<open>\<open>io.ReadFull\<close>.\<close>

definition read_full :: "nat \<Rightarrow> byte list \<Rightarrow> io_error + byte list \<times> byte list" where
  "read_full n s = (if length s < n then Inl ErrShort else Inr (take n s, drop n s))"

section \<open>Control messages\<close>

definition protoVersion :: int where "protoVersion = 1"
definition maxMessage :: nat where "maxMessage = 64 * 2 ^ 20"

definition writeMsg :: "('v \<Rightarrow> byte list) \<Rightarrow> 'v \<Rightarrow> io_error + byte list" where
  "writeMsg enc v =
     (let body = enc v
      in if length body > maxMessage then Inl ErrTooLarge
         else Inr (PutUint32 (of_nat (length body)) @ body))"

definition readMsg :: "(byte list \<Rightarrow> 'v option) \<Rightarrow> byte list \<Rightarrow> io_error + 'v \<times> byte list" where
  "readMsg dec s =
     (case read_full 4 s of
        Inl e \<Rightarrow> Inl e
      | Inr (hdr, s1) \<Rightarrow>
          let n = Uint32 hdr
          in if unat n > maxMessage then Inl ErrTooLarge
             else case read_full (unat n) s1 of
               Inl e \<Rightarrow> Inl e
             | Inr (body, s2) \<Rightarrow> (case dec body of None \<Rightarrow> Inl ErrDecode | Some v \<Rightarrow> Inr (v, s2)))"

section \<open>Attach frames\<close>

definition maxFrame :: nat where "maxFrame = 16 * 2 ^ 20"

definition frameInput :: byte where "frameInput = bc CHR ''i''"
definition frameResize :: byte where "frameResize = bc CHR ''r''"
definition frameDetach :: byte where "frameDetach = bc CHR ''d''"
definition frameOutput :: byte where "frameOutput = bc CHR ''o''"
definition frameExit :: byte where "frameExit = bc CHR ''x''"

definition encodeFrame :: "byte \<Rightarrow> byte list \<Rightarrow> byte list" where
  "encodeFrame typ payload = typ # PutUint32 (of_nat (length payload)) @ payload"

definition readFrame :: "byte list \<Rightarrow> io_error + (byte \<times> byte list) \<times> byte list" where
  "readFrame s =
     (case read_full 5 s of
        Inl e \<Rightarrow> Inl e
      | Inr (hdr, s1) \<Rightarrow>
          let n = Uint32 (drop 1 hdr)
          in if unat n > maxFrame then Inl ErrTooLarge
             else case read_full (unat n) s1 of
               Inl e \<Rightarrow> Inl e
             | Inr (payload, s2) \<Rightarrow> Inr ((hdr ! 0, payload), s2))"

definition resizePayload :: "int \<Rightarrow> int \<Rightarrow> byte list" where
  "resizePayload cols rows = PutUint16 (of_int cols) @ PutUint16 (of_int rows)"

definition parseResize :: "byte list \<Rightarrow> (int \<times> int) option" where
  "parseResize p =
     (if length p \<noteq> 4 then None else Some (uint (Uint16 (take 2 p)), uint (Uint16 (drop 2 p))))"

text \<open>The reading loop of an attached connection up to its end.\<close>

function read_frames :: "byte list \<Rightarrow> (byte \<times> byte list) list \<times> io_error" where
  "read_frames s =
     (case readFrame s of
        Inl e \<Rightarrow> ([], e)
      | Inr (f, s1) \<Rightarrow> (let (fs, e) = read_frames s1 in (f # fs, e)))"
  by pat_completeness auto
termination
proof (relation "measure length", goal_cases)
  case (2 s x f s1)
  then show ?case by (auto simp: readFrame_def read_full_def Let_def split: if_splits)
qed simp

declare read_frames.simps [simp del]

section \<open>Key names\<close>

definition csiOrSS3 :: "bool \<Rightarrow> char \<Rightarrow> byte list" where
  "csiOrSS3 appCursor final = (if appCursor then [0x1b, bc CHR ''O'', bc final] else [0x1b, bc CHR ''['', bc final])"

definition named_keys :: "bool \<Rightarrow> (byte list \<times> byte list) list" where
  "named_keys app =
     [(bs ''Enter'', [0x0d]), (bs ''Escape'', [0x1b]), (bs ''Tab'', [0x09]), (bs ''Space'', [0x20]),
      (bs ''BSpace'', [0x7f]),
      (bs ''Up'', csiOrSS3 app CHR ''A''), (bs ''Down'', csiOrSS3 app CHR ''B''),
      (bs ''Right'', csiOrSS3 app CHR ''C''), (bs ''Left'', csiOrSS3 app CHR ''D''),
      (bs ''Home'', csiOrSS3 app CHR ''H''), (bs ''End'', csiOrSS3 app CHR ''F''),
      (bs ''PPage'', 0x1b # bs ''[5~''), (bs ''NPage'', 0x1b # bs ''[6~''),
      (bs ''DC'', 0x1b # bs ''[3~''), (bs ''IC'', 0x1b # bs ''[2~''),
      (bs ''F1'', 0x1b # bs ''OP''), (bs ''F2'', 0x1b # bs ''OQ''), (bs ''F3'', 0x1b # bs ''OR''),
      (bs ''F4'', 0x1b # bs ''OS''), (bs ''F5'', 0x1b # bs ''[15~''), (bs ''F6'', 0x1b # bs ''[17~''),
      (bs ''F7'', 0x1b # bs ''[18~''), (bs ''F8'', 0x1b # bs ''[19~''), (bs ''F9'', 0x1b # bs ''[20~''),
      (bs ''F10'', 0x1b # bs ''[21~''), (bs ''F11'', 0x1b # bs ''[23~''), (bs ''F12'', 0x1b # bs ''[24~'')]"

definition ctrl_byte :: "byte \<Rightarrow> byte option" where
  "ctrl_byte c =
     (if bc CHR ''a'' \<le> c \<and> c \<le> bc CHR ''z'' then Some (c - bc CHR ''a'' + 1)
      else if bc CHR ''A'' \<le> c \<and> c \<le> bc CHR ''Z'' then Some (c - bc CHR ''A'' + 1)
      else if c = bc CHR ''@'' \<or> c = bc CHR '' '' then Some 0
      else if c = bc CHR ''['' then Some 0x1b
      else if c = 0x5c then Some 0x1c
      else if c = bc CHR '']'' then Some 0x1d
      else if c = bc CHR ''^'' then Some 0x1e
      else if c = bc CHR ''_'' then Some 0x1f
      else if c = bc CHR ''?'' then Some 0x7f
      else None)"

text \<open>\<open>None\<close> is the error \<open>unknown key\<close>.\<close>

definition keyBytes :: "byte list \<Rightarrow> bool \<Rightarrow> byte list option" where
  "keyBytes name appCursor =
     (case map_of (named_keys appCursor) name of
        Some b \<Rightarrow> Some b
      | None \<Rightarrow>
          if length name = 3 \<and> name ! 1 = bc CHR ''-'' then
            let c = name ! 2
            in if name ! 0 = bc CHR ''C'' then map_option (\<lambda>b. [b]) (ctrl_byte c)
               else if name ! 0 = bc CHR ''M'' \<and> 0x21 \<le> c \<and> c < 0x7f then Some [0x1b, c]
               else None
          else None)"

text \<open>The allowlist of \<open>pairmux send --key\<close> (\<open>validKey\<close> in \<open>internal/cli/commands.go\<close>).\<close>

definition is_lower :: "byte \<Rightarrow> bool" where
  "is_lower c \<longleftrightarrow> bc CHR ''a'' \<le> c \<and> c \<le> bc CHR ''z''"

definition fKey :: "byte list \<Rightarrow> bool" where
  "fKey k \<longleftrightarrow> k \<in> set (map bs [''F1'', ''F2'', ''F3'', ''F4'', ''F5'', ''F6'', ''F7'', ''F8'', ''F9'', ''F10'', ''F11'', ''F12''])"

definition prefixed_key :: "char \<Rightarrow> byte list \<Rightarrow> bool" where
  "prefixed_key p k \<longleftrightarrow> length k = 3 \<and> k ! 0 = bc p \<and> k ! 1 = bc CHR ''-'' \<and> is_lower (k ! 2)"

definition validKey :: "byte list \<Rightarrow> bool" where
  "validKey k \<longleftrightarrow>
     (if k \<in> set (map bs [''Enter'', ''Escape'', ''Tab'', ''Space'', ''Up'', ''Down'', ''Left'', ''Right'',
        ''Home'', ''End'', ''PPage'', ''NPage'', ''BSpace'', ''DC'']) then True
      else fKey k \<or> prefixed_key CHR ''C'' k \<or> prefixed_key CHR ''M'' k)"

section \<open>Properties\<close>

lemma readFrame_encode:
  "length payload \<le> maxFrame \<Longrightarrow> readFrame (encodeFrame typ payload @ s) = Inr ((typ, payload), s)"
proof -
  assume l: "length payload \<le> maxFrame"
  then have u: "unat (of_nat (length payload) :: 32 word) = length payload"
    by (simp add: unat_of_nat maxFrame_def)
  have f: "read_full 5 (encodeFrame typ payload @ s) = Inr (typ # PutUint32 (of_nat (length payload)), payload @ s)"
    by (simp add: read_full_def encodeFrame_def PutUint32_def)
  have h: "Uint32 (PutUint32 (of_nat (length payload))) = of_nat (length payload)"
    using Uint32_PutUint32 [of _ "[]"] by simp
  show ?thesis using l by (simp add: readFrame_def f h u Let_def) (simp add: read_full_def)
qed

lemma read_frames_encode:
  "\<forall>f \<in> set fs. length (snd f) \<le> maxFrame \<Longrightarrow>
   read_frames (concat (map (\<lambda>(t, p). encodeFrame t p) fs)) = (fs, ErrShort)"
proof (induction fs)
  case Nil
  then show ?case by (simp add: read_frames.simps [of "[]"] readFrame_def read_full_def)
next
  case (Cons f fs)
  obtain t p where f: "f = (t, p)" by (cases f) auto
  have "readFrame (encodeFrame t p @ concat (map (\<lambda>(t, p). encodeFrame t p) fs)) =
      Inr ((t, p), concat (map (\<lambda>(t, p). encodeFrame t p) fs))"
    using Cons.prems f by (intro readFrame_encode) simp
  then show ?case using Cons f by (simp add: read_frames.simps [of "encodeFrame t p @ _"])
qed

lemma readMsg_write:
  "length (enc v) \<le> maxMessage \<Longrightarrow> dec (enc v) = Some v \<Longrightarrow>
   \<exists>m. writeMsg enc v = Inr m \<and> readMsg dec (m @ s) = Inr (v, s)"
proof -
  assume l: "length (enc v) \<le> maxMessage" and d: "dec (enc v) = Some v"
  then have u: "unat (of_nat (length (enc v)) :: 32 word) = length (enc v)"
    by (simp add: unat_of_nat maxMessage_def)
  have f: "read_full 4 ((PutUint32 (of_nat (length (enc v))) @ enc v) @ s) =
      Inr (PutUint32 (of_nat (length (enc v))), enc v @ s)"
    by (simp add: read_full_def PutUint32_def)
  have h: "Uint32 (PutUint32 (of_nat (length (enc v)))) = of_nat (length (enc v))"
    using Uint32_PutUint32 [of _ "[]"] by simp
  have "readMsg dec ((PutUint32 (of_nat (length (enc v))) @ enc v) @ s) = Inr (v, s)"
    unfolding readMsg_def f using l d by (simp add: h u Let_def) (simp add: read_full_def)
  then show ?thesis using l by (simp add: writeMsg_def Let_def)
qed

lemma parse_resize_payload:
  "parseResize (resizePayload c r) = Some (c mod 2 ^ 16, r mod 2 ^ 16)"
proof -
  have "Uint16 (PutUint16 n) = n" for n using Uint16_PutUint16 [of n "[]"] by simp
  moreover have "length (PutUint16 n) = 2" for n by (simp add: PutUint16_def)
  ultimately show ?thesis
    by (simp add: parseResize_def resizePayload_def uint_word_of_int)
qed

lemma named_keys_ne: "map_of (named_keys app) k = Some b \<Longrightarrow> b \<noteq> []"
  by (drule map_of_SomeD) (auto simp: named_keys_def csiOrSS3_def split: if_splits)

lemma validKey_keyBytes: "validKey k \<Longrightarrow> \<exists>b. keyBytes k app = Some b \<and> b \<noteq> []"
proof -
  assume v: "validKey k"
  show ?thesis
  proof (cases "map_of (named_keys app) k")
    case (Some b)
    then show ?thesis using named_keys_ne [OF Some] by (simp add: keyBytes_def)
  next
    case None
    have "prefixed_key CHR ''C'' k \<or> prefixed_key CHR ''M'' k"
      using v None by (auto simp: validKey_def fKey_def named_keys_def map_of_eq_None_iff split: if_splits)
    then show ?thesis
      using None
      by (auto simp: keyBytes_def prefixed_key_def is_lower_def ctrl_byte_def Let_def word_le_nat_alt word_less_nat_alt)
  qed
qed

end
