(* ===== verification/Server.thy ===== *)
theory Server
  imports Lifecycle Proto
begin

text \<open>
  The built-in multiplexer, \<open>internal/muxd/server.go\<close> and \<open>attach_server.go\<close>. Every function that the
  source runs under one lock is one definition here, so the interleavings of its goroutines are
  sequences of these definitions (theory \<open>Server_Laws\<close>). A pane's \<open>vt.Screen\<close> is the record
  \<open>terminal\<close>; what leaves the process is kept as it is written: \<open>c_sent\<close> the frames written to a
  client's writer has taken to its connection, \<open>p_file\<close> the bytes appended to the journal, \<open>p_typed\<close> the
  bytes written to the program. Results of the operating system are arguments (\<open>env\<close>).
\<close>

section \<open>Attached clients\<close>

definition clientBacklog :: nat where "clientBacklog = 4 * 2 ^ 20"
definition inputQueueBytes :: nat where "inputQueueBytes = 8 * 2 ^ 20"
definition DefaultCols :: int where "DefaultCols = 220"
definition DefaultRows :: int where "DefaultRows = 50"
definition historyLimit :: int where "historyLimit = 10000"
definition idleExit :: int where "idleExit = 30000000000"

record client =
  c_pending :: "byte list list"
  c_bytes :: nat
  c_redraw :: bool
  c_ending :: bool
  c_closed :: bool
  c_sent :: "byte list list"

definition newClient :: client where
  "newClient = \<lparr>c_pending = [], c_bytes = 0, c_redraw = False, c_ending = False, c_closed = False, c_sent = []\<rparr>"

definition push :: "byte list \<Rightarrow> client \<Rightarrow> client" where
  "push frame c =
     (if c_closed c \<or> c_ending c \<or> c_redraw c then c
      else if c_bytes c + length frame > clientBacklog
      then c\<lparr>c_pending := [], c_bytes := 0, c_redraw := True\<rparr>
      else c\<lparr>c_pending := c_pending c @ [frame], c_bytes := c_bytes c + length frame\<rparr>)"

definition requestRedraw :: "client \<Rightarrow> client" where
  "requestRedraw c =
     (if \<not> c_closed c \<and> \<not> c_ending c then c\<lparr>c_pending := [], c_bytes := 0, c_redraw := True\<rparr> else c)"

definition client_finish :: "byte list \<Rightarrow> client \<Rightarrow> client" where
  "client_finish frame c =
     (if \<not> c_closed c \<and> \<not> c_ending c then c\<lparr>c_pending := c_pending c @ [frame], c_ending := True\<rparr> else c)"

definition client_close :: "client \<Rightarrow> client" where
  "client_close c = c\<lparr>c_closed := True\<rparr>"

text \<open>The two locked sections of the client's \<open>writeLoop\<close>: rendering a redraw, and taking the batch,
  whose frames are then written.\<close>

definition render_section :: "screen \<Rightarrow> client \<Rightarrow> client" where
  "render_section s c =
     (if c_redraw c then
        let r = encodeFrame frameOutput (Render s)
        in c\<lparr>c_pending := r # c_pending c, c_bytes := c_bytes c + length r, c_redraw := False\<rparr>
      else c)"

definition take_section :: "client \<Rightarrow> client" where
  "take_section c = c\<lparr>c_sent := c_sent c @ c_pending c, c_pending := [], c_bytes := 0\<rparr>"

section \<open>Panes\<close>

record pane =
  p_order :: nat
  p_name :: "byte list"
  p_argv0 :: "byte list"
  p_scr :: terminal
  p_jopen :: bool
  p_jerr :: bool
  p_file :: "byte list"
  p_dead :: bool
  p_opts :: "byte list \<rightharpoonup> byte list"
  p_objs :: "nat \<rightharpoonup> client"
  p_attached :: "nat list"
  p_cols :: int
  p_rows :: int
  p_inQueue :: "byte list list"
  p_inBytes :: nat
  p_gone :: bool
  p_typed :: "byte list"

definition pane_id :: "nat \<Rightarrow> byte list" where
  "pane_id n = bc CHR ''%'' # itoa (int n)"

definition PaneOptName :: "byte list" where "PaneOptName = bs ''@pairmux_name''"

text \<open>\<open>for c := range p.clients\<close>.\<close>

definition on_clients :: "(client \<Rightarrow> client) \<Rightarrow> pane \<Rightarrow> pane" where
  "on_clients f p =
     p\<lparr>p_objs := (\<lambda>i. if i \<in> set (p_attached p) then map_option f (p_objs p i) else p_objs p i)\<rparr>"

definition on_client :: "nat \<Rightarrow> (client \<Rightarrow> client) \<Rightarrow> pane \<Rightarrow> pane" where
  "on_client i f p = p\<lparr>p_objs := (p_objs p)(i := map_option f (p_objs p i))\<rparr>"

datatype queue_error = PaneGone | QueueFull

definition enqueue :: "byte list \<Rightarrow> pane \<Rightarrow> queue_error option \<times> pane" where
  "enqueue b p =
     (if b = [] then (None, p)
      else if p_gone p then (Some PaneGone, p)
      else if p_inBytes p + length b > inputQueueBytes then (Some QueueFull, p)
      else (None, p\<lparr>p_inQueue := p_inQueue p @ [b], p_inBytes := p_inBytes p + length b\<rparr>))"

text \<open>One turn of the input writer: nothing to do (or gone) leaves the pane alone.\<close>

definition input_section :: "pane \<Rightarrow> pane" where
  "input_section p =
     (if p_gone p then p
      else case p_inQueue p of
        [] \<Rightarrow> p
      | chunk # q \<Rightarrow> p\<lparr>p_inQueue := q, p_inBytes := p_inBytes p - length chunk, p_typed := p_typed p @ chunk\<rparr>)"

text \<open>\<open>output\<close>: \<open>short\<close> is how many bytes the write to the journal stored before it failed, if it did.
  The reply to the program is queued after the pane's lock is released.\<close>

definition output_locked :: "nat option \<Rightarrow> byte list \<Rightarrow> pane \<Rightarrow> byte list \<times> pane" where
  "output_locked short b p =
     (let p1 = (if p_jopen p then
                  (case short of None \<Rightarrow> p\<lparr>p_file := p_file p @ b\<rparr>
                   | Some k \<Rightarrow> p\<lparr>p_file := p_file p @ take k b, p_jerr := True\<rparr>)
                else p);
          t1 = SetForwarding (p_attached p1 \<noteq> []) (p_scr p1);
          ((fwd, rep), t2) = Feed b t1;
          p2 = p1\<lparr>p_scr := t2\<rparr>;
          p3 = (if fwd \<noteq> [] then on_clients (push (encodeFrame frameOutput fwd)) p2 else p2)
      in (rep, p3))"

definition pane_output :: "nat option \<Rightarrow> byte list \<Rightarrow> pane \<Rightarrow> pane" where
  "pane_output short b p =
     (let (rep, p1) = output_locked short b p in if rep \<noteq> [] then snd (enqueue rep p1) else p1)"

definition displayName :: "pane \<Rightarrow> byte list" where
  "displayName p =
     (case p_opts p PaneOptName of
        Some n \<Rightarrow> if n \<noteq> [] then n else p_name p
      | None \<Rightarrow> p_name p)"

definition exit_message :: "pane \<Rightarrow> int \<Rightarrow> byte list" where
  "exit_message p code =
     bs ''terminal '' @ displayName p @ bs '' exited with status '' @ itoa code"

text \<open>The two locked sections of \<open>finish\<close> that follow its leaving the server.\<close>

definition pane_die :: "int \<Rightarrow> pane \<Rightarrow> pane" where
  "pane_die code p =
     (let p1 = on_clients (client_finish (encodeFrame frameExit (exit_message p code))) (p\<lparr>p_dead := True\<rparr>)
      in p1\<lparr>p_attached := [], p_jopen := False\<rparr>)"

definition pane_vanish :: "pane \<Rightarrow> pane" where
  "pane_vanish p = p\<lparr>p_inQueue := [], p_gone := True\<rparr>"

definition pane_finish :: "int \<Rightarrow> pane \<Rightarrow> pane" where
  "pane_finish code p = pane_vanish (pane_die code p)"

definition resizeLocked :: "bool \<Rightarrow> int \<Rightarrow> int \<Rightarrow> pane \<Rightarrow> pane" where
  "resizeLocked ptyok wd ht p =
     (if p_dead p \<or> wd \<le> 0 \<or> ht \<le> 0 \<or> (wd = p_cols p \<and> ht = p_rows p) then p
      else if \<not> ptyok then p
      else on_clients requestRedraw (p\<lparr>p_scr := Resize wd ht (p_scr p), p_cols := wd, p_rows := ht\<rparr>))"

text \<open>\<open>attach\<close> up to its reading loop: \<open>None\<close> when the pane is dead. \<open>i\<close> is the new client object.\<close>

definition pane_attach :: "bool \<Rightarrow> nat \<Rightarrow> int \<Rightarrow> int \<Rightarrow> pane \<Rightarrow> pane option" where
  "pane_attach ptyok i wd ht p =
     (if p_dead p then None
      else let p1 = p\<lparr>p_objs := (p_objs p)(i \<mapsto> newClient), p_attached := i # p_attached p\<rparr>;
               p2 = resizeLocked ptyok wd ht p1
           in Some (on_client i requestRedraw p2))"

definition pane_detach :: "bool \<Rightarrow> nat \<Rightarrow> pane \<Rightarrow> pane" where
  "pane_detach ptyok i p =
     (let p1 = p\<lparr>p_attached := removeAll i (p_attached p)\<rparr>;
          p2 = (if p_attached p1 = [] then resizeLocked ptyok DefaultCols DefaultRows p1 else p1)
      in on_client i client_close p2)"

text \<open>One frame of an attached human; \<open>False\<close>: the human leaves.\<close>

definition attach_frame :: "bool \<Rightarrow> byte \<Rightarrow> byte list \<Rightarrow> pane \<Rightarrow> bool \<times> pane" where
  "attach_frame ptyok typ payload p =
     (if typ = frameInput then (True, snd (enqueue payload p))
      else if typ = frameResize then
        (True, case parseResize payload of Some (c, r) \<Rightarrow> resizeLocked ptyok c r p | None \<Rightarrow> p)
      else if typ = frameDetach then (False, p)
      else (True, p))"

section \<open>The server\<close>

record server =
  s_store :: "nat \<rightharpoonup> pane"
  s_reg :: "nat list"
  s_nextID :: nat
  s_conns :: int
  s_lastActive :: int
  s_closing :: bool

record request =
  Op :: "byte list"
  Pane :: "byte list"
  ReqName :: "byte list"
  Argv :: "byte list list"
  JournalPath :: "byte list"
  ReqText :: "byte list"
  Keys :: "byte list list"
  HistoryLines :: int
  Opt :: "byte list"
  OptVal :: "byte list"
  ReqCols :: int
  ReqRows :: int

record response =
  OK :: bool
  RError :: "byte list"
  RProto :: int
  RVersion :: "byte list"
  RPid :: int
  RPane :: "byte list"
  RText :: "byte list"
  RPanes :: "pane_info list"
  Attached :: nat
  Active :: bool

definition resp0 :: response where
  "resp0 = \<lparr>OK = False, RError = [], RProto = 0, RVersion = [], RPid = 0, RPane = [], RText = [], RPanes = [],
     Attached = 0, Active = False\<rparr>"

definition ok_resp :: response where "ok_resp = resp0\<lparr>OK := True\<rparr>"

definition fail :: "byte list \<Rightarrow> response" where
  "fail msg = resp0\<lparr>RError := msg\<rparr>"

text \<open>The operating system: opening a journal (an error message, if it fails), starting the program,
  the device of a pane, the version and process id, \<open>%q\<close>, the base name of a command.\<close>

record env =
  e_open :: "byte list \<Rightarrow> byte list option"
  e_start :: "byte list option"
  e_tty :: "byte list"
  e_version :: "byte list"
  e_pid :: int
  e_quote :: "byte list \<Rightarrow> byte list"
  e_base :: "byte list \<Rightarrow> byte list"
  e_now :: int

definition errShuttingDown :: "byte list" where "errShuttingDown = bs ''server is shutting down''"

definition queue_msg :: "queue_error \<Rightarrow> byte list" where
  "queue_msg e =
     (case e of PaneGone \<Rightarrow> bs ''pane is gone''
      | QueueFull \<Rightarrow> bs ''input queue full: the program is not reading its input'')"

text \<open>The lookup of a pane by its id; every registered number has a pane (\<open>server_ok\<close> in
  \<open>Server_Laws\<close>).\<close>

definition lookup_pane :: "byte list \<Rightarrow> server \<Rightarrow> response + nat \<times> pane" where
  "lookup_pane pid s =
     (case find (\<lambda>n. pane_id n = pid) (s_reg s) of
        Some n \<Rightarrow> Inr (n, the (s_store s n))
      | None \<Rightarrow> Inl (fail (bs ''can'' @ 0x27 # bs ''t find pane: '' @ pid)))"

definition put_pane :: "nat \<Rightarrow> pane \<Rightarrow> server \<Rightarrow> server" where
  "put_pane n p s = s\<lparr>s_store := (s_store s)(n \<mapsto> p)\<rparr>"

text \<open>\<open>openJournal\<close>: whether a file was opened, or the error.\<close>

definition openJournal :: "env \<Rightarrow> byte list \<Rightarrow> byte list + bool" where
  "openJournal E path =
     (if path = [] then Inr False
      else case e_open E path of Some err \<Rightarrow> Inl (bs ''open journal: '' @ err) | None \<Rightarrow> Inr True)"

text \<open>\<open>newWindow\<close>: its two locked sections, reserving the number and registering the pane.\<close>

definition new_pane :: "env \<Rightarrow> request \<Rightarrow> bool \<Rightarrow> nat \<Rightarrow> pane" where
  "new_pane E req jopen n =
     (let small = (ReqCols req \<le> 0 \<or> ReqRows req \<le> 0);
          wd = (if small then DefaultCols else ReqCols req);
          ht = (if small then DefaultRows else ReqRows req)
      in \<lparr>p_order = n, p_name = ReqName req, p_argv0 = e_base E (hd (Argv req)),
          p_scr = NewTerminal wd ht historyLimit, p_jopen = jopen, p_jerr = False, p_file = [],
          p_dead = False, p_opts = Map.empty, p_objs = Map.empty, p_attached = [], p_cols = wd,
          p_rows = ht, p_inQueue = [], p_inBytes = 0, p_gone = False, p_typed = []\<rparr>)"

definition new_reserve :: "server \<Rightarrow> (nat \<times> server) option" where
  "new_reserve s = (if s_closing s then None else Some (s_nextID s, s\<lparr>s_nextID := s_nextID s + 1\<rparr>))"

definition new_register :: "env \<Rightarrow> nat \<Rightarrow> pane \<Rightarrow> server \<Rightarrow> response \<times> server" where
  "new_register E n p s =
     (let s1 = put_pane n p s
      in if s_closing s then (fail errShuttingDown, s1)
         else (ok_resp\<lparr>RPane := pane_id n\<rparr>, s1\<lparr>s_reg := s_reg s @ [n], s_lastActive := e_now E\<rparr>))"

definition newWindow :: "env \<Rightarrow> request \<Rightarrow> server \<Rightarrow> response \<times> server" where
  "newWindow E req s =
     (if Argv req = [] then (fail (bs ''new-window: no command''), s)
      else case openJournal E (JournalPath req) of
        Inl err \<Rightarrow> (fail err, s)
      | Inr jopen \<Rightarrow>
          (case new_reserve s of
             None \<Rightarrow> (fail errShuttingDown, s)
           | Some (n, s1) \<Rightarrow>
               (case e_start E of
                  Some err \<Rightarrow> (fail err, s1)
                | None \<Rightarrow> new_register E n (new_pane E req jopen n) s1)))"

definition pane_info_of :: "nat \<Rightarrow> pane \<Rightarrow> pane_info" where
  "pane_info_of n p =
     \<lparr>PaneID = pane_id n, Window = p_name p,
      InfoName = (case p_opts p PaneOptName of Some v \<Rightarrow> v | None \<Rightarrow> []), CurrentCmd = p_argv0 p, PaneDead = False\<rparr>"

definition list_panes :: "server \<Rightarrow> response" where
  "list_panes s =
     ok_resp\<lparr>RPanes := map (\<lambda>n. pane_info_of n (the (s_store s n))) (sort (s_reg s))\<rparr>"

definition unregister :: "env \<Rightarrow> nat \<Rightarrow> server \<Rightarrow> server" where
  "unregister E n s = s\<lparr>s_reg := removeAll n (s_reg s), s_lastActive := e_now E\<rparr>"

text \<open>\<open>finish\<close> of pane \<open>n\<close>: it leaves the server, then dies.\<close>

definition finish_pane :: "env \<Rightarrow> int \<Rightarrow> nat \<Rightarrow> server \<Rightarrow> server" where
  "finish_pane E code n s =
     (let s1 = unregister E n s
      in case s_store s1 n of None \<Rightarrow> s1 | Some p \<Rightarrow> put_pane n (pane_finish code p) s1)"

text \<open>The keys of \<open>send-keys\<close>: the first unknown one fails the request.\<close>

fun all_keys :: "bool \<Rightarrow> byte list list \<Rightarrow> byte list + byte list" where
  "all_keys app [] = Inr []"
| "all_keys app (k # ks) =
     (case keyBytes k app of
        None \<Rightarrow> Inl k
      | Some b \<Rightarrow> (case all_keys app ks of Inl e \<Rightarrow> Inl e | Inr r \<Rightarrow> Inr (b @ r)))"

definition enqueue_resp :: "byte list \<Rightarrow> nat \<Rightarrow> pane \<Rightarrow> server \<Rightarrow> response \<times> server" where
  "enqueue_resp b n p s =
     (case enqueue b p of
        (Some e, p1) \<Rightarrow> (fail (queue_msg e), s)
      | (None, p1) \<Rightarrow> (ok_resp, put_pane n p1 s))"

definition handle_pane :: "env \<Rightarrow> request \<Rightarrow> nat \<Rightarrow> pane \<Rightarrow> server \<Rightarrow> response \<times> server" where
  "handle_pane E req n p s =
     (if Op req = bs ''pipe'' then
        (if p_jopen p then (ok_resp, s)
         else case openJournal E (JournalPath req) of
           Inl err \<Rightarrow> (fail err, s)
         | Inr jopen \<Rightarrow> (ok_resp, put_pane n (p\<lparr>p_jopen := jopen\<rparr>) s))
      else if Op req = bs ''send-text'' then enqueue_resp (ReqText req) n p s
      else if Op req = bs ''send-keys'' then
        (case all_keys (AppCursor (Modes (scr (p_scr p)))) (Keys req) of
           Inl k \<Rightarrow> (fail (bs ''unknown key '' @ e_quote E k), s)
         | Inr b \<Rightarrow> enqueue_resp b n p s)
      else if Op req = bs ''capture'' then
        (ok_resp\<lparr>RText := Capture (scr (p_scr p)) (HistoryLines req)\<rparr>, s)
      else if Op req = bs ''set-option'' then
        (ok_resp, put_pane n (p\<lparr>p_opts := (p_opts p)(Opt req \<mapsto> OptVal req)\<rparr>) s)
      else if Op req = bs ''kill-window'' then (ok_resp, unregister E n s)
      else if Op req = bs ''pane-tty'' then (ok_resp\<lparr>RText := e_tty E\<rparr>, s)
      else if Op req = bs ''audience'' then
        (ok_resp\<lparr>Attached := length (p_attached p), Active := (p_attached p \<noteq> [])\<rparr>, s)
      else (fail (bs ''unknown operation '' @ e_quote E (Op req)), s))"

definition handle :: "env \<Rightarrow> request \<Rightarrow> server \<Rightarrow> response \<times> server" where
  "handle E req s =
     (if s_closing s then (fail errShuttingDown, s)
      else if Op req = bs ''ping'' then (ok_resp\<lparr>RVersion := e_version E, RPid := e_pid E\<rparr>, s)
      else if Op req = bs ''kill-server'' then (ok_resp, s)
      else if Op req = bs ''new-window'' then newWindow E req s
      else if Op req = bs ''list'' then (list_panes s, s)
      else if Op req = bs ''select-window'' then
        (if list_ex (\<lambda>i. Window i = ReqName req) (RPanes (list_panes s)) then ok_resp
         else fail (bs ''can'' @ 0x27 # bs ''t find window: '' @ ReqName req), s)
      else case lookup_pane (Pane req) s of
        Inl r \<Rightarrow> (r, s)
      | Inr (n, p) \<Rightarrow> handle_pane E req n p s)"

text \<open>\<open>attach\<close> on the server: the reply, and whether the connection becomes a stream of frames. \<open>i\<close> is
  the new client object, \<open>ptyok\<close> whether the program's terminal takes the size. When the reply cannot be
  written, the client is detached at once (\<open>pane_detach\<close>).\<close>

definition attach :: "request \<Rightarrow> bool \<Rightarrow> nat \<Rightarrow> server \<Rightarrow> (response \<times> bool) \<times> server" where
  "attach req ptyok i s =
     (case lookup_pane (Pane req) s of
        Inl r \<Rightarrow> ((r\<lparr>RProto := protoVersion\<rparr>, False), s)
      | Inr (n, p) \<Rightarrow>
          (case pane_attach ptyok i (ReqCols req) (ReqRows req) p of
             None \<Rightarrow> (((fail (bs ''terminal has exited''))\<lparr>RProto := protoVersion\<rparr>, False), s)
           | Some p1 \<Rightarrow> ((ok_resp\<lparr>RProto := protoVersion, RPane := pane_id n\<rparr>, True), put_pane n p1 s)))"

definition conn_open :: "env \<Rightarrow> server \<Rightarrow> server" where
  "conn_open E s = s\<lparr>s_conns := s_conns s + 1, s_lastActive := e_now E\<rparr>"

definition conn_close :: "env \<Rightarrow> server \<Rightarrow> server" where
  "conn_close E s = s\<lparr>s_conns := s_conns s - 1, s_lastActive := e_now E\<rparr>"

definition shutdownIfIdle :: "env \<Rightarrow> server \<Rightarrow> bool \<times> server" where
  "shutdownIfIdle E s =
     (if s_closing s \<or> s_reg s \<noteq> [] \<or> s_conns s \<noteq> 0 \<or> e_now E - s_lastActive s \<le> idleExit
      then (False, s) else (True, s\<lparr>s_closing := True\<rparr>))"

text \<open>\<open>shutdown\<close>: the panes to kill, unless a shutdown has begun already.\<close>

definition shutdown :: "server \<Rightarrow> nat list \<times> server" where
  "shutdown s =
     (if s_closing s then ([], s) else (s_reg s, s\<lparr>s_closing := True, s_reg := []\<rparr>))"

text \<open>\<open>handleConn\<close> for every operation but \<open>attach\<close>: the reply carries the protocol version, and a
  successful \<open>kill-server\<close> starts a shutdown once it is written.\<close>

definition handleConn :: "env \<Rightarrow> request \<Rightarrow> server \<Rightarrow> response \<times> server" where
  "handleConn E req s =
     (let (r, s1) = handle E req s
      in (r\<lparr>RProto := protoVersion\<rparr>,
          if Op req = bs ''kill-server'' \<and> OK r then snd (shutdown s1) else s1))"

definition new_server :: "int \<Rightarrow> server" where
  "new_server now =
     \<lparr>s_store = Map.empty, s_reg = [], s_nextID = 0, s_conns = 0, s_lastActive = now, s_closing = False\<rparr>"

end
