(* ===== verification/Server_Laws.thy ===== *)
theory Server_Laws
  imports Server
begin

text \<open>
  The panes of the built-in multiplexer under any interleaving of its goroutines: \<open>pstep\<close> has one rule
  per locked section, and the invariants hold in every state a pane can reach. The journal and the
  screen are proved to have consumed the same bytes, and what an attached human is sent after a redraw
  is that redraw followed by the forward stream of all later output.
\<close>

section \<open>Clients\<close>

definition queued :: "byte list list \<Rightarrow> nat" where
  "queued fs = sum_list (map length fs)"

definition client_ok :: "client \<Rightarrow> bool" where
  "client_ok c \<longleftrightarrow>
     (\<not> c_ending c \<longrightarrow> c_bytes c = queued (c_pending c) \<and> (c_redraw c \<longrightarrow> c_pending c = [])
        \<and> queued (tl (c_pending c)) \<le> clientBacklog)"

lemma queued_simps [simp]:
  "queued [] = 0" "queued (f # fs) = length f + queued fs" "queued (fs @ gs) = queued fs + queued gs"
  by (simp_all add: queued_def)

lemma client_ok_new [simp]: "client_ok newClient"
  by (simp add: client_ok_def newClient_def)

lemma client_ok_push: "client_ok c \<Longrightarrow> client_ok (push f c)"
  by (cases "c_pending c") (auto simp: client_ok_def push_def)

lemma client_ok_redraw [simp]: "client_ok c \<Longrightarrow> client_ok (requestRedraw c)"
  by (auto simp: client_ok_def requestRedraw_def)

lemma client_ok_finish [simp]: "client_ok c \<Longrightarrow> client_ok (client_finish f c)"
  by (auto simp: client_ok_def client_finish_def)

lemma client_ok_close [simp]: "client_ok c \<Longrightarrow> client_ok (client_close c)"
  by (auto simp: client_ok_def client_close_def)

lemma client_ok_render [simp]: "client_ok c \<Longrightarrow> client_ok (render_section s c)"
  by (auto simp: client_ok_def render_section_def Let_def)

lemma client_ok_take [simp]: "client_ok c \<Longrightarrow> client_ok (take_section c)"
  by (auto simp: client_ok_def take_section_def)

section \<open>The invariant of a pane\<close>

definition clients_ok :: "pane \<Rightarrow> bool" where
  "clients_ok p \<longleftrightarrow>
     distinct (p_attached p)
     \<and> (\<forall>i \<in> set (p_attached p). p_objs p i \<noteq> None)
     \<and> (\<forall>i c. p_objs p i = Some c \<longrightarrow> client_ok c)
     \<and> (\<forall>i c. i \<in> set (p_attached p) \<longrightarrow> p_objs p i = Some c \<longrightarrow> \<not> c_ending c)"

definition size_ok :: "pane \<Rightarrow> bool" where
  "size_ok p \<longleftrightarrow>
     int (cols (scr (p_scr p))) = clampInt (p_cols p) 1 maxDim
     \<and> int (rows (scr (p_scr p))) = clampInt (p_rows p) 1 maxDim
     \<and> 0 < p_cols p \<and> 0 < p_rows p"

definition pane_ok :: "pane \<Rightarrow> bool" where
  "pane_ok p \<longleftrightarrow>
     term_ok (p_scr p) \<and> idle (p_scr p)
     \<and> p_inBytes p \<le> inputQueueBytes \<and> (\<not> p_gone p \<longrightarrow> p_inBytes p = queued (p_inQueue p))
     \<and> clients_ok p \<and> size_ok p
     \<and> (p_gone p \<longrightarrow> p_dead p) \<and> (p_dead p \<longrightarrow> p_attached p = [])"

lemma on_clients_simps [simp]:
  "p_scr (on_clients f p) = p_scr p" "p_attached (on_clients f p) = p_attached p"
  "p_cols (on_clients f p) = p_cols p" "p_rows (on_clients f p) = p_rows p"
  "p_inQueue (on_clients f p) = p_inQueue p" "p_inBytes (on_clients f p) = p_inBytes p"
  "p_gone (on_clients f p) = p_gone p" "p_dead (on_clients f p) = p_dead p"
  "p_file (on_clients f p) = p_file p" "p_jopen (on_clients f p) = p_jopen p"
  "p_jerr (on_clients f p) = p_jerr p" "p_opts (on_clients f p) = p_opts p"
  "p_order (on_clients f p) = p_order p"
  by (simp_all add: on_clients_def)

lemma on_client_simps [simp]:
  "p_scr (on_client i f p) = p_scr p" "p_attached (on_client i f p) = p_attached p"
  "p_cols (on_client i f p) = p_cols p" "p_rows (on_client i f p) = p_rows p"
  "p_inQueue (on_client i f p) = p_inQueue p" "p_inBytes (on_client i f p) = p_inBytes p"
  "p_gone (on_client i f p) = p_gone p" "p_dead (on_client i f p) = p_dead p"
  "p_file (on_client i f p) = p_file p" "p_jopen (on_client i f p) = p_jopen p"
  "p_jerr (on_client i f p) = p_jerr p" "p_opts (on_client i f p) = p_opts p"
  "p_order (on_client i f p) = p_order p"
  by (simp_all add: on_client_def)

text \<open>Operations on clients that keep them alive.\<close>

lemma clients_ok_on_clients:
  assumes "clients_ok p" "\<And>c. client_ok c \<Longrightarrow> client_ok (f c)"
    "\<And>c. c_ending (f c) = c_ending c"
  shows "clients_ok (on_clients f p)"
  using assms unfolding clients_ok_def on_clients_def by (auto split: if_splits)

lemma clients_ok_on_client:
  assumes "clients_ok p" "\<And>c. client_ok c \<Longrightarrow> client_ok (f c)"
    "\<And>c. c_ending (f c) = c_ending c"
  shows "clients_ok (on_client i f p)"
  using assms unfolding clients_ok_def on_client_def by (auto split: if_splits)

lemma alive_simps [simp]:
  "c_ending (push f c) = c_ending c" "c_closed (push f c) = c_closed c"
  "c_ending (requestRedraw c) = c_ending c" "c_closed (requestRedraw c) = c_closed c"
  "c_ending (render_section s c) = c_ending c" "c_closed (render_section s c) = c_closed c"
  "c_ending (take_section c) = c_ending c" "c_closed (take_section c) = c_closed c"
  "c_ending (client_close c) = c_ending c"
  by (simp_all add: push_def requestRedraw_def render_section_def take_section_def client_close_def Let_def)

lemma pane_ok_enqueue: "pane_ok p \<Longrightarrow> pane_ok (snd (enqueue b p))"
  by (auto simp: pane_ok_def enqueue_def clients_ok_def size_ok_def)

lemma pane_ok_input: "pane_ok p \<Longrightarrow> pane_ok (input_section p)"
  by (auto simp: pane_ok_def input_section_def clients_ok_def size_ok_def split: list.split)

lemma SetForwarding_simps [simp]:
  "scr (SetForwarding on t) = scr t" "idle (SetForwarding on t) = idle t"
  by (simp_all add: SetForwarding_def idle_def)

lemma Feed_size:
  assumes "term_ok t"
  shows "cols (scr (snd (Feed b t))) = cols (scr t)" "rows (scr (snd (Feed b t))) = rows (scr t)"
  using Feed_dims [OF assms, of b] by (simp_all add: dims_def)

lemma output_locked_fields:
  "p_cols (snd (output_locked j b p)) = p_cols p" "p_rows (snd (output_locked j b p)) = p_rows p"
  "p_inQueue (snd (output_locked j b p)) = p_inQueue p" "p_inBytes (snd (output_locked j b p)) = p_inBytes p"
  "p_gone (snd (output_locked j b p)) = p_gone p" "p_dead (snd (output_locked j b p)) = p_dead p"
  "p_attached (snd (output_locked j b p)) = p_attached p"
  "p_scr (snd (output_locked j b p)) = snd (Feed b (SetForwarding (p_attached p \<noteq> []) (p_scr p)))"
  "p_jopen (snd (output_locked j b p)) = p_jopen p"
  "p_jerr (snd (output_locked j b p)) = (p_jerr p \<or> p_jopen p \<and> j \<noteq> None)"
  "p_jopen p \<Longrightarrow> j = None \<Longrightarrow> p_file (snd (output_locked j b p)) = p_file p @ b"
  by (auto simp: output_locked_def Let_def case_prod_beta split: option.split)

lemma clients_ok_cong:
  "p_attached p = p_attached q \<Longrightarrow> p_objs p = p_objs q \<Longrightarrow> clients_ok p = clients_ok q"
  by (simp add: clients_ok_def)

lemma output_locked_clients:
  assumes "clients_ok p"
  shows "clients_ok (snd (output_locked j b p))"
proof -
  define q where "q = (if p_jopen p then
      (case j of None \<Rightarrow> p\<lparr>p_file := p_file p @ b\<rparr> | Some k \<Rightarrow> p\<lparr>p_file := p_file p @ take k b, p_jerr := True\<rparr>)
    else p)
    \<lparr>p_scr := snd (Feed b (SetForwarding (p_attached p \<noteq> []) (p_scr p)))\<rparr>"
  have a: "p_attached q = p_attached p" "p_objs q = p_objs p" by (simp_all add: q_def split: option.split)
  have "clients_ok q" using assms clients_ok_cong [OF a] by simp
  then have "clients_ok (on_clients (push f) q)" for f
    by (intro clients_ok_on_clients client_ok_push) simp_all
  moreover have "snd (output_locked j b p) = q \<or> (\<exists>f. snd (output_locked j b p) = on_clients (push f) q)"
    by (auto simp: output_locked_def Let_def case_prod_beta q_def split: option.split)
  ultimately show ?thesis using \<open>clients_ok q\<close> by auto
qed

lemma pane_ok_output_locked:
  assumes "pane_ok p"
  shows "pane_ok (snd (output_locked j b p))"
proof -
  have t: "term_ok (SetForwarding f (p_scr p))" for f
    using assms by (simp add: pane_ok_def term_ok_SetForwarding)
  show ?thesis
    using assms Feed_term_ok [OF t] Feed_size [OF t] output_locked_clients [of p j b]
    by (simp add: pane_ok_def size_ok_def output_locked_fields)
qed

lemma pane_ok_die:
  assumes "pane_ok p"
  shows "pane_ok (pane_die code p)"
proof -
  have "client_ok c \<Longrightarrow> client_ok (client_finish f c)" for f c by simp
  then show ?thesis
    using assms unfolding pane_ok_def pane_die_def Let_def
    by (auto simp: clients_ok_def size_ok_def on_clients_def split: if_splits)
qed

lemma pane_ok_vanish: "pane_ok p \<Longrightarrow> p_dead p \<Longrightarrow> pane_ok (pane_vanish p)"
  by (auto simp: pane_ok_def pane_vanish_def clients_ok_def size_ok_def)

lemma pane_ok_resize:
  assumes "pane_ok p"
  shows "pane_ok (resizeLocked ok w h p)"
proof -
  define q where "q = p\<lparr>p_scr := Resize w h (p_scr p), p_cols := w, p_rows := h\<rparr>"
  have w: "wf (scr (p_scr p))" using assms term_okD by (auto simp: pane_ok_def)
  have d: "dims (scr (Resize w h (p_scr p))) = (fst (clampSize w h), snd (clampSize w h), limit (shist (scr (p_scr p))))"
    using resizeScreen_ok(2) [OF w] by (simp add: Resize_def)
  have n: "0 \<le> clampInt k 1 maxDim" for k using clampInt_bounds [of 1 maxDim k] by (simp add: maxDim_def)
  have "idle (Resize w h (p_scr p)) = idle (p_scr p)" by (simp add: Resize_def idle_def)
  then have "0 < w \<Longrightarrow> 0 < h \<Longrightarrow> pane_ok q"
    using assms Resize_term_ok [of "p_scr p" w h] d n
    by (auto simp: pane_ok_def q_def clients_ok_def size_ok_def dims_def clampSize_def)
  moreover have "clients_ok q \<Longrightarrow> clients_ok (on_clients requestRedraw q)"
    by (intro clients_ok_on_clients) simp_all
  ultimately have "0 < w \<Longrightarrow> 0 < h \<Longrightarrow> pane_ok (on_clients requestRedraw q)"
    by (simp add: pane_ok_def size_ok_def)
  then show ?thesis using assms by (auto simp: resizeLocked_def q_def)
qed

lemma resizeLocked_attached [simp]:
  "p_attached (resizeLocked ok w h p) = p_attached p" "p_dead (resizeLocked ok w h p) = p_dead p"
  "p_file (resizeLocked ok w h p) = p_file p" "p_jopen (resizeLocked ok w h p) = p_jopen p"
  "p_jerr (resizeLocked ok w h p) = p_jerr p" "p_gone (resizeLocked ok w h p) = p_gone p"
  by (simp_all add: resizeLocked_def)

lemma pane_ok_attach:
  assumes "pane_ok p" "p_objs p i = None" "pane_attach ok i w h p = Some p'"
  shows "pane_ok p'"
proof -
  define q where "q = p\<lparr>p_objs := (p_objs p)(i \<mapsto> newClient), p_attached := i # p_attached p\<rparr>"
  have d: "\<not> p_dead p" and e: "p' = on_client i requestRedraw (resizeLocked ok w h q)"
    using assms(3) by (auto simp: pane_attach_def q_def Let_def split: if_splits)
  have "i \<notin> set (p_attached p)" using assms by (auto simp: pane_ok_def clients_ok_def)
  then have "pane_ok q"
    using assms(1) d by (auto simp: pane_ok_def q_def clients_ok_def size_ok_def newClient_def client_ok_def)
  then have "pane_ok (resizeLocked ok w h q)" by (rule pane_ok_resize)
  moreover have "clients_ok x \<Longrightarrow> clients_ok (on_client i requestRedraw x)" for x
    by (intro clients_ok_on_client) simp_all
  ultimately show ?thesis unfolding e by (simp add: pane_ok_def size_ok_def)
qed

lemma pane_ok_detach:
  assumes "pane_ok p"
  shows "pane_ok (pane_detach ok i p)"
proof -
  define q where "q = p\<lparr>p_attached := removeAll i (p_attached p)\<rparr>"
  define q' where "q' = (if p_attached q = [] then resizeLocked ok DefaultCols DefaultRows q else q)"
  have "pane_ok q" using assms by (auto simp: pane_ok_def q_def clients_ok_def size_ok_def distinct_removeAll)
  then have "pane_ok q'" by (simp add: q'_def pane_ok_resize)
  then have "clients_ok (on_client i client_close q')"
    by (intro clients_ok_on_client) (auto simp: pane_ok_def)
  then have "pane_ok (on_client i client_close q')" using \<open>pane_ok q'\<close> by (simp add: pane_ok_def size_ok_def)
  then show ?thesis unfolding pane_detach_def Let_def q'_def q_def .
qed

lemma pane_ok_frame: "pane_ok p \<Longrightarrow> pane_ok (snd (attach_frame ok t pl p))"
  by (auto simp: attach_frame_def pane_ok_enqueue pane_ok_resize split: option.split)

lemma pane_ok_break: "pane_ok p \<Longrightarrow> pane_ok (on_client i client_close p)"
  using clients_ok_on_client [of p client_close i] by (simp add: pane_ok_def size_ok_def)

lemma pane_ok_render: "pane_ok p \<Longrightarrow> pane_ok (on_client i (render_section s) p)"
  using clients_ok_on_client [of p "render_section s" i] by (simp add: pane_ok_def size_ok_def)

lemma pane_ok_take: "pane_ok p \<Longrightarrow> pane_ok (on_client i take_section p)"
  using clients_ok_on_client [of p take_section i] by (simp add: pane_ok_def size_ok_def)

lemma idle_NewTerminal [simp]: "idle (NewTerminal w h k)"
  by (simp add: idle_def NewTerminal_def)

lemma pane_ok_new: "pane_ok (new_pane E req j n)"
proof -
  have "int (cols (New w h k)) = clampInt w 1 maxDim \<and> int (rows (New w h k)) = clampInt h 1 maxDim" for w h k
    using clampInt_bounds [of 1 maxDim w] clampInt_bounds [of 1 maxDim h]
    by (simp add: New_def clampSize_def Let_def maxDim_def)
  then show ?thesis
    by (auto simp: pane_ok_def new_pane_def Let_def clients_ok_def size_ok_def term_ok_new DefaultCols_def DefaultRows_def)
      (simp_all add: NewTerminal_def)
qed


section \<open>Every interleaving\<close>

text \<open>One locked section of any goroutine that holds the pane. The reader, which alone ends the pane,
  reads no more once it is dead; a client object is attached once; a client whose connection broke is
  closed by its writer before it is detached.\<close>

inductive pstep :: "pane \<Rightarrow> pane \<Rightarrow> bool" where
  reads: "\<not> p_dead p \<Longrightarrow> pstep p (snd (output_locked short b p))"
| types: "pstep p (input_section p)"
| queues: "pstep p (snd (enqueue b p))"
| renders: "pstep p (on_client i (render_section (scr (p_scr p))) p)"
| delivers: "pstep p (on_client i take_section p)"
| breaks: "pstep p (on_client i client_close p)"
| dies: "pstep p (pane_die code p)"
| vanishes: "p_dead p \<Longrightarrow> pstep p (pane_vanish p)"
| joins: "p_objs p i = None \<Longrightarrow> pane_attach ok i w h p = Some p' \<Longrightarrow> pstep p p'"
| frames: "pstep p (snd (attach_frame ok typ payload p))"
| leaves: "pstep p (pane_detach ok i p)"
| options: "pstep p (p\<lparr>p_opts := o'\<rparr>)"
| pipes: "\<not> p_jopen p \<Longrightarrow> pstep p (p\<lparr>p_jopen := j\<rparr>)"

inductive_cases pstep_cases: "pstep p p'"

lemma pane_ok_updates:
  "pane_ok p \<Longrightarrow> pane_ok (p\<lparr>p_opts := o'\<rparr>)" "pane_ok p \<Longrightarrow> pane_ok (p\<lparr>p_jopen := j\<rparr>)"
  by (auto simp: pane_ok_def clients_ok_def size_ok_def)

lemma pane_ok_pstep: "pstep p p' \<Longrightarrow> pane_ok p \<Longrightarrow> pane_ok p'"
  by (erule pstep_cases)
     (auto intro: pane_ok_output_locked pane_ok_input pane_ok_enqueue pane_ok_render pane_ok_take pane_ok_die
        pane_ok_vanish pane_ok_break pane_ok_attach pane_ok_frame pane_ok_detach pane_ok_updates)

interpretation panes: stepper "\<lambda>p. \<exists>E req j n. p = new_pane E req j n" "\<lambda>p (u :: unit) p'. pstep p p'" pane_ok
  by unfold_locales (auto simp: pane_ok_new pane_ok_pstep)

inductive pane_reach :: "env \<Rightarrow> request \<Rightarrow> nat \<Rightarrow> bool \<Rightarrow> pane \<Rightarrow> bool" for E req n j where
  created: "pane_reach E req n j (new_pane E req j n)"
| stepped: "pane_reach E req n j p \<Longrightarrow> pstep p p' \<Longrightarrow> pane_reach E req n j p'"

lemma pane_reach_reach: "pane_reach E req n j p \<Longrightarrow> panes.reach p"
proof (induction rule: pane_reach.induct)
  case created
  show ?case by (rule panes.start) blast
next
  case (stepped p p')
  then show ?case using panes.more by blast
qed

lemma pane_reach_ok: "pane_reach E req n j p \<Longrightarrow> pane_ok p"
  using panes.reach_inv pane_reach_reach by blast

section \<open>The journal and the screen\<close>

text \<open>The bytes fed to a terminal by a list of calls.\<close>

fun fed :: "tcall list \<Rightarrow> byte list" where
  "fed [] = []"
| "fed (EvFeed b # es) = b @ fed es"
| "fed (_ # es) = fed es"

lemma fed_append [simp]: "fed (es @ fs) = fed es @ fed fs"
  by (induction es rule: fed.induct) simp_all

text \<open>A pane whose journal was open from the start: as long as no write failed, its screen is what its
  journal, cut at the resizes and forwarding changes, leaves of a new terminal.\<close>

definition traced :: "terminal \<Rightarrow> pane \<Rightarrow> bool" where
  "traced t0 p \<longleftrightarrow>
     (\<exists>es. p_scr p = fold apply_event es t0
        \<and> (\<not> p_jerr p \<longrightarrow> p_file p = fed es \<and> (p_jopen p \<or> p_dead p)))"

lemma traced_step:
  assumes "traced t0 p" "p_scr p' = fold apply_event fs (p_scr p)"
    and "\<not> p_jerr p' \<Longrightarrow> \<not> p_jerr p \<and> p_file p' = p_file p @ fed fs \<and> (p_jopen p' \<or> p_dead p' \<or> \<not> p_jopen p \<and> \<not> p_dead p)"
  shows "traced t0 p'"
proof -
  obtain es where "p_scr p = fold apply_event es t0"
    "\<not> p_jerr p \<longrightarrow> p_file p = fed es \<and> (p_jopen p \<or> p_dead p)"
    using assms(1) by (auto simp: traced_def)
  then show ?thesis
    unfolding traced_def using assms(2,3) by (intro exI [of _ "es @ fs"]) auto
qed

lemma traced_same:
  "traced t0 p \<Longrightarrow> p_scr p' = p_scr p \<Longrightarrow> p_file p' = p_file p \<Longrightarrow> p_jerr p' = p_jerr p \<Longrightarrow>
   p_jopen p' = p_jopen p \<Longrightarrow> p_dead p' = p_dead p \<Longrightarrow> traced t0 p'"
  by (simp add: traced_def)

lemma resizeLocked_scr:
  "p_scr (resizeLocked ok w h p) = p_scr p \<or> p_scr (resizeLocked ok w h p) = Resize w h (p_scr p)"
  by (simp add: resizeLocked_def)

lemma traced_resize: "traced t0 p \<Longrightarrow> traced t0 (resizeLocked ok w h p)"
  using resizeLocked_scr [of ok w h p]
    traced_step [of t0 p "resizeLocked ok w h p" "[]"] traced_step [of t0 p "resizeLocked ok w h p" "[EvResize w h]"]
  by auto

lemma enqueue_fields [simp]:
  "p_scr (snd (enqueue b p)) = p_scr p" "p_file (snd (enqueue b p)) = p_file p"
  "p_jerr (snd (enqueue b p)) = p_jerr p" "p_jopen (snd (enqueue b p)) = p_jopen p"
  "p_gone (snd (enqueue b p)) = p_gone p" "p_dead (snd (enqueue b p)) = p_dead p" "p_attached (snd (enqueue b p)) = p_attached p"
  "p_objs (snd (enqueue b p)) = p_objs p"
  by (simp_all add: enqueue_def)

lemma pane_output_fields:
  "p_scr (pane_output j b p) = snd (Feed b (SetForwarding (p_attached p \<noteq> []) (p_scr p)))"
  "p_attached (pane_output j b p) = p_attached p"
  by (simp_all add: pane_output_def Let_def case_prod_beta output_locked_fields)

lemma traced_output:
  assumes "traced t0 p" "\<not> p_dead p"
  shows "traced t0 (snd (output_locked j b p))"
proof (cases "p_jerr p \<or> p_jopen p")
  case True
  then show ?thesis
    using assms by (intro traced_step [OF assms(1), of _ "[EvForwarding (p_attached p \<noteq> []), EvFeed b]"])
      (auto simp: output_locked_fields)
next
  case False
  then show ?thesis using assms by (auto simp: traced_def)
qed

lemma traced_on_client: "traced t0 (on_client i f p) = traced t0 p"
  by (simp add: traced_def)

lemma traced_pstep:
  assumes "pstep p p'" "traced t0 p"
  shows "traced t0 p'"
  using assms(1)
proof cases
  case (reads short b)
  then show ?thesis using traced_output assms(2) by simp
next
  case (joins i ok w h)
  then have "p' = on_client i requestRedraw (resizeLocked ok w h
      (p\<lparr>p_objs := (p_objs p)(i \<mapsto> newClient), p_attached := i # p_attached p\<rparr>))"
    by (auto simp: pane_attach_def Let_def split: if_splits)
  moreover have "traced t0 (p\<lparr>p_objs := (p_objs p)(i \<mapsto> newClient), p_attached := i # p_attached p\<rparr>)"
    using assms(2) by (rule traced_same) simp_all
  ultimately show ?thesis by (simp add: traced_on_client traced_resize)
next
  case (leaves ok i)
  have "traced t0 (p\<lparr>p_attached := removeAll i (p_attached p)\<rparr>)"
    using assms(2) by (rule traced_same) simp_all
  then have "traced t0 (if removeAll i (p_attached p) = [] then resizeLocked ok DefaultCols DefaultRows
      (p\<lparr>p_attached := removeAll i (p_attached p)\<rparr>) else p\<lparr>p_attached := removeAll i (p_attached p)\<rparr>)"
    using traced_resize by metis
  then show ?thesis using leaves by (simp add: pane_detach_def Let_def traced_on_client)
next
  case (frames ok ty payload)
  then show ?thesis
    using assms(2) traced_resize traced_same [of t0 p "snd (enqueue payload p)"]
    by (auto simp: attach_frame_def split: option.split)
next
  case (dies code)
  then show ?thesis using assms(2) by (auto simp: traced_def pane_die_def Let_def)
next
  case vanishes
  then show ?thesis using assms(2) by (auto simp: traced_def pane_vanish_def)
next
  case (pipes j)
  then show ?thesis using assms(2) by (auto simp: traced_def)
qed (use assms(2) in \<open>auto intro: traced_same simp: input_section_def split: list.split\<close>)

lemma pane_reach_traced:
  "pane_reach E req n True p \<Longrightarrow> traced (p_scr (new_pane E req True n)) p"
proof (induction rule: pane_reach.induct)
  case created
  show ?case by (auto simp: traced_def new_pane_def Let_def intro!: exI [of _ "[]"])
qed (auto intro: traced_pstep)

section \<open>What an attached human is sent\<close>

definition view :: "client \<Rightarrow> byte list list" where
  "view c = c_sent c @ c_pending c"

definition forwarded :: "byte list \<Rightarrow> terminal \<Rightarrow> byte list list" where
  "forwarded b t = (let f = fst (fst (Feed b t)) in if f = [] then [] else [encodeFrame frameOutput f])"

lemma list_memD: "x \<in> set xs \<Longrightarrow> xs \<noteq> []"
  by auto

lemma objs_output:
  assumes "p_attached p \<noteq> []"
  shows "p_objs (pane_output j b p) i =
    (if i \<in> set (p_attached p) then map_option (\<lambda>c. fold push (forwarded b (SetForwarding True (p_scr p))) c) (p_objs p i)
     else p_objs p i)"
  using assms
  by (cases j; cases "p_objs p i")
    (simp_all add: pane_output_def output_locked_def Let_def case_prod_beta on_clients_def forwarded_def)

text \<open>A client that is up to date is sent the forward stream of an output as one frame, or falls behind
  and is redrawn later.\<close>

lemma view_output:
  assumes "i \<in> set (p_attached p)" "p_objs p i = Some c" "\<not> c_redraw c" "\<not> c_ending c" "\<not> c_closed c"
  shows "\<exists>c'. p_objs (pane_output j b p) i = Some c' \<and>
    (c_redraw c' \<or> view c' = view c @ forwarded b (SetForwarding True (p_scr p)))"
proof -
  have "p_attached p \<noteq> []" using assms(1) by auto
  then show ?thesis
    using assms by (auto simp: objs_output push_def view_def forwarded_def Let_def)
qed

text \<open>The turns of the reader and of the client's writer between two redraws.\<close>

datatype turn = Reads "nat option" "byte list" | Delivers

fun turn_step :: "nat \<Rightarrow> turn \<Rightarrow> pane \<Rightarrow> pane" where
  "turn_step i (Reads short b) p = pane_output short b p"
| "turn_step i Delivers p = on_client i take_section p"

fun read_bytes :: "turn list \<Rightarrow> byte list list" where
  "read_bytes [] = []"
| "read_bytes (Reads short b # ts) = b # read_bytes ts"
| "read_bytes (Delivers # ts) = read_bytes ts"

definition payload_of :: "byte list list \<Rightarrow> byte list" where
  "payload_of fs = concat (map (drop 5) fs)"

lemma payload_of_append [simp]: "payload_of (fs @ gs) = payload_of fs @ payload_of gs"
  by (simp add: payload_of_def)

lemma payload_forwarded: "payload_of (forwarded b t) = fst (fst (Feed b t))"
  by (simp add: payload_of_def forwarded_def Let_def encodeFrame_def PutUint32_def)

lemma SetForwarding_Feed:
  "SetForwarding True (snd (Feed b (SetForwarding True t))) = snd (Feed b (SetForwarding True t))"
proof -
  have "\<not> discardForward (snd (Feed b (SetForwarding True t)))"
    by (simp add: Feed_def Let_def feed_loop_discard SetForwarding_def)
  then show ?thesis by (simp add: SetForwarding_def)
qed

lemma view_turns:
  assumes "i \<in> set (p_attached p)" "p_objs p i = Some c" "\<not> c_redraw c" "\<not> c_ending c" "\<not> c_closed c"
    and "p_objs (fold (turn_step i) ts p) i = Some c'" "\<not> c_redraw c'"
  shows "\<exists>fs. view c' = view c @ fs \<and>
    payload_of fs = fst (fst (feeds (read_bytes ts) (SetForwarding True (p_scr p))))"
  using assms(1-6)
proof (induction ts arbitrary: p c)
  case Nil
  then show ?case by (intro exI [of _ "[]"]) (simp add: payload_of_def)
next
  case (Cons x ts)
  have stale: "\<exists>d. p_objs (fold (turn_step i) ts q) i = Some d \<and> c_redraw d"
    if "i \<in> set (p_attached q)" "p_objs q i = Some d" "c_redraw d" for q d
    using that
  proof (induction ts arbitrary: q d)
    case (Cons y ts)
    show ?case
    proof (cases y)
      case (Reads short b)
      have "\<exists>d'. p_objs (pane_output short b q) i = Some d' \<and> c_redraw d'"
        using Cons.prems by (subst objs_output) (auto simp: forwarded_def Let_def push_def)
      then show ?thesis using Cons.IH [of "pane_output short b q"] Cons.prems(1) Reads
        by (auto simp: pane_output_fields)
    next
      case Delivers
      have "p_objs (on_client i take_section q) i = Some (take_section d)" using Cons.prems by (simp add: on_client_def)
      then show ?thesis using Cons.IH [of "on_client i take_section q"] Cons.prems Delivers
        by (simp add: take_section_def)
    qed
  qed simp
  show ?case
  proof (cases x)
    case (Reads short b)
    define p1 where "p1 = pane_output short b p"
    obtain c1 where c1: "p_objs p1 i = Some c1"
      "c_redraw c1 \<or> view c1 = view c @ forwarded b (SetForwarding True (p_scr p))"
      using view_output [OF Cons.prems(1-5), of short b] by (auto simp: p1_def)
    have a1: "i \<in> set (p_attached p1)" using Cons.prems(1) by (simp add: p1_def pane_output_fields)
    have run: "p_objs (fold (turn_step i) ts p1) i = Some c'" using Cons.prems(6) Reads by (simp add: p1_def)
    then have r1: "\<not> c_redraw c1" using stale [OF a1 c1(1)] assms(7) by auto
    have l1: "\<not> c_ending c1" "\<not> c_closed c1"
      using c1(1) Cons.prems(1-5) objs_output [of p short b i, OF list_memD [OF Cons.prems(1)]]
      by (auto simp: p1_def forwarded_def Let_def split: if_splits)
    obtain fs where fs: "view c' = view c1 @ fs"
      "payload_of fs = fst (fst (feeds (read_bytes ts) (SetForwarding True (p_scr p1))))"
      using Cons.IH [OF a1 c1(1) r1 l1 run] by blast
    have "p_attached p \<noteq> []" using Cons.prems(1) by auto
    then have s1: "SetForwarding True (p_scr p1) = snd (Feed b (SetForwarding True (p_scr p)))"
      by (simp add: p1_def pane_output_fields SetForwarding_Feed)
    have "view c' = view c @ (forwarded b (SetForwarding True (p_scr p)) @ fs)" using fs(1) c1(2) r1 by simp
    moreover have "payload_of (forwarded b (SetForwarding True (p_scr p)) @ fs) =
        fst (fst (feeds (read_bytes (x # ts)) (SetForwarding True (p_scr p))))"
      using fs(2) s1 Reads by (simp add: payload_forwarded case_prod_beta Let_def)
    ultimately show ?thesis by blast
  next
    case Delivers
    define p1 where "p1 = on_client i take_section p"
    have "p_objs p1 i = Some (take_section c)" using Cons.prems by (simp add: p1_def on_client_def)
    moreover have "view (take_section c) = view c" by (simp add: view_def take_section_def)
    moreover have "\<not> c_redraw (take_section c)" using Cons.prems(3) by (simp add: take_section_def)
    ultimately show ?thesis
      using Cons.IH [of p1 "take_section c"] Cons.prems Delivers by (simp add: p1_def)
  qed
qed

end
