(* ===== verification/Server_Runs.thy ===== *)
theory Server_Runs
  imports Server_Laws
begin

text \<open>
  The server under any interleaving: \<open>sstep\<close> has one rule per locked section of its goroutines
  (requests, the two halves of \<open>newWindow\<close>, the goroutines of a pane, its removal, connections, idling
  and shutting down). The invariant says which terminals can be listed, that their numbers are never
  reused, and that a server that has begun to exit lists none.
\<close>

section \<open>Pane ids\<close>

lemma digits_inj: "digits m = digits n \<longleftrightarrow> m = n"
  using dec_val_digits by (metis of_nat_eq_iff)

lemma pane_id_inj [simp]: "pane_id m = pane_id n \<longleftrightarrow> m = n"
  by (simp add: pane_id_def itoa_def digits_inj)

lemma find_pane_id: "n \<in> set xs \<Longrightarrow> find (\<lambda>k. pane_id k = pane_id n) xs = Some n"
  by (induction xs) auto

lemma find_Some: "find P xs = Some x \<Longrightarrow> x \<in> set xs \<and> P x"
  by (induction xs) (auto split: if_splits)

section \<open>Steps\<close>

inductive sstep :: "server \<Rightarrow> server \<Rightarrow> bool" where
  request: "sstep s (snd (handleConn E req s))"
| attaches: "(\<And>n p. s_store s n = Some p \<Longrightarrow> p_objs p i = None) \<Longrightarrow> sstep s (snd (attach req ok i s))"
| reserves: "new_reserve s = Some (n, s') \<Longrightarrow> sstep s s'"
| registers: "n < s_nextID s \<Longrightarrow> s_store s n = None \<Longrightarrow>
    sstep s (snd (new_register E n (new_pane E req j n) s))"
| works: "s_store s n = Some p \<Longrightarrow> pstep p p' \<Longrightarrow> (p_dead p' \<Longrightarrow> p_dead p \<or> n \<notin> set (s_reg s)) \<Longrightarrow>
    sstep s (put_pane n p' s)"
| removes: "sstep s (unregister E n s)"
| opens: "sstep s (conn_open E s)"
| closes: "sstep s (conn_close E s)"
| idles: "sstep s (snd (shutdownIfIdle E s))"
| stops: "sstep s (snd (shutdown s))"

inductive_cases sstep_cases: "sstep s s'"

section \<open>The invariant\<close>

definition made :: "nat \<Rightarrow> pane \<Rightarrow> bool" where
  "made n p \<longleftrightarrow> (\<exists>E req j. pane_reach E req n j p)"

definition server_ok :: "server \<Rightarrow> bool" where
  "server_ok s \<longleftrightarrow>
     distinct (s_reg s)
     \<and> (\<forall>n \<in> set (s_reg s). \<exists>p. s_store s n = Some p \<and> \<not> p_dead p)
     \<and> (\<forall>n p. s_store s n = Some p \<longrightarrow> n < s_nextID s \<and> made n p)
     \<and> (s_closing s \<longrightarrow> s_reg s = [])"

lemma made_new: "made n (new_pane E req j n)"
  unfolding made_def by (intro exI) (rule pane_reach.created)

lemma made_step: "made n p \<Longrightarrow> pstep p p' \<Longrightarrow> made n p'"
  using pane_reach.stepped unfolding made_def by blast

lemma made_ok: "made n p \<Longrightarrow> pane_ok p"
  using pane_reach_ok unfolding made_def by blast

lemma server_ok_put:
  assumes s: "server_ok s" "s_store s n = Some p" and p: "pstep p p'"
    and d: "p_dead p' \<Longrightarrow> p_dead p \<or> n \<notin> set (s_reg s)"
  shows "server_ok (put_pane n p' s)"
proof -
  have "made n p'" "n < s_nextID s" using s made_step [OF _ p] by (auto simp: server_ok_def)
  moreover have "n \<in> set (s_reg s) \<Longrightarrow> \<not> p_dead p'" using s d by (auto simp: server_ok_def)
  ultimately show ?thesis using s by (auto simp: server_ok_def put_pane_def)
qed

lemma server_ok_unregister: "server_ok s \<Longrightarrow> server_ok (unregister E n s)"
  by (auto simp: server_ok_def unregister_def distinct_removeAll)

lemma server_ok_reserve: "server_ok s \<Longrightarrow> new_reserve s = Some (n, s') \<Longrightarrow> server_ok s' \<and> n < s_nextID s' \<and> s_store s' n = None"
  by (fastforce simp: server_ok_def new_reserve_def split: if_splits)

lemma server_ok_register:
  assumes "server_ok s" "n < s_nextID s" "s_store s n = None"
  shows "server_ok (snd (new_register E n (new_pane E req j n) s))"
proof -
  have "n \<notin> set (s_reg s)" using assms by (auto simp: server_ok_def)
  moreover have "\<not> p_dead (new_pane E req j n)" by (simp add: new_pane_def Let_def)
  ultimately show ?thesis
    using assms made_new [of n E req j] by (auto simp: server_ok_def new_register_def put_pane_def Let_def)
qed

lemma server_ok_newWindow: "server_ok s \<Longrightarrow> server_ok (snd (newWindow E req s))"
  using server_ok_reserve server_ok_register
  by (auto simp: newWindow_def split: sum.split option.split)

text \<open>What the operations on one pane do: nothing, remove it, or one step of it.\<close>

lemma enqueue_dead [simp]: "enqueue b p = (r, p1) \<Longrightarrow> p_dead p1 = p_dead p"
  by (auto simp: enqueue_def split: if_splits)

lemma enqueue_resp_step:
  "snd (enqueue_resp b n p s) = s \<or> snd (enqueue_resp b n p s) = put_pane n (snd (enqueue b p)) s"
  by (auto simp: enqueue_resp_def split: prod.split option.split)

definition one_step :: "env \<Rightarrow> nat \<Rightarrow> pane \<Rightarrow> server \<Rightarrow> server \<Rightarrow> bool" where
  "one_step E n p s s' \<longleftrightarrow> s' = s \<or> s' = unregister E n s
     \<or> (\<exists>p'. s' = put_pane n p' s \<and> pstep p p' \<and> p_dead p' = p_dead p)"

lemma one_step_simps [simp]: "one_step E n p s s" "one_step E n p s (unregister E n s)"
  by (simp_all add: one_step_def)

lemma one_step_put: "pstep p p' \<Longrightarrow> p_dead p' = p_dead p \<Longrightarrow> one_step E n p s (put_pane n p' s)"
  by (auto simp: one_step_def)

lemma one_step_enqueue: "one_step E n p s (snd (enqueue_resp b n p s))"
  using enqueue_resp_step [of b n p s] one_step_put [OF pstep.queues, of b p] by fastforce

lemma handle_pane_step: "one_step E n p s (snd (handle_pane E req n p s))"
  by (auto simp: handle_pane_def one_step_enqueue split: sum.split intro!: one_step_put pstep.options pstep.pipes)

lemma server_ok_one_step:
  "one_step E n p s s' \<Longrightarrow> server_ok s \<Longrightarrow> s_store s n = Some p \<Longrightarrow> server_ok s'"
  by (auto simp: one_step_def server_ok_unregister intro: server_ok_put)

lemma lookup_found:
  assumes "server_ok s" "lookup_pane pid s = Inr (n, p)"
  shows "n \<in> set (s_reg s) \<and> s_store s n = Some p \<and> pane_id n = pid \<and> \<not> p_dead p"
proof -
  have f: "find (\<lambda>n. pane_id n = pid) (s_reg s) = Some n" "p = the (s_store s n)"
    using assms(2) by (auto simp: lookup_pane_def split: option.splits)
  have n: "n \<in> set (s_reg s)" "pane_id n = pid" using find_Some [OF f(1)] by auto
  then obtain q where "s_store s n = Some q" "\<not> p_dead q" using assms(1) unfolding server_ok_def by blast
  then show ?thesis using f(2) n by simp
qed

lemma handle_cases:
  "snd (handle E req s) = s \<or> snd (handle E req s) = snd (newWindow E req s)
   \<or> (\<exists>n p. lookup_pane (Pane req) s = Inr (n, p) \<and> snd (handle E req s) = snd (handle_pane E req n p s))"
  by (cases "lookup_pane (Pane req) s") (auto simp: handle_def)

lemma server_ok_handle:
  assumes "server_ok s"
  shows "server_ok (snd (handle E req s))"
proof -
  have "server_ok (snd (handle_pane E req n p s))" if "lookup_pane (Pane req) s = Inr (n, p)" for n p
    using assms lookup_found [OF assms that] server_ok_one_step [OF handle_pane_step] by simp
  then show ?thesis using handle_cases [of E req s] assms server_ok_newWindow [of s E req] by metis
qed

lemma server_ok_shutdown: "server_ok s \<Longrightarrow> server_ok (snd (shutdown s))"
  by (auto simp: shutdown_def server_ok_def)

lemma server_ok_handleConn: "server_ok s \<Longrightarrow> server_ok (snd (handleConn E req s))"
  by (simp add: handleConn_def Let_def case_prod_beta server_ok_handle server_ok_shutdown)

lemma pane_attach_dead: "pane_attach ok i w h p = Some p' \<Longrightarrow> \<not> p_dead p' \<and> \<not> p_dead p"
  by (auto simp: pane_attach_def Let_def split: if_splits)

lemma server_ok_attach:
  assumes "server_ok s" "\<And>n p. s_store s n = Some p \<Longrightarrow> p_objs p i = None"
  shows "server_ok (snd (attach req ok i s))"
proof (cases "lookup_pane (Pane req) s")
  case (Inr np)
  then obtain n p where np: "lookup_pane (Pane req) s = Inr (n, p)" by (cases np) auto
  have n: "s_store s n = Some p" using lookup_found [OF assms(1) np] by simp
  have "server_ok (put_pane n p' s)" if "pane_attach ok i w h p = Some p'" for w h p'
    using server_ok_put [OF assms(1) n pstep.joins [OF _ that]] assms(2) [OF n] pane_attach_dead [OF that] by blast
  then show ?thesis using assms(1) np by (simp add: attach_def split: option.split)
qed (use assms in \<open>simp add: attach_def\<close>)

lemma server_ok_new: "server_ok (new_server now)"
  by (simp add: server_ok_def new_server_def)

lemma server_ok_step: "sstep s s' \<Longrightarrow> server_ok s \<Longrightarrow> server_ok s'"
proof (erule sstep_cases, goal_cases)
  case 1 then show ?case using server_ok_handleConn by simp
next
  case 2 then show ?case using server_ok_attach by simp
next
  case 3 then show ?case using server_ok_reserve by blast
next
  case 4 then show ?case using server_ok_register by simp
next
  case 5 then show ?case using server_ok_put by blast
next
  case 6 then show ?case using server_ok_unregister by simp
next
  case 7 then show ?case by (auto simp: server_ok_def conn_open_def)
next
  case 8 then show ?case by (auto simp: server_ok_def conn_close_def)
next
  case 9 then show ?case by (auto simp: server_ok_def shutdownIfIdle_def)
next
  case 10 then show ?case using server_ok_shutdown by simp
qed

inductive server_reach :: "server \<Rightarrow> bool" where
  started: "server_reach (new_server now)"
| stepped: "server_reach s \<Longrightarrow> sstep s s' \<Longrightarrow> server_reach s'"

interpretation servers: stepper "\<lambda>s. \<exists>now. s = new_server now" "\<lambda>s (u :: unit) s'. sstep s s'" server_ok
  by unfold_locales (auto simp: server_ok_new server_ok_step)

lemma server_reach_reach: "server_reach s \<Longrightarrow> servers.reach s"
proof (induction rule: server_reach.induct)
  case (started now)
  show ?case by (rule servers.start) blast
next
  case (stepped s s')
  then show ?case using servers.more by blast
qed

lemma server_reach_ok: "server_reach s \<Longrightarrow> server_ok s"
  using servers.reach_inv server_reach_reach by blast

section \<open>Consequences\<close>

text \<open>A number that has had a pane and is no longer registered stays so.\<close>

definition retired :: "nat \<Rightarrow> server \<Rightarrow> bool" where
  "retired n s \<longleftrightarrow> n < s_nextID s \<and> s_store s n \<noteq> None \<and> n \<notin> set (s_reg s)"

lemma retired_newWindow: "server_ok s \<Longrightarrow> retired n s \<Longrightarrow> retired n (snd (newWindow E req s))"
  by (auto simp: retired_def newWindow_def new_reserve_def new_register_def put_pane_def Let_def
      split: sum.split option.split)

lemma retired_one_step: "one_step E k p s s' \<Longrightarrow> retired n s \<Longrightarrow> retired n s'"
  by (auto simp: one_step_def retired_def unregister_def put_pane_def)

lemma retired_handle:
  assumes "server_ok s" "retired n s"
  shows "retired n (snd (handle E req s))"
  using handle_cases [of E req s] assms retired_newWindow [of s n E req] retired_one_step [OF handle_pane_step]
  by metis

lemma retired_step: "sstep s s' \<Longrightarrow> server_ok s \<Longrightarrow> retired n s \<Longrightarrow> retired n s'"
proof (erule sstep_cases, goal_cases)
  case 1 then show ?case using retired_handle
    by (fastforce simp: handleConn_def Let_def case_prod_beta shutdown_def retired_def)
next
  case 2 then show ?case
    by (auto simp: attach_def retired_def put_pane_def split: sum.split option.split)
qed (auto simp: retired_def new_reserve_def new_register_def put_pane_def unregister_def conn_open_def
      conn_close_def shutdownIfIdle_def shutdown_def Let_def split: if_splits)

lemma retired_steps: "sstep\<^sup>*\<^sup>* s s' \<Longrightarrow> server_reach s \<Longrightarrow> retired n s \<Longrightarrow> server_reach s' \<and> retired n s'"
proof (induction rule: rtranclp_induct)
  case (step y z)
  then show ?case using retired_step server_reach_ok server_reach.stepped by blast
qed simp

lemma retired_lookup: "retired n s \<Longrightarrow> \<exists>e. lookup_pane (pane_id n) s = Inl e"
proof -
  assume "retired n s"
  then have "find (\<lambda>k. pane_id k = pane_id n) (s_reg s) = None"
    by (auto simp: retired_def find_None_iff)
  then show ?thesis by (simp add: lookup_pane_def)
qed

lemma list_panes_found:
  assumes "server_ok s" "i \<in> set (RPanes (list_panes s))"
  shows "\<exists>n p. lookup_pane (PaneID i) s = Inr (n, p) \<and> \<not> p_dead p"
proof -
  obtain n where n: "n \<in> set (s_reg s)" "PaneID i = pane_id n"
    using assms(2) by (auto simp: list_panes_def pane_info_of_def)
  then show ?thesis using assms(1) find_pane_id [OF n(1)] by (fastforce simp: lookup_pane_def server_ok_def)
qed

lemma newWindow_fresh:
  assumes "server_ok s" "OK (fst (newWindow E req s))"
  shows "\<exists>n. RPane (fst (newWindow E req s)) = pane_id n \<and> s_store s n = None
    \<and> s_reg (snd (newWindow E req s)) = s_reg s @ [n]"
  using assms
  by (fastforce simp: newWindow_def new_reserve_def new_register_def fail_def resp0_def Let_def put_pane_def server_ok_def
      split: sum.splits option.splits if_splits)

text \<open>A server that has begun to exit never lists a terminal again.\<close>

lemma closing_handle: "s_closing s \<Longrightarrow> handle E req s = (fail errShuttingDown, s)"
  by (simp add: handle_def)

lemma closing_step: "sstep s s' \<Longrightarrow> s_closing s \<Longrightarrow> s_closing s'"
  by (erule sstep_cases)
    (auto simp: handleConn_def closing_handle attach_def new_reserve_def new_register_def put_pane_def
      unregister_def conn_open_def conn_close_def shutdownIfIdle_def shutdown_def Let_def
      split: if_splits sum.split option.split)

lemma closing_steps: "sstep\<^sup>*\<^sup>* s s' \<Longrightarrow> server_reach s \<Longrightarrow> s_closing s \<Longrightarrow> server_reach s' \<and> s_closing s'"
proof (induction rule: rtranclp_induct)
  case (step y z)
  then show ?case using closing_step server_reach.stepped by blast
qed simp

lemma closing_lookup: "server_ok s \<Longrightarrow> s_closing s \<Longrightarrow> \<exists>e. lookup_pane pid s = Inl e"
  by (simp add: server_ok_def lookup_pane_def)

section \<open>A small terminal\<close>

text \<open>A pane of three columns and two rows running a shell, for concrete runs.\<close>

definition small_env :: env where
  "small_env = \<lparr>e_open = (\<lambda>_. None), e_start = None, e_tty = bs ''pts0'', e_version = bs ''1'', e_pid = 7,
     e_quote = (\<lambda>b. b), e_base = (\<lambda>b. b), e_now = 0\<rparr>"

definition small_request :: request where
  "small_request = \<lparr>Op = bs ''new-window'', Pane = [], ReqName = bs ''t1'', Argv = [bs ''sh''], JournalPath = bs ''j'',
     ReqText = [], Keys = [], HistoryLines = 0, Opt = [], OptVal = [], ReqCols = 3, ReqRows = 2\<rparr>"

definition small_pane :: pane where
  "small_pane = new_pane small_env small_request True 0"

definition small_view :: pane where
  "small_view = the (pane_attach True 5 4 2 small_pane)"

lemma small_pane_reach: "pane_reach small_env small_request 0 True small_pane"
  unfolding small_pane_def by (rule pane_reach.created)

lemma small_pane_fields:
  "\<not> p_dead small_pane" "p_jopen small_pane" "p_file small_pane = []" "\<not> p_jerr small_pane"
  "p_objs small_pane i = None" "p_attached small_pane = []"
  by (simp_all add: small_pane_def new_pane_def Let_def)

lemma small_view_attach: "pane_attach True 5 4 2 small_pane = Some small_view"
  by (simp add: small_view_def pane_attach_def small_pane_fields Let_def)

lemma small_view_reach: "pane_reach small_env small_request 0 True small_view"
  by (rule pane_reach.stepped [OF small_pane_reach pstep.joins [OF _ small_view_attach]])
    (simp add: small_pane_fields)

lemma small_view_client:
  "5 \<in> set (p_attached small_view)"
  "\<exists>c. p_objs small_view 5 = Some c \<and> c_redraw c \<and> \<not> c_closed c"
proof -
  define q where "q = small_pane\<lparr>p_objs := (p_objs small_pane)(5 \<mapsto> newClient), p_attached := [5]\<rparr>"
  have q: "p_objs q 5 = Some newClient" "p_attached q = [5]" by (simp_all add: q_def)
  have v: "small_view = on_client 5 requestRedraw (resizeLocked True 4 2 q)"
    by (simp add: small_view_def pane_attach_def small_pane_fields Let_def q_def)
  have "p_objs (resizeLocked True 4 2 q) 5 = Some newClient \<or> p_objs (resizeLocked True 4 2 q) 5 = Some (requestRedraw newClient)"
    using q by (simp add: resizeLocked_def on_clients_def)
  then show "\<exists>c. p_objs small_view 5 = Some c \<and> c_redraw c \<and> \<not> c_closed c"
    unfolding v on_client_def by (elim disjE) (simp_all add: requestRedraw_def newClient_def)
  show "5 \<in> set (p_attached small_view)"
    by (simp add: small_view_def pane_attach_def small_pane_fields Let_def)
qed

definition small_server :: server where
  "small_server = snd (handleConn small_env small_request (new_server 0))"

lemma small_server_reach: "server_reach small_server"
  unfolding small_server_def by (rule server_reach.stepped [OF server_reach.started sstep.request])

lemma small_server_reg: "s_reg small_server = [0]" "s_nextID small_server = 1" "\<not> s_closing small_server"
  by (simp_all add: small_server_def handleConn_def handle_def newWindow_def openJournal_def new_reserve_def
      new_register_def put_pane_def new_server_def small_request_def small_env_def Let_def)

end
