(* ===== verification/Text.thy ===== *)
theory Text
  imports Utf8
begin

text \<open>
  The functions of Go's \<open>strings\<close> and \<open>unicode\<close> packages that the source applies to output text:
  \<open>unicode.IsSpace\<close>, \<open>utf8.DecodeLastRune\<close>, \<open>strings.TrimLeftFunc\<close>, \<open>TrimRightFunc\<close> and
  \<open>TrimSpace\<close>, on byte lists.
\<close>

definition is_space :: "rune \<Rightarrow> bool" where
  "is_space r \<longleftrightarrow>
     0x09 \<le> r \<and> r \<le> 0x0d \<or> r = 0x20 \<or> r = 0x85 \<or> r = 0xa0 \<or> r = 0x1680 \<or> 0x2000 \<le> r \<and> r \<le> 0x200a
     \<or> r = 0x2028 \<or> r = 0x2029 \<or> r = 0x202f \<or> r = 0x205f \<or> r = 0x3000"

function trim_left :: "(rune \<Rightarrow> bool) \<Rightarrow> byte list \<Rightarrow> byte list" where
  "trim_left P [] = []"
| "trim_left P (b # p) =
     (let (r, n) = decode_rune (b # p) in if P r then trim_left P (drop n (b # p)) else b # p)"
  by pat_completeness auto
termination
proof (relation "measure (\<lambda>(P, p). length p)", goal_cases)
  case (2 P b p z r n)
  then have "snd (decode_rune (b # p)) = n" by (metis snd_conv)
  then have "0 < n" using decode_rune_size_pos [of "b # p"] by simp
  then show ?case by simp
qed simp

text \<open>The start of the last rune: at most three continuation bytes back.\<close>

definition rune_start :: "byte \<Rightarrow> bool" where
  "rune_start b \<longleftrightarrow> \<not> is_cont b"

fun last_start :: "byte list \<Rightarrow> nat \<Rightarrow> nat \<Rightarrow> nat" where
  "last_start p 0 i = i"
| "last_start p (Suc k) i = (if i = 0 \<or> rune_start (p ! i) then i else last_start p k (i - 1))"

definition decode_last_rune :: "byte list \<Rightarrow> rune \<times> nat" where
  "decode_last_rune p =
     (if p = [] then (rune_error, 0)
      else if last p < 0x80 then (uint (last p), 1)
      else let en = length p;
               start = (if en = 1 then 0 else last_start p 3 (en - 2));
               (r, n) = decode_rune (drop start p)
           in if start + n = en then (r, n) else (rune_error, 1))"

lemma decode_last_size: "p \<noteq> [] \<Longrightarrow> 0 < snd (decode_last_rune p)"
proof -
  assume p: "p \<noteq> []"
  have b: "last_start p k i \<le> i" for k i
    by (induction p k i rule: last_start.induct) (auto intro: le_trans)
  define st where "st = (if length p = 1 then 0 else last_start p 3 (length p - 2))"
  have "st < length p" using b [of 3 "length p - 2"] p by (cases p) (auto simp: st_def intro: le_less_trans)
  then have "0 < snd (decode_rune (drop st p))" by (intro decode_rune_size_pos) simp
  then show ?thesis
    unfolding decode_last_rune_def Let_def st_def [symmetric] case_prod_beta using p by simp
qed

function trim_right :: "(rune \<Rightarrow> bool) \<Rightarrow> byte list \<Rightarrow> byte list" where
  "trim_right P p =
     (if p = [] then []
      else let (r, n) = decode_last_rune p
           in if P r then trim_right P (take (length p - n) p) else p)"
  by pat_completeness auto
termination
proof (relation "measure (\<lambda>(P, p). length p)", goal_cases)
  case (2 P p z r n)
  then have "snd (decode_last_rune p) = n" by (metis snd_conv)
  then have "0 < n" using decode_last_size 2 by blast
  then show ?case using 2 by (cases p) auto
qed simp

declare trim_right.simps [simp del]

definition trim_space :: "byte list \<Rightarrow> byte list" where
  "trim_space p = trim_right is_space (trim_left is_space p)"

text \<open>Text that neither begins nor ends with a space stays as it is.\<close>

lemma trim_left_id: "p = [] \<or> \<not> P (fst (decode_rune p)) \<Longrightarrow> trim_left P p = p"
  by (cases p) (auto simp: case_prod_beta)

lemma trim_right_id: "p = [] \<or> \<not> P (fst (decode_last_rune p)) \<Longrightarrow> trim_right P p = p"
  by (auto simp: trim_right.simps [of P p] case_prod_beta)

lemma decode_rune_ascii: "b < 0x80 \<Longrightarrow> decode_rune (b # p) = (uint b, 1)"
  by (simp add: decode_rune_def lead_info_ascii)

lemma trim_space_ascii:
  assumes "p \<noteq> []" "hd p < 0x80" "last p < 0x80" "\<not> is_space (uint (hd p))" "\<not> is_space (uint (last p))"
  shows "trim_space p = p"
proof -
  obtain b q where p: "p = b # q" using assms(1) by (cases p) auto
  have "trim_left is_space p = p"
    using assms by (intro trim_left_id) (simp add: p decode_rune_ascii)
  moreover have "trim_right is_space p = p"
    using assms by (intro trim_right_id) (simp add: decode_last_rune_def)
  ultimately show ?thesis by (simp add: trim_space_def)
qed

text \<open>Trimming only removes bytes at the two ends.\<close>

lemma trim_left_suffix: "\<exists>q. p = q @ trim_left P p"
proof (induction P p rule: trim_left.induct)
  case (2 P b p)
  obtain r n where d: "decode_rune (b # p) = (r, n)" by (cases "decode_rune (b # p)") auto
  show ?case
  proof (cases "P r")
    case True
    obtain q where "drop n (b # p) = q @ trim_left P (drop n (b # p))" using 2 [OF d [symmetric] refl True] by blast
    then have "b # p = (take n (b # p) @ q) @ trim_left P (drop n (b # p))"
      by (metis append.assoc append_take_drop_id)
    then have "b # p = (take n (b # p) @ q) @ trim_left P (b # p)" using d True by simp
    then show ?thesis by blast
  qed (simp add: d)
qed simp

lemma trim_right_prefix: "\<exists>q. p = trim_right P p @ q"
proof (induction P p rule: trim_right.induct)
  case (1 P p)
  show ?case
  proof (cases "p = [] \<or> \<not> P (fst (decode_last_rune p))")
    case True
    then show ?thesis using trim_right_id [of p P] by auto
  next
    case False
    define n where "n = snd (decode_last_rune p)"
    have e: "decode_last_rune p = (fst (decode_last_rune p), n)" by (simp add: n_def)
    obtain q where "take (length p - n) p = trim_right P (take (length p - n) p) @ q"
      using 1 [OF _ e [symmetric] refl] False by auto
    then have "p = trim_right P (take (length p - n) p) @ (q @ drop (length p - n) p)"
      by (metis append.assoc append_take_drop_id)
    moreover have "trim_right P p = trim_right P (take (length p - n) p)"
      using False by (subst trim_right.simps) (simp add: case_prod_beta n_def)
    ultimately show ?thesis by metis
  qed
qed

end
