(* ===== verification/Marks.thy ===== *)
theory Marks
  imports Scanner
begin

text \<open>
  What \<open>Scanner.Feed\<close> reports: every mark sits on its own bytes (\<open>marks_sound\<close>), an OSC of pairmux
  is found in whatever state the scanner is (\<open>osc_found\<close>), the boundary is found in plain text
  exactly when it is there (\<open>boundary_found\<close>), and the sentinel with its boundary comes back with
  the exit code it was printed with (\<open>protocol_scan\<close>).
\<close>

section \<open>What a mark stands for\<close>

text \<open>\<open>osc_mark pl\<close>: kind and exit code of the OSC with payload \<open>pl\<close>, if it is one of pairmux's.\<close>

definition osc_mark :: "byte list \<Rightarrow> (MarkKind \<times> int) option" where
  "osc_mark pl =
     map_option (\<lambda>m. (Kind m, ExitCode m)) (finish 0 ((NewScanner 0)\<lparr>payload := pl\<rparr>))"

definition plain_payload :: "byte list \<Rightarrow> bool" where
  "plain_payload pl \<longleftrightarrow> ESC \<notin> set pl \<and> BEL \<notin> set pl \<and> length pl \<le> payloadCap"

definition mark_bytes :: "byte list \<Rightarrow> mark \<Rightarrow> bool" where
  "mark_bytes seg m \<longleftrightarrow>
     (if Kind m = MarkBoundary then seg = SentinelBoundary \<and> ExitCode m = -1
      else \<exists>pl t. seg = [ESC, bc CHR '']''] @ pl @ t \<and> t \<in> {[BEL], [ESC, 0x5c]} \<and> plain_payload pl
             \<and> osc_mark pl = Some (Kind m, ExitCode m))"

text \<open>\<open>placed base w m\<close>: the mark \<open>m\<close> describes the bytes at its own offsets in the stream \<open>w\<close>.\<close>

definition placed :: "int \<Rightarrow> byte list \<Rightarrow> mark \<Rightarrow> bool" where
  "placed base w m \<longleftrightarrow>
     (\<exists>u seg v. w = u @ seg @ v \<and> Start m = base + int (length u)
        \<and> End m = Start m + int (length seg) \<and> mark_bytes seg m)"

lemma placed_append: "placed base w m \<Longrightarrow> placed base (w @ q) m"
  unfolding placed_def by (metis append.assoc)

lemma finish_eq:
  "finish en s = (case osc_mark (payload s) of None \<Rightarrow> None
     | Some (k, x) \<Rightarrow> Some \<lparr>Kind = k, ExitCode = x, Start = markStart s, End = en\<rparr>)"
  by (auto simp: finish_def osc_mark_def Let_def NewScanner_def split: option.splits)

lemma osc_mark_not_boundary: "osc_mark pl = Some (k, x) \<Longrightarrow> k \<noteq> MarkBoundary"
  by (auto simp: osc_mark_def finish_def mark_kind_def Let_def split: if_splits option.splits)

section \<open>The scanner's invariant over the bytes consumed\<close>

definition scan_inv :: "int \<Rightarrow> byte list \<Rightarrow> scanner \<Rightarrow> bool" where
  "scan_inv base w s \<longleftrightarrow> spos s = base + int (length w) \<and>
     (case sstate s of
        scGround \<Rightarrow> bnd s < length SentinelBoundary \<and> ends_at w (bnd s)
      | scEsc \<Rightarrow> bnd s = 0 \<and> (\<exists>u. w = u @ [ESC] \<and> markStart s = base + int (length u))
      | scOSC \<Rightarrow> bnd s = 0 \<and> plain_payload (payload s)
          \<and> (\<exists>u. w = u @ [ESC, bc CHR '']''] @ payload s \<and> markStart s = base + int (length u))
      | scOSCEsc \<Rightarrow> bnd s = 0 \<and> plain_payload (payload s)
          \<and> (\<exists>u. w = u @ [ESC, bc CHR '']''] @ payload s @ [ESC] \<and> markStart s = base + int (length u)))"

lemma scan_inv_new: "scan_inv base [] (NewScanner base)"
  by (simp add: scan_inv_def NewScanner_def ends_at_def SentinelBoundary_def)

lemma ends_at_0 [simp]: "ends_at w 0"
  by (simp add: ends_at_def)

lemma ends_at_suffix:
  assumes "n \<le> length SentinelBoundary"
  shows "ends_at w n \<longleftrightarrow> (\<exists>u. w = u @ take n SentinelBoundary)"
proof
  assume "ends_at w n"
  then have "w = take (length w - n) w @ take n SentinelBoundary"
    unfolding ends_at_def by (metis append_take_drop_id)
  then show "\<exists>u. w = u @ take n SentinelBoundary" by blast
qed (use assms in \<open>auto simp: ends_at_def\<close>)

lemma boundary_next_sound:
  assumes "k < length SentinelBoundary" "ends_at w k"
  shows "ends_at (w @ [b]) (boundary_next k b)" "boundary_next k b \<le> length SentinelBoundary"
proof -
  define v where "v = take k SentinelBoundary"
  have lv: "length v = k" using assms(1) by (simp add: v_def)
  have "longest v k"
    using assms(1) lv by (auto simp: longest_def ends_at_def v_def)
  note n = boundary_next_longest [OF this, of b]
  then show le: "boundary_next k b \<le> length SentinelBoundary" by simp
  obtain u where u: "w = u @ v" using assms by (auto simp: ends_at_suffix v_def)
  obtain u' where u': "v @ [b] = u' @ take (boundary_next k b) SentinelBoundary"
    using n ends_at_suffix [OF le, of "v @ [b]"] by blast
  have "w @ [b] = (u @ u') @ take (boundary_next k b) SentinelBoundary" using u u' by simp
  then show "ends_at (w @ [b]) (boundary_next k b)"
    unfolding ends_at_suffix [OF le] by blast
qed

lemma placed_osc:
  assumes "osc_mark pl = Some (k, x)" "plain_payload pl" "t \<in> {[BEL], [ESC, 0x5c]}"
    "w = u @ [ESC, bc CHR '']''] @ pl @ t"
  shows "placed base w \<lparr>Kind = k, ExitCode = x, Start = base + int (length u), End = base + int (length w)\<rparr>"
  unfolding placed_def
  by (intro exI [of _ u] exI [of _ "[ESC, bc CHR '']''] @ pl @ t"] exI [of _ "[]"])
     (use assms osc_mark_not_boundary [OF assms(1)] in \<open>auto simp: mark_bytes_def\<close>)

lemma placed_boundary:
  assumes "ends_at w (length SentinelBoundary)"
  shows "placed base w \<lparr>Kind = MarkBoundary, ExitCode = -1,
     Start = base + int (length w) - int (length SentinelBoundary), End = base + int (length w)\<rparr>"
proof -
  obtain u where "w = u @ SentinelBoundary" using assms by (auto simp: ends_at_suffix)
  then show ?thesis
    unfolding placed_def by (intro exI [of _ u] exI [of _ SentinelBoundary] exI [of _ "[]"]) (simp add: mark_bytes_def)
qed

lemma scan_byte_inv:
  assumes "scan_inv base w s"
  shows "scan_inv base (w @ [b]) (snd (scan_byte b s)) \<and>
    (\<forall>m \<in> set (fst (scan_byte b s)). placed base (w @ [b]) m)"
proof (cases "sstate s")
  case scGround
  note i = assms [unfolded scan_inv_def scGround, simplified]
  note n = boundary_next_sound [of "bnd s" w b] i
  have p: "ends_at (w @ [b]) (length SentinelBoundary) \<Longrightarrow> placed base (w @ [b])
    \<lparr>Kind = MarkBoundary, ExitCode = -1, Start = base + (1 + int (length w)) - int (length SentinelBoundary),
     End = base + (1 + int (length w))\<rparr>"
    using placed_boundary [of "w @ [b]" base] by (simp add: algebra_simps)
  show ?thesis
    using n p by (auto simp: scan_byte_def scan_inv_def scGround matchBoundary_def Let_def algebra_simps
      SentinelBoundary_def [THEN arg_cong [where f = length]])
next
  case scEsc
  note i = assms [unfolded scan_inv_def scEsc, simplified]
  show ?thesis
    using i by (auto simp: scan_byte_def scan_inv_def scEsc Let_def plain_payload_def SentinelBoundary_def)
next
  case scOSC
  note i = assms [unfolded scan_inv_def scOSC, simplified]
  then obtain u where u: "w = u @ [ESC, bc CHR '']''] @ payload s" "markStart s = base + int (length u)"
    by auto
  have "placed base (w @ [BEL]) m" if "m \<in> set (opt_list (finish (spos s + 1) (s\<lparr>spos := spos s + 1\<rparr>)))" for m
    using that i placed_osc [of "payload s" _ _ "[BEL]" "w @ [BEL]" u base] u
    by (auto simp: opt_list_def finish_eq algebra_simps split: option.splits)
  then show ?thesis
    using i u by (auto simp: scan_byte_def scan_inv_def scOSC Let_def plain_payload_def SentinelBoundary_def)
next
  case scOSCEsc
  note i = assms [unfolded scan_inv_def scOSCEsc, simplified]
  then obtain u where u: "w = u @ [ESC, bc CHR '']''] @ payload s @ [ESC]" "markStart s = base + int (length u)"
    by auto
  have "placed base (w @ [0x5c]) m" if "m \<in> set (opt_list (finish (spos s + 1) (s\<lparr>spos := spos s + 1\<rparr>)))" for m
    using that i placed_osc [of "payload s" _ _ "[ESC, 0x5c]" "w @ [0x5c]" u base] u
    by (auto simp: opt_list_def finish_eq algebra_simps split: option.splits)
  then show ?thesis
    using i u by (auto simp: scan_byte_def scan_inv_def scOSCEsc Let_def plain_payload_def SentinelBoundary_def)
qed

lemma scan_feed_inv:
  "scan_inv base w s \<Longrightarrow> scan_inv base (w @ p) (snd (scan_feed p s)) \<and>
    (\<forall>m \<in> set (fst (scan_feed p s)). placed base (w @ p) m)"
proof (induction p arbitrary: w s)
  case (Cons b p)
  note b = scan_byte_inv [OF Cons.prems, of b]
  note r = Cons.IH [OF b [THEN conjunct1]]
  show ?case using b r placed_append [of base "w @ [b]" _ p] by (auto simp: case_prod_beta Let_def)
qed simp

lemma scan_new_inv: "scan_inv base p (snd (scan_feed p (NewScanner base)))"
  using scan_feed_inv [OF scan_inv_new, of base p] by simp

lemma scan_new_placed: "m \<in> set (fst (scan_feed p (NewScanner base))) \<Longrightarrow> placed base p m"
  using scan_feed_inv [OF scan_inv_new, of base p] by simp


section \<open>Every mark written is found\<close>

text \<open>\<open>ESC ]\<close> starts an OSC in whatever state the scanner is.\<close>

lemma scan_byte_ESC:
  "scan_byte ESC s =
     ([], (case sstate s of
        scGround \<Rightarrow> s\<lparr>spos := spos s + 1, sstate := scEsc, markStart := spos s, bnd := 0\<rparr>
      | scEsc \<Rightarrow> s\<lparr>spos := spos s + 1, markStart := spos s\<rparr>
      | scOSC \<Rightarrow> s\<lparr>spos := spos s + 1, sstate := scOSCEsc\<rparr>
      | scOSCEsc \<Rightarrow> s\<lparr>spos := spos s + 1, sstate := scEsc, markStart := spos s\<rparr>))"
  by (cases "sstate s") (simp_all add: scan_byte_def Let_def)

lemma scan_byte_bracket:
  "sstate s = scEsc \<Longrightarrow> scan_byte 93 s =
     ([], s\<lparr>spos := spos s + 1, sstate := scOSC, payload := []\<rparr>)"
  "sstate s = scOSCEsc \<Longrightarrow> scan_byte 93 s =
     ([], s\<lparr>spos := spos s + 1, sstate := scOSC, markStart := spos s - 1, payload := []\<rparr>)"
  by (simp_all add: scan_byte_def Let_def)

lemma scan_osc_intro:
  "\<exists>n. scan_feed [ESC, bc CHR '']''] s =
     ([], s\<lparr>sstate := scOSC, spos := spos s + 2, markStart := spos s, payload := [], bnd := n\<rparr>)
     \<and> (sstate s \<noteq> scGround \<longrightarrow> n = bnd s) \<and> (sstate s = scGround \<longrightarrow> n = 0)"
proof (intro exI [of _ "if sstate s = scGround then 0 else bnd s"] conjI)
  show "scan_feed [ESC, bc CHR '']''] s =
     ([], s\<lparr>sstate := scOSC, spos := spos s + 2, markStart := spos s, payload := [],
       bnd := if sstate s = scGround then 0 else bnd s\<rparr>)"
    by (cases "sstate s") (simp_all add: scan_byte_ESC scan_byte_bracket Let_def)
qed simp_all

lemma scan_osc_body:
  "sstate s = scOSC \<Longrightarrow> ESC \<notin> set pl \<Longrightarrow> BEL \<notin> set pl \<Longrightarrow> length (payload s) + length pl \<le> payloadCap \<Longrightarrow>
   scan_feed pl s = ([], s\<lparr>spos := spos s + int (length pl), payload := payload s @ pl\<rparr>)"
  by (induction pl arbitrary: s) (auto simp: scan_byte_def Let_def)

definition osc_seq :: "byte list \<Rightarrow> byte list" where
  "osc_seq pl = [ESC, bc CHR '']''] @ pl @ [BEL]"

lemma scan_osc:
  assumes "plain_payload pl"
  shows "\<exists>n. scan_feed (osc_seq pl) s =
    ((case osc_mark pl of None \<Rightarrow> []
      | Some (k, x) \<Rightarrow> [\<lparr>Kind = k, ExitCode = x, Start = spos s, End = spos s + int (length (osc_seq pl))\<rparr>]),
     s\<lparr>sstate := scGround, spos := spos s + int (length (osc_seq pl)), markStart := spos s,
       payload := pl, bnd := n\<rparr>)
     \<and> (sstate s \<noteq> scGround \<longrightarrow> n = bnd s) \<and> (sstate s = scGround \<longrightarrow> n = 0)"
proof -
  obtain n where i: "scan_feed [ESC, bc CHR '']''] s =
     ([], s\<lparr>sstate := scOSC, spos := spos s + 2, markStart := spos s, payload := [], bnd := n\<rparr>)"
     "sstate s \<noteq> scGround \<longrightarrow> n = bnd s" "sstate s = scGround \<longrightarrow> n = 0"
    using scan_osc_intro by blast
  define s1 where "s1 = s\<lparr>sstate := scOSC, spos := spos s + 2, markStart := spos s, payload := [], bnd := n\<rparr>"
  have b: "scan_feed pl s1 = ([], s1\<lparr>spos := spos s1 + int (length pl), payload := pl\<rparr>)"
    using scan_osc_body [of s1 pl] assms by (simp add: s1_def plain_payload_def)
  have e: "scan_byte BEL (s1\<lparr>spos := spos s1 + int (length pl), payload := pl\<rparr>) =
    (opt_list (finish (spos s + int (length (osc_seq pl))) (s1\<lparr>spos := spos s + int (length (osc_seq pl)), payload := pl\<rparr>)),
     s1\<lparr>sstate := scGround, spos := spos s + int (length (osc_seq pl)), payload := pl\<rparr>)"
    by (cases "osc_mark pl") (simp_all add: s1_def scan_byte_def Let_def osc_seq_def algebra_simps finish_eq split: prod.split)
  have "scan_feed (osc_seq pl) s =
    (opt_list (finish (spos s + int (length (osc_seq pl))) (s1\<lparr>spos := spos s + int (length (osc_seq pl)), payload := pl\<rparr>)),
     s1\<lparr>sstate := scGround, spos := spos s + int (length (osc_seq pl)), payload := pl\<rparr>)"
    unfolding osc_seq_def scan_feed_append i(1) s1_def [symmetric] b Let_def prod.case
    using e by (simp add: osc_seq_def)
  then show ?thesis
    using i(2,3) by (intro exI [of _ n]) (auto simp: s1_def finish_eq opt_list_def split: option.splits)
qed

section \<open>The boundary in plain text\<close>

lemma scan_ground_step:
  assumes "sstate s = scGround" "b \<noteq> ESC"
  shows "scan_byte b s =
    (let k = boundary_next (bnd s) b; hit = (k = length SentinelBoundary)
     in (if hit then [\<lparr>Kind = MarkBoundary, ExitCode = -1,
           Start = spos s + 1 - int (length SentinelBoundary), End = spos s + 1\<rparr>] else [],
         s\<lparr>spos := spos s + 1, bnd := (if hit then 0 else k)\<rparr>))"
  using assms by (simp add: scan_byte_def matchBoundary_def Let_def)

lemma scan_text_none:
  assumes "sstate s = scGround" "longest w (bnd s)" "ESC \<notin> set p"
  shows "fst (scan_feed p s) = [] \<longleftrightarrow>
    (\<forall>q. q \<noteq> [] \<longrightarrow> (\<exists>r. p = q @ r) \<longrightarrow> \<not> ends_at (w @ q) (length SentinelBoundary))"
  using assms
proof (induction p arbitrary: w s)
  case (Cons b p)
  define k where "k = boundary_next (bnd s) b"
  note n = boundary_next_longest [OF Cons.prems(2), of b, folded k_def]
  have hit: "k = length SentinelBoundary \<longleftrightarrow> ends_at (w @ [b]) (length SentinelBoundary)"
    using n by (auto simp: le_less)
  have st: "scan_byte b s = (let hit = (k = length SentinelBoundary)
     in (if hit then [\<lparr>Kind = MarkBoundary, ExitCode = -1,
           Start = spos s + 1 - int (length SentinelBoundary), End = spos s + 1\<rparr>] else [],
         s\<lparr>spos := spos s + 1, bnd := (if hit then 0 else k)\<rparr>))"
    using scan_ground_step [of s b] Cons.prems by (simp add: k_def Let_def)
  have split: "(\<forall>q. q \<noteq> [] \<longrightarrow> (\<exists>r. b # p = q @ r) \<longrightarrow> \<not> ends_at (w @ q) (length SentinelBoundary)) \<longleftrightarrow>
    \<not> ends_at (w @ [b]) (length SentinelBoundary) \<and>
    (\<forall>q. q \<noteq> [] \<longrightarrow> (\<exists>r. p = q @ r) \<longrightarrow> \<not> ends_at ((w @ [b]) @ q) (length SentinelBoundary))"
  proof (intro iffI conjI allI impI)
    assume a: "\<forall>q. q \<noteq> [] \<longrightarrow> (\<exists>r. b # p = q @ r) \<longrightarrow> \<not> ends_at (w @ q) (length SentinelBoundary)"
    show "\<not> ends_at (w @ [b]) (length SentinelBoundary)" using a [rule_format, of "[b]"] by simp
    fix q assume "\<exists>r. p = q @ r"
    then show "\<not> ends_at ((w @ [b]) @ q) (length SentinelBoundary)" using a [rule_format, of "b # q"] by simp
  next
    fix q
    assume a: "\<not> ends_at (w @ [b]) (length SentinelBoundary) \<and>
      (\<forall>q. q \<noteq> [] \<longrightarrow> (\<exists>r. p = q @ r) \<longrightarrow> \<not> ends_at ((w @ [b]) @ q) (length SentinelBoundary))"
      and q: "q \<noteq> []" "\<exists>r. b # p = q @ r"
    then obtain q' r where "q = b # q'" "p = q' @ r" by (cases q) auto
    then show "\<not> ends_at (w @ q) (length SentinelBoundary)" using a by (cases "q' = []") auto
  qed
  show ?case
  proof (cases "k = length SentinelBoundary")
    case True
    then show ?thesis using hit split st by (simp add: case_prod_beta Let_def)
  next
    case False
    define s' where "s' = s\<lparr>spos := spos s + 1, bnd := k\<rparr>"
    have "longest (w @ [b]) k" using n False by (auto simp: longest_def)
    then have "fst (scan_feed p s') = [] \<longleftrightarrow>
      (\<forall>q. q \<noteq> [] \<longrightarrow> (\<exists>r. p = q @ r) \<longrightarrow> \<not> ends_at ((w @ [b]) @ q) (length SentinelBoundary))"
      using Cons.IH [of s' "w @ [b]"] Cons.prems by (simp add: s'_def)
    then show ?thesis using False hit split st by (simp add: case_prod_beta Let_def s'_def)
  qed
qed simp

lemma boundary_found_iff:
  assumes "ESC \<notin> set p"
  shows "fst (scan_feed p (NewScanner base)) = [] \<longleftrightarrow> (\<nexists>u v. p = u @ SentinelBoundary @ v)"
proof -
  have ne: "SentinelBoundary \<noteq> []" by (simp add: SentinelBoundary_def)
  have "fst (scan_feed p (NewScanner base)) = [] \<longleftrightarrow>
    (\<forall>q. q \<noteq> [] \<longrightarrow> (\<exists>r. p = q @ r) \<longrightarrow> \<not> ends_at q (length SentinelBoundary))"
    using scan_text_none [of "NewScanner base" "[]" p] assms longest_Nil by (simp add: NewScanner_def)
  also have "\<dots> \<longleftrightarrow> (\<nexists>u v. p = u @ SentinelBoundary @ v)"
  proof (intro iffI notI allI impI)
    assume a: "\<forall>q. q \<noteq> [] \<longrightarrow> (\<exists>r. p = q @ r) \<longrightarrow> \<not> ends_at q (length SentinelBoundary)"
    assume "\<exists>u v. p = u @ SentinelBoundary @ v"
    then obtain u v where "p = (u @ SentinelBoundary) @ v" by auto
    then have "\<not> ends_at (u @ SentinelBoundary) (length SentinelBoundary)" using a ne by blast
    then show False by (simp add: ends_at_def)
  next
    fix q
    assume a: "\<nexists>u v. p = u @ SentinelBoundary @ v" "\<exists>r. p = q @ r" "ends_at q (length SentinelBoundary)"
    obtain u where u: "q = u @ SentinelBoundary" using a(3) by (auto simp: ends_at_suffix)
    obtain r where "p = q @ r" using a(2) by blast
    then have "p = u @ SentinelBoundary @ r" using u by simp
    then show False using a(1) by blast
  qed
  finally show ?thesis .
qed

lemma scan_boundary:
  assumes "sstate s = scGround" "bnd s = 0"
  shows "scan_feed SentinelBoundary s =
    ([\<lparr>Kind = MarkBoundary, ExitCode = -1, Start = spos s, End = spos s + 9\<rparr>], s\<lparr>spos := spos s + 9\<rparr>)"
  using assms by (simp add: SentinelBoundary_def scan_ground_step boundary_next_def Let_def)

section \<open>The sentinel protocol\<close>

definition sentinel :: "int \<Rightarrow> byte list" where
  "sentinel n = osc_seq (bs ''7779;p;'' @ itoa n)"

lemma itoa_bytes: "b \<in> set (itoa n) \<Longrightarrow> b = bc CHR ''-'' \<or> is_digit b"
  using digits_are_digits by (auto simp: itoa_def list_all_iff split: if_splits)

lemma itoa_ne [simp]: "itoa n \<noteq> []"
  by (simp add: itoa_def)

lemma is_digit_uint: "is_digit b \<longleftrightarrow> 48 \<le> uint b \<and> uint b \<le> 57"
  by (simp add: is_digit_def word_le_def)

lemma itoa_ascii: "b \<in> set (itoa n) \<Longrightarrow> b < 0x80 \<and> \<not> is_space (uint b) \<and> b \<noteq> ESC \<and> b \<noteq> BEL \<and> b \<noteq> bc CHR '';''"
  using itoa_bytes [of b n]
  by (auto simp: is_digit_uint is_space_def word_less_def)

lemma trim_space_itoa: "trim_space (itoa n) = itoa n"
  using itoa_ascii [of "hd (itoa n)" n] itoa_ascii [of "last (itoa n)" n] by (intro trim_space_ascii) auto

lemma osc_mark_sentinel:
  assumes "- (2 ^ 63) \<le> n" "n < 2 ^ 63"
  shows "osc_mark (bs ''7779;p;'' @ itoa n) = Some (MarkSentinel, n)"
proof -
  have "split_on (bc CHR '';'') (bs ''7779'' @ bc CHR '';'' # bs ''p'' @ bc CHR '';'' # itoa n)
      = [bs ''7779'', bs ''p'', itoa n]"
    using itoa_ascii [of _ n] split_no_sep [of "bc CHR '';''" "itoa n"] by auto
  then show ?thesis
    using atoi_itoa [OF assms]
    by (simp add: osc_mark_def finish_def exitFrom_def trim_space_itoa)
qed

lemma itoa_length: "- (2 ^ 63) \<le> n \<Longrightarrow> n < 2 ^ 63 \<Longrightarrow> length (itoa n) \<le> 20"
  using digits_length [of "nat (- n)" 19] digits_length [of "nat n" 19] by (cases "n < 0") (simp_all add: itoa_def nat_less_iff)

lemma plain_sentinel:
  assumes "- (2 ^ 63) \<le> n" "n < 2 ^ 63"
  shows "plain_payload (bs ''7779;p;'' @ itoa n)"
proof -
  have "length (itoa n) \<le> 20" using itoa_length [OF assms] by simp
  then show ?thesis using itoa_ascii [of _ n] by (auto simp: plain_payload_def payloadCap_def)
qed

lemma scan_sentinel:
  assumes "- (2 ^ 63) \<le> n" "n < 2 ^ 63"
  shows "\<exists>k. scan_feed (sentinel n) s =
    ([\<lparr>Kind = MarkSentinel, ExitCode = n, Start = spos s, End = spos s + int (length (sentinel n))\<rparr>],
     s\<lparr>sstate := scGround, spos := spos s + int (length (sentinel n)), markStart := spos s,
       payload := bs ''7779;p;'' @ itoa n, bnd := k\<rparr>)
     \<and> (sstate s \<noteq> scGround \<longrightarrow> k = bnd s) \<and> (sstate s = scGround \<longrightarrow> k = 0)"
  using scan_osc [OF plain_sentinel [OF assms], of s]
  unfolding sentinel_def osc_mark_sentinel [OF assms] by simp

text \<open>Whatever was printed before: the sentinel and the boundary that follows it are the next two
  marks, at their own offsets, and the sentinel carries the exit code.\<close>

lemma protocol_scan:
  assumes "- (2 ^ 63) \<le> n" "n < 2 ^ 63"
  shows "fst (scan_feed (p @ sentinel n @ SentinelBoundary) (NewScanner base)) =
    fst (scan_feed p (NewScanner base)) @
    (let i = base + int (length p); j = i + int (length (sentinel n))
     in [\<lparr>Kind = MarkSentinel, ExitCode = n, Start = i, End = j\<rparr>,
         \<lparr>Kind = MarkBoundary, ExitCode = -1, Start = j, End = j + 9\<rparr>])"
proof -
  define s where "s = snd (scan_feed p (NewScanner base))"
  have i: "scan_inv base p s" unfolding s_def by (rule scan_new_inv)
  then have pos: "spos s = base + int (length p)" by (simp add: scan_inv_def)
  obtain k where k: "scan_feed (sentinel n) s =
    ([\<lparr>Kind = MarkSentinel, ExitCode = n, Start = spos s, End = spos s + int (length (sentinel n))\<rparr>],
     s\<lparr>sstate := scGround, spos := spos s + int (length (sentinel n)), markStart := spos s,
       payload := bs ''7779;p;'' @ itoa n, bnd := k\<rparr>)"
    "sstate s \<noteq> scGround \<longrightarrow> k = bnd s" "sstate s = scGround \<longrightarrow> k = 0"
    using scan_sentinel [OF assms] by blast
  have "k = 0" using k(2,3) i by (cases "sstate s") (auto simp: scan_inv_def)
  then show ?thesis
    by (simp add: scan_feed_append case_prod_beta Let_def s_def [symmetric] k(1) scan_boundary pos)
qed

end
