(* ===== verification/Journal.thy ===== *)
theory Journal
  imports Prelude
begin

text \<open>
  \<open>internal/core/core.go\<close> and the pure parts of \<open>internal/journal/journal.go\<close>: a terminal's journal
  is the byte stream \<open>raw.log\<close> (a byte list, empty when the file is missing) and the parsed lines of
  \<open>index.jsonl\<close> (an event list). Times are nanoseconds.
\<close>

section \<open>Modes, states, events\<close>

datatype Mode = ModeHooks | ModeSentinel

datatype Status = StatusIdle | StatusRunning | StatusDead | StatusUnknown | StatusAwaitingInput

datatype EventType = EvCreated | EvCmdStart | EvCmdEnd | EvNote | EvSent | EvOther "byte list"

record event =
  TS :: int
  EvType :: EventType
  CmdID :: int
  Offset :: int
  EvExit :: "int option"
  EvText :: "byte list"

section \<open>Reading \<open>raw.log\<close>\<close>

definition ReadRange :: "byte list \<Rightarrow> int \<Rightarrow> int \<Rightarrow> byte list" where
  "ReadRange raw from0 to0 =
     (let size = int (length raw);
          from1 = (if from0 < 0 then 0 else from0);
          to1 = (if to0 < 0 \<or> to0 > size then size else to0);
          from2 = (if from1 > size then size else from1)
      in if from2 \<ge> to1 then [] else slice (nat from2) (nat to1) raw)"

definition TailBytes :: "byte list \<Rightarrow> int \<Rightarrow> byte list \<times> int" where
  "TailBytes raw mx =
     (let size = int (length raw);
          from0 = (if mx > 0 \<and> size > mx then size - mx else 0)
      in (ReadRange raw from0 size, from0))"

section \<open>Commands in the event log\<close>

text \<open>The loop of \<open>NextCmdID\<close>.\<close>

fun max_cmd :: "event list \<Rightarrow> int \<Rightarrow> int" where
  "max_cmd [] mx = mx"
| "max_cmd (e # es) mx = max_cmd es (if CmdID e > mx then CmdID e else mx)"

definition NextCmdID :: "event list \<Rightarrow> int" where
  "NextCmdID evs = max_cmd evs 0 + 1"

text \<open>\<open>PendingCmd\<close>: the loop over \<open>i\<close> runs from the last event down; \<open>Suc i\<close> is the number of events
  still to look at.\<close>

definition ended_after :: "event list \<Rightarrow> nat \<Rightarrow> bool" where
  "ended_after evs i =
     list_ex (\<lambda>e. EvType e = EvCmdEnd \<and> CmdID e = CmdID (evs ! i)) (drop (i + 1) evs)"

fun pending_from :: "event list \<Rightarrow> nat \<Rightarrow> event option" where
  "pending_from evs 0 = None"
| "pending_from evs (Suc i) =
     (if EvType (evs ! i) \<noteq> EvCmdStart then pending_from evs i
      else if \<not> ended_after evs i then Some (evs ! i)
      else pending_from evs i)"

definition PendingCmd :: "event list \<Rightarrow> event option" where
  "PendingCmd evs = pending_from evs (length evs)"

section \<open>Properties\<close>

lemma ReadRange_tail:
  "0 \<le> from \<Longrightarrow> ReadRange raw from (int (length raw)) = drop (nat from) raw"
  by (auto simp: ReadRange_def slice_def Let_def)

lemma ReadRange_eof: "0 \<le> from \<Longrightarrow> ReadRange raw from (- 1) = drop (nat from) raw"
  by (auto simp: ReadRange_def slice_def Let_def)

lemma ReadRange_clamped: "length (ReadRange raw from to) \<le> length raw"
  unfolding ReadRange_def Let_def by (simp add: min.coboundedI2)

lemma TailBytes_suffix: "fst (TailBytes raw mx) = drop (nat (snd (TailBytes raw mx))) raw"
  by (simp add: TailBytes_def Let_def ReadRange_tail)

lemma TailBytes_max: "0 < mx \<Longrightarrow> int (length (fst (TailBytes raw mx))) = min mx (int (length raw))"
  by (auto simp: TailBytes_def Let_def ReadRange_tail)

lemma max_cmd_ge: "mx \<le> max_cmd evs mx"
  by (induction evs mx rule: max_cmd.induct) auto

lemma max_cmd_bound: "e \<in> set evs \<Longrightarrow> CmdID e \<le> max_cmd evs mx"
proof (induction evs mx rule: max_cmd.induct)
  case (2 a es mx)
  then show ?case using max_cmd_ge [of "if CmdID a > mx then CmdID a else mx" es] by auto
qed simp

lemma pending_from_Some:
  "pending_from evs n = Some e \<Longrightarrow> \<exists>i<n. e = evs ! i \<and> EvType e = EvCmdStart \<and> \<not> ended_after evs i
     \<and> (\<forall>j. i < j \<longrightarrow> j < n \<longrightarrow> EvType (evs ! j) = EvCmdStart \<longrightarrow> ended_after evs j)"
  by (induction n) (auto split: if_splits simp: less_Suc_eq)

lemma pending_from_None:
  "pending_from evs n = None \<longleftrightarrow> (\<forall>i<n. EvType (evs ! i) = EvCmdStart \<longrightarrow> ended_after evs i)"
  by (induction n) (auto simp: less_Suc_eq)

text \<open>Appending the end event of the pending command settles it: nothing that was settled becomes
  pending again.\<close>

lemma ended_after_snoc:
  "i < length evs \<Longrightarrow> ended_after (evs @ [e]) i \<longleftrightarrow>
     ended_after evs i \<or> EvType e = EvCmdEnd \<and> CmdID e = CmdID (evs ! i)"
  by (auto simp: ended_after_def nth_append)


lemma max_cmd_append: "max_cmd (xs @ ys) mx = max_cmd ys (max_cmd xs mx)"
  by (induction xs mx rule: max_cmd.induct) simp_all

lemma pending_from_append:
  "n \<le> length evs \<Longrightarrow> \<forall>i<n. EvType (evs ! i) = EvCmdStart \<longrightarrow> ended_after (evs @ ys) i = ended_after evs i \<Longrightarrow>
   pending_from (evs @ ys) n = pending_from evs n"
  by (induction n) (auto simp: nth_append)

lemma PendingCmd_fresh:
  assumes "EvType st = EvCmdStart"
  shows "PendingCmd (evs @ [st]) = Some st"
  using assms by (simp add: PendingCmd_def ended_after_def)

lemma PendingCmd_settled:
  assumes "EvType st = EvCmdStart" "CmdID st = NextCmdID evs" "EvType en = EvCmdEnd" "CmdID en = CmdID st"
  shows "PendingCmd (evs @ [st, en]) = PendingCmd evs"
proof -
  have "pending_from (evs @ [st, en]) (length evs) = pending_from evs (length evs)"
  proof (rule pending_from_append)
    show "\<forall>i<length evs. EvType (evs ! i) = EvCmdStart \<longrightarrow> ended_after (evs @ [st, en]) i = ended_after evs i"
    proof (intro allI impI)
      fix i assume i: "i < length evs"
      have "CmdID (evs ! i) < NextCmdID evs"
        using max_cmd_bound [of "evs ! i" evs 0] i by (simp add: NextCmdID_def)
      then show "ended_after (evs @ [st, en]) i = ended_after evs i"
        using assms i by (auto simp: ended_after_def nth_append)
    qed
  qed simp
  then show ?thesis using assms by (simp add: PendingCmd_def ended_after_def nth_append)
qed

end
