(* ===== verification/Wait.thy ===== *)
theory Wait
  imports Marks Journal
begin

text \<open>
  The completion loops of \<open>internal/detect/wait.go\<close> and \<open>internal/detect/await.go\<close>. A loop sees the
  world through the polls it makes: a \<open>poll\<close> holds what one turn of the loop reads, i.e. the content
  of \<open>raw.log\<close>, whether reading it fails, the clock when a mark starts a grace period and at the end
  of the turn, and what \<open>Classify\<close> says. A loop over a list of polls returns \<open>None\<close> while it is still
  waiting after the last of them. The sleeps between turns are the gaps between the polls' clocks.
\<close>

section \<open>Results\<close>

datatype PromptKind = KindNone | KindSecret | KindOpen | KindInferred

record prompt =
  PKind :: PromptKind
  PLine :: "byte list"
  PRaw :: bool

definition no_prompt :: prompt where "no_prompt = \<lparr>PKind = KindNone, PLine = [], PRaw = False\<rparr>"

datatype WaitOutcome = OutcomeDone | OutcomeTimeout | OutcomeAwaitingInput

record run_result =
  Outcome :: WaitOutcome
  RExit :: int
  MarkStart :: int
  EndOffset :: int
  RPrompt :: prompt

datatype werror = ReadError

definition completionKind :: "Mode \<Rightarrow> MarkKind" where
  "completionKind m = (if m = ModeSentinel then MarkSentinel else MarkD)"

definition doneResult :: "mark \<Rightarrow> run_result" where
  "doneResult m = \<lparr>Outcome = OutcomeDone, RExit = ExitCode m, MarkStart = Start m, EndOffset = End m,
     RPrompt = no_prompt\<rparr>"

definition timeoutResult :: "int \<Rightarrow> run_result" where
  "timeoutResult off = \<lparr>Outcome = OutcomeTimeout, RExit = -1, MarkStart = -1, EndOffset = off,
     RPrompt = no_prompt\<rparr>"

definition promptResult :: "int \<Rightarrow> prompt \<Rightarrow> run_result" where
  "promptResult off p = \<lparr>Outcome = OutcomeAwaitingInput, RExit = -1, MarkStart = -1, EndOffset = off,
     RPrompt = p\<rparr>"

definition graceBoundary :: int where "graceBoundary = 500000000"
definition graceNoC :: int where "graceNoC = 250000000"

section \<open>What a loop does with a mark\<close>

text \<open>The loop \<open>for _, m := range sc.Feed(data)\<close>: marks before \<open>from\<close> are skipped, and the first
  result ends it.\<close>

fun each_mark :: "(mark \<Rightarrow> 's \<Rightarrow> 's \<times> 'r option) \<Rightarrow> int \<Rightarrow> mark list \<Rightarrow> 's \<Rightarrow> 's \<times> 'r option" where
  "each_mark f from [] s = (s, None)"
| "each_mark f from (m # ms) s =
     (if Start m < from then each_mark f from ms s
      else case f m s of (s', None) \<Rightarrow> each_mark f from ms s' | (s', Some r) \<Rightarrow> (s', Some r))"

definition plain_obs :: "MarkKind \<Rightarrow> mark \<Rightarrow> unit \<Rightarrow> unit \<times> run_result option" where
  "plain_obs want m u = ((), if Kind m = want then Some (doneResult m) else None)"

record boundedSentinel =
  held :: "mark option"
  graceUntil :: int

definition observe :: "int \<Rightarrow> mark \<Rightarrow> boundedSentinel \<Rightarrow> boundedSentinel \<times> run_result option" where
  "observe t m b =
     (case held b of
        None \<Rightarrow> (if Kind m = MarkSentinel then \<lparr>held = Some m, graceUntil = t + graceBoundary\<rparr> else b, None)
      | Some h \<Rightarrow>
          (b, if Kind m = MarkBoundary \<and> Start m \<ge> End h
              then Some \<lparr>Outcome = OutcomeDone, RExit = ExitCode h, MarkStart = Start m, EndOffset = End m,
                         RPrompt = no_prompt\<rparr>
              else None))"

definition expired :: "int \<Rightarrow> bool \<Rightarrow> boundedSentinel \<Rightarrow> run_result option" where
  "expired now force b =
     (case held b of None \<Rightarrow> None
      | Some h \<Rightarrow> if \<not> force \<and> now < graceUntil b then None else Some (doneResult h))"

text \<open>The correlation of hooks mode: \<open>seenC\<close>, \<open>heldD\<close> and its grace.\<close>

record correlation =
  seenC :: bool
  heldD :: "mark option"
  graceEnd :: int

definition corr_obs :: "int \<Rightarrow> mark \<Rightarrow> correlation \<Rightarrow> correlation \<times> run_result option" where
  "corr_obs t m c =
     (case Kind m of
        MarkC \<Rightarrow> (if \<not> seenC c then c\<lparr>seenC := True, heldD := None\<rparr> else c, None)
      | MarkD \<Rightarrow>
          (if seenC c then (c, Some (doneResult m))
           else (if heldD c = None then c\<lparr>heldD := Some m, graceEnd := t + graceNoC\<rparr> else c, None))
      | _ \<Rightarrow> (c, None))"

section \<open>The loops\<close>

record poll =
  praw :: "byte list"
  pfail :: bool
  pobs :: int
  pnow :: int
  pcls :: "Status \<times> prompt"

text \<open>\<open>if size := j.Size(); size > off { data, err := j.ReadRange(off, size) ... }\<close>: the new offset and
  the marks of the new bytes, or the error.\<close>

definition read_marks :: "poll \<Rightarrow> int \<Rightarrow> scanner \<Rightarrow> werror + int \<times> mark list \<times> scanner" where
  "read_marks p off sc =
     (let size = int (length (praw p))
      in if size > off then
           (if pfail p then Inl ReadError
            else let data = ReadRange (praw p) off size
                 in if length data > 0
                    then Inr (off + int (length data), fst (scan_feed data sc), snd (scan_feed data sc))
                    else Inr (off, [], sc))
         else Inr (off, [], sc))"

text \<open>\<open>waitCompletion\<close>: \<open>bs\<close> is the bounded sentinel, \<open>None\<close> when the shell prints no boundary.\<close>

definition wait_obs :: "MarkKind \<Rightarrow> int \<Rightarrow> mark \<Rightarrow> boundedSentinel option \<Rightarrow> boundedSentinel option \<times> run_result option" where
  "wait_obs want t m bo =
     (case bo of None \<Rightarrow> (None, snd (plain_obs want m ()))
      | Some b \<Rightarrow> (case observe t m b of (b', r) \<Rightarrow> (Some b', r)))"

fun wait_loop :: "MarkKind \<Rightarrow> int \<Rightarrow> int \<Rightarrow> bool \<Rightarrow> poll list \<Rightarrow> int \<Rightarrow> scanner \<Rightarrow> boundedSentinel option
    \<Rightarrow> (werror + run_result) option" where
  "wait_loop want from deadline stopOnPrompt [] off sc bo = None"
| "wait_loop want from deadline stopOnPrompt (p # ps) off sc bo =
     (case read_marks p off sc of
        Inl e \<Rightarrow> Some (Inl e)
      | Inr (off', ms, sc') \<Rightarrow>
          (case each_mark (wait_obs want (pobs p)) from ms bo of
             (_, Some r) \<Rightarrow> Some (Inr r)
           | (bo', None) \<Rightarrow>
               (let past = (deadline \<le> pnow p)
                in case (case bo' of None \<Rightarrow> None | Some b \<Rightarrow> expired (pnow p) past b) of
                     Some r \<Rightarrow> Some (Inr r)
                   | None \<Rightarrow>
                       if stopOnPrompt \<and> (case bo' of None \<Rightarrow> True | Some b \<Rightarrow> held b = None)
                          \<and> fst (pcls p) = StatusAwaitingInput
                       then Some (Inr (promptResult off' (snd (pcls p))))
                       else if past then Some (Inr (timeoutResult off'))
                       else wait_loop want from deadline stopOnPrompt ps off' sc' bo')))"

definition no_held :: boundedSentinel where "no_held = \<lparr>held = None, graceUntil = 0\<rparr>"

definition waitCompletion :: "poll list \<Rightarrow> int \<Rightarrow> Mode \<Rightarrow> bool \<Rightarrow> int \<Rightarrow> bool \<Rightarrow> (werror + run_result) option" where
  "waitCompletion ps from mode bounded deadline stopOnPrompt =
     wait_loop (completionKind mode) from deadline stopOnPrompt ps from (NewScanner from)
       (if bounded \<and> mode = ModeSentinel then Some no_held else None)"

text \<open>\<open>waitCompletionCorrelated\<close>.\<close>

fun corr_loop :: "int \<Rightarrow> int \<Rightarrow> bool \<Rightarrow> poll list \<Rightarrow> int \<Rightarrow> scanner \<Rightarrow> correlation \<Rightarrow> (werror + run_result) option" where
  "corr_loop from deadline stopOnPrompt [] off sc c = None"
| "corr_loop from deadline stopOnPrompt (p # ps) off sc c =
     (case read_marks p off sc of
        Inl e \<Rightarrow> Some (Inl e)
      | Inr (off', ms, sc') \<Rightarrow>
          (case each_mark (corr_obs (pobs p)) from ms c of
             (_, Some r) \<Rightarrow> Some (Inr r)
           | (c', None) \<Rightarrow>
               (case (if pnow p < graceEnd c' then None else heldD c') of
                  Some d \<Rightarrow> Some (Inr (doneResult d))
                | None \<Rightarrow>
                    if stopOnPrompt \<and> fst (pcls p) = StatusAwaitingInput
                    then Some (Inr (promptResult off' (snd (pcls p))))
                    else if deadline \<le> pnow p
                    then Some (Inr (case heldD c' of Some d \<Rightarrow> doneResult d | None \<Rightarrow> timeoutResult off'))
                    else corr_loop from deadline stopOnPrompt ps off' sc' c')))"

definition no_corr :: correlation where "no_corr = \<lparr>seenC = False, heldD = None, graceEnd = 0\<rparr>"

definition waitCompletionCorrelated :: "poll list \<Rightarrow> int \<Rightarrow> int \<Rightarrow> bool \<Rightarrow> bool \<Rightarrow> (werror + run_result) option" where
  "waitCompletionCorrelated ps from deadline requireC stopOnPrompt =
     (if \<not> requireC then waitCompletion ps from ModeHooks False deadline stopOnPrompt
      else corr_loop from deadline stopOnPrompt ps from (NewScanner from) no_corr)"

section \<open>\<open>CompletionWatcher\<close>\<close>

record watcher =
  wfrom :: int
  woff :: int
  wsc :: scanner
  wwant :: MarkKind
  requireC :: bool
  wcorr :: correlation
  bounded :: "boundedSentinel option"

definition NewCompletionWatcher :: "int \<Rightarrow> Mode \<Rightarrow> bool \<Rightarrow> watcher" where
  "NewCompletionWatcher from mode bnded =
     \<lparr>wfrom = from, woff = from, wsc = NewScanner from, wwant = completionKind mode,
      requireC = (mode = ModeHooks), wcorr = no_corr,
      bounded = (if bnded \<and> mode = ModeSentinel then Some no_held else None)\<rparr>"

definition watch_obs :: "int \<Rightarrow> mark \<Rightarrow> watcher \<Rightarrow> watcher \<times> run_result option" where
  "watch_obs t m w =
     (case bounded w of
        Some b \<Rightarrow> (case observe t m b of (b', r) \<Rightarrow> (w\<lparr>bounded := Some b'\<rparr>, r))
      | None \<Rightarrow>
          (if \<not> requireC w then (w, if Kind m = wwant w then Some (doneResult m) else None)
           else case corr_obs t m (wcorr w) of (c, r) \<Rightarrow> (w\<lparr>wcorr := c\<rparr>, r)))"

definition Poll :: "poll \<Rightarrow> watcher \<Rightarrow> (werror + run_result option) \<times> watcher" where
  "Poll p w =
     (case read_marks p (woff w) (wsc w) of
        Inl e \<Rightarrow> (Inl e, w)
      | Inr (off', ms, sc') \<Rightarrow>
          (case each_mark (watch_obs (pobs p)) (wfrom w) ms (w\<lparr>woff := off', wsc := sc'\<rparr>) of
             (w', Some r) \<Rightarrow> (Inr (Some r), w')
           | (w', None) \<Rightarrow>
               (case (if pnow p < graceEnd (wcorr w') then None else heldD (wcorr w')) of
                  Some d \<Rightarrow> (Inr (Some (doneResult d)), w')
                | None \<Rightarrow>
                    (Inr (case bounded w' of None \<Rightarrow> None | Some b \<Rightarrow> expired (pnow p) False b), w'))))"

section \<open>\<open>WaitReady\<close>, \<open>WaitPromptCycle\<close>, \<open>Quiesce\<close>\<close>

text \<open>\<open>WaitReady\<close> in hooks mode: the first prompt mark.\<close>

fun ready_loop :: "int \<Rightarrow> poll list \<Rightarrow> int \<Rightarrow> scanner \<Rightarrow> (werror + bool) option" where
  "ready_loop deadline [] off sc = None"
| "ready_loop deadline (p # ps) off sc =
     (case read_marks p off sc of
        Inl e \<Rightarrow> Some (Inl e)
      | Inr (off', ms, sc') \<Rightarrow>
          if list_ex (\<lambda>m. Kind m = MarkA) ms then Some (Inr True)
          else if deadline \<le> pnow p then Some (Inr False)
          else ready_loop deadline ps off' sc')"

fun cycle_marks :: "mark list \<Rightarrow> nat \<times> bool \<Rightarrow> (nat \<times> bool) \<times> bool" where
  "cycle_marks [] st = (st, False)"
| "cycle_marks (m # ms) (prompts, sawD) =
     (if Kind m = MarkD then cycle_marks ms (prompts, True)
      else if Kind m = MarkA then
        (if sawD \<or> prompts + 1 \<ge> 2 then ((prompts + 1, sawD), True)
         else cycle_marks ms (prompts + 1, sawD))
      else cycle_marks ms (prompts, sawD))"

fun cycle_loop :: "int \<Rightarrow> poll list \<Rightarrow> int \<Rightarrow> scanner \<Rightarrow> nat \<times> bool \<Rightarrow> (werror + bool) option" where
  "cycle_loop deadline [] off sc st = None"
| "cycle_loop deadline (p # ps) off sc st =
     (case read_marks p off sc of
        Inl e \<Rightarrow> Some (Inl e)
      | Inr (off', ms, sc') \<Rightarrow>
          (case cycle_marks ms st of
             (_, True) \<Rightarrow> Some (Inr True)
           | (st', False) \<Rightarrow>
               if deadline \<le> pnow p then Some (Inr False) else cycle_loop deadline ps off' sc' st'))"

definition WaitPromptCycle :: "poll list \<Rightarrow> int \<Rightarrow> (werror + bool) option" where
  "WaitPromptCycle ps deadline = cycle_loop deadline ps 0 (NewScanner 0) (0, False)"

text \<open>\<open>Quiesce\<close>: the turns of the loop as pairs of clock and size.\<close>

fun quiesce_loop :: "int \<Rightarrow> int \<Rightarrow> (int \<times> int) list \<Rightarrow> int \<Rightarrow> int \<Rightarrow> bool option" where
  "quiesce_loop idle deadline [] lastSize lastChange = None"
| "quiesce_loop idle deadline ((now, sz) # ts) lastSize lastChange =
     (let changed = (sz \<noteq> lastSize);
          lastSize' = (if changed then sz else lastSize);
          lastChange' = (if changed then now else lastChange)
      in if now - lastChange' \<ge> idle then Some True
         else if deadline \<le> now then Some False
         else quiesce_loop idle deadline ts lastSize' lastChange')"

section \<open>\<open>DeriveStatus\<close>\<close>

definition scanForMark :: "byte list \<Rightarrow> int \<Rightarrow> MarkKind \<Rightarrow> bool" where
  "scanForMark raw from want =
     list_ex (\<lambda>m. Kind m = want \<and> Start m \<ge> from)
       (fst (scan_feed (ReadRange raw from (- 1)) (NewScanner from)))"

text \<open>\<open>evs\<close> is \<open>None\<close> when the event log cannot be read, \<open>since\<close> the age of \<open>raw.log\<close>, if it exists.\<close>

definition DeriveStatus :: "byte list \<Rightarrow> event list option \<Rightarrow> int option \<Rightarrow> bool \<Rightarrow> Mode \<Rightarrow> Status" where
  "DeriveStatus raw evs since alive mode =
     (if \<not> alive then StatusDead
      else case evs of None \<Rightarrow> StatusUnknown
        | Some es \<Rightarrow>
            (case PendingCmd es of
               Some pend \<Rightarrow>
                 (if scanForMark raw (Offset pend) (completionKind mode) then StatusIdle else StatusRunning)
             | None \<Rightarrow>
                 (if mode = ModeSentinel \<and> (case since of Some d \<Rightarrow> d < 1000000000 | None \<Rightarrow> False)
                  then StatusUnknown else StatusIdle)))"

end
