(* ===== verification/Wait_Laws.thy ===== *)
theory Wait_Laws
  imports Wait
begin

text \<open>
  The completion loops against the stream. \<open>mark_consumer\<close> is the contract of what a loop does with
  marks: the clock may enter its state, but not its decision. Its clients are the three bodies of the
  code; polls cut the stream anywhere, and the loops find the mark that one scan of the whole stream
  finds.
\<close>

section \<open>The contract of a loop body\<close>

locale mark_consumer =
  fixes obs :: "int \<Rightarrow> mark \<Rightarrow> 's \<Rightarrow> 's \<times> 'r option"
    and abst :: "'s \<Rightarrow> 'a"
    and aobs :: "mark \<Rightarrow> 'a \<Rightarrow> 'a \<times> 'r option"
  assumes sim: "map_prod abst id (obs t m s) = aobs m (abst s)"
begin

lemma each_sim: "map_prod abst id (each_mark (obs t) from ms s) = each_mark aobs from ms (abst s)"
proof (induction ms arbitrary: s)
  case (Cons m ms)
  obtain s' r where o: "obs t m s = (s', r)" by (cases "obs t m s") auto
  then have "aobs m (abst s) = (abst s', r)" using sim [of t m s] by simp
  then show ?case using Cons.IH o by (cases r) auto
qed simp

lemma each_run:
  assumes "each_mark aobs from us (a0) = (abst s, None)"
  shows "each_mark aobs from (us @ ms) a0 = map_prod abst id (each_mark (obs t) from ms s)"
proof -
  have "each_mark aobs from (us @ ms) a0 = each_mark aobs from ms (abst s)" using assms
  proof (induction us arbitrary: a0)
    case (Cons u us)
    then show ?case by (cases "aobs u a0"; cases "snd (aobs u a0)") (auto split: if_splits)
  qed simp
  then show ?thesis by (simp add: each_sim)
qed

end

text \<open>The bounded sentinel without its clock.\<close>

definition held_obs :: "MarkKind \<Rightarrow> mark \<Rightarrow> mark option option \<Rightarrow> mark option option \<times> run_result option" where
  "held_obs want m h =
     map_prod (map_option held) id (wait_obs want 0 m (map_option (\<lambda>x. \<lparr>held = x, graceUntil = 0\<rparr>) h))"

definition corr_abs :: "correlation \<Rightarrow> bool \<times> mark option" where
  "corr_abs c = (seenC c, heldD c)"

definition seen_obs :: "mark \<Rightarrow> bool \<times> mark option \<Rightarrow> (bool \<times> mark option) \<times> run_result option" where
  "seen_obs m a =
     (case a of (c, d) \<Rightarrow> map_prod corr_abs id (corr_obs 0 m \<lparr>seenC = c, heldD = d, graceEnd = 0\<rparr>))"

interpretation bnd: mark_consumer "wait_obs want" "map_option held" "held_obs want"
  by unfold_locales (auto simp: held_obs_def observe_def wait_obs_def split: option.splits)

interpretation corr: mark_consumer corr_obs corr_abs seen_obs
  by unfold_locales (auto simp: seen_obs_def corr_obs_def corr_abs_def split: MarkKind.splits)

section \<open>Polls of a growing stream\<close>

text \<open>\<open>growing R k ps\<close>: the polls read ever longer prefixes of \<open>R\<close>, at least \<open>k\<close> bytes of it, and
  reading does not fail.\<close>

fun growing :: "byte list \<Rightarrow> nat \<Rightarrow> poll list \<Rightarrow> bool" where
  "growing R k [] = True"
| "growing R k (p # ps) =
     (\<not> pfail p \<and> k \<le> length (praw p) \<and> length (praw p) \<le> length R
      \<and> praw p = take (length (praw p)) R \<and> growing R (length (praw p)) ps)"

definition marks_to :: "byte list \<Rightarrow> nat \<Rightarrow> nat \<Rightarrow> mark list" where
  "marks_to R from k = fst (scan_feed (slice from k R) (NewScanner (int from)))"

definition scanner_at :: "byte list \<Rightarrow> nat \<Rightarrow> nat \<Rightarrow> scanner" where
  "scanner_at R from k = snd (scan_feed (slice from k R) (NewScanner (int from)))"

lemma slice_cat:
  assumes "i \<le> j" "j \<le> k"
  shows "slice i k xs = slice i j xs @ slice j k xs"
proof -
  have "k - i = (j - i) + (k - j)" "j - i + i = j" using assms by simp_all
  then show ?thesis unfolding slice_def by (metis drop_drop take_add)
qed

lemma read_marks_growing:
  assumes "growing R k (p # ps)" "from \<le> k"
  shows "\<exists>ms. read_marks p (int k) (scanner_at R from k) =
      Inr (int (length (praw p)), ms, scanner_at R from (length (praw p)))
    \<and> marks_to R from (length (praw p)) = marks_to R from k @ ms"
proof -
  define n where "n = length (praw p)"
  have p: "\<not> pfail p" "k \<le> n" "praw p = take n R" using assms by (auto simp: n_def)
  have s: "slice from n R = slice from k R @ slice k n R" using assms(2) p(2) by (rule slice_cat)
  have d: "ReadRange (praw p) (int k) (int n) = slice k n R"
    using ReadRange_tail [of "int k" "praw p"] p(2,3) unfolding slice_def n_def [symmetric] by (simp add: take_drop)
  have l: "length (slice k n R) = n - k" using assms n_def by (auto simp: min_def)
  define ms where "ms = fst (scan_feed (slice k n R) (scanner_at R from k))"
  have m: "marks_to R from n = marks_to R from k @ ms"
    "scanner_at R from n = snd (scan_feed (slice k n R) (scanner_at R from k))"
    unfolding marks_to_def scanner_at_def ms_def s by (simp_all add: scan_feed_append case_prod_beta Let_def)
  show ?thesis
  proof (cases "k < n")
    case True
    have "slice k n R \<noteq> []" using l True by (metis diff_is_0_eq leD list.size(3))
    then have "read_marks p (int k) (scanner_at R from k) = Inr (int n, ms, scanner_at R from n)"
      using True p(1) d l m(2) by (simp add: read_marks_def n_def [symmetric] ms_def Let_def del: length_slice)
    then show ?thesis using m by (auto simp: n_def)
  next
    case False
    then have "n = k" using p by simp
    then show ?thesis by (auto simp: read_marks_def n_def)
  qed
qed

lemma scanner_at_start [simp]: "scanner_at R from from = NewScanner (int from)"
  and marks_to_start [simp]: "marks_to R from from = []"
  by (simp_all add: scanner_at_def marks_to_def slice_def)

lemma marks_from: "m \<in> set (marks_to R from k) \<Longrightarrow> int from \<le> Start m"
  using scan_new_placed [of m "slice from k R" "int from"] by (auto simp: marks_to_def placed_def)

lemma marks_mono: "growing R k ps \<Longrightarrow> from \<le> k \<Longrightarrow> p \<in> set ps \<Longrightarrow>
    \<exists>ms. marks_to R from (length (praw p)) = marks_to R from k @ ms"
proof (induction ps arbitrary: k)
  case (Cons q ps)
  obtain ms where m: "marks_to R from (length (praw q)) = marks_to R from k @ ms"
    using read_marks_growing [OF Cons.prems(1,2)] by blast
  show ?case
  proof (cases "p = q")
    case False
    then obtain ns where "marks_to R from (length (praw p)) = marks_to R from (length (praw q)) @ ns"
      using Cons.IH [of "length (praw q)"] Cons.prems by auto
    then show ?thesis using m by simp
  qed (use m in auto)
qed simp


section \<open>What the bodies compute on a whole stream\<close>

lemma each_stop:
  "each_mark f from us s = (s', Some r) \<Longrightarrow> each_mark f from (us @ vs) s = (s', Some r)"
proof (induction us arbitrary: s)
  case (Cons u us)
  then show ?case by (cases "f u s"; cases "snd (f u s)") (auto split: if_splits)
qed simp

definition boundary_done :: "mark \<Rightarrow> mark \<Rightarrow> run_result" where
  "boundary_done h m = \<lparr>Outcome = OutcomeDone, RExit = ExitCode h, MarkStart = Start m, EndOffset = End m,
     RPrompt = no_prompt\<rparr>"

lemma held_obs_simps:
  "held_obs want m None = (None, if Kind m = want then Some (doneResult m) else None)"
  "held_obs want m (Some None) = (Some (if Kind m = MarkSentinel then Some m else None), None)"
  "held_obs want m (Some (Some h)) =
     (Some (Some h), if Kind m = MarkBoundary \<and> End h \<le> Start m then Some (boundary_done h m) else None)"
  by (simp_all add: held_obs_def wait_obs_def observe_def plain_obs_def boundary_done_def)

lemma seen_obs_simps:
  "seen_obs m (True, d) = ((True, d), if Kind m = MarkD then Some (doneResult m) else None)"
  "seen_obs m (False, d) =
     (if Kind m = MarkC then ((True, None), None)
      else ((False, if Kind m = MarkD \<and> d = None then Some m else d), None))"
  by (auto simp: seen_obs_def corr_obs_def corr_abs_def split: MarkKind.splits)

lemma each_plain:
  "\<forall>m \<in> set ms. from \<le> Start m \<Longrightarrow>
   each_mark (held_obs want) from ms None = (None, map_option doneResult (find (\<lambda>m. Kind m = want) ms))"
  by (induction ms) (auto simp: held_obs_simps)

lemma each_held:
  "\<forall>m \<in> set ms. from \<le> Start m \<Longrightarrow>
   each_mark (held_obs want) from ms (Some (Some h)) =
     (Some (Some h), map_option (boundary_done h) (find (\<lambda>m. Kind m = MarkBoundary \<and> End h \<le> Start m) ms))"
  by (induction ms) (auto simp: held_obs_simps)

lemma each_bounded:
  "\<forall>m \<in> set ms. from \<le> Start m \<Longrightarrow>
   each_mark (held_obs want) from ms (Some None) =
     (case dropWhile (\<lambda>m. Kind m \<noteq> MarkSentinel) ms of
        [] \<Rightarrow> (Some None, None)
      | h # rest \<Rightarrow> (Some (Some h), map_option (boundary_done h)
          (find (\<lambda>m. Kind m = MarkBoundary \<and> End h \<le> Start m) rest)))"
  by (induction ms) (auto simp: held_obs_simps each_held)

lemma each_seen:
  "\<forall>m \<in> set ms. from \<le> Start m \<Longrightarrow>
   each_mark seen_obs from ms (True, None) =
     ((True, None), map_option doneResult (find (\<lambda>m. Kind m = MarkD) ms))"
  by (induction ms) (auto simp: seen_obs_simps)

lemma each_corr:
  "\<forall>m \<in> set ms. from \<le> Start m \<Longrightarrow>
   each_mark seen_obs from ms (False, d) =
     (case dropWhile (\<lambda>m. Kind m \<noteq> MarkC) ms of
        [] \<Rightarrow> ((False, case d of Some x \<Rightarrow> Some x | None \<Rightarrow> find (\<lambda>m. Kind m = MarkD) ms), None)
      | c # rest \<Rightarrow> ((True, None), map_option doneResult (find (\<lambda>m. Kind m = MarkD) rest)))"
  by (induction ms arbitrary: d) (auto simp: seen_obs_simps each_seen simp del: dropWhile_eq_Nil_conv split: option.split list.split)

section \<open>The loops against the stream\<close>

definition last_len :: "nat \<Rightarrow> poll list \<Rightarrow> nat" where
  "last_len k ps = (if ps = [] then k else length (praw (last ps)))"

lemma growing_last: "growing R k ps \<Longrightarrow> k \<le> last_len k ps \<and> (ps \<noteq> [] \<longrightarrow> last_len k ps \<le> length R)"
  by (induction ps arbitrary: k) (auto simp: last_len_def split: if_splits intro: le_trans)

lemma marks_to_last:
  assumes "growing R k ps" "from \<le> k"
  shows "\<exists>ms. marks_to R from (last_len k ps) = marks_to R from k @ ms"
  using marks_mono [OF assms, of "last ps"] by (auto simp: last_len_def)

lemma wait_obs_keep:
  assumes "each_mark (wait_obs want t) from ms bo = (bo', ro)" "bo \<noteq> None \<longrightarrow> t0 \<le> t"
    "\<forall>b. bo = Some b \<longrightarrow> held b \<noteq> None \<longrightarrow> t0 + graceBoundary \<le> graceUntil b"
  shows "(bo' = None \<longleftrightarrow> bo = None) \<and>
    (\<forall>b. bo' = Some b \<longrightarrow> held b \<noteq> None \<longrightarrow> t0 + graceBoundary \<le> graceUntil b)"
  using assms
proof (induction ms arbitrary: bo)
  case (Cons m ms)
  show ?case
  proof (cases "Start m < from")
    case True
    then show ?thesis using Cons.IH [of bo] Cons.prems by simp
  next
    case False
    obtain b1 r1 where o: "wait_obs want t m bo = (b1, r1)" by fastforce
    have k: "(b1 = None \<longleftrightarrow> bo = None) \<and>
      (\<forall>b. b1 = Some b \<longrightarrow> held b \<noteq> None \<longrightarrow> t0 + graceBoundary \<le> graceUntil b)"
      using o Cons.prems(2,3) by (auto simp: wait_obs_def observe_def split: option.splits if_splits)
    show ?thesis
    proof (cases r1)
      case None
      then have "each_mark (wait_obs want t) from ms b1 = (bo', ro)" using Cons.prems(1) o False by simp
      then show ?thesis using Cons.IH [of b1] Cons.prems(2) k by auto
    next
      case (Some x)
      then have "bo' = b1" using Cons.prems(1) o False by simp
      then show ?thesis using k by simp
    qed
  qed
qed simp

text \<open>While no deadline, grace or prompt interferes, the loop returns what one scan of the last
  snapshot gives.\<close>

lemma wait_loop_stream:
  assumes "growing R k ps" "from \<le> k"
    and "each_mark (held_obs want) (int from) (marks_to R from k) a0 = (map_option held bo, None)"
    and "\<forall>p \<in> set ps. pnow p < deadline \<and> (stop \<longrightarrow> fst (pcls p) \<noteq> StatusAwaitingInput)"
    and "\<forall>p \<in> set ps. bo \<noteq> None \<longrightarrow> t0 \<le> pobs p \<and> pnow p < t0 + graceBoundary"
    and "\<forall>b. bo = Some b \<longrightarrow> held b \<noteq> None \<longrightarrow> t0 + graceBoundary \<le> graceUntil b"
  shows "wait_loop want (int from) deadline stop ps (int k) (scanner_at R from k) bo =
     map_option Inr (snd (each_mark (held_obs want) (int from) (marks_to R from (last_len k ps)) a0))"
  using assms
proof (induction ps arbitrary: k bo)
  case (Cons p ps)
  define n where "n = length (praw p)"
  obtain ms where r: "read_marks p (int k) (scanner_at R from k) = Inr (int n, ms, scanner_at R from n)"
    "marks_to R from n = marks_to R from k @ ms"
    using read_marks_growing [OF Cons.prems(1,2)] by (auto simp: n_def)
  have g: "growing R n ps" "from \<le> n" using Cons.prems(1,2) by (auto simp: n_def)
  obtain bo' ro where e: "each_mark (wait_obs want (pobs p)) (int from) ms bo = (bo', ro)" by fastforce
  have e0: "each_mark (held_obs want) (int from) (marks_to R from n) a0 = (map_option held bo', ro)"
    unfolding r(2) using bnd.each_run [OF Cons.prems(3), of ms "pobs p"] e by simp
  have l: "last_len k (p # ps) = last_len n ps" by (simp add: last_len_def n_def)
  show ?case
  proof (cases ro)
    case (Some x)
    obtain us where "marks_to R from (last_len n ps) = marks_to R from n @ us"
      using marks_to_last [OF g] by blast
    then show ?thesis using each_stop [OF e0 [unfolded Some]] r e Some l by simp
  next
    case None
    have keep: "bo' = None \<longleftrightarrow> bo = None"
      "\<forall>b. bo' = Some b \<longrightarrow> held b \<noteq> None \<longrightarrow> t0 + graceBoundary \<le> graceUntil b"
      using wait_obs_keep [OF e, of t0] Cons.prems(5,6) by auto
    have x: "(case bo' of None \<Rightarrow> None | Some b \<Rightarrow> expired (pnow p) (deadline \<le> pnow p) b) = None"
      using Cons.prems(4,5) keep by (auto simp: expired_def split: option.splits)
    have "wait_loop want (int from) deadline stop (p # ps) (int k) (scanner_at R from k) bo
        = wait_loop want (int from) deadline stop ps (int n) (scanner_at R from n) bo'"
      using Cons.prems(4) r e None x by (auto simp: Let_def split: option.split)
    also have "\<dots> = map_option Inr (snd (each_mark (held_obs want) (int from) (marks_to R from (last_len n ps)) a0))"
      using Cons.IH [OF g e0 [unfolded None]] Cons.prems(4,5) keep by auto
    finally show ?thesis by (simp add: l)
  qed
qed (simp add: last_len_def)


text \<open>Without any condition on the clocks: what a \<open>done\<close> result can be.\<close>

lemma expired_held: "expired now f b = Some r \<Longrightarrow> \<exists>h. held b = Some h \<and> r = doneResult h"
  by (auto simp: expired_def split: option.splits if_splits)

lemma wait_loop_sound:
  assumes "growing R k ps" "from \<le> k"
    and "each_mark (held_obs want) (int from) (marks_to R from k) a0 = (map_option held bo, None)"
    and "wait_loop want (int from) deadline stop ps (int k) (scanner_at R from k) bo = Some (Inr r)"
    and "Outcome r = OutcomeDone"
  shows "\<exists>n \<le> last_len k ps. case each_mark (held_obs want) (int from) (marks_to R from n) a0 of
     (_, Some r') \<Rightarrow> r = r'
   | (a, None) \<Rightarrow> (\<exists>h. a = Some (Some h) \<and> r = doneResult h)"
  using assms
proof (induction ps arbitrary: k bo)
  case (Cons p ps)
  define n where "n = length (praw p)"
  obtain ms where r: "read_marks p (int k) (scanner_at R from k) = Inr (int n, ms, scanner_at R from n)"
    "marks_to R from n = marks_to R from k @ ms"
    using read_marks_growing [OF Cons.prems(1,2)] by (auto simp: n_def)
  have g: "growing R n ps" "from \<le> n" using Cons.prems(1,2) by (auto simp: n_def)
  obtain bo' ro where e: "each_mark (wait_obs want (pobs p)) (int from) ms bo = (bo', ro)" by fastforce
  have e0: "each_mark (held_obs want) (int from) (marks_to R from n) a0 = (map_option held bo', ro)"
    unfolding r(2) using bnd.each_run [OF Cons.prems(3), of ms "pobs p"] e by simp
  have l: "last_len k (p # ps) = last_len n ps" by (simp add: last_len_def n_def)
  have nl: "n \<le> last_len n ps" using growing_last [OF g(1)] by simp
  define x where "x = (case bo' of None \<Rightarrow> None | Some b \<Rightarrow> expired (pnow p) (deadline \<le> pnow p) b)"
  have loop: "wait_loop want (int from) deadline stop (p # ps) (int k) (scanner_at R from k) bo =
    (case ro of Some r \<Rightarrow> Some (Inr r)
     | None \<Rightarrow> case x of Some r \<Rightarrow> Some (Inr r)
       | None \<Rightarrow> if stop \<and> (case bo' of None \<Rightarrow> True | Some b \<Rightarrow> held b = None)
                          \<and> fst (pcls p) = StatusAwaitingInput
                       then Some (Inr (promptResult (int n) (snd (pcls p))))
                       else if deadline \<le> pnow p then Some (Inr (timeoutResult (int n)))
                       else wait_loop want (int from) deadline stop ps (int n) (scanner_at R from n) bo')"
    by (simp add: r(1) e x_def Let_def split: option.split)
  show ?case
  proof (cases ro)
    case (Some y)
    then have "r = y" using Cons.prems(4) loop by simp
    then show ?thesis using e0 Some nl l by (intro exI [of _ n]) simp
  next
    case None
    show ?thesis
    proof (cases x)
      case (Some y)
      then obtain b h where "bo' = Some b" "held b = Some h" "y = doneResult h"
        unfolding x_def by (auto split: option.splits dest: expired_held)
      moreover have "r = y" using Cons.prems(4) loop Some None by simp
      ultimately show ?thesis using e0 None nl l by (intro exI [of _ n]) simp
    next
      case x: None
      have "wait_loop want (int from) deadline stop ps (int n) (scanner_at R from n) bo' = Some (Inr r)"
        using Cons.prems(4,5) unfolding loop
        by (auto simp: None x promptResult_def timeoutResult_def split: if_splits)
      then show ?thesis using Cons.IH [OF g e0 [unfolded None]] Cons.prems(5) l by simp
    qed
  qed
qed simp

lemma wait_loop_deadline:
  "\<exists>p \<in> set ps. deadline \<le> pnow p \<Longrightarrow> wait_loop want from deadline stop ps off sc bo \<noteq> None"
proof (induction ps arbitrary: off sc bo)
  case (Cons p ps)
  show ?case
  proof (cases "read_marks p off sc")
    case (Inr x)
    obtain off' ms sc' where x: "x = (off', ms, sc')" by (cases x) auto
    obtain bo' ro where e: "each_mark (wait_obs want (pobs p)) from ms bo = (bo', ro)" by fastforce
    have "\<not> deadline \<le> pnow p \<Longrightarrow> \<exists>y. wait_loop want from deadline stop ps off' sc' bo' = Some y"
      using Cons.IH [of off' sc' bo'] Cons.prems by auto
    then show ?thesis
      by (cases ro) (auto simp: Inr x e Let_def split: option.split)
  qed simp
qed simp

lemma corr_loop_deadline:
  "\<exists>p \<in> set ps. deadline \<le> pnow p \<Longrightarrow> corr_loop from deadline stop ps off sc c \<noteq> None"
proof (induction ps arbitrary: off sc c)
  case (Cons p ps)
  show ?case
  proof (cases "read_marks p off sc")
    case (Inr x)
    obtain off' ms sc' where x: "x = (off', ms, sc')" by (cases x) auto
    obtain c' ro where e: "each_mark (corr_obs (pobs p)) from ms c = (c', ro)" by fastforce
    have "\<not> deadline \<le> pnow p \<Longrightarrow> \<exists>y. corr_loop from deadline stop ps off' sc' c' = Some y"
      using Cons.IH [of off' sc' c'] Cons.prems by auto
    then show ?thesis
      by (cases ro) (auto simp: Inr x e Let_def split: option.split)
  qed simp
qed simp

text \<open>The correlated loop.\<close>

lemma corr_loop_sound:
  assumes "growing R k ps" "from \<le> k"
    and "each_mark seen_obs (int from) (marks_to R from k) (False, None) = (corr_abs c, None)"
    and "corr_loop (int from) deadline stop ps (int k) (scanner_at R from k) c = Some (Inr r)"
    and "Outcome r = OutcomeDone"
  shows "\<exists>n \<le> last_len k ps. case each_mark seen_obs (int from) (marks_to R from n) (False, None) of
     (_, Some r') \<Rightarrow> r = r'
   | ((_, d), None) \<Rightarrow> (\<exists>h. d = Some h \<and> r = doneResult h)"
  using assms
proof (induction ps arbitrary: k c)
  case (Cons p ps)
  define n where "n = length (praw p)"
  obtain ms where r: "read_marks p (int k) (scanner_at R from k) = Inr (int n, ms, scanner_at R from n)"
    "marks_to R from n = marks_to R from k @ ms"
    using read_marks_growing [OF Cons.prems(1,2)] by (auto simp: n_def)
  have g: "growing R n ps" "from \<le> n" using Cons.prems(1,2) by (auto simp: n_def)
  obtain c' ro where e: "each_mark (corr_obs (pobs p)) (int from) ms c = (c', ro)" by fastforce
  have e0: "each_mark seen_obs (int from) (marks_to R from n) (False, None) = (corr_abs c', ro)"
    unfolding r(2) using corr.each_run [OF Cons.prems(3), of ms "pobs p"] e by simp
  have l: "last_len k (p # ps) = last_len n ps" by (simp add: last_len_def n_def)
  have nl: "n \<le> last_len n ps" using growing_last [OF g(1)] by simp
  have h: ?case if "ro = None" "heldD c' = Some d" "r = doneResult d" for d
    using e0 that nl l by (intro exI [of _ n]) (simp add: corr_abs_def)
  show ?case
  proof (cases ro)
    case (Some y)
    then have "r = y" using Cons.prems(4) r(1) e by simp
    then show ?thesis using e0 Some nl l by (intro exI [of _ n]) simp
  next
    case None
    have loop: "corr_loop (int from) deadline stop (p # ps) (int k) (scanner_at R from k) c =
      (case (if pnow p < graceEnd c' then None else heldD c') of
         Some d \<Rightarrow> Some (Inr (doneResult d))
       | None \<Rightarrow>
          if stop \<and> fst (pcls p) = StatusAwaitingInput then Some (Inr (promptResult (int n) (snd (pcls p))))
          else if deadline \<le> pnow p
          then Some (Inr (case heldD c' of Some d \<Rightarrow> doneResult d | None \<Rightarrow> timeoutResult (int n)))
          else corr_loop (int from) deadline stop ps (int n) (scanner_at R from n) c')"
      by (simp only: corr_loop.simps r(1) e None sum.case prod.case option.case)
    consider d where "heldD c' = Some d" "r = doneResult d"
      | "corr_loop (int from) deadline stop ps (int n) (scanner_at R from n) c' = Some (Inr r)"
      using Cons.prems(4,5) unfolding loop
      by (cases "heldD c'") (auto simp: promptResult_def timeoutResult_def split: if_splits)
    then show ?thesis
    proof cases
      case 2
      then show ?thesis using Cons.IH [OF g e0 [unfolded None]] Cons.prems(5) l by simp
    qed (use h None in blast)
  qed
qed simp


section \<open>The watcher is the loop, one turn at a time\<close>

text \<open>A caller that polls the watcher until it reports something.\<close>

fun watch :: "poll list \<Rightarrow> watcher \<Rightarrow> (werror + run_result) option" where
  "watch [] w = None"
| "watch (p # ps) w =
     (case Poll p w of
        (Inl e, _) \<Rightarrow> Some (Inl e)
      | (Inr (Some r), _) \<Rightarrow> Some (Inr r)
      | (Inr None, w') \<Rightarrow> watch ps w')"

text \<open>The watcher in the state of a loop: of \<open>wait_loop\<close> (\<open>bo\<close>) or of \<open>corr_loop\<close> (\<open>c\<close>).\<close>

definition wait_watcher :: "int \<Rightarrow> int \<Rightarrow> scanner \<Rightarrow> MarkKind \<Rightarrow> boundedSentinel option \<Rightarrow> watcher" where
  "wait_watcher from off sc want bo =
     \<lparr>wfrom = from, woff = off, wsc = sc, wwant = want, requireC = False, wcorr = no_corr, bounded = bo\<rparr>"

definition corr_watcher :: "int \<Rightarrow> int \<Rightarrow> scanner \<Rightarrow> correlation \<Rightarrow> watcher" where
  "corr_watcher from off sc c =
     \<lparr>wfrom = from, woff = off, wsc = sc, wwant = MarkD, requireC = True, wcorr = c, bounded = None\<rparr>"

lemma each_watch_wait:
  "each_mark (watch_obs t) f ms (wait_watcher from off sc want bo) =
     map_prod (wait_watcher from off sc want) id (each_mark (wait_obs want t) f ms bo)"
proof (induction ms arbitrary: bo)
  case (Cons m ms)
  obtain bo' r where o: "wait_obs want t m bo = (bo', r)" by fastforce
  have w: "watch_obs t m (wait_watcher from off sc want bo) = (wait_watcher from off sc want bo', r)"
    using o by (cases bo) (auto simp: watch_obs_def wait_obs_def wait_watcher_def plain_obs_def split: prod.splits)
  show ?case using Cons.IH o w by (cases r) simp_all
qed simp

lemma each_watch_corr:
  "each_mark (watch_obs t) f ms (corr_watcher from off sc c) =
     map_prod (corr_watcher from off sc) id (each_mark (corr_obs t) f ms c)"
proof (induction ms arbitrary: c)
  case (Cons m ms)
  obtain c' r where o: "corr_obs t m c = (c', r)" by fastforce
  have w: "watch_obs t m (corr_watcher from off sc c) = (corr_watcher from off sc c', r)"
    using o by (simp add: watch_obs_def corr_watcher_def)
  show ?case using Cons.IH o w by (cases r) simp_all
qed simp

lemma watch_wait_loop:
  "\<forall>p \<in> set ps. pnow p < deadline \<Longrightarrow>
   watch ps (wait_watcher from off sc want bo) = wait_loop want from deadline False ps off sc bo"
proof (induction ps arbitrary: off sc bo)
  case (Cons p ps)
  have sel: "woff (wait_watcher from off sc want bo) = off" "wsc (wait_watcher from off sc want bo) = sc"
    "wfrom (wait_watcher from off sc want bo) = from"
    "\<And>o' s'. (wait_watcher from off sc want bo)\<lparr>woff := o', wsc := s'\<rparr> = wait_watcher from o' s' want bo"
    by (simp_all add: wait_watcher_def)
  show ?case
  proof (cases "read_marks p off sc")
    case (Inl e)
    then show ?thesis by (simp add: Poll_def sel)
  next
    case (Inr x)
    obtain off' ms sc' where x: "x = (off', ms, sc')" by (cases x) auto
    obtain bo' ro where e: "each_mark (wait_obs want (pobs p)) from ms bo = (bo', ro)" by fastforce
    have h: "heldD (wcorr (wait_watcher from off' sc' want bo')) = None"
      "bounded (wait_watcher from off' sc' want bo') = bo'"
      by (simp_all add: wait_watcher_def no_corr_def)
    have d: "\<not> deadline \<le> pnow p" using Cons.prems by simp
    show ?thesis
      using Cons.IH [of off' sc' bo'] Cons.prems d
      by (cases ro) (auto simp: Poll_def sel Inr x each_watch_wait e h Let_def split: option.split)
  qed
qed simp

lemma watch_corr_loop:
  "\<forall>p \<in> set ps. pnow p < deadline \<Longrightarrow>
   watch ps (corr_watcher from off sc c) = corr_loop from deadline False ps off sc c"
proof (induction ps arbitrary: off sc c)
  case (Cons p ps)
  have sel: "woff (corr_watcher from off sc c) = off" "wsc (corr_watcher from off sc c) = sc"
    "wfrom (corr_watcher from off sc c) = from"
    "\<And>o' s'. (corr_watcher from off sc c)\<lparr>woff := o', wsc := s'\<rparr> = corr_watcher from o' s' c"
    by (simp_all add: corr_watcher_def)
  show ?case
  proof (cases "read_marks p off sc")
    case (Inl e)
    then show ?thesis by (simp add: Poll_def sel)
  next
    case (Inr x)
    obtain off' ms sc' where x: "x = (off', ms, sc')" by (cases x) auto
    obtain c' ro where e: "each_mark (corr_obs (pobs p)) from ms c = (c', ro)" by fastforce
    have h: "wcorr (corr_watcher from off' sc' c') = c'" "bounded (corr_watcher from off' sc' c') = None"
      by (simp_all add: corr_watcher_def)
    have d: "\<not> deadline \<le> pnow p" using Cons.prems by simp
    show ?thesis
      using Cons.IH [of off' sc' c'] Cons.prems d
      by (cases ro) (auto simp: Poll_def sel Inr x each_watch_corr e h Let_def split: option.split)
  qed
qed simp

lemma new_watcher:
  "NewCompletionWatcher from mode b =
     (if mode = ModeHooks then corr_watcher from from (NewScanner from) no_corr
      else wait_watcher from from (NewScanner from) (completionKind mode) (if b then Some no_held else None))"
  by (cases mode) (auto simp: NewCompletionWatcher_def corr_watcher_def wait_watcher_def completionKind_def)

section \<open>The end of a command in the stream\<close>

lemma find_append: "find P (us @ vs) = (case find P us of Some x \<Rightarrow> Some x | None \<Rightarrow> find P vs)"
  by (induction us) auto

lemma no_marks_find: "\<forall>m \<in> set ms. \<not> P m \<Longrightarrow> find P ms = None"
  by (induction ms) auto

text \<open>The marks of a stream that ends with the sentinel of exit code \<open>n\<close>.\<close>

lemma marks_sentinel:
  assumes "- (2 ^ 63) \<le> n" "n < 2 ^ 63" "from = length pre"
  shows "marks_to (pre @ out @ sentinel n) from (length (pre @ out @ sentinel n)) =
    fst (scan_feed out (NewScanner (int from))) @
    [\<lparr>Kind = MarkSentinel, ExitCode = n, Start = int (length (pre @ out)),
      End = int (length (pre @ out @ sentinel n))\<rparr>]"
proof -
  have s: "slice from (length (pre @ out @ sentinel n)) (pre @ out @ sentinel n) = out @ sentinel n"
    using assms(3) by (simp add: slice_def)
  define sc where "sc = snd (scan_feed out (NewScanner (int from)))"
  have p: "spos sc = int (length (pre @ out))"
    using scan_new_inv [of "int from" out] assms(3) by (simp add: scan_inv_def sc_def)
  show ?thesis
    unfolding marks_to_def s scan_feed_append sc_def [symmetric]
    using scan_sentinel [OF assms(1,2), of sc] p by (auto simp: case_prod_beta Let_def sc_def [symmetric])
qed

lemma marks_protocol:
  assumes "- (2 ^ 63) \<le> n" "n < 2 ^ 63" "from = length pre"
  shows "marks_to (pre @ out @ sentinel n @ SentinelBoundary) from (length (pre @ out @ sentinel n @ SentinelBoundary)) =
    fst (scan_feed out (NewScanner (int from))) @
    (let i = int (length (pre @ out)); j = i + int (length (sentinel n))
     in [\<lparr>Kind = MarkSentinel, ExitCode = n, Start = i, End = j\<rparr>,
         \<lparr>Kind = MarkBoundary, ExitCode = -1, Start = j, End = j + 9\<rparr>])"
proof -
  have s: "slice from (length (pre @ out @ sentinel n @ SentinelBoundary)) (pre @ out @ sentinel n @ SentinelBoundary)
      = out @ sentinel n @ SentinelBoundary"
    using assms(3) by (simp add: slice_def)
  show ?thesis
    unfolding marks_to_def s protocol_scan [OF assms(1,2)] using assms(3) by (simp add: Let_def)
qed

lemma waitCompletion_stream:
  assumes "growing R from ps" "ps \<noteq> []" "praw (last ps) = R"
    and "\<forall>p \<in> set ps. pnow p < deadline \<and> (stop \<longrightarrow> fst (pcls p) \<noteq> StatusAwaitingInput)"
    and "\<forall>p \<in> set ps. t0 \<le> pobs p \<and> pnow p < t0 + graceBoundary"
  shows "waitCompletion ps (int from) mode b deadline stop =
     map_option Inr (snd (each_mark (held_obs (completionKind mode)) (int from)
       (marks_to R from (length R)) (if b \<and> mode = ModeSentinel then Some None else None)))"
proof -
  have l: "last_len from ps = length R" using assms(2,3) by (simp add: last_len_def)
  show ?thesis
    using wait_loop_stream [OF assms(1), of "from" "completionKind mode"
        "if b \<and> mode = ModeSentinel then Some None else None" "if b \<and> mode = ModeSentinel then Some no_held else None"
        deadline stop t0] assms(4,5) l
    by (simp add: waitCompletion_def no_held_def split: if_splits)
qed

text \<open>The plain sentinel needs no condition on the grace period.\<close>

lemma waitCompletion_plain:
  assumes "growing R from ps" "ps \<noteq> []" "praw (last ps) = R" "\<not> (b \<and> mode = ModeSentinel)"
    and "\<forall>p \<in> set ps. pnow p < deadline \<and> (stop \<longrightarrow> fst (pcls p) \<noteq> StatusAwaitingInput)"
  shows "waitCompletion ps (int from) mode b deadline stop =
     map_option (Inr \<circ> doneResult) (find (\<lambda>m. Kind m = completionKind mode) (marks_to R from (length R)))"
proof -
  have l: "last_len from ps = length R" using assms(2,3) by (simp add: last_len_def)
  have m: "\<forall>m \<in> set (marks_to R from (length R)). int from \<le> Start m" using marks_from by blast
  show ?thesis
    using wait_loop_stream [OF assms(1), of "from" "completionKind mode" None None deadline stop 0] assms(4,5) l
    by (auto simp: waitCompletion_def each_plain [OF m] option.map_comp)
qed


section \<open>Specification of the correlated wait\<close>

text \<open>The completion of a command in hooks mode: the first D after the first C, or, when there is no
  C, the first D.\<close>

definition corr_spec :: "mark list \<Rightarrow> mark option" where
  "corr_spec ms =
     (case dropWhile (\<lambda>m. Kind m \<noteq> MarkC) ms of
        [] \<Rightarrow> find (\<lambda>m. Kind m = MarkD) ms
      | c # rest \<Rightarrow> find (\<lambda>m. Kind m = MarkD) rest)"

lemma correlated_sound:
  assumes "growing R from ps"
    and "waitCompletionCorrelated ps (int from) deadline True stop = Some (Inr r)"
    and "Outcome r = OutcomeDone"
  shows "\<exists>n \<le> last_len from ps. map_option doneResult (corr_spec (marks_to R from n)) = Some r"
proof -
  have "corr_loop (int from) deadline stop ps (int from) (scanner_at R from from) no_corr = Some (Inr r)"
    using assms(2) by (simp add: waitCompletionCorrelated_def)
  then obtain n where n: "n \<le> last_len from ps"
    "case each_mark seen_obs (int from) (marks_to R from n) (False, None) of
       (_, Some r') \<Rightarrow> r = r' | ((_, d), None) \<Rightarrow> (\<exists>h. d = Some h \<and> r = doneResult h)"
    using corr_loop_sound [OF assms(1) order_refl, of no_corr deadline stop r] assms(3)
    by (auto simp: corr_abs_def no_corr_def)
  have "\<forall>m \<in> set (marks_to R from n). int from \<le> Start m" using marks_from by blast
  then have "map_option doneResult (corr_spec (marks_to R from n)) = Some r"
    using n(2) by (auto simp: each_corr corr_spec_def simp del: dropWhile_eq_Nil_conv split: list.splits option.splits)
  then show ?thesis using n(1) by blast
qed

text \<open>A hooks-mode command whose own C has been read never completes at a D before it.\<close>

lemma corr_spec_after_C:
  assumes "corr_spec (us @ c # vs) = Some d" "Kind c = MarkC"
  shows "d \<notin> set us \<or> (\<exists>e \<in> set us. Kind e = MarkC) \<or> d \<in> set vs"
proof (cases "\<exists>e \<in> set us. Kind e = MarkC")
  case False
  then have "dropWhile (\<lambda>m. Kind m \<noteq> MarkC) (us @ c # vs) = c # vs"
    using assms(2) by (induction us) auto
  then have "find (\<lambda>m. Kind m = MarkD) vs = Some d" using assms(1) by (simp add: corr_spec_def)
  then show ?thesis by (auto simp: find_Some_iff)
qed simp

section \<open>Status and the watcher agree\<close>

lemma find_list_ex: "list_ex P xs \<longleftrightarrow> find P xs \<noteq> None"
  by (induction xs) auto

lemma scanForMark_wait:
  assumes "from \<le> length R"
  shows "scanForMark R (int from) want \<longleftrightarrow> find (\<lambda>m. Kind m = want) (marks_to R from (length R)) \<noteq> None"
proof -
  have s: "marks_to R from (length R) = fst (scan_feed (drop from R) (NewScanner (int from)))"
    by (simp add: marks_to_def slice_def)
  have "\<forall>m \<in> set (marks_to R from (length R)). int from \<le> Start m" using marks_from by blast
  then have "scanForMark R (int from) want \<longleftrightarrow> list_ex (\<lambda>m. Kind m = want) (marks_to R from (length R))"
    unfolding s scanForMark_def by (auto simp: ReadRange_eof list_ex_iff)
  then show ?thesis by (simp add: find_list_ex)
qed

end
