(* ===== verification/Shape.thy ===== *)
theory Shape
  imports Text Scanner "HOL-Library.Sublist"
begin

text \<open>
  \<open>internal/shape/shape.go\<close>: from the raw journal bytes to readable text. The loops of the source
  that walk an index \<open>i\<close> over \<open>b\<close> are functions of the rest \<open>b[i:]\<close>; a helper that returns an index
  returns the rest after it. The regular expression \<open>promptSPRe\<close> is a matcher on the rest: none of its
  choices ever needs to be taken back, since a repeated part never starts with what follows it.
\<close>

section \<open>Lines\<close>

abbreviation NL :: byte where "NL \<equiv> 0x0a"
abbreviation CR :: byte where "CR \<equiv> 0x0d"
abbreviation TAB :: byte where "TAB \<equiv> 0x09"
abbreviation SP :: byte where "SP \<equiv> 0x20"

abbreviation lines_of :: "byte list \<Rightarrow> byte list list" where
  "lines_of s \<equiv> split_on NL s"

abbreviation unlines :: "byte list list \<Rightarrow> byte list" where
  "unlines ls \<equiv> join_with [NL] ls"

section \<open>Escape sequences\<close>

definition stringPayloadCap :: nat where "stringPayloadCap = 4096"

text \<open>The scan of \<open>skipCSI\<close>: the rest after the final byte, \<open>None\<close> when the sequence is malformed.\<close>

fun csi_scan :: "byte list \<Rightarrow> byte list option" where
  "csi_scan [] = None"
| "csi_scan (d # r) =
     (if 0x40 \<le> d \<and> d \<le> 0x7e then Some r
      else if 0x20 \<le> d \<and> d \<le> 0x3f then csi_scan r
      else None)"

definition skipCSI :: "byte list \<Rightarrow> byte list" where
  "skipCSI s = (case csi_scan (drop 2 s) of Some r \<Rightarrow> r | None \<Rightarrow> drop 1 s)"

text \<open>The scan of \<open>skipStringSeq\<close> over at most \<open>k\<close> payload bytes.\<close>

fun string_scan :: "nat \<Rightarrow> byte list \<Rightarrow> byte list option" where
  "string_scan 0 p = None"
| "string_scan (Suc k) [] = None"
| "string_scan (Suc k) (b # r) =
     (if b = BEL then Some r
      else if b = ESC \<and> take 1 r = [0x5c] then Some (drop 1 r)
      else string_scan k r)"

definition skipStringSeq :: "byte list \<Rightarrow> byte list" where
  "skipStringSeq s =
     (case string_scan stringPayloadCap (drop 2 s) of
        Some r \<Rightarrow> r
      | None \<Rightarrow> if length (drop 2 s) \<le> stringPayloadCap then [] else drop 1 s)"

definition is_string_intro :: "byte \<Rightarrow> bool" where
  "is_string_intro c \<longleftrightarrow> c \<in> set (bs '']P_X^'')"

text \<open>What \<open>StripANSI\<close> and \<open>dropEscapes\<close> do at an ESC.\<close>

definition skip_escape :: "byte list \<Rightarrow> byte list" where
  "skip_escape s =
     (if length s \<le> 1 then drop 1 s
      else if s ! 1 = bc CHR ''['' then skipCSI s
      else if is_string_intro (s ! 1) then skipStringSeq s
      else drop 2 s)"

lemma csi_scan_length: "csi_scan p = Some r \<Longrightarrow> length r < length p"
  by (induction p) (fastforce split: if_splits)+

lemma string_scan_length: "string_scan k p = Some r \<Longrightarrow> length r < length p"
  by (induction k p rule: string_scan.induct) (auto split: if_splits)

lemma skip_escape_length: "s \<noteq> [] \<Longrightarrow> length (skip_escape s) < length s"
  using csi_scan_length [of "drop 2 s"] string_scan_length [of stringPayloadCap "drop 2 s"]
  by (cases s) (fastforce simp: skip_escape_def skipCSI_def skipStringSeq_def split: option.split)+

function StripANSI :: "byte list \<Rightarrow> byte list" where
  "StripANSI [] = []"
| "StripANSI (c # b) =
     (if c = hd SentinelBoundary \<and> has_prefix (c # b) SentinelBoundary
      then StripANSI (drop (length SentinelBoundary) (c # b))
      else if c = ESC then StripANSI (skip_escape (c # b))
      else if c = NL \<or> c = TAB then c # StripANSI b
      else if c < 0x20 then StripANSI b
      else c # StripANSI b)"
  by pat_completeness auto
termination
proof (relation "measure length", goal_cases)
  case (2 c b)
  then show ?case by (simp add: SentinelBoundary_def)
next
  case (3 c b)
  then show ?case using skip_escape_length [of "c # b"] by simp
qed simp_all

function dropEscapes_loop :: "byte list \<Rightarrow> byte list" where
  "dropEscapes_loop [] = []"
| "dropEscapes_loop (c # b) =
     (if c \<noteq> ESC then c # dropEscapes_loop b else dropEscapes_loop (skip_escape (c # b)))"
  by pat_completeness auto
termination
proof (relation "measure length", goal_cases)
  case (3 c b)
  then show ?case using skip_escape_length [of "c # b"] by simp
qed simp_all

definition dropEscapes :: "byte list \<Rightarrow> byte list" where
  "dropEscapes b = (if ESC \<notin> set b then b else dropEscapes_loop b)"

section \<open>Carriage returns\<close>

text \<open>\<open>promptSPRe\<close>: one SGR sequence, any number of them, and the whole expression. The result is the
  rest after the match.\<close>

definition sgr_seq :: "byte list \<Rightarrow> byte list option" where
  "sgr_seq p =
     (if take 2 p = [ESC, bc CHR ''[''] then
        (case dropWhile (\<lambda>b. is_digit b \<or> b = bc CHR '';'') (drop 2 p) of
           [] \<Rightarrow> None
         | d # r \<Rightarrow> if d = bc CHR ''m'' then Some r else None)
      else None)"

lemma sgr_seq_length: "sgr_seq p = Some r \<Longrightarrow> length r < length p"
proof -
  assume a: "sgr_seq p = Some r"
  then obtain d where "dropWhile (\<lambda>b. is_digit b \<or> b = bc CHR '';'') (drop 2 p) = d # r"
    by (auto simp: sgr_seq_def split: if_splits list.splits)
  then have "length (d # r) \<le> length (drop 2 p)" by (metis length_dropWhile_le)
  then show ?thesis by simp
qed

function skip_sgrs :: "byte list \<Rightarrow> byte list" where
  "skip_sgrs p = (case sgr_seq p of None \<Rightarrow> p | Some r \<Rightarrow> skip_sgrs r)"
  by pat_completeness auto
termination by (relation "measure length") (simp_all add: sgr_seq_length)

declare skip_sgrs.simps [simp del]

definition promptSP :: "byte list \<Rightarrow> byte list option" where
  "promptSP p =
     (case skip_sgrs p of
        [] \<Rightarrow> None
      | c # q \<Rightarrow>
          if c \<noteq> bc CHR ''%'' then None
          else let q1 = skip_sgrs q;
                   q2 = dropWhile (\<lambda>b. b = SP) q1
               in if length q1 - length q2 < 8 \<or> take 1 q2 \<noteq> [CR] then None
                  else Some (if take 2 (drop 1 q2) = [SP, CR] then drop 3 q2 else drop 1 q2))"

lemma skip_sgrs_length: "length (skip_sgrs p) \<le> length p"
proof (induction p rule: skip_sgrs.induct)
  case (1 p)
  show ?case
  proof (cases "sgr_seq p")
    case (Some r)
    then show ?thesis using 1 [OF Some] sgr_seq_length [OF Some] by (simp add: skip_sgrs.simps [of p])
  qed (simp add: skip_sgrs.simps [of p])
qed

lemma promptSP_length: "promptSP p = Some r \<Longrightarrow> length r < length p"
proof -
  assume a: "promptSP p = Some r"
  then obtain c q where s: "skip_sgrs p = c # q" by (auto simp: promptSP_def split: list.splits)
  define q2 where "q2 = dropWhile (\<lambda>b. b = SP) (skip_sgrs q)"
  have "length q2 \<le> length (skip_sgrs q)" unfolding q2_def by (rule length_dropWhile_le)
  then have "length q2 \<le> length q" using skip_sgrs_length [of q] by simp
  moreover have "length q < length p" using skip_sgrs_length [of p] s by simp
  moreover have "r = drop 3 q2 \<or> r = drop 1 q2"
    using a s by (auto simp: promptSP_def q2_def Let_def split: if_splits)
  ultimately show ?thesis by auto
qed

text \<open>\<open>promptSPRe.ReplaceAll(b, "\n")\<close>.\<close>

function replace_promptSP :: "byte list \<Rightarrow> byte list" where
  "replace_promptSP [] = []"
| "replace_promptSP (c # b) =
     (case promptSP (c # b) of
        Some r \<Rightarrow> NL # replace_promptSP r
      | None \<Rightarrow> c # replace_promptSP b)"
  by pat_completeness auto
termination
proof (relation "measure length", goal_cases)
  case (3 c b r)
  then show ?case using promptSP_length by fastforce
qed simp_all

text \<open>\<open>bytes.ReplaceAll(b, "\r\n", "\n")\<close>.\<close>

fun crlf_lf :: "byte list \<Rightarrow> byte list" where
  "crlf_lf [] = []"
| "crlf_lf [c] = [c]"
| "crlf_lf (c # d # b) = (if c = CR \<and> d = NL then NL # crlf_lf b else c # crlf_lf (d # b))"

text \<open>\<open>line[idx+1:]\<close> for the last carriage return.\<close>

definition after_cr :: "byte list \<Rightarrow> byte list" where
  "after_cr l = last (split_on CR l)"

definition CollapseCR :: "byte list \<Rightarrow> byte list" where
  "CollapseCR b =
     (let b1 = replace_promptSP b; b2 = dropEscapes b1; b3 = crlf_lf b2
      in unlines (map after_cr (lines_of b3)))"

section \<open>Boundary, echo, truncation\<close>

function StripBoundary :: "byte list \<Rightarrow> byte list" where
  "StripBoundary [] = []"
| "StripBoundary (c # b) =
     (if has_prefix (c # b) SentinelBoundary then StripBoundary (drop (length SentinelBoundary) (c # b))
      else c # StripBoundary b)"
  by pat_completeness auto
termination by (relation "measure length") (simp_all add: SentinelBoundary_def)

definition maxEchoWrapLines :: nat where "maxEchoWrapLines = 6"

text \<open>\<open>strings.TrimRight(l, " \t")\<close>, \<open>strings.HasSuffix\<close>, a blank line.\<close>

definition trim_pad :: "byte list \<Rightarrow> byte list" where
  "trim_pad l = rstrip (\<lambda>b. b = SP \<or> b = TAB) l"

definition has_suffix :: "byte list \<Rightarrow> byte list \<Rightarrow> bool" where
  "has_suffix s q \<longleftrightarrow> length q \<le> length s \<and> drop (length s - length q) s = q"

definition is_blank :: "byte list \<Rightarrow> bool" where
  "is_blank l \<longleftrightarrow> trim_space l = []"

definition wrapJoinEndsWith :: "byte list list \<Rightarrow> byte list \<Rightarrow> bool" where
  "wrapJoinEndsWith seg cmd \<longleftrightarrow>
     has_suffix (trim_pad (concat seg)) cmd \<or> has_suffix (concat (map trim_pad seg)) cmd"

text \<open>The loop over \<open>k\<close>: \<open>ls\<close> is \<open>lines[i:]\<close>, \<open>fuel\<close> counts the values of \<open>k\<close> left up to
  \<open>maxEchoWrapLines\<close>. \<open>None\<close>: no join matches.\<close>

fun wrap_loop :: "nat \<Rightarrow> nat \<Rightarrow> byte list list \<Rightarrow> byte list \<Rightarrow> byte list list option" where
  "wrap_loop 0 k ls cmd = None"
| "wrap_loop (Suc n) k ls cmd =
     (if length ls < k then None
      else if is_blank (ls ! (k - 1)) then None
      else if length cmd \<le> length (trim_pad (ls ! (k - 1))) then wrap_loop n (k + 1) ls cmd
      else if wrapJoinEndsWith (take k ls) cmd then Some (drop k ls)
      else wrap_loop n (k + 1) ls cmd)"

definition DropEchoedCommand :: "byte list \<Rightarrow> byte list \<Rightarrow> byte list" where
  "DropEchoedCommand txt cmd =
     (if cmd = [] then txt
      else case dropWhile is_blank (lines_of txt) of
        [] \<Rightarrow> txt
      | l # ls \<Rightarrow>
          if has_suffix (trim_pad l) cmd then unlines ls
          else (case wrap_loop (maxEchoWrapLines - 1) 2 (l # ls) cmd of
                  Some rest \<Rightarrow> unlines rest
                | None \<Rightarrow> txt))"

definition truncMarker :: "byte list" where "truncMarker = [0xe2, 0x80, 0xa6]"

definition Truncate :: "byte list \<Rightarrow> int \<Rightarrow> int \<Rightarrow> byte list \<times> int" where
  "Truncate txt hd0 tl0 =
     (let h = (if hd0 < 0 then 0 else nat hd0); k = (if tl0 < 0 then 0 else nat tl0);
          ls = lines_of txt; n = length ls
      in if n \<le> h + k then (txt, 0)
         else (unlines (take h ls @ [truncMarker] @ drop (n - k) ls), int (n - h - k)))"

definition trimLeadingBlankLines :: "byte list \<Rightarrow> byte list" where
  "trimLeadingBlankLines s = unlines (dropWhile is_blank (lines_of s))"

definition trimTrailingBlankLines :: "byte list \<Rightarrow> byte list" where
  "trimTrailingBlankLines s = unlines (rstrip is_blank (lines_of s))"

definition RenderText :: "byte list \<Rightarrow> byte list \<Rightarrow> int \<Rightarrow> int \<Rightarrow> byte list \<times> int" where
  "RenderText raw cmd h k =
     (let b = CollapseCR raw; b1 = StripANSI b;
          t1 = trimTrailingBlankLines b1;
          t2 = DropEchoedCommand t1 cmd;
          t3 = trimLeadingBlankLines t2
      in Truncate t3 h k)"

definition lastNonBlankLine :: "byte list \<Rightarrow> byte list" where
  "lastNonBlankLine s =
     (case dropWhile is_blank (rev (lines_of s)) of [] \<Rightarrow> [] | l # _ \<Rightarrow> trim_space l)"

end
