(* ===== verification/Shape_Laws.thy ===== *)
theory Shape_Laws
  imports Shape Marks
begin

text \<open>
  What the shaping steps of \<open>shape.go\<close> guarantee: \<open>StripANSI\<close> only deletes and leaves no control byte
  but newline and tab, plain text passes unchanged, the sequences pairmux prints disappear,
  \<open>CollapseCR\<close> leaves no carriage return, \<open>Truncate\<close> keeps the first and last lines and counts the
  rest, and the whole pipeline gives clean text of bounded length.
\<close>

section \<open>Lines\<close>

lemma split_on_sep: "l \<in> set (split_on c s) \<Longrightarrow> c \<notin> set l"
proof (induction s arbitrary: l)
  case (Cons b s)
  obtain f fs where s: "split_on c s = f # fs" using split_on_ne by (metis list.exhaust)
  show ?case using Cons.prems Cons.IH [of f] Cons.IH [of l] s by (auto split: if_splits)
qed simp

lemmas lines_no_nl = split_on_sep [of _ NL]

lemma set_lines: "l \<in> set (split_on c s) \<Longrightarrow> set l \<subseteq> set s"
proof (induction s arbitrary: l)
  case (Cons b s)
  obtain f fs where s: "split_on c s = f # fs" using split_on_ne by (metis list.exhaust)
  show ?case using Cons.prems Cons.IH [of f] Cons.IH [of l] s by (auto split: if_splits)
qed simp

lemma set_unlines: "set (join_with sep ls) \<subseteq> (\<Union>l \<in> set ls. set l) \<union> set sep"
  by (induction sep ls rule: join_with.induct) auto

text \<open>Bytes of a text made of some lines of another text.\<close>

lemma set_unlines_lines:
  assumes "set ls \<subseteq> set (lines_of s) \<union> X" "\<forall>x \<in> X. set x \<subseteq> S" "set s \<subseteq> S" "NL \<in> S"
  shows "set (unlines ls) \<subseteq> S"
proof -
  have "set l \<subseteq> S" if "l \<in> set ls" for l
    using assms that set_lines [of l NL s] by blast
  then show ?thesis using set_unlines [of "[NL]" ls] assms(4) by fastforce
qed

lemma lines_unlines: "ls \<noteq> [] \<Longrightarrow> \<forall>l \<in> set ls. NL \<notin> set l \<Longrightarrow> lines_of (unlines ls) = ls"
  by (rule split_join)

section \<open>\<open>StripANSI\<close>\<close>

definition clean_byte :: "byte \<Rightarrow> bool" where
  "clean_byte b \<longleftrightarrow> 0x20 \<le> b \<or> b = NL \<or> b = TAB"

lemma skip_escape_suffix: "\<exists>q. s = q @ skip_escape s"
proof -
  have c: "csi_scan p = Some r \<Longrightarrow> \<exists>q. p = q @ r" for p r
    by (induction p) (auto split: if_splits intro: exI [of _ "_ # _"])
  have t: "string_scan k p = Some r \<Longrightarrow> \<exists>q. p = q @ r" for k p r
  proof (induction k p rule: string_scan.induct)
    case (3 k b p)
    then show ?case
      by (auto split: if_splits intro: exI [of _ "b # _"]) (metis append_Cons append_take_drop_id)
  qed auto
  have d: "\<exists>q. s = q @ drop n s" for n by (metis append_take_drop_id)
  have "\<exists>q. s = q @ r" if "\<exists>q. drop 2 s = q @ r" for r
    using that by (metis append.assoc append_take_drop_id)
  then show ?thesis
    using c [of "drop 2 s"] t [of stringPayloadCap "drop 2 s"] d
    by (auto simp: skip_escape_def skipCSI_def skipStringSeq_def split: option.split)
qed

lemma StripANSI_clean: "list_all clean_byte (StripANSI b)"
  by (induction b rule: StripANSI.induct) (auto simp: clean_byte_def not_less)

lemma subseq_drop_suffix: "\<exists>q. s = q @ r \<Longrightarrow> subseq x r \<Longrightarrow> subseq x s"
  using list_emb_append2 by blast

lemma StripANSI_subseq: "subseq (StripANSI b) b"
proof (induction b rule: StripANSI.induct)
  case (2 c b)
  have "subseq (StripANSI (drop n (c # b))) (c # b)"
    if "subseq (StripANSI (drop n (c # b))) (drop n (c # b))" for n
    using that by (rule subseq_drop_suffix [rotated]) (metis append_take_drop_id)
  then show ?case
    using 2 subseq_drop_suffix [OF skip_escape_suffix [of "c # b"]] by auto
qed simp

text \<open>Plain text, i.e. no control byte but newline and tab, and no boundary in it, is left alone.\<close>

lemma StripANSI_plain:
  "list_all clean_byte b \<Longrightarrow> (\<nexists>u v. b = u @ SentinelBoundary @ v) \<Longrightarrow> StripANSI b = b"
proof (induction b)
  case (Cons c b)
  have np: "\<not> has_prefix (c # b) SentinelBoundary"
    using Cons.prems(2) unfolding has_prefix_def by (metis append_Nil append_take_drop_id)
  have "\<nexists>u v. b = u @ SentinelBoundary @ v"
    using Cons.prems(2) by (metis append_Cons)
  moreover have "c \<noteq> ESC" using Cons.prems(1) by (auto simp: clean_byte_def word_le_nat_alt)
  ultimately show ?case using Cons np by (auto simp: clean_byte_def not_less)
qed simp

text \<open>Text without ESC in front of an ESC does not change what follows.\<close>

lemma boundary_no_esc: "ESC \<notin> set SentinelBoundary"
  by (simp add: SentinelBoundary_def)

lemma has_prefix_length: "has_prefix p q \<Longrightarrow> length q \<le> length p"
  unfolding has_prefix_def by (metis length_take min.cobounded1)

lemma has_prefix_before_esc:
  assumes "ESC \<notin> set u"
  shows "has_prefix (u @ ESC # x) SentinelBoundary \<longleftrightarrow> has_prefix u SentinelBoundary"
proof (cases "length SentinelBoundary \<le> length u")
  case False
  then have "take (length SentinelBoundary) (u @ ESC # x) = u @ ESC # take (length SentinelBoundary - length u - 1) x"
    by (cases "length SentinelBoundary - length u") simp_all
  then have "ESC \<in> set (take (length SentinelBoundary) (u @ ESC # x))" by simp
  moreover have "length (take (length SentinelBoundary) u) \<noteq> length SentinelBoundary" using False by simp
  ultimately show ?thesis using boundary_no_esc unfolding has_prefix_def by metis
qed (simp add: has_prefix_def)

lemma StripANSI_before_esc:
  assumes "Y = ESC # x"
  shows "ESC \<notin> set u \<Longrightarrow> StripANSI (u @ Y) = StripANSI u @ StripANSI Y"
proof (induction u rule: StripANSI.induct)
  case (2 c b)
  have c: "c \<noteq> ESC" "ESC \<notin> set b" using 2(6) by auto
  have p: "has_prefix (c # b @ Y) SentinelBoundary = has_prefix (c # b) SentinelBoundary"
    using has_prefix_before_esc [OF 2(6), of x] assms by simp
  show ?case
  proof (cases "has_prefix (c # b) SentinelBoundary")
    case True
    then have l: "length SentinelBoundary \<le> length (c # b)" by (rule has_prefix_length)
    have h: "c = hd SentinelBoundary" using True by (auto simp: has_prefix_def SentinelBoundary_def)
    have d: "drop (length SentinelBoundary) (c # b @ Y) = drop (length SentinelBoundary) (c # b) @ Y"
      using l drop_append [of "length SentinelBoundary" "c # b" Y] by simp
    have "ESC \<notin> set (drop (length SentinelBoundary) (c # b))"
      using 2(6) by (meson in_set_dropD)
    then have "StripANSI (drop (length SentinelBoundary) (c # b @ Y)) =
        StripANSI (drop (length SentinelBoundary) (c # b)) @ StripANSI Y"
      unfolding d using 2(1) True h by simp
    then show ?thesis using True p h by simp
  next
    case False
    then show ?thesis using 2(3-5) p c by simp
  qed
qed simp

lemma string_scan_payload:
  "ESC \<notin> set pl \<Longrightarrow> BEL \<notin> set pl \<Longrightarrow> length pl < k \<Longrightarrow> string_scan k (pl @ BEL # v) = Some v"
proof (induction pl arbitrary: k)
  case Nil
  then show ?case by (cases k) simp_all
next
  case (Cons b pl)
  then show ?case by (cases k) simp_all
qed

lemma StripANSI_osc: "plain_payload pl \<Longrightarrow> StripANSI (osc_seq pl @ v) = StripANSI v"
proof -
  assume p: "plain_payload pl"
  then have "string_scan stringPayloadCap (pl @ BEL # v) = Some v"
    by (intro string_scan_payload) (auto simp: plain_payload_def payloadCap_def stringPayloadCap_def)
  then have "skip_escape (osc_seq pl @ v) = v"
    by (simp add: osc_seq_def skip_escape_def is_string_intro_def skipStringSeq_def)
  moreover have "hd SentinelBoundary \<noteq> ESC" by (simp add: SentinelBoundary_def)
  ultimately show ?thesis by (simp add: osc_seq_def)
qed

lemma StripANSI_boundary: "StripANSI (SentinelBoundary @ v) = StripANSI v"
  by (simp add: SentinelBoundary_def has_prefix_def)

section \<open>\<open>CollapseCR\<close>\<close>

lemma dropEscapes_no_esc: "ESC \<notin> set (dropEscapes b)"
proof -
  have "ESC \<notin> set (dropEscapes_loop b)" by (induction b rule: dropEscapes_loop.induct) auto
  then show ?thesis by (simp add: dropEscapes_def)
qed

lemma after_cr_no_cr: "CR \<notin> set (after_cr l)"
  unfolding after_cr_def by (rule split_on_sep [of _ _ l]) simp

lemma set_after_cr: "set (after_cr l) \<subseteq> set l"
  unfolding after_cr_def by (rule set_lines [of _ CR]) simp

lemma set_crlf: "set (crlf_lf b) \<subseteq> set b"
  by (induction b rule: crlf_lf.induct) auto

lemma CollapseCR_clean: "ESC \<notin> set (CollapseCR b) \<and> CR \<notin> set (CollapseCR b)"
proof -
  define b2 where "b2 = crlf_lf (dropEscapes (replace_promptSP b))"
  have e: "ESC \<notin> set b2" using set_crlf dropEscapes_no_esc unfolding b2_def by blast
  have "x \<noteq> ESC \<and> x \<noteq> CR" if "x \<in> set (unlines (map after_cr (lines_of b2)))" for x
  proof -
    have "x \<in> (\<Union>l \<in> set (map after_cr (lines_of b2)). set l) \<union> set [NL]"
      by (rule subsetD [OF set_unlines that])
    then consider "x = NL" | l where "l \<in> set (lines_of b2)" "x \<in> set (after_cr l)" by auto
    then show ?thesis
    proof cases
      case 2
      then have "x \<in> set b2" using set_after_cr [of l] set_lines [of l NL b2] by blast
      then show ?thesis using e after_cr_no_cr [of l] 2(2) by metis
    qed simp
  qed
  then show ?thesis unfolding CollapseCR_def Let_def b2_def [symmetric] by blast
qed

lemma crlf_id: "CR \<notin> set b \<Longrightarrow> crlf_lf b = b"
  by (induction b rule: crlf_lf.induct) auto

section \<open>\<open>Truncate\<close>\<close>

lemma Truncate_lines:
  assumes "0 \<le> h" "0 \<le> k" "nat h + nat k < length (lines_of txt)"
  shows "lines_of (fst (Truncate txt h k)) =
      take (nat h) (lines_of txt) @ [truncMarker] @ drop (length (lines_of txt) - nat k) (lines_of txt)"
    and "snd (Truncate txt h k) = int (length (lines_of txt)) - h - k"
proof -
  have "NL \<notin> set l" if "l \<in> set (take (nat h) (lines_of txt) @ [truncMarker] @ drop (length (lines_of txt) - nat k) (lines_of txt))" for l
    using that lines_no_nl [of l "txt"] by (auto simp: truncMarker_def dest: in_set_takeD in_set_dropD)
  then show "lines_of (fst (Truncate txt h k)) =
      take (nat h) (lines_of txt) @ [truncMarker] @ drop (length (lines_of txt) - nat k) (lines_of txt)"
    using assms lines_unlines by (simp add: Truncate_def Let_def)
  show "snd (Truncate txt h k) = int (length (lines_of txt)) - h - k"
    using assms by (simp add: Truncate_def Let_def)
qed

lemma Truncate_short: "length (lines_of txt) \<le> nat h + nat k \<Longrightarrow> Truncate txt h k = (txt, 0)"
  by (auto simp: Truncate_def Let_def)

lemma Truncate_length:
  "length (lines_of (fst (Truncate txt h k))) \<le> nat h + nat k + 1"
proof -
  define h' where "h' = (if h < 0 then 0 else h)"
  define k' where "k' = (if k < 0 then 0 else k)"
  have e: "Truncate txt h k = Truncate txt h' k'" "nat h = nat h'" "nat k = nat k'" "0 \<le> h'" "0 \<le> k'"
    by (auto simp: Truncate_def h'_def k'_def Let_def)
  show ?thesis
  proof (cases "length (lines_of txt) \<le> nat h' + nat k'")
    case True
    then show ?thesis using Truncate_short [OF True] e by simp
  next
    case False
    then show ?thesis using Truncate_lines(1) [of h' k' "txt"] e by simp
  qed
qed

lemma set_Truncate: "set (fst (Truncate txt h k)) \<subseteq> set txt \<union> set truncMarker \<union> {NL}"
proof (cases "length (lines_of txt) \<le> (if h < 0 then 0 else nat h) + (if k < 0 then 0 else nat k)")
  case False
  then show ?thesis
    unfolding Truncate_def Let_def
    by (auto dest!: set_unlines [THEN subsetD] in_set_takeD in_set_dropD set_lines [THEN subsetD])
qed (auto simp: Truncate_def Let_def)

section \<open>The pipeline\<close>

lemma set_trims:
  "set (trimTrailingBlankLines s) \<subseteq> insert NL (set s)"
  "set (trimLeadingBlankLines s) \<subseteq> insert NL (set s)"
  unfolding trimTrailingBlankLines_def trimLeadingBlankLines_def
  using set_rstrip [of is_blank "lines_of s"] set_dropWhileD [of _ is_blank "lines_of s"]
  by (intro set_unlines_lines [where X = "{}" and s = s]; auto)+

lemma wrap_loop_drop: "wrap_loop n k ls cmd = Some rest \<Longrightarrow> set rest \<subseteq> set ls"
  by (induction n k ls cmd rule: wrap_loop.induct) (auto split: if_splits dest: in_set_dropD)

lemma set_DropEchoed: "set (DropEchoedCommand s cmd) \<subseteq> insert NL (set s)"
proof -
  define ls where "ls = dropWhile is_blank (lines_of s)"
  have sub: "set ls \<subseteq> set (lines_of s)" unfolding ls_def by (auto dest: set_dropWhileD)
  have u: "set rs \<subseteq> set ls \<Longrightarrow> set (unlines rs) \<subseteq> insert NL (set s)" for rs
    using sub by (intro set_unlines_lines [where X = "{}" and s = s]) auto
  show ?thesis
  proof (cases ls)
    case Nil
    then show ?thesis by (auto simp: DropEchoedCommand_def ls_def [symmetric])
  next
    case (Cons l rs)
    then show ?thesis
      using u [of rs] u wrap_loop_drop [of "maxEchoWrapLines - 1" 2 ls cmd]
      by (auto simp: DropEchoedCommand_def ls_def [symmetric] split: option.splits)
  qed
qed

lemma RenderText_clean: "list_all clean_byte (fst (RenderText raw cmd h k))"
proof -
  define b where "b = StripANSI (CollapseCR raw)"
  define t1 where "t1 = trimTrailingBlankLines b"
  define t2 where "t2 = DropEchoedCommand t1 cmd"
  define t3 where "t3 = trimLeadingBlankLines t2"
  have "set (fst (Truncate t3 h k)) \<subseteq> set b \<union> set truncMarker \<union> {NL}"
    using set_Truncate [of t3 h k] set_trims(2) [of t2] set_DropEchoed [of t1 cmd] set_trims(1) [of b]
    unfolding t1_def t2_def t3_def by blast
  moreover have "clean_byte x" if "x \<in> set b \<union> set truncMarker \<union> {NL}" for x
    using that StripANSI_clean [of "CollapseCR raw"]
    by (auto simp: b_def list_all_iff truncMarker_def clean_byte_def)
  ultimately show ?thesis
    unfolding RenderText_def Let_def b_def [symmetric] t1_def [symmetric] t2_def [symmetric] t3_def [symmetric]
    by (auto simp: list_all_iff)
qed

lemma RenderText_length: "length (lines_of (fst (RenderText raw cmd h k))) \<le> nat h + nat k + 1"
  unfolding RenderText_def Let_def by (rule Truncate_length)

section \<open>The echoed command\<close>

lemma trim_pad_id: "l \<noteq> [] \<Longrightarrow> last l \<noteq> SP \<Longrightarrow> last l \<noteq> TAB \<Longrightarrow> trim_pad l = l"
  by (cases l rule: rev_cases) (auto simp: trim_pad_def rstrip_snoc)

lemma has_suffix_append: "has_suffix (u @ q) q"
  by (simp add: has_suffix_def)

lemma DropEchoed_line:
  assumes "NL \<notin> set prompt" "NL \<notin> set cmd" "cmd \<noteq> []" "last cmd \<noteq> SP" "last cmd \<noteq> TAB"
    and "\<not> is_blank (prompt @ cmd)"
  shows "DropEchoedCommand (prompt @ cmd @ NL # body) cmd = body"
proof -
  have "lines_of ((prompt @ cmd) @ NL # body) = (prompt @ cmd) # lines_of body"
    using assms(1,2) by (intro split_sep) auto
  then have "dropWhile is_blank (lines_of (prompt @ cmd @ NL # body)) = (prompt @ cmd) # lines_of body"
    using assms(6) by simp
  moreover have "trim_pad (prompt @ cmd) = prompt @ cmd" using assms(3-5) by (intro trim_pad_id) auto
  ultimately show ?thesis
    using assms(3) has_suffix_append [of prompt cmd] by (simp add: DropEchoedCommand_def join_split)
qed

text \<open>An escape sequence inside a boundary text hides it from \<open>StripANSI\<close>, whose result then holds it.\<close>

lemma strip_rejoins:
  "StripANSI (take 4 SentinelBoundary @ ESC # bs ''[m'' @ drop 4 SentinelBoundary) = SentinelBoundary"
  by code_simp

end
