(* ===== verification/Flags.thy ===== *)
theory Flags
  imports Text
begin

text \<open>
  Command lines: \<open>stripGlobals\<close>, \<open>splitFlag\<close>, \<open>parseFlags\<close>, \<open>parseRun\<close> and the list of names of
  \<open>internal/cli/cli.go\<close> and \<open>wait.go\<close>, the ranges of \<open>log --range\<close>, and the commands pairmux suggests:
  \<open>quoteToken\<close> and the retry hint of a wait. \<open>sh_words\<close> states how a POSIX shell splits a line made of
  the characters that can occur in such a hint (blanks, quotes, backslashes).
\<close>

section \<open>Flags\<close>

abbreviation dash :: byte where "dash \<equiv> bc CHR ''-''"

definition splitFlag :: "byte list \<Rightarrow> byte list \<times> byte list \<times> bool" where
  "splitFlag a =
     (let name = dropWhile (\<lambda>b. b = dash) a
      in case index_of (bc CHR ''='') name of
           Some eq \<Rightarrow> (take eq name, drop (eq + 1) name, True)
         | None \<Rightarrow> (name, [], False))"

fun stripGlobals :: "byte list list \<Rightarrow> bool \<Rightarrow> byte list \<Rightarrow> byte list list \<times> bool \<times> byte list" where
  "stripGlobals [] json sock = ([], json, sock)"
| "stripGlobals (a # as) json sock =
     (if a = bs ''--'' then (a # as, json, sock)
      else let (name, val, hasVal) = splitFlag a
           in if length a > 2 \<and> a ! 0 = dash \<and> name = bs ''json'' then stripGlobals as True sock
              else if length a > 2 \<and> a ! 0 = dash \<and> name = bs ''socket'' then
                (if hasVal then stripGlobals as json val
                 else case as of [] \<Rightarrow> ([], json, sock) | v # as' \<Rightarrow> stripGlobals as' json v)
              else (let (rest, j, s) = stripGlobals as json sock in (a # rest, j, s)))"

text \<open>The variables a subcommand declares, and what the flags seen so far have set.\<close>

record flag_spec =
  bools :: "byte list list"
  vals :: "byte list list"
  lists :: "byte list list"

record flag_values =
  isSet :: "byte list \<Rightarrow> bool"
  valOf :: "byte list \<Rightarrow> byte list"
  listOf :: "byte list \<Rightarrow> byte list list"
  flagSeen :: "byte list \<Rightarrow> bool"

datatype flag_error = NeedsValue "byte list" | UnknownFlag "byte list"

definition no_flags :: flag_values where
  "no_flags = \<lparr>isSet = (\<lambda>_. False), valOf = (\<lambda>_. []), listOf = (\<lambda>_. []), flagSeen = (\<lambda>_. False)\<rparr>"

definition see :: "byte list \<Rightarrow> flag_values \<Rightarrow> flag_values" where
  "see name st = st\<lparr>flagSeen := (flagSeen st)(name := True)\<rparr>"

definition set_bool :: "byte list \<Rightarrow> flag_values \<Rightarrow> flag_values" where
  "set_bool name st = st\<lparr>isSet := (isSet st)(name := True)\<rparr>"

definition set_val :: "byte list \<Rightarrow> byte list \<Rightarrow> flag_values \<Rightarrow> flag_values" where
  "set_val name v st = st\<lparr>valOf := (valOf st)(name := v)\<rparr>"

definition add_list :: "byte list \<Rightarrow> byte list \<Rightarrow> flag_values \<Rightarrow> flag_values" where
  "add_list name v st = st\<lparr>listOf := (listOf st)(name := listOf st name @ [v])\<rparr>"

fun parseFlags :: "flag_spec \<Rightarrow> byte list list \<Rightarrow> flag_values \<Rightarrow> flag_error + byte list list \<times> flag_values" where
  "parseFlags spec [] st = Inr ([], st)"
| "parseFlags spec (a # as) st =
     (if a = bs ''--'' then Inr (as, st)
      else if length a > 1 \<and> a ! 0 = dash then
        (let (name, val, hasVal) = splitFlag a
         in if name \<in> set (bools spec) then parseFlags spec as (see name (set_bool name st))
            else if name \<in> set (vals spec) then
              (if hasVal then parseFlags spec as (see name (set_val name val st))
               else case as of [] \<Rightarrow> Inl (NeedsValue name)
                    | v # as' \<Rightarrow> parseFlags spec as' (see name (set_val name v st)))
            else if name \<in> set (lists spec) then
              (if hasVal then parseFlags spec as (see name (add_list name val st))
               else case as of [] \<Rightarrow> Inl (NeedsValue name)
                    | v # as' \<Rightarrow> parseFlags spec as' (see name (add_list name v st)))
            else Inl (UnknownFlag name))
      else case parseFlags spec as st of
        Inl e \<Rightarrow> Inl e
      | Inr (pos, st') \<Rightarrow> Inr (a # pos, st'))"

text \<open>\<open>run\<close>: only three flags are known, and only before \<open>--\<close>; everything else belongs to the command.\<close>

record run_flags =
  runTimeout :: "byte list"
  runHead :: "byte list"
  runTail :: "byte list"

definition set_run :: "byte list \<Rightarrow> byte list \<Rightarrow> run_flags \<Rightarrow> run_flags" where
  "set_run name v r =
     (if name = bs ''timeout'' then r\<lparr>runTimeout := v\<rparr>
      else if name = bs ''head'' then r\<lparr>runHead := v\<rparr>
      else r\<lparr>runTail := v\<rparr>)"

fun parseRun :: "byte list list \<Rightarrow> bool \<Rightarrow> run_flags \<Rightarrow> flag_error + run_flags \<times> byte list list" where
  "parseRun [] noMore r = Inr (r, [])"
| "parseRun (a # as) noMore r =
     (if \<not> noMore \<and> a = bs ''--'' then parseRun as True r
      else let (name, val, hasVal) = splitFlag a
           in if \<not> noMore \<and> length a > 2 \<and> a ! 0 = dash \<and> name \<in> {bs ''timeout'', bs ''head'', bs ''tail''} then
                (if hasVal then parseRun as noMore (set_run name val r)
                 else case as of [] \<Rightarrow> Inl (NeedsValue name)
                      | v # as' \<Rightarrow> parseRun as' noMore (set_run name v r))
              else (case parseRun as noMore r of
                      Inl e \<Rightarrow> Inl e
                    | Inr (r', pos) \<Rightarrow> Inr (r', a # pos)))"

section \<open>Names and ranges\<close>

fun names_loop :: "byte list list \<Rightarrow> byte list list \<Rightarrow> byte list list" where
  "names_loop [] names = names"
| "names_loop (n # ns) names =
     (let t = trim_space n
      in if t = [] \<or> t \<in> set names then names_loop ns names else names_loop ns (names @ [t]))"

definition waitNames :: "byte list list \<Rightarrow> byte list list option" where
  "waitNames pos =
     (let names = names_loop (concat (map (split_on (bc CHR '','')) pos)) []
      in if names = [] then None else Some names)"

text \<open>\<open>parseRange\<close>: \<open>None\<close> is any of its errors.\<close>

definition parseRange :: "byte list \<Rightarrow> (int \<times> int) option" where
  "parseRange s =
     (case index_of (bc CHR '':'') s of
        None \<Rightarrow> None
      | Some k \<Rightarrow>
          let en = trim_space (drop (k + 1) s)
          in case (atoi (trim_space (take k s)), if en = bs ''end'' then Some (- 1) else atoi en) of
               (Some a, Some b) \<Rightarrow> if a < 1 \<or> (b \<ge> 0 \<and> b < a) then None else Some (a, b)
             | _ \<Rightarrow> None)"

text \<open>The lines of \<open>logRange\<close>.\<close>

definition range_lines :: "int \<Rightarrow> int \<Rightarrow> byte list list \<Rightarrow> byte list list" where
  "range_lines a b ls =
     (let b' = (if b < 0 \<or> b > int (length ls) then int (length ls) else b)
      in if a \<le> b' then take (nat b' - nat (a - 1)) (drop (nat (a - 1)) ls) else [])"

section \<open>Quoting\<close>

definition shell_safe :: "byte \<Rightarrow> bool" where
  "shell_safe b \<longleftrightarrow>
     (bc CHR ''A'' \<le> b \<and> b \<le> bc CHR ''Z'') \<or> (bc CHR ''a'' \<le> b \<and> b \<le> bc CHR ''z'') \<or> is_digit b
     \<or> b \<in> set (bs ''_@%+=:,./-'')"

abbreviation squote :: byte where "squote \<equiv> 0x27"
abbreviation bslash :: byte where "bslash \<equiv> 0x5c"

definition quoteToken :: "byte list \<Rightarrow> byte list" where
  "quoteToken tok =
     (if tok \<noteq> [] \<and> list_all shell_safe tok then tok
      else squote # concat (map (\<lambda>b. if b = squote then [squote, bslash, squote, squote] else [b]) tok) @ [squote])"

definition quotedCommandHint :: "byte list list \<Rightarrow> byte list" where
  "quotedCommandHint tokens =
     (let joined = join_with [0x20] (map quoteToken tokens)
      in if \<not> list_ex (\<lambda>b. b \<in> {0x22, bslash, bc CHR ''$'', 0x60}) joined
         then 0x22 # joined @ [0x22] else quoteToken joined)"

text \<open>A POSIX shell on blanks, quotes and backslashes: \<open>cur\<close> is the word being read. Inside double quotes
  the text is literal as long as it holds no dollar, backquote or backslash, which no hint has there.\<close>

function sh_words :: "byte list option \<Rightarrow> byte list \<Rightarrow> byte list list" where
  "sh_words cur [] = (case cur of None \<Rightarrow> [] | Some w \<Rightarrow> [w])"
| "sh_words cur (c # s) =
     (if c = 0x20 then (case cur of None \<Rightarrow> sh_words None s | Some w \<Rightarrow> w # sh_words None s)
      else let w = (case cur of None \<Rightarrow> [] | Some w \<Rightarrow> w)
           in if c = squote then
                sh_words (Some (w @ takeWhile (\<lambda>b. b \<noteq> squote) s)) (drop 1 (dropWhile (\<lambda>b. b \<noteq> squote) s))
              else if c = 0x22 then
                sh_words (Some (w @ takeWhile (\<lambda>b. b \<noteq> 0x22) s)) (drop 1 (dropWhile (\<lambda>b. b \<noteq> 0x22) s))
              else if c = bslash then sh_words (Some (w @ take 1 s)) (drop 1 s)
              else sh_words (Some (w @ [c])) s)"
  by pat_completeness auto
termination
proof (relation "measure (length \<circ> snd)", goal_cases)
  case (4 cur c s)
  have "length (dropWhile (\<lambda>b. b \<noteq> squote) s) \<le> length s" by (rule length_dropWhile_le)
  then show ?case by simp
next
  case (5 cur c s)
  have "length (dropWhile (\<lambda>b. b \<noteq> 0x22) s) \<le> length s" by (rule length_dropWhile_le)
  then show ?case by simp
qed auto

section \<open>The retry hint\<close>

record wait_flags =
  idleS :: "byte list"
  patternS :: "byte list"
  idleSeen :: bool
  patternSeen :: bool
  humanF :: bool
  doneF :: bool
  noteF :: bool
  notifyF :: bool

definition retryFlags :: "wait_flags \<Rightarrow> byte list list" where
  "retryFlags f =
     (if idleSeen f then [bs ''--idle'', idleS f] else [])
     @ (if patternSeen f then [bs ''--pattern'', quoteToken (patternS f)] else [])
     @ (if doneF f then [bs ''--done''] else []) @ (if noteF f then [bs ''--note''] else [])
     @ (if humanF f then [bs ''--human''] else []) @ (if notifyF f then [bs ''--notify''] else [])"

text \<open>A duration is a number of nanoseconds in 64 bits.\<close>

definition handoffRetryFloor :: int where "handoffRetryFloor = 300000000000"

definition retryTimeout :: "int \<Rightarrow> bool \<Rightarrow> int" where
  "retryTimeout t human =
     (let nxt = wrap64 (2 * t) in if human \<and> nxt < handoffRetryFloor then handoffRetryFloor else nxt)"

definition waitRetryHint :: "byte list list \<Rightarrow> byte list list \<Rightarrow> byte list \<Rightarrow> byte list" where
  "waitRetryHint names flags timeout =
     join_with [0x20] ([bs ''pairmux'', bs ''wait'', join_with [0x20] names] @ flags @ [bs ''--timeout'', timeout])"

text \<open>The flags \<open>wait\<close> declares, and what a parse of them says.\<close>

definition wait_spec :: flag_spec where
  "wait_spec = \<lparr>bools = map bs [''human'', ''notify'', ''done'', ''note''], vals = map bs [''idle'', ''pattern'', ''timeout''], lists = []\<rparr>"

definition wait_flags_of :: "flag_values \<Rightarrow> wait_flags" where
  "wait_flags_of st =
     \<lparr>idleS = valOf st (bs ''idle''), patternS = valOf st (bs ''pattern''), idleSeen = flagSeen st (bs ''idle''),
      patternSeen = flagSeen st (bs ''pattern''), humanF = isSet st (bs ''human''), doneF = isSet st (bs ''done''),
      noteF = isSet st (bs ''note''), notifyF = isSet st (bs ''notify'')\<rparr>"

section \<open>Reading a hint back\<close>

definition word_so_far :: "byte list option \<Rightarrow> byte list" where
  "word_so_far cur = (case cur of None \<Rightarrow> [] | Some w \<Rightarrow> w)"

text \<open>\<open>q\<close>, wherever it stands, adds \<open>w\<close> to the word being read.\<close>

definition reads_as :: "byte list \<Rightarrow> byte list \<Rightarrow> bool" where
  "reads_as q w \<longleftrightarrow> (\<forall>cur s. sh_words cur (q @ s) = sh_words (Some (word_so_far cur @ w)) s)"

definition plain_byte :: "byte \<Rightarrow> bool" where
  "plain_byte b \<longleftrightarrow> b \<notin> {0x20, squote, 0x22, bslash}"

lemma reads_plain: "q \<noteq> [] \<Longrightarrow> list_all plain_byte q \<Longrightarrow> reads_as q q"
proof -
  have "list_all plain_byte q \<Longrightarrow> sh_words (Some w) (q @ s) = sh_words (Some (w @ q)) s" for w s
    by (induction q arbitrary: w) (auto simp: plain_byte_def Let_def)
  then show "q \<noteq> [] \<Longrightarrow> list_all plain_byte q \<Longrightarrow> reads_as q q"
    by (cases q) (auto simp: reads_as_def word_so_far_def plain_byte_def Let_def split: option.split)
qed

lemma safe_plain: "shell_safe b \<Longrightarrow> plain_byte b"
  by (auto simp: shell_safe_def plain_byte_def is_digit_def)

lemma takeWhile_no: "x \<notin> set u \<Longrightarrow> takeWhile (\<lambda>b. b \<noteq> x) (u @ x # v) = u \<and> dropWhile (\<lambda>b. b \<noteq> x) (u @ x # v) = x # v"
  by (induction u) auto

lemma reads_quoted: "squote \<notin> set u \<Longrightarrow> reads_as (squote # u @ [squote]) u"
  using takeWhile_no [of squote u] by (auto simp: reads_as_def word_so_far_def Let_def split: option.split)

lemma reads_append: "reads_as p u \<Longrightarrow> reads_as q v \<Longrightarrow> reads_as (p @ q) (u @ v)"
  by (auto simp: reads_as_def word_so_far_def)

lemma reads_squote: "reads_as [bslash, squote] [squote]"
  by (auto simp: reads_as_def word_so_far_def Let_def split: option.split)

abbreviation quote_bytes :: "byte list \<Rightarrow> byte list" where
  "quote_bytes tok \<equiv> concat (map (\<lambda>b. if b = squote then [squote, bslash, squote, squote] else [b]) tok)"

lemma reads_quote_bytes: "reads_as (squote # quote_bytes tok @ [squote]) tok"
proof (induction "length tok" arbitrary: tok rule: less_induct)
  case less
  show ?case
  proof (cases "squote \<in> set tok")
    case False
    then have "quote_bytes tok = tok" by (induction tok) auto
    then show ?thesis using reads_quoted [OF False] by simp
  next
    case True
    then obtain u v where uv: "tok = u @ squote # v" "squote \<notin> set u" by (meson split_list_first)
    then have "quote_bytes u = u" by (induction u arbitrary: tok) auto
    then have e: "squote # quote_bytes tok @ [squote] =
        (squote # u @ [squote]) @ [bslash, squote] @ (squote # quote_bytes v @ [squote])"
      using uv by simp
    have "reads_as (squote # quote_bytes v @ [squote]) v" using less uv(1) by simp
    then have "reads_as (squote # quote_bytes tok @ [squote]) (u @ squote # v)"
      unfolding e using reads_append [OF reads_quoted [OF uv(2)] reads_append [OF reads_squote]] by simp
    then show ?thesis using uv(1) by metis
  qed
qed

lemma reads_quoteToken: "reads_as (quoteToken tok) tok"
  using reads_quote_bytes [of tok] reads_plain [of tok] safe_plain
  by (auto simp: quoteToken_def list_all_iff)

lemma sh_words_join: "list_all2 reads_as qs ws \<Longrightarrow> sh_words None (join_with [0x20] qs) = ws"
proof (induction qs ws rule: list_all2_induct)
  case (Cons q qs w ws)
  show ?case
  proof (cases qs)
    case Nil
    then have "sh_words None (q @ []) = sh_words (Some (word_so_far None @ w)) []" "ws = []"
      using Cons.hyps by (simp_all only: reads_as_def list_all2_Nil)
    then show ?thesis using Nil by (simp add: word_so_far_def)
  next
    case (Cons q' qs')
    have "sh_words None (q @ 0x20 # join_with [0x20] qs) = sh_words (Some (word_so_far None @ w)) (0x20 # join_with [0x20] qs)"
      using Cons.hyps by (simp only: reads_as_def)
    then show ?thesis using Cons.IH Cons by (simp add: word_so_far_def)
  qed
qed simp

lemma join_nested: "ns \<noteq> [] \<Longrightarrow> join_with c (as @ [join_with c ns] @ bs') = join_with c (as @ ns @ bs')"
proof (induction as)
  case Nil
  then show ?case
  proof (induction ns)
    case (Cons n ns)
    then show ?case by (cases ns; cases bs') auto
  qed simp
next
  case (Cons a as)
  then show ?case by (cases as; cases ns) auto
qed

section \<open>The retry of a wait\<close>

lemma plain_wait_words: "list_all plain_byte (bs ''pairmux'') \<and> list_all plain_byte (bs ''wait'')"
  by (simp add: plain_byte_def)

text \<open>What the shell hands to the command of the hint.\<close>

definition retry_args :: "wait_flags \<Rightarrow> byte list list" where
  "retry_args f =
     (if idleSeen f then [bs ''--idle'', idleS f] else []) @ (if patternSeen f then [bs ''--pattern'', patternS f] else [])
     @ (if doneF f then [bs ''--done''] else []) @ (if noteF f then [bs ''--note''] else [])
     @ (if humanF f then [bs ''--human''] else []) @ (if notifyF f then [bs ''--notify''] else [])"

definition plain_word :: "byte list \<Rightarrow> bool" where
  "plain_word w \<longleftrightarrow> w \<noteq> [] \<and> list_all plain_byte w"

lemma reads_plain_words: "list_all plain_word ws \<Longrightarrow> list_all2 reads_as ws ws"
  by (induction ws) (auto simp: plain_word_def reads_plain)

lemma reads_retryFlags:
  assumes "idleSeen f \<longrightarrow> plain_word (idleS f)"
  shows "list_all2 reads_as (retryFlags f) (retry_args f)"
proof -
  have w: "reads_as (bs ''--idle'') (bs ''--idle'')" "reads_as (bs ''--pattern'') (bs ''--pattern'')"
    "reads_as (bs ''--done'') (bs ''--done'')" "reads_as (bs ''--note'') (bs ''--note'')"
    "reads_as (bs ''--human'') (bs ''--human'')" "reads_as (bs ''--notify'') (bs ''--notify'')"
    by (rule reads_plain; simp add: plain_byte_def)+
  have "idleSeen f \<Longrightarrow> reads_as (idleS f) (idleS f)"
    using assms by (simp add: plain_word_def reads_plain)
  then show ?thesis
    unfolding retryFlags_def retry_args_def using w reads_quoteToken
    by (intro list_all2_appendI) auto
qed

lemma retry_hint_words:
  assumes "names \<noteq> []" "list_all plain_word names" "plain_word tmo" "idleSeen f \<longrightarrow> plain_word (idleS f)"
  shows "sh_words None (waitRetryHint names (retryFlags f) tmo) =
    [bs ''pairmux'', bs ''wait''] @ names @ retry_args f @ [bs ''--timeout'', tmo]"
proof -
  have "list_all2 reads_as ([bs ''pairmux'', bs ''wait''] @ names @ retryFlags f @ [bs ''--timeout'', tmo])
      ([bs ''pairmux'', bs ''wait''] @ names @ retry_args f @ [bs ''--timeout'', tmo])"
    using assms reads_retryFlags [OF assms(4)] reads_plain_words
    by (intro list_all2_appendI) (auto simp: plain_word_def plain_byte_def reads_plain)
  then have "sh_words None (join_with [0x20] ([bs ''pairmux'', bs ''wait''] @ names @ retryFlags f @ [bs ''--timeout'', tmo])) =
      [bs ''pairmux'', bs ''wait''] @ names @ retry_args f @ [bs ''--timeout'', tmo]"
    by (rule sh_words_join)
  then show ?thesis
    using join_nested [OF assms(1), of "[0x20]" "[bs ''pairmux'', bs ''wait'']"] by (simp add: waitRetryHint_def)
qed

text \<open>Parsing these arguments gives the flags back.\<close>

lemma parse_positional:
  "list_all (\<lambda>n. n \<noteq> [] \<and> hd n \<noteq> dash) names \<Longrightarrow>
   parseFlags spec (names @ as) st = (case parseFlags spec as st of Inl e \<Rightarrow> Inl e | Inr (pos, st') \<Rightarrow> Inr (names @ pos, st'))"
proof (induction names)
  case (Cons n names)
  then have "n \<noteq> bs ''--''" "\<not> (length n > 1 \<and> n ! 0 = dash)" by (auto simp: hd_conv_nth)
  then have "parseFlags spec (n # names @ as) st =
      (case parseFlags spec (names @ as) st of Inl e \<Rightarrow> Inl e | Inr (pos, st') \<Rightarrow> Inr (n # pos, st'))"
    by (simp only: parseFlags.simps if_not_P if_False)
  then show ?case using Cons by (simp split: sum.split)
qed (auto split: sum.split)

definition cond_bool :: "bool \<Rightarrow> byte list \<Rightarrow> flag_values \<Rightarrow> flag_values" where
  "cond_bool b n s = (if b then see n (set_bool n s) else s)"

definition cond_val :: "bool \<Rightarrow> byte list \<Rightarrow> byte list \<Rightarrow> flag_values \<Rightarrow> flag_values" where
  "cond_val b n v s = (if b then see n (set_val n v s) else s)"

lemma parse_bool_flag:
  assumes "n \<in> {''human'', ''notify'', ''done'', ''note''}"
  shows "parseFlags wait_spec ((if b then [bs (''--'' @ n)] else []) @ as) st =
    parseFlags wait_spec as (cond_bool b (bs n) st)"
  using assms by (auto simp: splitFlag_def wait_spec_def cond_bool_def)

lemma parse_val_flag:
  assumes "n \<in> {''idle'', ''pattern'', ''timeout''}"
  shows "parseFlags wait_spec ((if b then [bs (''--'' @ n), v] else []) @ as) st =
    parseFlags wait_spec as (cond_val b (bs n) v st)"
  using assms by (auto simp: splitFlag_def wait_spec_def cond_val_def)

lemma flag_setters:
  "valOf (cond_val b n v s) x = (if b \<and> x = n then v else valOf s x)"
  "isSet (cond_val b n v s) x = isSet s x"
  "flagSeen (cond_val b n v s) x = (b \<and> x = n \<or> flagSeen s x)"
  "valOf (cond_bool b n s) x = valOf s x"
  "isSet (cond_bool b n s) x = (b \<and> x = n \<or> isSet s x)"
  "flagSeen (cond_bool b n s) x = (b \<and> x = n \<or> flagSeen s x)"
  "valOf no_flags x = []" "\<not> isSet no_flags x" "\<not> flagSeen no_flags x"
  by (simp_all add: see_def set_bool_def set_val_def no_flags_def cond_val_def cond_bool_def)

lemma parse_retry:
  assumes "idleSeen f \<or> idleS f = []" "patternSeen f \<or> patternS f = []"
  shows "\<exists>st. parseFlags wait_spec (retry_args f @ [bs ''--timeout'', tmo]) no_flags = Inr ([], st)
    \<and> wait_flags_of st = f \<and> valOf st (bs ''timeout'') = tmo"
proof -
  have "retry_args f @ [bs ''--timeout'', tmo] =
     (if idleSeen f then [bs (''--'' @ ''idle''), idleS f] else []) @ (if patternSeen f then [bs (''--'' @ ''pattern''), patternS f] else [])
     @ (if doneF f then [bs (''--'' @ ''done'')] else []) @ (if noteF f then [bs (''--'' @ ''note'')] else [])
     @ (if humanF f then [bs (''--'' @ ''human'')] else []) @ (if notifyF f then [bs (''--'' @ ''notify'')] else [])
     @ ([bs (''--'' @ ''timeout''), tmo] @ [])"
    by (simp add: retry_args_def)
  moreover have "parseFlags wait_spec ([bs (''--'' @ ''timeout''), tmo] @ []) st =
      Inr ([], cond_val True (bs ''timeout'') tmo st)" for st
    using parse_val_flag [of "''timeout''" True tmo "[]" st] by simp
  ultimately have r: "parseFlags wait_spec (retry_args f @ [bs ''--timeout'', tmo]) no_flags =
     Inr ([], cond_val True (bs ''timeout'') tmo (cond_bool (notifyF f) (bs ''notify'')
       (cond_bool (humanF f) (bs ''human'') (cond_bool (noteF f) (bs ''note'') (cond_bool (doneF f) (bs ''done'')
         (cond_val (patternSeen f) (bs ''pattern'') (patternS f) (cond_val (idleSeen f) (bs ''idle'') (idleS f) no_flags)))))))"
    (is "_ = Inr ([], ?st)")
    by (simp only: parse_bool_flag parse_val_flag insert_iff simp_thms)
  have "wait_flags_of ?st = f" "valOf ?st (bs ''timeout'') = tmo"
    using assms by (auto simp: wait_flags_of_def flag_setters intro!: wait_flags.equality)
  then show ?thesis using r by blast
qed

definition flags_ok :: "wait_flags \<Rightarrow> bool" where
  "flags_ok f \<longleftrightarrow> (if idleSeen f then plain_word (idleS f) else idleS f = []) \<and> (patternSeen f \<or> patternS f = [])"

lemma retry_same_wait:
  assumes "names \<noteq> []" "list_all (\<lambda>n. plain_word n \<and> hd n \<noteq> dash) names" "plain_word tmo" "flags_ok f"
  shows "\<exists>st. parseFlags wait_spec (drop 2 (sh_words None (waitRetryHint names (retryFlags f) tmo))) no_flags = Inr (names, st)
    \<and> wait_flags_of st = f \<and> valOf st (bs ''timeout'') = tmo"
proof -
  have n: "list_all plain_word names" "list_all (\<lambda>n. n \<noteq> [] \<and> hd n \<noteq> dash) names"
    using assms(2) by (auto simp: list_all_iff plain_word_def)
  have i: "idleSeen f \<longrightarrow> plain_word (idleS f)" "idleSeen f \<or> idleS f = []" "patternSeen f \<or> patternS f = []"
    using assms(4) by (auto simp: flags_ok_def split: if_splits)
  obtain st where "parseFlags wait_spec (retry_args f @ [bs ''--timeout'', tmo]) no_flags = Inr ([], st)"
    "wait_flags_of st = f" "valOf st (bs ''timeout'') = tmo"
    using parse_retry [OF i(2,3)] by blast
  moreover have "drop 2 (sh_words None (waitRetryHint names (retryFlags f) tmo)) = names @ retry_args f @ [bs ''--timeout'', tmo]"
    using retry_hint_words [OF assms(1) n(1) assms(3) i(1)] by simp
  ultimately show ?thesis using parse_positional [OF n(2)] by simp
qed

text \<open>With \<open>--idle=\<close> (seen, but empty) the hint is not the same wait: the shell drops the empty word, and
  the flag takes the next one as its value.\<close>

lemma empty_idle_hint:
  "case parseFlags wait_spec (drop 2 (sh_words None (waitRetryHint [bs ''t1'']
      (retryFlags \<lparr>idleS = [], patternS = [], idleSeen = True, patternSeen = False, humanF = False, doneF = False,
        noteF = False, notifyF = False\<rparr>) (bs ''10m0s'')))) no_flags of
     Inl e \<Rightarrow> False
   | Inr (pos, st) \<Rightarrow> pos = [bs ''t1'', bs ''10m0s''] \<and> valOf st (bs ''idle'') = bs ''--timeout''"
  by code_simp

section \<open>Laws of names, ranges and quoting\<close>

lemma names_loop_set:
  "set (names_loop ns names) = set names \<union> (set (map trim_space ns) - {[]})"
  by (induction ns names rule: names_loop.induct) (auto simp: Let_def)

lemma names_loop_distinct: "distinct names \<Longrightarrow> distinct (names_loop ns names)"
  by (induction ns names rule: names_loop.induct) (auto simp: Let_def)

lemma waitNames_laws:
  "waitNames pos = Some ns \<Longrightarrow> ns \<noteq> [] \<and> distinct ns \<and> [] \<notin> set ns
    \<and> set ns = (\<Union>a \<in> set pos. set (map trim_space (split_on (bc CHR '','') a))) - {[]}"
  using names_loop_set [of "concat (map (split_on (bc CHR '','')) pos)" "[]"]
    names_loop_distinct [of "[]" "concat (map (split_on (bc CHR '','')) pos)"]
  by (auto simp: waitNames_def Let_def split: if_splits)

lemma parseRange_bounds: "parseRange s = Some (a, b) \<Longrightarrow> 1 \<le> a \<and> (b < 0 \<or> a \<le> b)"
  by (auto simp: parseRange_def Let_def split: option.splits if_splits)

text \<open>Any negative end is taken for \<open>end\<close>.\<close>

lemma parseRange_negative: "parseRange (bs ''3:-7'') = Some (3, - 7)"
  by code_simp

text \<open>The slice of \<open>logRange\<close> is in range.\<close>

lemma range_lines_slice:
  assumes "1 \<le> a" "b < 0 \<or> a \<le> b"
  shows "range_lines a b ls = (if b < 0 then drop (nat a - 1) ls else take (nat b - (nat a - 1)) (drop (nat a - 1) ls))"
  using assms by (auto simp: range_lines_def Let_def nat_diff_distrib)

lemma hint_two_levels:
  "sh_words None (quotedCommandHint toks) = [join_with [0x20] (map quoteToken toks)]
    \<and> sh_words None (join_with [0x20] (map quoteToken toks)) = toks"
proof
  have j: "list_all2 reads_as (map quoteToken toks) toks" by (induction toks) (auto simp: reads_quoteToken)
  then show "sh_words None (join_with [0x20] (map quoteToken toks)) = toks" by (rule sh_words_join)
  define j where "j = join_with [0x20] (map quoteToken toks)"
  have "sh_words None (quoteToken j) = [j]"
    using sh_words_join [of "[quoteToken j]" "[j]"] reads_quoteToken by simp
  moreover have "sh_words None (0x22 # j @ [0x22]) = [j]" if "0x22 \<notin> set j"
    using takeWhile_no [OF that, of "[]"] by (simp add: Let_def)
  ultimately show "sh_words None (quotedCommandHint toks) = [j]"
    by (auto simp: quotedCommandHint_def j_def [symmetric] Let_def list_ex_iff)
qed

end
