(* ===== verification/Sha256.thy ===== *)
theory Sha256
  imports Prelude
begin

text \<open>
  \<open>crypto/sha256\<close> and the \<open>%x\<close> of its digests, as the registry uses them to name endpoint directories and
  deep endpoints (FIPS 180-4, section 6.2, on byte strings).
\<close>

unbundle bit_operations_syntax

type_synonym word32 = "32 word"

text \<open>
  The round constants and the initial state are given as the standard derives them: the first 32 bits after the
  point of the cube roots of the first 64 primes and of the square roots of the first 8. \<open>root_bits n k v\<close> finds the
  \<open>n\<close>-bit integer part of the \<open>k\<close>-th root of \<open>v\<close> from the highest bit down.
\<close>

fun root_bits :: "nat \<Rightarrow> nat \<Rightarrow> int \<Rightarrow> int \<Rightarrow> int" where
  "root_bits 0 k v r = r"
| "root_bits (Suc n) k v r = root_bits n k v (if (r + 2 ^ n) ^ k \<le> v then r + 2 ^ n else r)"

definition primes_to :: "int \<Rightarrow> int list" where
  "primes_to n = filter (\<lambda>p. list_all (\<lambda>d. p mod d \<noteq> 0) [2..p - 1]) [2..n]"

definition root_word :: "nat \<Rightarrow> int \<Rightarrow> word32" where
  "root_word k p = of_int (root_bits 36 k (p * 2 ^ (32 * k)) 0)"

definition sha_K :: "word32 list" where
  "sha_K = map (root_word 3) (primes_to 311)"

definition sha_H0 :: "word32 list" where
  "sha_H0 = map (root_word 2) (primes_to 19)"

definition small_sigma :: "nat \<Rightarrow> nat \<Rightarrow> nat \<Rightarrow> word32 \<Rightarrow> word32" where
  "small_sigma a b c x = word_rotr a x XOR word_rotr b x XOR drop_bit c x"

definition big_sigma :: "nat \<Rightarrow> nat \<Rightarrow> nat \<Rightarrow> word32 \<Rightarrow> word32" where
  "big_sigma a b c x = word_rotr a x XOR word_rotr b x XOR word_rotr c x"

text \<open>The message schedule, extended one word at a time.\<close>

definition next_word :: "word32 list \<Rightarrow> word32" where
  "next_word w =
     (let n = length w
      in small_sigma 17 19 10 (w ! (n - 2)) + w ! (n - 7) + small_sigma 7 18 3 (w ! (n - 15)) + w ! (n - 16))"

definition schedule :: "word32 list \<Rightarrow> word32 list" where
  "schedule m = ((\<lambda>w. w @ [next_word w]) ^^ 48) m"

definition sha_round :: "word32 list \<Rightarrow> word32 \<times> word32 \<Rightarrow> word32 list" where
  "sha_round v kw =
     (let a = v ! 0; b = v ! 1; c = v ! 2; e = v ! 4; f = v ! 5; g = v ! 6;
          t1 = v ! 7 + big_sigma 6 11 25 e + ((e AND f) XOR (NOT e AND g)) + fst kw + snd kw;
          t2 = big_sigma 2 13 22 a + ((a AND b) XOR (a AND c) XOR (b AND c))
      in [t1 + t2, a, b, c, v ! 3 + t1, e, f, g])"

definition compress :: "word32 list \<Rightarrow> word32 list \<Rightarrow> word32 list" where
  "compress h m = map2 (+) h (foldl sha_round h (zip sha_K (schedule m)))"

definition be_bytes :: "nat \<Rightarrow> int \<Rightarrow> byte list" where
  "be_bytes n v = map (\<lambda>k. of_int (v div 256 ^ (n - 1 - k))) [0..<n]"

definition be_word :: "byte list \<Rightarrow> word32" where
  "be_word p = foldl (\<lambda>w b. w * 256 + ucast b) 0 p"

definition sha_pad :: "byte list \<Rightarrow> byte list" where
  "sha_pad p = p @ [0x80] @ replicate (nat ((55 - int (length p)) mod 64)) 0 @ be_bytes 8 (8 * int (length p))"

fun groups :: "nat \<Rightarrow> 'a list \<Rightarrow> 'a list list" where
  "groups 0 xs = []"
| "groups (Suc n) [] = []"
| "groups (Suc n) (x # xs) = take (Suc n) (x # xs) # groups (Suc n) (drop n xs)"

definition Sum256 :: "byte list \<Rightarrow> byte list" where
  "Sum256 p =
     concat (map (\<lambda>w. be_bytes 4 (uint w))
       (foldl (\<lambda>h blk. compress h (map be_word (groups 4 blk))) sha_H0 (groups 64 (sha_pad p))))"

text \<open>\<open>fmt.Sprintf("%x", ...)\<close>.\<close>

definition hex_digit :: "byte \<Rightarrow> byte" where
  "hex_digit d = (if d < 10 then bc CHR ''0'' + d else bc CHR ''a'' + (d - 10))"

definition hex :: "byte list \<Rightarrow> byte list" where
  "hex p = concat (map (\<lambda>b. [hex_digit (drop_bit 4 b), hex_digit (b AND 0x0f)]) p)"

section \<open>Sizes\<close>

lemma length_groups_concat: "concat (groups (Suc n) xs) = xs"
proof (induction "Suc n" xs rule: groups.induct)
  case (3 x xs)
  then show ?case by (metis append_take_drop_id concat.simps(2) drop_Suc_Cons groups.simps(3))
qed simp

lemma length_compress: "length h = 8 \<Longrightarrow> length (compress h m) = 8"
proof -
  have "length v = 8 \<Longrightarrow> length (foldl sha_round v kws) = 8" for v kws
    by (induction kws arbitrary: v) (simp_all add: sha_round_def Let_def)
  then show "length h = 8 \<Longrightarrow> length (compress h m) = 8" by (simp add: compress_def)
qed

lemma length_Sum256: "length (Sum256 p) = 32"
proof -
  have "length h = 8 \<Longrightarrow> length (foldl (\<lambda>h blk. compress h (f blk)) h bs) = 8" for h :: "word32 list" and f and bs :: "byte list list"
    by (induction bs arbitrary: h) (simp_all add: length_compress)
  moreover have "length (primes_to 19) = 8" by code_simp
  ultimately have "length (foldl (\<lambda>h blk. compress h (map be_word (groups 4 blk))) sha_H0 (groups 64 (sha_pad p))) = 8"
    by (simp add: sha_H0_def)
  moreover have "length (concat (map (\<lambda>w :: word32. be_bytes 4 (uint w)) ws)) = 4 * length ws" for ws
    by (induction ws) (simp_all add: be_bytes_def)
  ultimately show ?thesis by (simp add: Sum256_def)
qed

lemma length_hex: "length (hex p) = 2 * length p"
  by (induction p) (simp_all add: hex_def)

definition is_hex :: "byte \<Rightarrow> bool" where
  "is_hex b \<longleftrightarrow> is_digit b \<or> (bc CHR ''a'' \<le> b \<and> b \<le> bc CHR ''f'')"

lemma hex_digit_is_hex:
  assumes "uint d < 16"
  shows "is_hex (hex_digit d)"
proof -
  have "nat (uint d) < 16" using assms nat_less_iff [of "uint d" 16] by (metis nat_numeral uint_ge_0 zless_nat_eq_int_zless zless_nat_conj zero_less_numeral nat_mono_iff)
  then have "nat (uint d) \<in> set [0..<16]" by simp
  moreover have "d = of_nat (nat (uint d))" by simp
  ultimately have "d \<in> set (map of_nat [0..<16])" by (metis image_eqI set_map)
  then have "d \<in> {0, 1, 2, 3, 4, 5, 6, 7, 8, 9, 10, 11, 12, 13, 14, 15}" by (simp add: upt_conv_Cons)
  then show ?thesis by (auto simp: is_hex_def hex_digit_def is_digit_def)
qed

lemma hex_is_hex: "list_all is_hex (hex p)"
proof -
  have "uint (drop_bit 4 b) < 16" for b :: byte
  proof -
    have "uint b mod 256 = uint b" using uint_lt2p [of b] by (intro mod_pos_pos_trivial) simp_all
    then have "uint (drop_bit 4 b) = uint b div 16" by (simp only: unsigned_drop_bit_eq) (simp add: drop_bit_eq_div take_bit_eq_mod)
    then show ?thesis using uint_lt2p [of b] by simp
  qed
  moreover have "uint (b AND 0x0f) < 16" for b :: byte
    using and_mask_lt_2p [of b 4] by (simp add: mask_eq_exp_minus_1)
  ultimately show ?thesis by (auto simp: hex_def list_all_iff hex_digit_is_hex)
qed

end
