(* ===== verification/Regex.thy ===== *)
theory Regex
  imports Utf8
begin

text \<open>
  The part of Go's \<open>regexp\<close> (RE2 syntax) that the patterns of \<open>internal/detect/await.go\<close> use: a pattern
  is a value of \<open>regex\<close>, \<open>ends\<close> computes the positions where a match that starts at a given position can
  end, and \<open>MatchString\<close> looks for a match anywhere in the text, decoded to runes. The relation \<open>spans\<close>
  states what a pattern matches; \<open>ends_spans\<close> says that the matcher decides it, for every pattern and
  text (\<open>star_ends\<close> needs as many rounds as there are positions).
\<close>

section \<open>Patterns\<close>

datatype regex =
    REps
  | RClass "(rune \<times> rune) list"
  | RSeq regex regex
  | RAlt regex regex
  | RStar regex
  | RWordB
  | RBegin
  | REnd

definition in_class :: "(rune \<times> rune) list \<Rightarrow> rune \<Rightarrow> bool" where
  "in_class rs r \<longleftrightarrow> list_ex (\<lambda>(lo, hi). lo \<le> r \<and> r \<le> hi) rs"

definition ropt :: "regex \<Rightarrow> regex" where "ropt a = RAlt a REps"
definition rplus :: "regex \<Rightarrow> regex" where "rplus a = RSeq a (RStar a)"

fun rseq :: "regex list \<Rightarrow> regex" where
  "rseq [] = REps"
| "rseq [a] = a"
| "rseq (a # as) = RSeq a (rseq as)"

fun ralt :: "regex list \<Rightarrow> regex" where
  "ralt [] = RClass []"
| "ralt [a] = a"
| "ralt (a # as) = RAlt a (ralt as)"

text \<open>One character, as written and with \<open>(?i)\<close>: the runes of its case orbit.\<close>

definition rchar :: "rune \<Rightarrow> regex" where "rchar r = RClass [(r, r)]"

definition fold_class :: "rune \<Rightarrow> (rune \<times> rune) list" where
  "fold_class r =
     (if (0x61 \<le> r \<and> r \<le> 0x7A) \<or> r = 0xF1 \<or> (0x430 \<le> r \<and> r \<le> 0x44F) then
        [(r, r), (r - 0x20, r - 0x20)]
          @ (if r = 0x6B then [(0x212A, 0x212A)] else if r = 0x73 then [(0x17F, 0x17F)]
             else if r = 0x43E then [(0x1C82, 0x1C82)] else [])
      else [(r, r)])"

definition ascii :: "string \<Rightarrow> rune list" where
  "ascii s = map of_char s"

definition rstr :: "string \<Rightarrow> regex" where "rstr s = rseq (map rchar (ascii s))"
definition rrunes_i :: "rune list \<Rightarrow> regex" where "rrunes_i rs = rseq (map (\<lambda>r. RClass (fold_class r)) rs)"
definition rstr_i :: "string \<Rightarrow> regex" where "rstr_i s = rrunes_i (ascii s)"

text \<open>\<open>\s\<close>, \<open>.\<close>, \<open>\w\<close> under \<open>(?i)\<close>.\<close>

definition rspace :: regex where
  "rspace = RClass [(0x09, 0x0A), (0x0C, 0x0D), (0x20, 0x20)]"
definition rany :: regex where
  "rany = RClass [(0, 9), (11, 0x10FFFF)]"
definition rword_i :: regex where
  "rword_i = RClass [(0x30, 0x39), (0x41, 0x5A), (0x5F, 0x5F), (0x61, 0x7A), (0x17F, 0x17F), (0x212A, 0x212A)]"

section \<open>The matcher\<close>

definition word_rune :: "rune \<Rightarrow> bool" where
  "word_rune r \<longleftrightarrow> in_class [(0x30, 0x39), (0x41, 0x5A), (0x5F, 0x5F), (0x61, 0x7A)] r"

definition at_word_boundary :: "rune list \<Rightarrow> nat \<Rightarrow> bool" where
  "at_word_boundary w i \<longleftrightarrow>
     (0 < i \<and> word_rune (w ! (i - 1))) \<noteq> (i < length w \<and> word_rune (w ! i))"

fun star_ends :: "(nat \<Rightarrow> nat list) \<Rightarrow> nat \<Rightarrow> nat list \<Rightarrow> nat list" where
  "star_ends f 0 js = js"
| "star_ends f (Suc n) js = star_ends f n (remdups (js @ concat (map f js)))"

fun ends :: "regex \<Rightarrow> rune list \<Rightarrow> nat \<Rightarrow> nat list" where
  "ends REps w i = [i]"
| "ends (RClass rs) w i = (if i < length w \<and> in_class rs (w ! i) then [Suc i] else [])"
| "ends (RSeq a b) w i = remdups (concat (map (ends b w) (ends a w i)))"
| "ends (RAlt a b) w i = remdups (ends a w i @ ends b w i)"
| "ends (RStar a) w i = star_ends (ends a w) (length w - i) [i]"
| "ends RWordB w i = (if at_word_boundary w i then [i] else [])"
| "ends RBegin w i = (if i = 0 then [i] else [])"
| "ends REnd w i = (if i = length w then [i] else [])"

function runes_of :: "byte list \<Rightarrow> rune list" where
  "runes_of p = (if p = [] then [] else fst (decode_rune p) # runes_of (drop (snd (decode_rune p)) p))"
  by pat_completeness auto
termination by (relation "measure length") (auto simp: decode_rune_size_pos)

declare runes_of.simps [simp del]

definition MatchString :: "regex \<Rightarrow> byte list \<Rightarrow> bool" where
  "MatchString r s = (let w = runes_of s in list_ex (\<lambda>i. ends r w i \<noteq> []) [0..<Suc (length w)])"

section \<open>What a pattern matches\<close>

inductive spans :: "regex \<Rightarrow> rune list \<Rightarrow> nat \<Rightarrow> nat \<Rightarrow> bool" where
  s_eps: "spans REps w i i"
| s_class: "i < length w \<Longrightarrow> in_class rs (w ! i) \<Longrightarrow> spans (RClass rs) w i (Suc i)"
| s_seq: "spans a w i j \<Longrightarrow> spans b w j k \<Longrightarrow> spans (RSeq a b) w i k"
| s_left: "spans a w i j \<Longrightarrow> spans (RAlt a b) w i j"
| s_right: "spans b w i j \<Longrightarrow> spans (RAlt a b) w i j"
| s_stop: "spans (RStar a) w i i"
| s_more: "spans (RStar a) w i j \<Longrightarrow> spans a w j k \<Longrightarrow> spans (RStar a) w i k"
| s_wordb: "at_word_boundary w i \<Longrightarrow> spans RWordB w i i"
| s_begin: "spans RBegin w 0 0"
| s_end: "spans REnd w (length w) (length w)"

inductive_simps spans_simps [simp]:
  "spans REps w i j" "spans (RClass rs) w i j" "spans (RSeq a b) w i j" "spans (RAlt a b) w i j"
  "spans RWordB w i j" "spans RBegin w i j" "spans REnd w i j"

lemma spans_bounds: "spans r w i j \<Longrightarrow> i \<le> length w \<Longrightarrow> i \<le> j \<and> j \<le> length w"
  by (induction rule: spans.induct) auto

text \<open>A star is a path of non-empty steps.\<close>

inductive steps :: "(nat \<Rightarrow> nat \<Rightarrow> bool) \<Rightarrow> nat \<Rightarrow> nat \<Rightarrow> nat \<Rightarrow> bool" for R where
  none: "steps R 0 i i"
| one: "steps R n i j \<Longrightarrow> R j k \<Longrightarrow> j < k \<Longrightarrow> steps R (Suc n) i k"

lemma star_steps:
  assumes "spans (RStar a) w i j" "i \<le> length w"
  shows "\<exists>n. steps (spans a w) n i j"
  using assms
proof (induction "RStar a" w i j rule: spans.induct)
  case (s_stop w i)
  then show ?case using steps.none by blast
next
  case (s_more w i j k)
  obtain n where n: "steps (spans a w) n i j" using s_more by blast
  have "j \<le> length w" using spans_bounds [OF s_more.hyps(1) s_more.prems] by simp
  then consider "j = k" | "j < k" using spans_bounds [OF s_more.hyps(3)] by linarith
  then show ?case using n s_more.hyps(3) steps.one [OF n] by cases auto
qed

lemma steps_star: "steps (spans a w) n i j \<Longrightarrow> spans (RStar a) w i j"
  by (induction rule: steps.induct) (auto intro: s_stop s_more)

lemma steps_length: "steps R n i j \<Longrightarrow> i + n \<le> j"
  by (induction rule: steps.induct) auto

lemma star_ends_sound:
  "j \<in> set (star_ends f n js) \<Longrightarrow> \<exists>i \<in> set js. (\<lambda>x y. y \<in> set (f x))\<^sup>*\<^sup>* i j"
proof (induction n arbitrary: js)
  case (Suc n)
  then obtain i where i: "i \<in> set (js @ concat (map f js))" "(\<lambda>x y. y \<in> set (f x))\<^sup>*\<^sup>* i j" by fastforce
  then show ?case by (auto intro: converse_rtranclp_into_rtranclp)
qed auto

lemma star_ends_mono: "set js \<subseteq> set (star_ends f n js)"
proof (induction n arbitrary: js)
  case (Suc n)
  have "set js \<subseteq> set (remdups (js @ concat (map f js)))" by auto
  then show ?case using Suc [of "remdups (js @ concat (map f js))"] by simp
qed simp

lemma star_ends_steps:
  "steps (\<lambda>x y. y \<in> set (f x)) n i j \<Longrightarrow> n \<le> m \<Longrightarrow> i \<in> set js \<Longrightarrow> j \<in> set (star_ends f m js)"
proof -
  have snoc: "star_ends f (Suc m) js = remdups (star_ends f m js @ concat (map f (star_ends f m js)))" for m js
    by (induction m arbitrary: js) simp_all
  show "steps (\<lambda>x y. y \<in> set (f x)) n i j \<Longrightarrow> n \<le> m \<Longrightarrow> i \<in> set js \<Longrightarrow> ?thesis"
  proof (induction arbitrary: m rule: steps.induct)
    case (none i)
    then show ?case using star_ends_mono by blast
  next
    case (one n i j k)
    then obtain m' where m: "m = Suc m'" "n \<le> m'" by (cases m) auto
    then have "j \<in> set (star_ends f m' js)" using one by blast
    then show ?case using one.hyps(2) unfolding m(1) snoc by auto
  qed
qed

text \<open>The matcher decides the relation.\<close>

lemma ends_spans: "i \<le> length w \<Longrightarrow> set (ends r w i) = {j. spans r w i j}"
proof (induction r arbitrary: i)
  case (RSeq a b)
  have "j \<le> length w" if "spans a w i j" for j using spans_bounds [OF that] RSeq.prems by simp
  then show ?case using RSeq by auto
next
  case (RStar a)
  define n where "n = length w - i"
  have step: "y \<in> set (ends a w x) \<longleftrightarrow> spans a w x y" if "x \<le> length w" for x y
    using RStar.IH [OF that] by blast
  have "spans (RStar a) w i j" if "j \<in> set (star_ends (ends a w) n [i])" for j
  proof -
    have "(\<lambda>x y. y \<in> set (ends a w x))\<^sup>*\<^sup>* i j" using star_ends_sound [OF that] by simp
    then have "spans (RStar a) w i j \<and> j \<le> length w"
    proof (induction rule: rtranclp_induct)
      case base
      then show ?case using RStar.prems s_stop by simp
    next
      case (step y z)
      then have "spans a w y z" using RStar.IH by blast
      then show ?case using step s_more spans_bounds by blast
    qed
    then show ?thesis by simp
  qed
  moreover have "j \<in> set (star_ends (ends a w) n [i])" if r: "spans (RStar a) w i j" for j
  proof -
    obtain k where k: "steps (spans a w) k i j" using star_steps [OF r RStar.prems] by blast
    have "steps (\<lambda>x y. y \<in> set (ends a w x)) k i j \<and> j \<le> length w"
      using k RStar.prems
    proof (induction rule: steps.induct)
      case (one m i j k)
      then show ?case using step [of j k] spans_bounds [of a w j k] steps.one by auto
    qed (auto intro: steps.none)
    moreover have "k \<le> n" using steps_length [OF k] calculation by (auto simp: n_def)
    ultimately show ?thesis using star_ends_steps by fastforce
  qed
  ultimately show ?case by (auto simp: n_def)
qed auto

lemma MatchString_iff: "MatchString r s \<longleftrightarrow> (\<exists>i j. i \<le> length (runes_of s) \<and> spans r (runes_of s) i j)"
proof -
  have "ends r w i \<noteq> [] \<longleftrightarrow> (\<exists>j. spans r w i j)" if "i \<le> length w" for w i
    using ends_spans [OF that, of r] by (metis empty_Collect_eq set_empty2)
  then have "list_ex (\<lambda>i. ends r w i \<noteq> []) [0..<Suc (length w)] \<longleftrightarrow> (\<exists>i \<le> length w. \<exists>j. spans r w i j)" for w
    unfolding list_ex_iff by (auto simp del: upt_Suc simp: less_Suc_eq_le)
  then show ?thesis by (simp add: MatchString_def Let_def del: upt_Suc)
qed

end
