(* ===== verification/Registry.thy ===== *)
theory Registry
  imports Sha256 Regex Journal Proto "HOL-Library.List_Lexorder"
begin

text \<open>
  The terminal registry, \<open>internal/state/state.go\<close>: names, endpoint directories, \<open>ResolveAt\<close> and \<open>ListAt\<close>,
  and the nested layers of \<open>ChildSocket\<close> and \<open>killLayers\<close> (\<open>internal/cli/state_scope.go\<close>).

  A path below the state root is the list of its components (every component the code joins is a valid
  name or a fixed one, so \<open>filepath.Join\<close> has nothing to clean). What the file system and the multiplexer
  hold is an argument.
\<close>

section \<open>Names\<close>

definition name_head :: "byte \<Rightarrow> bool" where
  "name_head b \<longleftrightarrow> is_digit b \<or> (bc CHR ''a'' \<le> b \<and> b \<le> bc CHR ''z'')"

definition name_byte :: "byte \<Rightarrow> bool" where
  "name_byte b \<longleftrightarrow> name_head b \<or> b = bc CHR ''_'' \<or> b = bc CHR ''-''"

definition ValidName :: "byte list \<Rightarrow> bool" where
  "ValidName n = (case n of [] \<Rightarrow> False | c # cs \<Rightarrow> name_head c \<and> length cs \<le> 31 \<and> list_all name_byte cs)"

definition socket_head :: "byte \<Rightarrow> bool" where
  "socket_head b \<longleftrightarrow> name_head b \<or> (bc CHR ''A'' \<le> b \<and> b \<le> bc CHR ''Z'')"

definition socket_byte :: "byte \<Rightarrow> bool" where
  "socket_byte b \<longleftrightarrow> socket_head b \<or> b \<in> set (bs ''_.-'')"

definition ValidSocketName :: "byte list \<Rightarrow> bool" where
  "ValidSocketName s = (case s of [] \<Rightarrow> False | c # cs \<Rightarrow> socket_head c \<and> length cs \<le> 63 \<and> list_all socket_byte cs)"

text \<open>\<open>autoNameRe\<close>: the digits of \<open>t<digits>\<close>.\<close>

definition auto_digits :: "byte list \<Rightarrow> byte list option" where
  "auto_digits n =
     (case n of [] \<Rightarrow> None
      | c # cs \<Rightarrow> if c = bc CHR ''t'' \<and> cs \<noteq> [] \<and> list_all is_digit cs then Some cs else None)"

definition auto_value :: "byte list \<Rightarrow> int option" where
  "auto_value n = Option.bind (auto_digits n) atoi"

definition max_auto :: "byte list list \<Rightarrow> int" where
  "max_auto existing =
     foldl (\<lambda>mx n. case auto_value n of None \<Rightarrow> mx | Some v \<Rightarrow> if v > mx then v else mx) 0 existing"

definition NextAutoName :: "byte list list \<Rightarrow> byte list" where
  "NextAutoName existing = bc CHR ''t'' # itoa (wrap64 (max_auto existing + 1))"

text \<open>\<open>strings.ToLower\<close> and \<open>strings.Contains\<close>. Only the runes whose lower case is ASCII are mapped: the
  result is only ever compared with ASCII text.\<close>

definition lower_rune :: "rune \<Rightarrow> rune" where
  "lower_rune r =
     (if 0x41 \<le> r \<and> r \<le> 0x5a then r + 0x20 else if r = 0x130 then 0x69 else if r = 0x212a then 0x6b else r)"

definition ToLower :: "byte list \<Rightarrow> byte list" where
  "ToLower s = concat (map (encode_rune \<circ> lower_rune) (runes_of s))"

fun contains :: "byte list \<Rightarrow> byte list \<Rightarrow> bool" where
  "contains s [] = (s = [])"
| "contains s (b # p) = (take (length s) (b # p) = s \<or> contains s p)"

definition IsNoServer :: "byte list option \<Rightarrow> bool" where
  "IsNoServer err =
     (case err of None \<Rightarrow> False
      | Some msg \<Rightarrow>
          let s = ToLower msg
          in contains (bs ''no server running'') s
             \<or> contains (bs ''error connecting'') s
               \<and> (contains (bs ''no such file or directory'') s \<or> contains (bs ''connection refused'') s))"

section \<open>Endpoints\<close>

datatype backend = BackendTmux | BackendBuiltin

definition DefaultSocket :: "byte list" where "DefaultSocket = bs ''pairmux''"

definition normalizedSocket :: "byte list \<Rightarrow> byte list" where
  "normalizedSocket socket = (if socket = [] then DefaultSocket else socket)"

text \<open>The canonical \<open>TMUX_TMPDIR\<close> and \<open>/tmp\<close>, the user, and the directory of the built-in server, if it has
  one.\<close>

record endpoints =
  tmuxRoot :: "byte list"
  legacyRoot :: "byte list"
  userID :: int
  runDir :: "byte list option"

definition path_under :: "byte list \<Rightarrow> byte list \<Rightarrow> byte list" where
  "path_under root a = (if root = bs ''/'' then root @ a else root @ bs ''/'' @ a)"

definition EndpointIdentity :: "endpoints \<Rightarrow> byte list \<Rightarrow> byte list" where
  "EndpointIdentity E socket =
     path_under (path_under (tmuxRoot E) (bs ''tmux-'' @ itoa (userID E))) (normalizedSocket socket)"

definition IdentityUnder :: "endpoints \<Rightarrow> byte list \<Rightarrow> byte list" where
  "IdentityUnder E socket =
     bs ''builtin:'' @ path_under (case runDir E of None \<Rightarrow> bs ''?'' | Some d \<Rightarrow> d) socket"

type_synonym path = "byte list list"

definition SocketDirFor :: "endpoints \<Rightarrow> backend \<Rightarrow> byte list \<Rightarrow> path" where
  "SocketDirFor E b socket =
     [bs ''.sockets'',
      hex (Sum256 (case b of BackendBuiltin \<Rightarrow> IdentityUnder E (normalizedSocket socket)
                   | BackendTmux \<Rightarrow> EndpointIdentity E socket))]"

definition usesLegacyDefaultFallback :: "endpoints \<Rightarrow> byte list \<Rightarrow> bool" where
  "usesLegacyDefaultFallback E socket \<longleftrightarrow> normalizedSocket socket = DefaultSocket \<and> tmuxRoot E = legacyRoot E"

section \<open>Terminals\<close>

text \<open>\<open>metaMode\<close> is \<open>None\<close> for every string that is neither mode.\<close>

record meta =
  metaName :: "byte list"
  metaPaneID :: "byte list"
  metaTty :: "byte list"
  metaShell :: "byte list"
  metaMode :: "Mode option"
  metaSocket :: "byte list"
  metaCreatedAt :: int

definition no_meta :: meta where
  "no_meta = \<lparr>metaName = [], metaPaneID = [], metaTty = [], metaShell = [], metaMode = None, metaSocket = [],
     metaCreatedAt = 0\<rparr>"

record registered =
  tName :: "byte list"
  tPaneID :: "byte list"
  tMode :: "Mode option"
  tDir :: path
  tAlive :: bool
  tMeta :: meta

text \<open>What the state root holds: the metadata that can be read in a directory, which paths are
  directories, and the listing of a directory with a flag for those entries that are directories.\<close>

record fs =
  metaAt :: "path \<Rightarrow> meta option"
  dirAt :: "path \<Rightarrow> bool"
  listing :: "path \<Rightarrow> (byte list \<times> bool) list option"

datatype resolve_error = ErrInvalidName | ErrNotFound | MuxError "byte list"

definition managedPanes :: "byte list + pane_info list \<Rightarrow> resolve_error + pane_info list" where
  "managedPanes r =
     (case r of Inr panes \<Rightarrow> Inr panes | Inl e \<Rightarrow> if IsNoServer (Some e) then Inr [] else Inl (MuxError e))"

definition MetaMatchesSocket :: "meta \<Rightarrow> byte list \<Rightarrow> bool" where
  "MetaMatchesSocket m socket =
     (let want = normalizedSocket socket
      in if metaSocket m = [] then want = DefaultSocket else normalizedSocket (metaSocket m) = want)"

definition stateDirForName :: "endpoints \<Rightarrow> fs \<Rightarrow> backend \<Rightarrow> byte list \<Rightarrow> byte list \<Rightarrow> path \<times> bool" where
  "stateDirForName E F b socket name =
     (let canonical = SocketDirFor E b socket @ [name]
      in case metaAt F canonical of
           Some m \<Rightarrow> (canonical, MetaMatchesSocket m socket)
         | None \<Rightarrow>
             if dirAt F canonical then (canonical, True)
             else if b = BackendTmux \<and> usesLegacyDefaultFallback E socket
               \<and> (case metaAt F [name] of None \<Rightarrow> False | Some m \<Rightarrow> MetaMatchesSocket m socket) then ([name], True)
             else (canonical, False))"

definition stateDirsAt :: "fs \<Rightarrow> path \<Rightarrow> byte list \<Rightarrow> byte list list" where
  "stateDirsAt F base socket =
     (case listing F base of None \<Rightarrow> []
      | Some entries \<Rightarrow>
          map fst (filter (\<lambda>(name, isdir). isdir \<and> ValidName name
            \<and> (case metaAt F (base @ [name]) of None \<Rightarrow> False | Some m \<Rightarrow> MetaMatchesSocket m socket)) entries))"

definition with_meta :: "meta option \<Rightarrow> registered \<Rightarrow> registered" where
  "with_meta mo t =
     (case mo of None \<Rightarrow> t | Some m \<Rightarrow> t\<lparr>tMeta := m, tMode := metaMode m, tPaneID := metaPaneID m\<rparr>)"

definition blank_terminal :: "byte list \<Rightarrow> path \<Rightarrow> registered" where
  "blank_terminal name d =
     \<lparr>tName = name, tPaneID = [], tMode = None, tDir = d, tAlive = False, tMeta = no_meta\<rparr>"

definition with_pane :: "pane_info \<Rightarrow> registered \<Rightarrow> registered" where
  "with_pane p t = t\<lparr>tPaneID := PaneID p, tAlive := \<not> PaneDead p\<rparr>"

definition resolveAtFor :: "endpoints \<Rightarrow> fs \<Rightarrow> backend \<Rightarrow> byte list \<Rightarrow> byte list + pane_info list \<Rightarrow> byte list
    \<Rightarrow> resolve_error + registered" where
  "resolveAtFor E F b socket managed name =
     (if \<not> ValidName name then Inl ErrInvalidName
      else case managedPanes managed of
        Inl e \<Rightarrow> Inl e
      | Inr panes \<Rightarrow>
          let pane = find (\<lambda>p. InfoName p = name) panes;
              (d, dirExists) = stateDirForName E F b socket name
          in if pane = None \<and> \<not> dirExists then Inl ErrNotFound
             else let t = with_meta (metaAt F d) (blank_terminal name d)
                  in Inr (case pane of None \<Rightarrow> t | Some p \<Rightarrow> with_pane p t))"

text \<open>\<open>byName\<close> and \<open>order\<close> of \<open>listAtFor\<close> are one association list, in the order of the additions.\<close>

definition new_terminal :: "endpoints \<Rightarrow> fs \<Rightarrow> backend \<Rightarrow> byte list \<Rightarrow> byte list \<Rightarrow> registered" where
  "new_terminal E F b socket name =
     (let d = fst (stateDirForName E F b socket name) in with_meta (metaAt F d) (blank_terminal name d))"

definition add_name :: "(byte list \<Rightarrow> registered) \<Rightarrow> (byte list \<times> registered) list \<Rightarrow> byte list
    \<Rightarrow> (byte list \<times> registered) list" where
  "add_name mk ts name = (if name \<in> fst ` set ts then ts else ts @ [(name, mk name)])"

definition add_pane :: "(byte list \<Rightarrow> registered) \<Rightarrow> (byte list \<times> registered) list \<Rightarrow> pane_info
    \<Rightarrow> (byte list \<times> registered) list" where
  "add_pane mk ts p =
     (if \<not> ValidName (InfoName p) then ts
      else map (\<lambda>(n, t). (n, if n = InfoName p then with_pane p t else t)) (add_name mk ts (InfoName p)))"

definition state_names :: "endpoints \<Rightarrow> fs \<Rightarrow> backend \<Rightarrow> byte list \<Rightarrow> byte list list" where
  "state_names E F b socket =
     stateDirsAt F (SocketDirFor E b socket) socket
     @ (if b = BackendTmux \<and> usesLegacyDefaultFallback E socket then stateDirsAt F [] socket else [])"

definition listAtFor :: "endpoints \<Rightarrow> fs \<Rightarrow> backend \<Rightarrow> byte list \<Rightarrow> byte list + pane_info list
    \<Rightarrow> resolve_error + registered list" where
  "listAtFor E F b socket managed =
     (case managedPanes managed of
        Inl e \<Rightarrow> Inl e
      | Inr panes \<Rightarrow>
          let mk = new_terminal E F b socket;
              ts = foldl (add_name mk) (foldl (add_pane mk) [] panes) (state_names E F b socket)
          in Inr (map (\<lambda>n. the (map_of ts n)) (sort (map fst ts))))"

section \<open>Layers\<close>

definition maxSocketName :: nat where "maxSocketName = 64"

definition ChildSocket :: "byte list \<Rightarrow> byte list \<Rightarrow> byte list" where
  "ChildSocket parent name =
     (let full = normalizedSocket parent @ bs ''-'' @ name
      in if length full \<le> maxSocketName \<and> ValidSocketName full then full
         else let suffix = bs ''-'' @ hex (take 4 (Sum256 full));
                  n = maxSocketName - length suffix
              in (if n < length full then take n full else full) @ suffix)"

text \<open>The servers that run: \<open>live s\<close> is \<open>None\<close> when endpoint \<open>s\<close> has no session, else its panes (none, when
  they cannot be listed). Killing \<open>s\<close> ends it if \<open>dies s\<close>. \<open>k\<close> is what is left of \<open>maxLayerDepth\<close>.\<close>

type_synonym layers = "byte list \<Rightarrow> pane_info list option"

definition maxLayerDepth :: nat where "maxLayerDepth = 16"

fun killLayers :: "nat \<Rightarrow> (byte list \<Rightarrow> bool) \<Rightarrow> (byte list \<Rightarrow> bool) \<Rightarrow> layers \<Rightarrow> byte list \<Rightarrow> byte list
    \<Rightarrow> byte list list \<times> layers" where
  "killLayers 0 hasDir dies live socket name = ([], live)"
| "killLayers (Suc k) hasDir dies live socket name =
     (let child = ChildSocket socket name
      in if \<not> hasDir child then ([], live)
         else case live child of
           None \<Rightarrow> ([], live)
         | Some panes \<Rightarrow>
             let (killed, live1) =
               foldl (\<lambda>(acc, l) p. if ValidName (InfoName p)
                   then (let (ks, l') = killLayers k hasDir dies l child (InfoName p) in (acc @ ks, l'))
                   else (acc, l)) ([], live) panes
             in (killed @ [child], if dies child then live1(child := None) else live1))"

definition liveChildLayer :: "(byte list \<Rightarrow> bool) \<Rightarrow> layers \<Rightarrow> byte list \<Rightarrow> byte list \<Rightarrow> byte list" where
  "liveChildLayer hasDir live socket name =
     (let child = ChildSocket socket name
      in if \<not> hasDir child then [] else if live child = None then [] else child)"

definition layersNext :: "byte list list \<Rightarrow> byte list" where
  "layersNext killed =
     (if killed = [] then []
      else bs ''also tore down '' @ itoa (int (length killed)) @ bs '' nested layer(s) it was driving: ''
        @ join_with (bs '', '') killed)"

section \<open>\<open>ListAt\<close> agrees with \<open>ResolveAt\<close>\<close>

text \<open>What both should say of a name.\<close>

definition view_of :: "(byte list \<Rightarrow> registered) \<Rightarrow> pane_info list \<Rightarrow> byte list \<Rightarrow> registered" where
  "view_of mk panes n = (case find (\<lambda>p. InfoName p = n) panes of None \<Rightarrow> mk n | Some p \<Rightarrow> with_pane p (mk n))"

lemma find_name: "find (\<lambda>p. InfoName p = n) ps = None \<longleftrightarrow> n \<notin> InfoName ` set ps"
  by (induction ps) auto

lemma find_distinct: "distinct (map InfoName ps) \<Longrightarrow> p \<in> set ps \<Longrightarrow> find (\<lambda>q. InfoName q = InfoName p) ps = Some p"
  by (induction ps) (auto simp: image_iff)

lemma add_panes:
  "distinct (map InfoName ps) \<Longrightarrow> fst ` set ts \<inter> InfoName ` set ps = {} \<Longrightarrow>
   foldl (add_pane mk) ts ps = ts @ map (\<lambda>p. (InfoName p, with_pane p (mk (InfoName p)))) (filter (ValidName \<circ> InfoName) ps)"
proof (induction ps arbitrary: ts)
  case (Cons p ps)
  have fresh: "InfoName p \<notin> fst ` set ts" using Cons.prems(2) by auto
  then have "map (\<lambda>(n, t). (n, if n = InfoName p then with_pane p t else t)) ts = ts"
    by (intro map_idI) (auto simp: image_iff)
  then have "add_pane mk ts p = ts @ (if ValidName (InfoName p) then [(InfoName p, with_pane p (mk (InfoName p)))] else [])"
    using fresh by (simp add: add_pane_def add_name_def)
  then show ?case using Cons by (auto split: if_splits)
qed simp

lemma add_names:
  "distinct (map fst ts) \<Longrightarrow> distinct (map fst (foldl (add_name mk) ts ns))
    \<and> fst ` set (foldl (add_name mk) ts ns) = fst ` set ts \<union> set ns
    \<and> map_of (foldl (add_name mk) ts ns) n =
        (case map_of ts n of Some t \<Rightarrow> Some t | None \<Rightarrow> if n \<in> set ns then Some (mk n) else None)"
proof (induction ns arbitrary: ts)
  case (Cons m ns)
  have d: "distinct (map fst (add_name mk ts m))" "fst ` set (add_name mk ts m) = insert m (fst ` set ts)"
    using Cons.prems by (auto simp: add_name_def)
  have "map_of (add_name mk ts m) n = (case map_of ts n of Some t \<Rightarrow> Some t | None \<Rightarrow> if n = m then Some (mk n) else None)"
    using map_of_eq_None_iff [of ts m] by (auto simp: add_name_def map_add_def split: option.split)
  then show ?case using Cons.IH [OF d(1)] d(2) by (auto split: option.split)
qed (simp split: option.split)

text \<open>The terminals of a listing, as a map.\<close>

definition listed_map :: "(byte list \<Rightarrow> registered) \<Rightarrow> pane_info list \<Rightarrow> byte list list \<Rightarrow> byte list \<Rightarrow> registered option" where
  "listed_map mk panes ns = map_of (foldl (add_name mk) (foldl (add_pane mk) [] panes) ns)"

lemma listed_map:
  assumes "distinct (map InfoName panes)" "list_all ValidName ns"
  shows "listed_map mk panes ns n =
    (if ValidName n \<and> (n \<in> InfoName ` set panes \<or> n \<in> set ns) then Some (view_of mk panes n) else None)"
proof -
  define ps where "ps = map (\<lambda>p. (InfoName p, with_pane p (mk (InfoName p)))) (filter (ValidName \<circ> InfoName) panes)"
  have e: "foldl (add_pane mk) [] panes = ps" using add_panes [OF assms(1), of "[]" mk] by (simp add: ps_def)
  have d: "distinct (map fst ps)" using assms(1) by (simp add: ps_def comp_def distinct_map inj_on_def)
  have m: "map_of ps n = (if ValidName n \<and> n \<in> InfoName ` set panes then Some (view_of mk panes n) else None)"
  proof (cases "ValidName n \<and> n \<in> InfoName ` set panes")
    case True
    then obtain p where p: "p \<in> set panes" "InfoName p = n" by auto
    then have "(n, with_pane p (mk n)) \<in> set ps" using True by (auto simp: ps_def)
    then show ?thesis using True d find_distinct [OF assms(1) p(1)] p(2) by (simp add: view_of_def)
  next
    case False
    then have "n \<notin> fst ` set ps" by (auto simp: ps_def)
    then show ?thesis using False by (auto simp: map_of_eq_None_iff)
  qed
  have v: "n \<in> set ns \<Longrightarrow> ValidName n" using assms(2) by (auto simp: list_all_iff)
  have "n \<notin> InfoName ` set panes \<Longrightarrow> view_of mk panes n = mk n" using find_name [of n panes] by (simp add: view_of_def)
  then show ?thesis using add_names [OF d, of mk ns n] m v by (auto simp: listed_map_def e)
qed

lemma state_names_valid: "list_all ValidName (state_names E F b socket)"
  by (auto simp: state_names_def stateDirsAt_def list_all_iff split: option.splits)

lemma tName_new [simp]: "tName (new_terminal E F b socket n) = n"
  by (simp add: new_terminal_def with_meta_def blank_terminal_def Let_def split: option.split)

lemma tName_view [simp]: "tName (view_of (new_terminal E F b socket) panes n) = n"
  by (simp add: view_of_def with_pane_def split: option.split)

text \<open>\<open>ResolveAt\<close> of a valid name.\<close>

lemma resolve_view:
  "ValidName n \<Longrightarrow> managedPanes managed = Inr panes \<Longrightarrow> resolveAtFor E F b socket managed n =
     (if n \<notin> InfoName ` set panes \<and> \<not> snd (stateDirForName E F b socket n) then Inl ErrNotFound
      else Inr (view_of (new_terminal E F b socket) panes n))"
  using find_name [of n panes]
  by (cases "find (\<lambda>p. InfoName p = n) panes") (simp_all add: resolveAtFor_def view_of_def new_terminal_def Let_def case_prod_beta)

text \<open>No directory of this endpoint's namespace holds the metadata of another endpoint.\<close>

definition no_foreign_meta :: "endpoints \<Rightarrow> fs \<Rightarrow> backend \<Rightarrow> byte list \<Rightarrow> bool" where
  "no_foreign_meta E F b socket \<longleftrightarrow>
     (\<forall>n m. metaAt F (SocketDirFor E b socket @ [n]) = Some m \<longrightarrow> MetaMatchesSocket m socket)"

lemma state_names_exist:
  "no_foreign_meta E F b socket \<Longrightarrow> n \<in> set (state_names E F b socket) \<Longrightarrow> snd (stateDirForName E F b socket n)"
  by (auto simp: no_foreign_meta_def state_names_def stateDirsAt_def stateDirForName_def Let_def
      split: option.splits if_splits)

lemma the_sorted_keys:
  assumes "distinct (map fst ts)"
  shows "set (map (\<lambda>n. the (map_of ts n)) (sort (map fst ts))) = snd ` set ts"
proof -
  have "(\<lambda>n. the (map_of ts n)) ` fst ` set ts = snd ` set ts"
    using assms by (force simp: image_iff)
  then show ?thesis by simp
qed

text \<open>The terminals of a listing are the views of their names, in the order of the names.\<close>

lemma listed_terminals:
  assumes "distinct (map InfoName panes)" "managedPanes managed = Inr panes"
  obtains ls where "listAtFor E F b socket managed = Inr ls" "sorted (map tName ls)" "distinct (map tName ls)"
    "\<And>t. t \<in> set ls \<longleftrightarrow> ValidName (tName t) \<and> (tName t \<in> InfoName ` set panes \<or> tName t \<in> set (state_names E F b socket))
      \<and> t = view_of (new_terminal E F b socket) panes (tName t)"
proof -
  define mk where "mk = new_terminal E F b socket"
  define ns where "ns = state_names E F b socket"
  define ts where "ts = foldl (add_name mk) (foldl (add_pane mk) [] panes) ns"
  define ls where "ls = map (\<lambda>n. the (map_of ts n)) (sort (map fst ts))"
  have d: "distinct (map fst ts)"
    using add_names [of "foldl (add_pane mk) [] panes" mk ns] add_panes [OF assms(1), of "[]" mk] assms(1)
    by (simp add: ts_def comp_def distinct_map inj_on_def)
  have m: "map_of ts n = (if ValidName n \<and> (n \<in> InfoName ` set panes \<or> n \<in> set ns) then Some (view_of mk panes n) else None)" for n
    using listed_map [OF assms(1) state_names_valid, of mk E F b socket n] by (simp add: listed_map_def ts_def ns_def)
  have k: "(n, t) \<in> set ts \<longleftrightarrow> ValidName n \<and> (n \<in> InfoName ` set panes \<or> n \<in> set ns) \<and> t = view_of mk panes n" for n t
    unfolding map_of_eq_Some_iff [OF d, symmetric] m by auto
  have tn: "tName t = n" if "(n, t) \<in> set ts" for n t
    using that by (simp only: k mk_def tName_view)
  have "tName (the (map_of ts n)) = n" if "n \<in> fst ` set ts" for n
  proof -
    obtain t where "(n, t) \<in> set ts" using \<open>n \<in> fst ` set ts\<close> by auto
    then show ?thesis using map_of_is_SomeI [OF d] tn by simp
  qed
  then have nm: "map tName ls = sort (map fst ts)"
    unfolding ls_def map_map by (intro map_idI) simp
  have "t \<in> set ls \<longleftrightarrow> (tName t, t) \<in> set ts" for t
  proof
    assume "t \<in> set ls"
    then have "t \<in> snd ` set ts" using the_sorted_keys [OF d] by (simp only: ls_def)
    then obtain n where "(n, t) \<in> set ts" by auto
    then show "(tName t, t) \<in> set ts" using tn by simp
  next
    assume "(tName t, t) \<in> set ts"
    then have "t \<in> snd ` set ts" by force
    then show "t \<in> set ls" using the_sorted_keys [OF d] by (simp only: ls_def)
  qed
  then have in_ls: "t \<in> set ls \<longleftrightarrow> ValidName (tName t) \<and> (tName t \<in> InfoName ` set panes \<or> tName t \<in> set ns)
      \<and> t = view_of mk panes (tName t)" for t by (simp only: k)
  show ?thesis
  proof (rule that [of ls])
    show "listAtFor E F b socket managed = Inr ls"
      by (simp add: listAtFor_def assms(2) ls_def ts_def mk_def ns_def Let_def)
    show "sorted (map tName ls)" "distinct (map tName ls)" using nm d by simp_all
    show "t \<in> set ls \<longleftrightarrow> ValidName (tName t) \<and> (tName t \<in> InfoName ` set panes \<or> tName t \<in> set (state_names E F b socket))
      \<and> t = view_of (new_terminal E F b socket) panes (tName t)" for t
      using in_ls [of t] by (simp only: mk_def ns_def)
  qed
qed

lemma list_agrees_with_resolve:
  assumes "distinct (map InfoName panes)" "no_foreign_meta E F b socket" "managedPanes managed = Inr panes"
  obtains ls where "listAtFor E F b socket managed = Inr ls" "sorted (map tName ls)" "distinct (map tName ls)"
    "\<And>t. t \<in> set ls \<longleftrightarrow> resolveAtFor E F b socket managed (tName t) = Inr t
      \<and> (tName t \<in> InfoName ` set panes \<or> tName t \<in> set (state_names E F b socket))"
proof -
  define ns where "ns = state_names E F b socket"
  obtain ls where ls: "listAtFor E F b socket managed = Inr ls" "sorted (map tName ls)" "distinct (map tName ls)"
    "\<And>t. t \<in> set ls \<longleftrightarrow> ValidName (tName t) \<and> (tName t \<in> InfoName ` set panes \<or> tName t \<in> set ns)
      \<and> t = view_of (new_terminal E F b socket) panes (tName t)"
    using listed_terminals [OF assms(1,3), of E F b socket] unfolding ns_def by metis
  have res: "resolveAtFor E F b socket managed n = Inr t \<longleftrightarrow> ValidName n \<and> t = view_of (new_terminal E F b socket) panes n"
    if "n \<in> InfoName ` set panes \<or> n \<in> set ns" for n t
    using that resolve_view [OF _ assms(3), of n E F b socket] state_names_exist [OF assms(2), of n]
    by (cases "ValidName n") (auto simp: ns_def resolveAtFor_def)
  show ?thesis
  proof (rule that [OF ls(1-3)])
    show "t \<in> set ls \<longleftrightarrow> resolveAtFor E F b socket managed (tName t) = Inr t
      \<and> (tName t \<in> InfoName ` set panes \<or> tName t \<in> set (state_names E F b socket))" for t
      using ls(4) [of t] res [of "tName t" t] by (simp only: ns_def) blast
  qed
qed

section \<open>Names that agree with nothing\<close>

text \<open>Two panes of one name: the listing shows the last one, \<open>ResolveAt\<close> finds the first one.\<close>

lemma duplicate_names_disagree:
  assumes "ValidName n" "InfoName p = n" "InfoName q = n"
  shows "resolveAtFor E F b socket (Inr [p, q]) n = Inr (with_pane p (new_terminal E F b socket n))"
    and "map_of (foldl (add_pane (new_terminal E F b socket)) [] [p, q]) n = Some (with_pane q (new_terminal E F b socket n))"
proof -
  show "resolveAtFor E F b socket (Inr [p, q]) n = Inr (with_pane p (new_terminal E F b socket n))"
    using assms resolve_view [OF assms(1), of "Inr [p, q]" "[p, q]" E F b socket]
    by (simp add: managedPanes_def view_of_def)
  show "map_of (foldl (add_pane (new_terminal E F b socket)) [] [p, q]) n = Some (with_pane q (new_terminal E F b socket n))"
    using assms by (simp add: add_pane_def add_name_def with_pane_def)
qed

section \<open>Automatic names\<close>

lemma max_auto_fold:
  "mx \<le> foldl (\<lambda>mx n. case auto_value n of None \<Rightarrow> mx | Some v \<Rightarrow> if v > mx then v else mx) mx ns
    \<and> (\<forall>n \<in> set ns. \<forall>v. auto_value n = Some v \<longrightarrow>
        v \<le> foldl (\<lambda>mx n. case auto_value n of None \<Rightarrow> mx | Some v \<Rightarrow> if v > mx then v else mx) mx ns)"
proof (induction ns arbitrary: mx)
  case (Cons n ns)
  define mx' where "mx' = (case auto_value n of None \<Rightarrow> mx | Some v \<Rightarrow> if v > mx then v else mx)"
  have "mx \<le> mx'" "\<forall>v. auto_value n = Some v \<longrightarrow> v \<le> mx'" by (auto simp: mx'_def split: option.split)
  then show ?case using Cons.IH [of mx'] by (auto simp: mx'_def [symmetric] intro: order_trans)
qed simp

lemma max_auto_ge: "n \<in> set ns \<Longrightarrow> auto_value n = Some v \<Longrightarrow> v \<le> max_auto ns"
  and max_auto_nonneg: "0 \<le> max_auto ns"
  using max_auto_fold [of 0 ns] by (auto simp: max_auto_def)

lemma auto_value_itoa:
  assumes "0 < v" "v < 2 ^ 63"
  shows "auto_value (bc CHR ''t'' # itoa v) = Some v"
proof -
  have "itoa v = digits (nat v)" using assms by (simp add: itoa_def)
  then show ?thesis using assms digits_are_digits [of "nat v"] atoi_itoa [of v]
    by (simp add: auto_value_def auto_digits_def)
qed

lemma digit_is_name_byte: "is_digit b \<Longrightarrow> name_byte b"
  by (simp add: name_byte_def name_head_def)

lemma next_auto:
  assumes "max_auto existing < 2 ^ 63 - 1"
  shows "NextAutoName existing \<notin> set existing \<and> ValidName (NextAutoName existing)
    \<and> auto_value (NextAutoName existing) = Some (max_auto existing + 1)"
proof -
  define v where "v = max_auto existing + 1"
  have v: "0 < v" "v < 2 ^ 63" using assms max_auto_nonneg [of existing] by (auto simp: v_def)
  then have e: "NextAutoName existing = bc CHR ''t'' # digits (nat v)"
    using wrap64_id [of v] by (simp add: NextAutoName_def v_def [symmetric] itoa_def)
  have a: "auto_value (NextAutoName existing) = Some v"
    using auto_value_itoa [OF v] e v by (simp add: itoa_def)
  have "nat v < 10 ^ 19" using v by simp
  then have "length (digits (nat v)) \<le> 19" by (rule digits_length) simp
  then have "ValidName (NextAutoName existing)"
    using digits_are_digits [of "nat v"] by (auto simp: e ValidName_def name_head_def list_all_iff digit_is_name_byte)
  moreover have "NextAutoName existing \<notin> set existing" using max_auto_ge [OF _ a, of existing] by (auto simp: v_def)
  ultimately show ?thesis using a by (simp add: v_def)
qed

text \<open>After the largest one the number wraps around, and the name is one no \<open>autoNameRe\<close> matches.\<close>

lemma next_auto_wraps:
  "NextAutoName [bc CHR ''t'' # itoa (2 ^ 63 - 1)] = bc CHR ''t'' # itoa (- (2 ^ 63))"
  "auto_value (bc CHR ''t'' # itoa (- (2 ^ 63))) = None"
proof -
  have "max_auto [bc CHR ''t'' # itoa (2 ^ 63 - 1)] = 2 ^ 63 - 1"
    using auto_value_itoa [of "2 ^ 63 - 1"] by (simp add: max_auto_def)
  moreover have "wrap64 (2 ^ 63 - 1 + 1) = - (2 ^ 63)" by (simp add: wrap64_def)
  ultimately show "NextAutoName [bc CHR ''t'' # itoa (2 ^ 63 - 1)] = bc CHR ''t'' # itoa (- (2 ^ 63))"
    by (simp only: NextAutoName_def)
  show "auto_value (bc CHR ''t'' # itoa (- (2 ^ 63))) = None"
    by (simp add: auto_value_def auto_digits_def itoa_def is_digit_def)
qed

section \<open>Laws of layers\<close>

lemma name_socket_bytes: "ValidName n \<Longrightarrow> n \<noteq> [] \<and> length n \<le> 32 \<and> list_all socket_byte n"
  by (auto simp: ValidName_def name_byte_def socket_byte_def socket_head_def list_all_iff split: list.splits)

lemma valid_socket: "ValidSocketName s \<longleftrightarrow> s \<noteq> [] \<and> socket_head (hd s) \<and> length s \<le> 64 \<and> list_all socket_byte s"
  by (cases s) (auto simp: ValidSocketName_def socket_byte_def)

lemma hex_socket_byte: "is_hex b \<Longrightarrow> socket_byte b"
  by (auto simp: is_hex_def socket_byte_def socket_head_def name_head_def intro: order_trans)

lemma ChildSocket_valid:
  assumes "ValidSocketName (normalizedSocket parent)" "ValidName name"
  shows "ValidSocketName (ChildSocket parent name)"
proof -
  define full where "full = normalizedSocket parent @ bs ''-'' @ name"
  define sfx where "sfx = bs ''-'' @ hex (take 4 (Sum256 full))"
  have f: "full \<noteq> []" "socket_head (hd full)" "list_all socket_byte full"
    using assms name_socket_bytes [OF assms(2)] by (auto simp: full_def valid_socket socket_byte_def)
  have s: "length sfx = 9" "list_all socket_byte sfx"
    using hex_is_hex [of "take 4 (Sum256 full)"] hex_socket_byte
    by (auto simp: sfx_def length_hex length_Sum256 list_all_iff socket_byte_def)
  have v: "ValidSocketName ((if 55 < length full then take 55 full else full) @ sfx)"
    if "\<not> (length full \<le> 64 \<and> ValidSocketName full)"
    using f s that by (auto simp: valid_socket list_all_iff hd_append dest: in_set_takeD)
  have e: "ChildSocket parent name = (if length full \<le> 64 \<and> ValidSocketName full then full
      else (if 64 - length sfx < length full then take (64 - length sfx) full else full) @ sfx)"
    by (simp only: ChildSocket_def Let_def full_def [symmetric] sfx_def [symmetric] maxSocketName_def)
  show ?thesis
  proof (cases "length full \<le> 64 \<and> ValidSocketName full")
    case False
    then have "ChildSocket parent name = (if 55 < length full then take 55 full else full) @ sfx"
      unfolding e using s(1) by auto
    then show ?thesis using v [OF False] by (simp only:)
  qed (simp add: e)
qed

text \<open>Long names stop growing: below an endpoint name of 64 bytes every layer has one of 64 bytes.\<close>

lemma ChildSocket_stops_growing:
  assumes "64 \<le> length (normalizedSocket parent)"
  shows "length (ChildSocket parent name) = 64"
  using assms by (simp add: ChildSocket_def Let_def maxSocketName_def length_hex length_Sum256)

text \<open>Different terminals can drive the same layer: \<open>b\<close> within \<open>a\<close>, and \<open>a-b\<close>.\<close>

lemma ChildSocket_ambiguous:
  "ChildSocket (ChildSocket [] (bs ''a'')) (bs ''b'') = ChildSocket [] (bs ''a-b'')"
  by (simp add: ChildSocket_def normalizedSocket_def DefaultSocket_def maxSocketName_def ValidSocketName_def
      socket_byte_def socket_head_def name_head_def is_digit_def Let_def)

text \<open>Terminals of one endpoint have different layers, as long as the names fit.\<close>

lemma ChildSocket_inj:
  assumes "ValidSocketName (normalizedSocket parent @ bs ''-'' @ m)" "ValidSocketName (normalizedSocket parent @ bs ''-'' @ n)"
  shows "ChildSocket parent m = ChildSocket parent n \<longleftrightarrow> m = n"
  using assms by (simp add: ChildSocket_def Let_def valid_socket maxSocketName_def)

text \<open>What a kill takes down is exactly what it reports, every reported endpoint had a running server, and
  the layer of the terminal itself comes last.\<close>

definition ended :: "(byte list \<Rightarrow> bool) \<Rightarrow> byte list list \<Rightarrow> layers \<Rightarrow> layers" where
  "ended dies ks live = (\<lambda>s. if s \<in> set ks \<and> dies s then None else live s)"

lemma ended_append: "ended dies (ks @ ks') live = ended dies ks' (ended dies ks live)"
  by (auto simp: ended_def)

definition kill_step :: "nat \<Rightarrow> (byte list \<Rightarrow> bool) \<Rightarrow> (byte list \<Rightarrow> bool) \<Rightarrow> byte list
    \<Rightarrow> byte list list \<times> layers \<Rightarrow> pane_info \<Rightarrow> byte list list \<times> layers" where
  "kill_step k hasDir dies child = (\<lambda>(acc, l) p. if ValidName (InfoName p)
     then (let (ks, l') = killLayers k hasDir dies l child (InfoName p) in (acc @ ks, l')) else (acc, l))"

definition kill_ok :: "(byte list \<Rightarrow> bool) \<Rightarrow> (byte list \<Rightarrow> bool) \<Rightarrow> layers \<Rightarrow> byte list list \<times> layers \<Rightarrow> bool" where
  "kill_ok hasDir dies live r \<longleftrightarrow>
     snd r = ended dies (fst r) live \<and> (\<forall>s \<in> set (fst r). live s \<noteq> None \<and> hasDir s)"

lemma kill_ok_append:
  "kill_ok hasDir dies live (acc, l) \<Longrightarrow> kill_ok hasDir dies l (ks, l') \<Longrightarrow> kill_ok hasDir dies live (acc @ ks, l')"
  by (auto simp: kill_ok_def ended_append) (auto simp: ended_def split: if_splits)

lemma kill_steps:
  assumes "\<And>l s n. kill_ok hasDir dies l (killLayers k hasDir dies l s n)"
  shows "kill_ok hasDir dies live r \<Longrightarrow> kill_ok hasDir dies live (foldl (kill_step k hasDir dies child) r ps)"
proof (induction ps arbitrary: r)
  case (Cons p ps)
  obtain acc l where r: "r = (acc, l)" by (cases r)
  have "kill_ok hasDir dies live (kill_step k hasDir dies child r p)"
    using Cons.prems kill_ok_append [OF Cons.prems [unfolded r]] assms [of l child "InfoName p"]
    by (auto simp: kill_step_def r split: prod.split)
  then show ?case using Cons.IH by simp
qed simp

lemma killLayers_ok: "kill_ok hasDir dies live (killLayers k hasDir dies live socket name)"
proof (induction k arbitrary: live socket name)
  case 0
  then show ?case by (simp add: kill_ok_def ended_def)
next
  case (Suc k)
  define child where "child = ChildSocket socket name"
  show ?case
  proof (cases "hasDir child \<and> live child \<noteq> None")
    case True
    then obtain ps where ps: "live child = Some ps" by auto
    obtain ks l where r: "foldl (kill_step k hasDir dies child) ([], live) ps = (ks, l)" by fastforce
    have ok: "kill_ok hasDir dies live (ks, l)"
      using kill_steps [OF Suc.IH, of live "([], live)" child ps] by (simp add: r kill_ok_def ended_def)
    have "killLayers (Suc k) hasDir dies live socket name =
        (ks @ [child], if dies child then l(child := None) else l)"
      using True ps r by (simp add: child_def [symmetric] kill_step_def Let_def)
    moreover have "kill_ok hasDir dies live (ks @ [child], if dies child then l(child := None) else l)"
      using ok True by (auto simp: kill_ok_def ended_def fun_eq_iff)
    ultimately show ?thesis by simp
  qed (auto simp: child_def kill_ok_def ended_def Let_def split: option.split)
qed

end
