(* ===== verification/Patterns.thy ===== *)
theory Patterns
  imports Regex Text
begin

text \<open>
  The patterns by which \<open>internal/detect/await.go\<close> recognises a program waiting for a human, written as
  \<open>regex\<close> values, and what the secret pattern recognises. The user's own pattern
  (\<open>PAIRMUX_SECRET_PROMPT_RE\<close>) is an argument, with the compiler of patterns.
\<close>

section \<open>The built-in patterns\<close>

text \<open>The Latin keywords, between word boundaries.\<close>

definition secret_words :: regex where
  "secret_words =
     ralt [rseq [rstr_i ''pass'', ropt rspace, ralt [rstr_i ''word'', rstr_i ''phrase'', rstr_i ''code'']],
       rstr_i ''passwort'', rrunes_i (ascii ''contrase'' @ [0xF1] @ ascii ''a''), rstr_i ''senha'',
       rstr_i ''mot de passe'',
       rstr_i ''pin'', rstr_i ''otp'', rstr_i ''mfa'', rstr_i ''2fa'', rstr_i ''secret'', rstr_i ''token'',
       rseq [rstr_i ''credential'', ropt (rstr_i ''s'')],
       rseq [ralt [rstr_i ''verification'', rstr_i ''security'',
               rseq [rstr_i ''auth'', ropt (rstr_i ''entication'')], rstr_i ''access''], rstr_i '' code''],
       rseq [ralt [rstr_i ''api'', rstr_i ''encryption'', rstr_i ''private'', rstr_i ''ssh'', rstr_i ''gpg''],
             rstr_i '' key'']]"

definition secret_bare :: "regex list" where
  "secret_bare =
     [rrunes_i [0x5BC6, 0x78BC], rrunes_i [0x5BC6, 0x7801], rrunes_i [0x30D1, 0x30B9, 0x30EF, 0x30FC, 0x30C9],
      rrunes_i [0x6697, 0x8A3C, 0x756A, 0x53F7], rrunes_i [0xBE44, 0xBC00, 0xBC88, 0xD638],
      rrunes_i [0xC554, 0xD638], rrunes_i [0x43F, 0x430, 0x440, 0x43E, 0x43B, 0x44C]]"

definition colon_class :: "(rune \<times> rune) list" where "colon_class = [(0x3A, 0x3A), (0xFF1A, 0xFF1A)]"

definition reSecretPrompt :: regex where
  "reSecretPrompt =
     rseq [ralt (rseq [RWordB, secret_words, RWordB] # secret_bare),
           RStar rany, RClass colon_class, RStar rspace, REnd]"

definition reConfirmYN :: regex where
  "reConfirmYN =
     rseq [rstr ''['', RClass [(0x79, 0x79), (0x59, 0x59)], rstr ''/'', RClass [(0x6E, 0x6E), (0x4E, 0x4E)],
       RStar (RSeq (rstr ''/'') (rplus (RClass [(0x61, 0x7A), (0x41, 0x5A)]))), rstr '']'',
       RStar rspace, ropt (rstr ''?''), RStar rspace, REnd]"

definition reConfirmWord :: regex where
  "reConfirmWord =
     rseq [rstr_i ''('', ralt [rstr_i ''yes/no'', rstr_i ''y/n''], RStar (RSeq (rstr_i ''/'') (rplus rword_i)),
       rstr_i '')'', RStar rspace, ropt (rstr_i ''?''), RStar rspace, REnd]"

definition rePager :: regex where
  "rePager =
     ralt [rstr ''--More--'', rseq [rstr ''(END)'', RStar rspace, REnd], rseq [RBegin, rstr '':'', RStar rspace, REnd]]"

definition rePressKey :: regex where
  "rePressKey = rseq [rstr_i ''press '', ralt [rstr_i ''any key'', rstr_i ''enter'', rstr_i ''return'']]"

section \<open>The user's pattern\<close>

type_synonym extra_re = "(byte list \<Rightarrow> bool) option"

text \<open>\<open>extraSecretRE\<close> and its cache of the last value of the variable. \<open>compile\<close> is
  \<open>regexp.Compile\<close>.\<close>

definition extra_of :: "(byte list \<Rightarrow> extra_re) \<Rightarrow> byte list \<Rightarrow> extra_re" where
  "extra_of compile src = (if src = [] then None else compile src)"

record extra_cache =
  extraSecretSrc :: "byte list"
  extraSecretVal :: extra_re

definition extraSecretRE :: "(byte list \<Rightarrow> extra_re) \<Rightarrow> byte list \<Rightarrow> extra_cache \<Rightarrow> extra_re \<times> extra_cache" where
  "extraSecretRE compile src c =
     (if src = extraSecretSrc c then (extraSecretVal c, c)
      else let c1 = c\<lparr>extraSecretSrc := src, extraSecretVal := None\<rparr>;
               c2 = (if src \<noteq> [] then
                       (case compile src of Some re \<Rightarrow> c1\<lparr>extraSecretVal := Some re\<rparr> | None \<Rightarrow> c1)
                     else c1)
           in (extraSecretVal c2, c2))"

definition extra_cache_ok :: "(byte list \<Rightarrow> extra_re) \<Rightarrow> extra_cache \<Rightarrow> bool" where
  "extra_cache_ok compile c \<longleftrightarrow> extraSecretVal c = extra_of compile (extraSecretSrc c)"

lemma extraSecretRE_cached:
  "extra_cache_ok compile c \<Longrightarrow>
   fst (extraSecretRE compile src c) = extra_of compile src \<and> extra_cache_ok compile (snd (extraSecretRE compile src c))"
  by (auto simp: extraSecretRE_def extra_cache_ok_def extra_of_def Let_def split: option.split)

definition extra_match :: "extra_re \<Rightarrow> byte list \<Rightarrow> bool" where
  "extra_match X l \<longleftrightarrow> (case X of None \<Rightarrow> False | Some f \<Rightarrow> f l)"

definition isInteractivePrompt :: "extra_re \<Rightarrow> byte list \<Rightarrow> bool" where
  "isInteractivePrompt X l \<longleftrightarrow>
     (if trim_space l = bs ''>>>'' \<or> MatchString reSecretPrompt l \<or> MatchString reConfirmYN l
         \<or> MatchString reConfirmWord l \<or> MatchString rePager l \<or> MatchString rePressKey l then True
      else extra_match X l)"

definition LooksSecret :: "extra_re \<Rightarrow> byte list \<Rightarrow> bool" where
  "LooksSecret X l \<longleftrightarrow>
     (let p = trim_space l in if MatchString reSecretPrompt p then True else extra_match X p)"

section \<open>Text as runes\<close>

definition utf8 :: "rune list \<Rightarrow> byte list" where
  "utf8 rs = concat (map encode_rune rs)"

lemma encode_ne: "valid_rune r \<Longrightarrow> encode_rune r \<noteq> []"
  using decode_encode [of r "[]"] by (auto simp: encode_rune_def enc2_def enc3_def enc4_def)

lemma runes_utf8: "list_all valid_rune rs \<Longrightarrow> runes_of (utf8 rs) = rs"
proof (induction rs)
  case (Cons r rs)
  then have "decode_rune (encode_rune r @ utf8 rs) = (r, length (encode_rune r))" by (intro decode_encode) simp
  then show ?case
    using Cons encode_ne [of r] by (subst runes_of.simps) (simp add: utf8_def)
qed (simp add: utf8_def runes_of.simps)

section \<open>What the patterns match\<close>

lemma spans_rseq_Cons: "as \<noteq> [] \<Longrightarrow> spans (rseq (a # as)) w i k \<longleftrightarrow> (\<exists>j. spans a w i j \<and> spans (rseq as) w j k)"
  by (cases as) auto

lemma spans_ralt: "spans (ralt as) w i j \<longleftrightarrow> (\<exists>a \<in> set as. spans a w i j)"
  by (induction as rule: ralt.induct) (auto simp: in_class_def)

lemma spans_classes:
  assumes "list_all2 (\<lambda>c r. in_class c r) cs kw" "w = u @ kw @ v"
  shows "spans (rseq (map RClass cs)) w (length u) (length u + length kw)"
  using assms
proof (induction cs kw arbitrary: u rule: list_all2_induct)
  case (Cons c cs k kw)
  have "spans (rseq (map RClass cs)) w (length (u @ [k])) (length (u @ [k]) + length kw)"
    using Cons by (intro Cons.IH) simp
  moreover have "spans (RClass c) w (length u) (Suc (length u))"
    using Cons by (simp add: nth_append)
  ultimately show ?case
  proof (cases "cs = []")
    case True
    then show ?thesis using Cons by (simp add: nth_append)
  next
    case False
    then show ?thesis
      using \<open>spans (RClass c) w _ _\<close> \<open>spans (rseq (map RClass cs)) w _ _\<close>
      by (simp only: list.map) (subst spans_rseq_Cons, auto)
  qed
qed simp

text \<open>\<open>kw\<close> is \<open>ks\<close> up to case.\<close>

definition same_letters :: "rune list \<Rightarrow> rune list \<Rightarrow> bool" where
  "same_letters ks kw \<longleftrightarrow> list_all2 (\<lambda>k r. in_class (fold_class k) r) ks kw"

lemma spans_runes_i:
  "same_letters ks kw \<Longrightarrow> w = u @ kw @ v \<Longrightarrow> spans (rrunes_i ks) w (length u) (length u + length kw)"
  using spans_classes [of "map fold_class ks" kw w u v]
  by (simp add: same_letters_def rrunes_i_def list_all2_map1 comp_def)

lemma spans_star_class:
  assumes "list_all (in_class rs) v" "w = u @ v @ x"
  shows "spans (RStar (RClass rs)) w (length u) (length u + length v)"
  using assms
proof (induction v arbitrary: x rule: rev_induct)
  case (snoc r v)
  then have "spans (RStar (RClass rs)) w (length u) (length u + length v)" by simp
  moreover have "spans (RClass rs) w (length u + length v) (Suc (length u + length v))"
    using snoc.prems by (simp add: nth_append)
  ultimately show ?case using s_more by fastforce
qed (simp add: s_stop)

lemma colon_end:
  assumes "spans (rseq [RStar rany, RClass colon_class, RStar rspace, REnd]) w i j" "i \<le> length w"
  shows "0x3A \<in> set w \<or> 0xFF1A \<in> set w"
proof -
  obtain k where "k < length w" "in_class colon_class (w ! k)"
    using assms(1) by auto
  then show ?thesis by (auto simp: in_class_def colon_class_def dest: nth_mem)
qed

lemma secret_needs_colon:
  assumes "MatchString reSecretPrompt s"
  shows "0x3A \<in> set (runes_of s) \<or> 0xFF1A \<in> set (runes_of s)"
proof -
  obtain i j where "spans reSecretPrompt (runes_of s) i j" "i \<le> length (runes_of s)"
    using assms by (auto simp: MatchString_iff)
  then obtain k where "spans (ralt (rseq [RWordB, secret_words, RWordB] # secret_bare)) (runes_of s) i k"
    "spans (rseq [RStar rany, RClass colon_class, RStar rspace, REnd]) (runes_of s) k j"
    unfolding reSecretPrompt_def by (subst (asm) spans_rseq_Cons) auto
  then show ?thesis using colon_end spans_bounds \<open>i \<le> _\<close> by blast
qed

lemma spans_tail:
  assumes "list_all (in_class [(0, 9), (11, 0x10FFFF)]) v" "in_class colon_class c"
    and "list_all (in_class [(0x09, 0x0A), (0x0C, 0x0D), (0x20, 0x20)]) sp" "w = u @ v @ c # sp"
  shows "spans (rseq [RStar rany, RClass colon_class, RStar rspace, REnd]) w (length u) (length w)"
proof -
  have "spans (RStar rany) w (length u) (length (u @ v))"
    unfolding rany_def using spans_star_class [of _ v w u "c # sp"] assms by simp
  moreover have "spans (RClass colon_class) w (length (u @ v)) (length (u @ v @ [c]))"
    using assms by (simp add: nth_append)
  moreover have "spans (RStar rspace) w (length (u @ v @ [c])) (length w)"
    unfolding rspace_def using spans_star_class [of _ sp w "u @ v @ [c]" "[]"] assms by (simp add: add.assoc)
  ultimately show ?thesis by auto
qed

text \<open>A keyword that stands as a word.\<close>

lemma word_boundaries:
  assumes "w = u @ kw @ v" "kw \<noteq> []" "word_rune (hd kw)" "word_rune (last kw)"
    and "u = [] \<or> \<not> word_rune (last u)" "v = [] \<or> \<not> word_rune (hd v)"
  shows "at_word_boundary w (length u)" "at_word_boundary w (length u + length kw)"
proof -
  obtain ks k where "kw = ks @ [k]" using assms(2) by (cases kw rule: rev_cases) auto
  then have "w ! (length u + length kw - 1) = last kw"
    using nth_append_length [of "u @ ks" k v] assms(1) by simp
  moreover have "u \<noteq> [] \<Longrightarrow> w ! (length u - 1) = last u" "w ! length u = hd kw"
    "v \<noteq> [] \<Longrightarrow> w ! (length u + length kw) = hd v"
    using assms(1,2) by (auto simp: nth_append last_conv_nth hd_conv_nth)
  moreover have "length u < length w" "0 < length u + length kw" "v = [] \<longleftrightarrow> length u + length kw = length w"
    using assms(1,2) by auto
  moreover have "v \<noteq> [] \<Longrightarrow> length u + length kw < length w" using assms(1) by auto
  ultimately show "at_word_boundary w (length u)" "at_word_boundary w (length u + length kw)"
    unfolding at_word_boundary_def using assms(3-6) by (cases "u = []"; cases "v = []"; simp)+
qed

definition pass_tails :: "string list" where "pass_tails = [''word'', ''phrase'', ''code'']"
definition credential_tails :: "string list" where "credential_tails = [[], ''s'']"
definition plain_words :: "string list" where
  "plain_words = [''passwort'', ''senha'', ''mot de passe'', ''pin'', ''otp'', ''mfa'', ''2fa'', ''secret'', ''token'']"

definition latin_words :: "rune list list" where
  "latin_words =
     map (\<lambda>s. ascii ''pass'' @ ascii s) pass_tails @ map (\<lambda>s. ascii ''credential'' @ ascii s) credential_tails
     @ map ascii plain_words"

lemma latin_words_ne: "ks \<in> set latin_words \<Longrightarrow> ks \<noteq> []"
  by (auto simp: latin_words_def plain_words_def ascii_def)

lemma same_letters_append:
  "same_letters (ks @ ls) kw \<longleftrightarrow> (\<exists>k l. kw = k @ l \<and> same_letters ks k \<and> same_letters ls l)"
  unfolding same_letters_def list_all2_append1 by (metis list_all2_lengthD)

lemma same_letters_length: "same_letters ks kw \<Longrightarrow> length kw = length ks"
  by (auto simp: same_letters_def dest: list_all2_lengthD)

text \<open>Two words after one another, the second possibly optional.\<close>

lemma spans_two:
  assumes "same_letters (ks @ ls) kw" "w = u @ kw @ v"
  shows "\<exists>j. spans (rrunes_i ks) w (length u) j \<and> spans (rrunes_i ls) w j (length u + length kw)"
proof -
  obtain k l where kl: "kw = k @ l" "same_letters ks k" "same_letters ls l"
    using assms(1) by (auto simp: same_letters_append)
  then show ?thesis
    using spans_runes_i [OF kl(2), of w u "l @ v"] spans_runes_i [OF kl(3), of w "u @ k" v] assms(2)
    by (auto simp: add.assoc)
qed

lemma spans_secret_words:
  assumes "ks \<in> set latin_words" "same_letters ks kw" "w = u @ kw @ v"
  shows "spans secret_words w (length u) (length u + length kw)"
proof -
  have pass: "spans secret_words w (length u) (length u + length kw)"
    if "ks = ascii ''pass'' @ ascii s" "s \<in> set pass_tails" for s
    using spans_two [of "ascii ''pass''" "ascii s" kw w u v] that assms(2,3)
    unfolding secret_words_def spans_ralt
    by (intro bexI [of _ "rseq [rstr_i ''pass'', ropt rspace, ralt [rstr_i ''word'', rstr_i ''phrase'', rstr_i ''code'']]"])
      (auto simp: rstr_i_def ropt_def spans_ralt pass_tails_def)
  have cred: "spans secret_words w (length u) (length u + length kw)"
    if "ks = ascii ''credential'' @ ascii s" "s \<in> set credential_tails" for s
    using spans_two [of "ascii ''credential''" "ascii s" kw w u v] that assms(2,3)
    unfolding secret_words_def spans_ralt
    by (intro bexI [of _ "rseq [rstr_i ''credential'', ropt (rstr_i ''s'')]"])
      (auto simp: rstr_i_def ropt_def rrunes_i_def ascii_def credential_tails_def)
  have lit: "spans secret_words w (length u) (length u + length kw)"
    if "ks = ascii s" "s \<in> set plain_words" for s
  proof -
    have "spans (rstr_i s) w (length u) (length u + length kw)"
      using spans_runes_i [OF assms(2,3)] that(1) by (simp add: rstr_i_def)
    then show ?thesis unfolding secret_words_def spans_ralt
      using that(2) unfolding plain_words_def list.set by blast
  qed
  consider s where "ks = ascii ''pass'' @ ascii s" "s \<in> set pass_tails"
    | s where "ks = ascii ''credential'' @ ascii s" "s \<in> set credential_tails"
    | s where "ks = ascii s" "s \<in> set plain_words"
    using assms(1) unfolding latin_words_def set_append set_map by blast
  then show ?thesis using pass cred lit by cases blast+
qed

lemma secret_recognised:
  assumes "ks \<in> set latin_words" "same_letters ks kw" "word_rune (hd kw)" "word_rune (last kw)"
    and "u = [] \<or> \<not> word_rune (last u)" "v = [] \<or> \<not> word_rune (hd v)"
    and "list_all valid_rune (u @ kw @ v)" "list_all (in_class [(0, 9), (11, 0x10FFFF)]) v"
    and "in_class colon_class c" "list_all (in_class [(0x09, 0x0A), (0x0C, 0x0D), (0x20, 0x20)]) sp"
  shows "MatchString reSecretPrompt (utf8 (u @ kw @ v @ c # sp))"
proof -
  define w where "w = u @ kw @ v @ c # sp"
  have "kw \<noteq> []" using latin_words_ne [OF assms(1)] same_letters_length [OF assms(2)] by auto
  moreover have "v @ c # sp = [] \<or> \<not> word_rune (hd (v @ c # sp))"
    using assms(6,9) by (cases v) (auto simp: in_class_def colon_class_def word_rune_def)
  ultimately have b: "at_word_boundary w (length u)" "at_word_boundary w (length u + length kw)"
    using word_boundaries [of w u kw "v @ c # sp"] assms(3-5) by (simp_all add: w_def)
  have "spans (rseq [RWordB, secret_words, RWordB]) w (length u) (length u + length kw)"
    using b spans_secret_words [OF assms(1,2), of w u "v @ c # sp"] by (auto simp: w_def)
  moreover have "spans (rseq [RStar rany, RClass colon_class, RStar rspace, REnd]) w (length (u @ kw)) (length w)"
    using spans_tail [OF assms(8-10), of w "u @ kw"] by (simp add: w_def)
  ultimately have "spans reSecretPrompt w (length u) (length w)"
    unfolding reSecretPrompt_def by (subst spans_rseq_Cons) (auto simp: spans_ralt)
  moreover have "list_all valid_rune w"
  proof -
    have "valid_rune r" if "in_class colon_class r \<or> in_class [(0x09, 0x0A), (0x0C, 0x0D), (0x20, 0x20)] r" for r
      using that by (auto simp: in_class_def colon_class_def valid_rune_def surrogate_def)
    then show ?thesis using assms(7,9,10) by (auto simp: w_def list_all_iff)
  qed
  moreover have "length u \<le> length w" by (simp add: w_def)
  ultimately show ?thesis unfolding w_def [symmetric] using runes_utf8 [of w] by (auto simp: MatchString_iff)
qed

text \<open>Lines of the source's own tests.\<close>

lemma pattern_examples:
  "list_all (isInteractivePrompt None)
    [bs ''[sudo] password for treeleaves:'', bs ''Enter PEM pass phrase:'', bs ''PIN for token YubiKey:'', bs ''2FA code:'',
     utf8 (ascii ''[sudo] '' @ [0x5BC6, 0x78BC, 0xFF1A]), bs ''Proceed [y/N]?'', bs ''Continue? (y/N/q)'',
     bs ''--More--(56%)'', bs ''/etc/hosts (END)'', bs '':'', bs ''press ENTER to continue'', bs ''>>> '']
   \<and> \<not> list_ex (isInteractivePrompt None)
    [[], bs ''user@host ~ %'', bs ''/usr/local/bin:'', bs ''wrong password for user'',
     bs ''reached (END) of section during parse'', bs ''options are [yes|no]'']"
  by code_simp

end
