(* ===== verification/Shellhooks.thy ===== *)
theory Shellhooks
  imports Registry Patterns Scanner
begin

text \<open>
  \<open>internal/shellhooks/shellhooks.go\<close>: how a shell is launched and what is typed around a command in
  sentinel mode. \<open>Kind\<close> is that of Unix (\<open>filepath.Base\<close> without volume names). The embedded
  PowerShell script is an argument, writing a file is one that may fail, \<open>windows\<close> is
  \<open>runtime.GOOS = "windows"\<close>; state directories are clean paths.
\<close>

section \<open>Kinds\<close>

abbreviation slash :: byte where "slash \<equiv> bc CHR ''/''"

definition replace_byte :: "byte \<Rightarrow> byte \<Rightarrow> byte list \<Rightarrow> byte list" where
  "replace_byte a b = map (\<lambda>c. if c = a then b else c)"

definition path_base :: "byte list \<Rightarrow> byte list" where
  "path_base p =
     (if p = [] then bs ''.''
      else let q = rstrip (\<lambda>b. b = slash) p in if q = [] then [slash] else last (split_on slash q))"

definition trim_suffix :: "byte list \<Rightarrow> byte list \<Rightarrow> byte list" where
  "trim_suffix s p = (if length s \<le> length p \<and> drop (length p - length s) p = s then take (length p - length s) p else p)"

definition ShellKind :: "byte list \<Rightarrow> byte list" where
  "ShellKind shell = trim_suffix (bs ''.exe'') (ToLower (path_base (replace_byte 0x5c slash shell)))"

definition isPowerShell :: "byte list \<Rightarrow> bool" where
  "isPowerShell kind \<longleftrightarrow> kind = bs ''pwsh'' \<or> kind = bs ''powershell''"

section \<open>Encoded commands\<close>

definition utf16_units :: "rune \<Rightarrow> int list" where
  "utf16_units r =
     (if 0 \<le> r \<and> r < 0xd800 \<or> 0xe000 \<le> r \<and> r < 0x10000 then [r]
      else if 0x10000 \<le> r \<and> r \<le> 0x10ffff
        then [0xd800 + (r - 0x10000) div 0x400, 0xdc00 + (r - 0x10000) mod 0x400]
      else [0xfffd])"

definition base64_char :: "nat \<Rightarrow> byte" where
  "base64_char n =
     (if n < 26 then of_nat (n + 65) else if n < 52 then of_nat (n - 26 + 97) else if n < 62 then of_nat (n - 52 + 48)
      else if n = 62 then bc CHR ''+'' else slash)"

abbreviation eq_sign :: byte where "eq_sign \<equiv> bc CHR ''=''"

fun base64 :: "byte list \<Rightarrow> byte list" where
  "base64 [] = []"
| "base64 [a] = [base64_char (unat a div 4), base64_char (unat a mod 4 * 16), eq_sign, eq_sign]"
| "base64 [a, b] =
     [base64_char (unat a div 4), base64_char (unat a mod 4 * 16 + unat b div 16), base64_char (unat b mod 16 * 4), eq_sign]"
| "base64 (a # b # c # p) =
     base64_char (unat a div 4) # base64_char (unat a mod 4 * 16 + unat b div 16)
       # base64_char (unat b mod 16 * 4 + unat c div 64) # base64_char (unat c mod 64) # base64 p"

definition EncodeCommand :: "byte list \<Rightarrow> byte list" where
  "EncodeCommand script =
     (let units = concat (map utf16_units (runes_of script))
      in base64 (concat (map (\<lambda>u. [of_int (u mod 256), of_int (u div 256)]) units)))"

section \<open>Launching\<close>

definition cmdEnv :: "(byte list \<times> byte list) list" where
  "cmdEnv = [(bs ''PAIRMUX_ESC'', [ESC]), (bs ''PAIRMUX_BEL'', [BEL]), (bs ''PAIRMUX_EOC'', SentinelBoundary)]"

type_synonym launch = "byte list list \<times> (byte list \<times> byte list) list \<times> Mode"

definition prepare_override :: "bool \<Rightarrow> byte list \<Rightarrow> byte list list \<Rightarrow> launch" where
  "prepare_override windows shell cmdOverride =
     (let kind = ShellKind shell; script = join_with [0x20] cmdOverride
      in if \<not> windows then ([bs ''/bin/sh'', bs ''-lc''] @ cmdOverride, [], ModeSentinel)
         else if isPowerShell kind then
           ([shell, bs ''-NoLogo'', bs ''-EncodedCommand'', EncodeCommand script], [], ModeSentinel)
         else if kind = bs ''cmd'' then ([shell, bs ''/s'', bs ''/c'', script], [], ModeSentinel)
         else ([shell, bs ''-lc'', script], [], ModeSentinel))"

text \<open>\<open>writes\<close> says whether the directory and the files of a shim could be written.\<close>

definition Prepare :: "bool \<Rightarrow> byte list \<Rightarrow> bool \<Rightarrow> byte list \<Rightarrow> byte list \<Rightarrow> byte list list \<Rightarrow> launch option" where
  "Prepare windows pwshShim writes stateDir shell cmdOverride =
     (let kind = ShellKind shell
      in if cmdOverride \<noteq> [] then Some (prepare_override windows shell cmdOverride)
         else if kind = bs ''zsh'' then
           (if \<not> writes then None
            else Some ([bs ''zsh'', bs ''-i''],
              [(bs ''ZDOTDIR'', path_under stateDir (bs ''shim-zsh'')), (bs ''PAIRMUX'', bs ''1'')], ModeHooks))
         else if kind = bs ''bash'' \<or> kind = bs ''sh'' then
           (if \<not> writes then None
            else let rc = path_under stateDir (bs ''shim-bash.rc'')
                 in Some ([if windows then shell else bs ''bash'', bs ''--rcfile'',
                           if windows then replace_byte 0x5c slash rc else rc, bs ''-i''], [], ModeHooks))
         else if kind = bs ''fish'' then Some ([shell], [], ModeHooks)
         else if isPowerShell kind then
           Some ([shell, bs ''-NoLogo'', bs ''-NoExit'', bs ''-EncodedCommand'', EncodeCommand pwshShim], [], ModeHooks)
         else if kind = bs ''cmd'' then Some ([shell, bs ''/v:on'', bs ''/k''], cmdEnv, ModeSentinel)
         else Some ([shell], [], ModeSentinel))"

section \<open>The sentinel\<close>

definition coreSentinelSuffix :: "byte list" where
  "coreSentinelSuffix = bs ''; printf '' @ [0x27, 0x5c] @ bs ''033]7779;p;%d'' @ [0x5c] @ bs ''007'' @ [0x27] @ bs '' $?''"

definition fishSentinelSuffix :: "byte list" where
  "fishSentinelSuffix =
     bs ''; printf '' @ [0x27, 0x5c] @ bs ''033]7779;p;%d'' @ [0x5c] @ bs ''007'' @ [0x27] @ bs '' $status''"

fun hex_num :: "nat \<Rightarrow> byte list" where
  "hex_num n = (if n < 16 then [hex_digit (of_nat n)] else hex_num (n div 16) @ [hex_digit (of_nat (n mod 16))])"

declare hex_num.simps [simp del]

definition powershellChars :: "byte list \<Rightarrow> byte list" where
  "powershellChars s =
     concat (map (\<lambda>r. bs ''$([char]0x'' @ hex_num (nat r) @ bs '')'') (runes_of s))"

definition powershellSentinelSuffix :: "byte list" where
  "powershellSentinelSuffix =
     bs ''; $__pmx_ok = $?; $Host.UI.Write('' @ [0x22]
     @ bs ''$([char]27)]7779;p;$(if ($__pmx_ok) {0} elseif ($LASTEXITCODE) {$LASTEXITCODE} else {1})$([char]7)''
     @ powershellChars SentinelBoundary @ [0x22] @ bs '')''"

definition cmdSentinelSuffix :: "byte list" where
  "cmdSentinelSuffix =
     bs '' & <nul set /p '' @ [0x22] @ bs ''=%PAIRMUX_ESC%]7779;p;!ERRORLEVEL!%PAIRMUX_BEL%%PAIRMUX_EOC%'' @ [0x22]
     @ bs '' & (call )''"

definition SentinelSuffix :: "byte list \<Rightarrow> byte list" where
  "SentinelSuffix shell =
     (let kind = ShellKind shell
      in if kind = bs ''fish'' then fishSentinelSuffix
         else if isPowerShell kind then powershellSentinelSuffix
         else if kind = bs ''cmd'' then cmdSentinelSuffix
         else coreSentinelSuffix)"

definition cmdSentinelPrefix :: "byte list" where "cmdSentinelPrefix = bs ''(call ) & ''"

definition SentinelPrefix :: "byte list \<Rightarrow> byte list" where
  "SentinelPrefix shell = (if ShellKind shell = bs ''cmd'' then cmdSentinelPrefix else [])"

definition SentinelHasBoundary :: "byte list \<Rightarrow> bool" where
  "SentinelHasBoundary shell \<longleftrightarrow> ShellKind shell = bs ''cmd'' \<or> isPowerShell (ShellKind shell)"

definition ReadyTimeout :: "byte list \<Rightarrow> int" where
  "ReadyTimeout shell = (if isPowerShell (ShellKind shell) then 20000000000 else 5000000000)"

section \<open>What is typed is not a mark\<close>

definition printable :: "byte \<Rightarrow> bool" where
  "printable b \<longleftrightarrow> 0x20 \<le> b \<and> b < 0x7f"

lemma powershell_chars: "powershellChars SentinelBoundary = bs ''$([char]0x200b)$([char]0x200b)$([char]0x200b)''"
proof -
  have "SentinelBoundary = utf8 [0x200b, 0x200b, 0x200b]" by code_simp
  then have "runes_of SentinelBoundary = [0x200b, 0x200b, 0x200b]"
    using runes_utf8 [of "[0x200b, 0x200b, 0x200b]"] by (simp add: valid_rune_def surrogate_def)
  moreover have "hex_num 0x200b = bs ''200b''" by (simp add: hex_num.simps hex_digit_def)
  ultimately show ?thesis by (simp add: powershellChars_def)
qed

lemma sentinel_printable:
  "list_all printable (SentinelPrefix shell)" "list_all printable (SentinelSuffix shell)"
proof -
  show "list_all printable (SentinelPrefix shell)"
    by (simp add: SentinelPrefix_def cmdSentinelPrefix_def printable_def)
  have "list_all printable fishSentinelSuffix" "list_all printable cmdSentinelSuffix"
    "list_all printable coreSentinelSuffix" "list_all printable powershellSentinelSuffix"
    by (simp_all add: fishSentinelSuffix_def cmdSentinelSuffix_def coreSentinelSuffix_def powershellSentinelSuffix_def
        powershell_chars printable_def)
  then show "list_all printable (SentinelSuffix shell)" by (simp add: SentinelSuffix_def Let_def)
qed

lemma kind_bash: "ShellKind (bs ''/bin/bash'') = bs ''bash''"
proof -
  have "path_base (replace_byte 0x5c slash (bs ''/bin/bash'')) = bs ''bash''" by code_simp
  moreover have "utf8 (ascii ''bash'') = bs ''bash''" "list_all valid_rune (ascii ''bash'')" by code_simp+
  then have "runes_of (bs ''bash'') = ascii ''bash''" using runes_utf8 [of "ascii ''bash''"] by simp
  moreover have "concat (map (encode_rune \<circ> lower_rune) (ascii ''bash'')) = bs ''bash''" by code_simp
  moreover have "trim_suffix (bs ''.exe'') (bs ''bash'') = bs ''bash''" by code_simp
  ultimately show ?thesis by (simp only: ShellKind_def ToLower_def)
qed

lemma bash_no_boundary: "\<not> SentinelHasBoundary (bs ''/bin/bash'')"
  by (simp only: SentinelHasBoundary_def isPowerShell_def kind_bash) code_simp

end
