(* ===== verification/Commands.thy ===== *)
theory Commands
  imports Wait_Laws Shape_Laws Flags Shellhooks
begin

text \<open>
  What \<open>pairmux run\<close> does to a terminal's event log and what it returns (\<open>cmdRun\<close>,
  \<open>recordAndSendCommand\<close>, \<open>waitDone\<close> of \<open>internal/cli/commands.go\<close>), and the notes humans leave (there
  and in \<open>wait.go\<close>). The journal's content and the waits are those of \<open>Journal\<close> and \<open>Wait\<close>, shaping is
  \<open>Shape\<close>. Whether an append or a keystroke succeeds, and the clock, are arguments.
\<close>

section \<open>Notes\<close>

text \<open>The zero of \<open>time.Time\<close>.\<close>

definition zero_time :: int where "zero_time = - 62135596800000000000"

definition acts :: "event \<Rightarrow> bool" where
  "acts ev \<longleftrightarrow> EvType ev = EvCmdEnd \<or> EvType ev = EvSent"

definition lastActedOn :: "event list \<Rightarrow> int" where
  "lastActedOn evs = foldl (\<lambda>last ev. if acts ev \<and> TS ev > last then TS ev else last) zero_time evs"

definition unseen :: "int \<Rightarrow> event \<Rightarrow> bool" where
  "unseen acted ev \<longleftrightarrow> EvType ev = EvNote \<and> (acted = zero_time \<or> TS ev > acted)"

definition unseenNotes :: "event list \<Rightarrow> byte list list" where
  "unseenNotes evs = map EvText (filter (unseen (lastActedOn evs)) evs)"

definition latestUnseenNote :: "event list \<Rightarrow> byte list option" where
  "latestUnseenNote evs =
     (let acted = lastActedOn evs
      in foldl (\<lambda>found ev. if unseen acted ev then Some (EvText ev) else found) None evs)"

definition newNote :: "event list \<Rightarrow> int \<Rightarrow> byte list option" where
  "newNote evs base =
     (let b = (if base < 0 then 0 else if base > int (length evs) then int (length evs) else base)
      in map_option EvText (find (\<lambda>ev. EvType ev = EvNote) (drop (nat b) evs)))"

definition notesBaseline :: "event list option \<Rightarrow> int \<times> byte list list" where
  "notesBaseline evs = (case evs of None \<Rightarrow> (0, []) | Some es \<Rightarrow> (int (length es), unseenNotes es))"

definition notesArrivedSince :: "event list option \<Rightarrow> int \<Rightarrow> byte list list" where
  "notesArrivedSince evs baseline =
     (case evs of None \<Rightarrow> []
      | Some es \<Rightarrow>
          if baseline \<ge> int (length es) then []
          else map EvText (filter (\<lambda>ev. EvType ev = EvNote) (drop (nat (if baseline < 0 then 0 else baseline)) es)))"

definition sentParts :: "bool \<Rightarrow> byte list list \<Rightarrow> bool \<Rightarrow> byte list" where
  "sentParts txt keys enter =
     join_with (bs ''+'')
       ((if txt then [bs ''text''] else []) @ (if keys \<noteq> [] then [bs ''keys''] else [])
        @ (if enter then [bs ''enter''] else []))"

section \<open>The log\<close>

text \<open>\<open>AppendEvent\<close> stamps an event without a time.\<close>

definition stamp :: "int \<Rightarrow> event \<Rightarrow> event" where
  "stamp now ev = (if TS ev = zero_time then ev\<lparr>TS := now\<rparr> else ev)"

definition AppendEvent :: "bool \<Rightarrow> int \<Rightarrow> event \<Rightarrow> event list \<Rightarrow> event list" where
  "AppendEvent ok now ev evs = (if ok then evs @ [stamp now ev] else evs)"

definition blank_event :: "EventType \<Rightarrow> event" where
  "blank_event t = \<lparr>TS = zero_time, EvType = t, CmdID = 0, Offset = 0, EvExit = None, EvText = []\<rparr>"

definition end_event :: "int \<Rightarrow> int \<Rightarrow> int \<Rightarrow> event" where
  "end_event cid ec off = (blank_event EvCmdEnd)\<lparr>CmdID := cid, Offset := off, EvExit := Some ec\<rparr>"

datatype runSendStage = runSendRecord | runSendLiteral | runSendEnter

definition stage_text :: "runSendStage \<Rightarrow> byte list" where
  "stage_text st = (case st of runSendRecord \<Rightarrow> bs ''record'' | runSendLiteral \<Rightarrow> bs ''literal'' | runSendEnter \<Rightarrow> bs ''enter'')"

text \<open>What the system does during a dispatch: whether the start is recorded, the text and Enter are
  delivered, the abort is recorded; the size of the log and the clock at the abort.\<close>

record dispatch =
  recOk :: bool
  litOk :: bool
  enterOk :: bool
  abortOk :: bool
  dSize :: int
  dNow :: int
  dNow2 :: int

definition abort :: "dispatch \<Rightarrow> event \<Rightarrow> runSendStage \<Rightarrow> event list \<Rightarrow> (runSendStage \<times> bool) option \<times> event list" where
  "abort d start st evs =
     (Some (st, \<not> abortOk d),
      AppendEvent (abortOk d) (dNow2 d)
        ((end_event (CmdID start) (- 1) (dSize d))\<lparr>EvText := bs ''command dispatch aborted during '' @ stage_text st\<rparr>) evs)"

text \<open>The result is the stage that failed, and whether the abort could not be recorded.\<close>

definition recordAndSendCommand :: "dispatch \<Rightarrow> event \<Rightarrow> event list \<Rightarrow> (runSendStage \<times> bool) option \<times> event list" where
  "recordAndSendCommand d start evs =
     (if \<not> recOk d then (Some (runSendRecord, False), evs)
      else let evs1 = AppendEvent True (dNow d) start evs
           in if \<not> litOk d then abort d start runSendLiteral evs1
              else if \<not> enterOk d then abort d start runSendEnter evs1
              else (None, evs1))"

section \<open>\<open>run\<close>\<close>

text \<open>A mode that is neither of the two waits for a plain \<open>D\<close>.\<close>

definition waitDone :: "poll list \<Rightarrow> int \<Rightarrow> Mode option \<Rightarrow> bool \<Rightarrow> int \<Rightarrow> (werror + run_result) option" where
  "waitDone ps from mode bd deadline =
     (case mode of
        Some ModeHooks \<Rightarrow> waitCompletionCorrelated ps from deadline True True
      | Some ModeSentinel \<Rightarrow> waitCompletion ps from ModeSentinel bd deadline True
      | None \<Rightarrow> waitCompletion ps from ModeHooks bd deadline True)"

text \<open>\<open>RunResult{}\<close>: Go's zero value, which is what a failed wait returns.\<close>

definition zero_result :: run_result where
  "zero_result = \<lparr>Outcome = OutcomeDone, RExit = 0, MarkStart = 0, EndOffset = 0, RPrompt = no_prompt\<rparr>"

definition result_or_zero :: "werror + run_result \<Rightarrow> run_result" where
  "result_or_zero r = (case r of Inl e \<Rightarrow> zero_result | Inr x \<Rightarrow> x)"

text \<open>Lazy settlement: \<open>None\<close> while its wait has not returned, \<open>Some None\<close> when the command is still
  running, else the log. Its wait ignores the error.\<close>

definition settle :: "poll list \<Rightarrow> Mode option \<Rightarrow> bool \<Rightarrow> int \<Rightarrow> bool \<Rightarrow> int \<Rightarrow> event list \<Rightarrow> event list option option" where
  "settle ps mode bd deadline ok now evs =
     (case PendingCmd evs of
        None \<Rightarrow> Some (Some evs)
      | Some pe \<Rightarrow>
          (case waitDone ps (Offset pe) mode bd deadline of
             None \<Rightarrow> None
           | Some r \<Rightarrow>
               let res = result_or_zero r
               in if Outcome res \<noteq> OutcomeDone then Some None
                  else Some (Some (AppendEvent ok now (end_event (CmdID pe) (RExit res) (MarkStart res)) evs))))"

definition lastLines :: "byte list \<Rightarrow> int \<Rightarrow> byte list \<times> int" where
  "lastLines s n =
     (if n \<le> 0 \<or> s = [] then (s, 0)
      else let ls = lines_of s
           in if int (length ls) \<le> n then (s, 0)
              else (unlines (drop (length ls - nat n) ls), int (length ls) - n))"

definition cleanNoTrunc :: "byte list \<Rightarrow> byte list \<Rightarrow> byte list" where
  "cleanNoTrunc raw cmd = DropEchoedCommand (trimTrailingBlankLines (StripANSI (CollapseCR raw))) cmd"

record run_request =
  rqName :: "byte list"
  rqCmd :: "byte list"
  rqTimeout :: int
  rqHead :: int
  rqTail :: int

datatype run_reject =
    BadFlags flag_error
  | NoName
  | BadSocketName
  | BadTerminalName
  | ManyArguments "byte list"
  | NoCommand
  | NewlineInCommand
  | BadTimeout
  | BadHead
  | BadTail
  | Unresolved resolve_error
  | TerminalDead
  | ProgramTerminal
  | NoJournal
  | WriteLocked

text \<open>\<open>--head\<close> and \<open>--tail\<close>; \<open>dur\<close> is \<open>time.ParseDuration\<close>.\<close>

definition int_flag :: "byte list \<Rightarrow> int \<Rightarrow> int option" where
  "int_flag s dflt = (if s = [] then Some dflt else atoi s)"

definition run_limits :: "(byte list \<Rightarrow> int option) \<Rightarrow> run_flags \<Rightarrow> byte list \<Rightarrow> byte list \<Rightarrow> run_reject + run_request" where
  "run_limits dur f name cmd =
     (case (if runTimeout f = [] then Some 60000000000 else dur (runTimeout f)) of
        None \<Rightarrow> Inl BadTimeout
      | Some timeout \<Rightarrow>
          (case int_flag (runHead f) 50 of
             None \<Rightarrow> Inl BadHead
           | Some hd' \<Rightarrow>
               (case int_flag (runTail f) 200 of
                  None \<Rightarrow> Inl BadTail
                | Some tl' \<Rightarrow>
                    Inr \<lparr>rqName = name, rqCmd = cmd, rqTimeout = timeout, rqHead = hd', rqTail = tl'\<rparr>)))"

definition parse_run_request ::
    "(byte list \<Rightarrow> int option) \<Rightarrow> byte list \<Rightarrow> byte list list \<Rightarrow> run_reject + run_request" where
  "parse_run_request dur socket args =
     (case parseRun args False \<lparr>runTimeout = [], runHead = [], runTail = []\<rparr> of
        Inl e \<Rightarrow> Inl (BadFlags e)
      | Inr (f, []) \<Rightarrow> Inl NoName
      | Inr (f, name # rest) \<Rightarrow>
          if \<not> ValidSocketName socket then Inl BadSocketName
          else if \<not> ValidName name then Inl BadTerminalName
          else if length rest > 1 then
            Inl (ManyArguments (bs ''quote the whole command: pairmux run '' @ name @ bs '' '' @ quotedCommandHint rest))
          else let cmd = (case rest of [] \<Rightarrow> [] | c # _ \<Rightarrow> c)
          in if trim_space cmd = [] then Inl NoCommand
             else if NL \<in> set cmd \<or> CR \<in> set cmd then Inl NewlineInCommand
             else run_limits dur f name cmd)"

record run_params =
  rMode :: "Mode option"
  rShell :: "byte list"
  rHead :: int
  rTail :: int
  rTimeout :: int

definition sent_text :: "run_params \<Rightarrow> byte list \<Rightarrow> byte list" where
  "sent_text P cmd =
     (if rMode P = Some ModeSentinel then SentinelPrefix (rShell P) @ cmd @ SentinelSuffix (rShell P) else cmd)"

datatype run_outcome =
    RunBusy
  | RunLogFailed
  | RunSendFailed runSendStage bool
  | RunWaitFailed
  | RunOpen WaitOutcome prompt "byte list" int "byte list list"
  | RunDone int "byte list" int "byte list list"

text \<open>What happens around one \<open>run\<close>: \<open>raw0\<close> is the journal when the command is sent, \<open>raw1\<close> when its
  output is read (empty when that fails), \<open>arrived\<close> the events other processes append between the start and
  the end. \<open>settling\<close> are the polls of the settlement, \<open>waiting\<close> those of the wait. The log can be
  unreadable each time it is read: \<open>baseLog\<close> and \<open>midLog\<close> are what two of the reads return, \<open>pendOk\<close> and
  \<open>idOk\<close> whether the other two succeed.\<close>

record run_world =
  baseLog :: "event list option"
  pendOk :: bool
  settling :: "poll list"
  settleFrom :: int
  settleAt :: int
  settleOk :: bool
  idOk :: bool
  raw0 :: "byte list"
  sending :: dispatch
  waiting :: "poll list"
  startAt :: int
  arrived :: "event list"
  midLog :: "event list option"
  raw1 :: "byte list"
  endOk :: bool
  endAt :: int

definition run_wait :: "run_params \<Rightarrow> run_world \<Rightarrow> byte list \<Rightarrow> int \<Rightarrow> byte list list \<Rightarrow> int \<Rightarrow> event list \<Rightarrow> (run_outcome \<times> event list) option" where
  "run_wait P W cmd cid notes base evs =
     (let sent = sent_text P cmd; off = int (length (raw0 W))
      in case waitDone (waiting W) off (rMode P) (SentinelHasBoundary (rShell P)) (startAt W + rTimeout P) of
           None \<Rightarrow> None
         | Some (Inl e) \<Rightarrow> Some (RunWaitFailed, evs @ arrived W)
         | Some (Inr res) \<Rightarrow>
             let allnotes = notes @ notesArrivedSince (midLog W) base
             in if Outcome res \<noteq> OutcomeDone then
                  (let (body, omitted) = lastLines (cleanNoTrunc (ReadRange (raw1 W) off (EndOffset res)) sent) 20
                   in Some (RunOpen (Outcome res) (RPrompt res) body omitted allnotes, evs @ arrived W))
                else
                  (let (body, omitted) = RenderText (ReadRange (raw1 W) off (MarkStart res)) sent (rHead P) (rTail P)
                   in Some (RunDone (RExit res) body omitted allnotes,
                        AppendEvent (endOk W) (endAt W) (end_event cid (RExit res) (MarkStart res)) (evs @ arrived W))))"

definition start_event :: "int \<Rightarrow> int \<Rightarrow> byte list \<Rightarrow> event" where
  "start_event cid off cmd = (blank_event EvCmdStart)\<lparr>CmdID := cid, Offset := off, EvText := cmd\<rparr>"

text \<open>\<open>cmdRun\<close> under the write lock.\<close>

definition run_command :: "run_params \<Rightarrow> run_world \<Rightarrow> byte list \<Rightarrow> event list \<Rightarrow> (run_outcome \<times> event list) option" where
  "run_command P W cmd evs =
     (let (base, notes) = notesBaseline (baseLog W)
      in case (if pendOk W then settle (settling W) (rMode P) (SentinelHasBoundary (rShell P)) (settleFrom W) (settleOk W) (settleAt W) evs
               else Some (Some evs)) of
           None \<Rightarrow> None
         | Some None \<Rightarrow> Some (RunBusy, evs)
         | Some (Some evs1) \<Rightarrow>
             if \<not> idOk W then Some (RunLogFailed, evs1)
             else let cid = NextCmdID evs1
             in (case recordAndSendCommand (sending W) (start_event cid (int (length (raw0 W))) cmd) evs1 of
                   (Some (st, lost), evs2) \<Rightarrow> Some (RunSendFailed st lost, evs2)
                 | (None, evs2) \<Rightarrow> run_wait P W cmd cid notes base evs2))"

text \<open>\<open>cmdRun\<close>: \<open>resolve\<close> is the registry, \<open>opens\<close> and \<open>locks\<close> say whether the journal can be opened and its
  write lock taken.\<close>

definition cmdRun :: "(byte list \<Rightarrow> int option) \<Rightarrow> byte list \<Rightarrow> (byte list \<Rightarrow> resolve_error + registered) \<Rightarrow> bool \<Rightarrow> bool
    \<Rightarrow> run_world \<Rightarrow> byte list list \<Rightarrow> event list \<Rightarrow> ((run_reject + run_outcome) \<times> event list) option" where
  "cmdRun dur socket resolve opens locks W args evs =
     (case parse_run_request dur socket args of
        Inl e \<Rightarrow> Some (Inl e, evs)
      | Inr rq \<Rightarrow>
          (case resolve (rqName rq) of
             Inl e \<Rightarrow> Some (Inl (Unresolved e), evs)
           | Inr term \<Rightarrow>
               if \<not> tAlive term then Some (Inl TerminalDead, evs)
               else if metaShell (tMeta term) = [] then Some (Inl ProgramTerminal, evs)
               else if \<not> opens then Some (Inl NoJournal, evs)
               else if \<not> locks then Some (Inl WriteLocked, evs)
               else map_option (map_prod Inr id)
                 (run_command \<lparr>rMode = tMode term, rShell = metaShell (tMeta term), rHead = rqHead rq, rTail = rqTail rq,
                    rTimeout = rqTimeout rq\<rparr> W (rqCmd rq) evs)))"

section \<open>Laws of notes\<close>

lemma latest_is_last:
  "latestUnseenNote evs = (if unseenNotes evs = [] then None else Some (last (unseenNotes evs)))"
proof -
  have "foldl (\<lambda>found ev. if unseen a ev then Some (EvText ev) else found) x evs =
      (if filter (unseen a) evs = [] then x else Some (last (map EvText (filter (unseen a) evs))))" for a x
    by (induction evs arbitrary: x) auto
  then show ?thesis by (simp add: latestUnseenNote_def unseenNotes_def Let_def)
qed

lemma lastActedOn_ge:
  "ev \<in> set evs \<Longrightarrow> acts ev \<Longrightarrow> TS ev \<le> lastActedOn evs"
proof -
  have ge: "x \<le> foldl (\<lambda>last ev. if acts ev \<and> TS ev > last then TS ev else last) x evs" for x evs
  proof (induction evs arbitrary: x)
    case (Cons e evs)
    have "TS e \<le> foldl (\<lambda>last ev. if acts ev \<and> TS ev > last then TS ev else last) (TS e) evs"
      "x \<le> foldl (\<lambda>last ev. if acts ev \<and> TS ev > last then TS ev else last) x evs"
      using Cons by blast+
    then show ?case by (cases "acts e \<and> TS e > x") auto
  qed simp
  have "ev \<in> set evs \<Longrightarrow> acts ev \<Longrightarrow> TS ev \<le> foldl (\<lambda>last ev. if acts ev \<and> TS ev > last then TS ev else last) x evs" for x
  proof (induction evs arbitrary: x)
    case (Cons e evs)
    show ?case
    proof (cases "ev = e")
      case True
      then show ?thesis using Cons.prems ge [of "TS e" evs] ge [of x evs] by (cases "acts e \<and> TS e > x") auto
    next
      case False
      then show ?thesis using Cons.IH Cons.prems by simp
    qed
  qed simp
  then show "ev \<in> set evs \<Longrightarrow> acts ev \<Longrightarrow> TS ev \<le> lastActedOn evs" by (simp add: lastActedOn_def)
qed

text \<open>Acting on a terminal after its notes consumes them.\<close>

lemma acting_consumes:
  assumes "acts en" "zero_time < TS en" "\<forall>ev \<in> set evs. EvType ev = EvNote \<longrightarrow> TS ev \<le> TS en"
  shows "unseenNotes (evs @ [en]) = []"
proof -
  have "TS en \<le> lastActedOn (evs @ [en])" using assms(1) by (intro lastActedOn_ge) simp_all
  then have "\<not> unseen (lastActedOn (evs @ [en])) ev" if "ev \<in> set (evs @ [en])" for ev
    using that assms by (auto simp: unseen_def acts_def)
  then show ?thesis by (simp add: unseenNotes_def filter_empty_conv)
qed

lemma notes_since:
  "notesArrivedSince (Some (evs @ new)) (int (length evs)) = map EvText (filter (\<lambda>ev. EvType ev = EvNote) new)"
  by (simp add: notesArrivedSince_def)

section \<open>Laws of the log\<close>

lemma stamp_simps [simp]:
  "EvType (stamp now ev) = EvType ev" "CmdID (stamp now ev) = CmdID ev" "Offset (stamp now ev) = Offset ev"
  "EvExit (stamp now ev) = EvExit ev" "EvText (stamp now ev) = EvText ev"
  by (simp_all add: stamp_def)

lemma end_event_simps [simp]:
  "EvType (end_event c x k) = EvCmdEnd" "CmdID (end_event c x k) = c" "EvExit (end_event c x k) = Some x"
  "Offset (end_event c x k) = k" "TS (end_event c x k) = zero_time"
  by (simp_all add: end_event_def blank_event_def)

text \<open>A command that could not be delivered leaves the pending command that was there before, if its abort
  could be recorded.\<close>

lemma failed_dispatch:
  assumes "EvType start = EvCmdStart" "CmdID start = NextCmdID evs"
    and "recordAndSendCommand d start evs = (Some (st, False), evs')"
  shows "PendingCmd evs' = PendingCmd evs"
proof -
  have "PendingCmd (evs @ [stamp (dNow d) start, stamp k ((end_event (CmdID start) (- 1) z)\<lparr>EvText := x\<rparr>)]) = PendingCmd evs" for k x z
    by (rule PendingCmd_settled) (simp_all add: assms)
  then show ?thesis
    using assms(3) by (auto simp: recordAndSendCommand_def abort_def AppendEvent_def Let_def split: if_splits)
qed

lemma dispatched:
  "recordAndSendCommand d start evs = (None, evs') \<Longrightarrow> evs' = evs @ [stamp (dNow d) start]"
  by (auto simp: recordAndSendCommand_def abort_def AppendEvent_def Let_def split: if_splits)

text \<open>A pending command whose journal cannot be read is taken for finished, with exit code 0.\<close>

lemma settle_read_error:
  assumes "PendingCmd evs = Some pe" "pfail p" "Offset pe < int (length (praw p))"
  shows "settle (p # ps) mode bd deadline True now evs =
    Some (Some (evs @ [stamp now (end_event (CmdID pe) 0 0)]))"
proof -
  have "read_marks p (Offset pe) sc = Inl ReadError" for sc using assms(2,3) by (simp add: read_marks_def Let_def)
  then have "waitDone (p # ps) (Offset pe) mode bd deadline = Some (Inl ReadError)"
    by (simp add: waitDone_def waitCompletionCorrelated_def waitCompletion_def split: option.split Mode.split)
  then show ?thesis
    using assms(1) by (simp add: settle_def result_or_zero_def zero_result_def AppendEvent_def Let_def)
qed

lemma settled_pending_none:
  assumes "settle ps mode b dl ok now evs = Some (Some evs1)" "PendingCmd evs = None"
  shows "evs1 = evs"
  using assms by (simp add: settle_def)

section \<open>A run from end to end\<close>

text \<open>Events that are no command's.\<close>

definition bystander :: "event \<Rightarrow> bool" where
  "bystander ev \<longleftrightarrow> EvType ev \<in> {EvNote, EvSent} \<and> CmdID ev = 0"

lemma ended_after_more: "i < length evs \<Longrightarrow> ended_after evs i \<Longrightarrow> ended_after (evs @ ys) i"
  by (auto simp: ended_after_def nth_append list_ex_iff)

lemma settled_among_bystanders:
  assumes "PendingCmd evs = None" "list_all bystander mid" "EvType en = EvCmdEnd" "CmdID en = CmdID st"
  shows "PendingCmd (evs @ st # mid @ [en]) = None"
proof -
  have "ended_after (evs @ st # mid @ [en]) i"
    if i: "i < length (evs @ st # mid @ [en])" "EvType ((evs @ st # mid @ [en]) ! i) = EvCmdStart" for i
  proof -
    consider "i < length evs" | "i = length evs" | j where "i = length evs + 1 + j" "j \<le> length mid"
      using i(1) by (cases i "length evs" rule: linorder_cases) (auto dest: less_imp_Suc_add)
    then show ?thesis
    proof cases
      case 1
      then have "ended_after evs i"
        using assms(1) i(2) pending_from_None [of evs "length evs"] by (auto simp: PendingCmd_def nth_append)
      then show ?thesis using ended_after_more 1 by blast
    next
      case 2
      then show ?thesis using assms(3,4) by (simp add: ended_after_def)
    next
      case 3
      then have "EvType ((mid @ [en]) ! j) = EvCmdStart" using i(2) by (simp add: nth_append)
      then have False using 3(2) assms(2,3) by (auto simp: nth_append list_all_length bystander_def split: if_splits)
      then show ?thesis ..
    qed
  qed
  then show ?thesis using pending_from_None [of "evs @ st # mid @ [en]" "length (evs @ st # mid @ [en])"]
    by (simp only: PendingCmd_def) blast
qed

lemma max_cmd_bystanders: "list_all bystander mid \<Longrightarrow> 0 \<le> mx \<Longrightarrow> max_cmd mid mx = mx"
  by (induction mid mx rule: max_cmd.induct) (auto simp: bystander_def)

lemma next_id_after:
  assumes "CmdID st = NextCmdID evs" "list_all bystander mid" "CmdID en = CmdID st"
  shows "NextCmdID (evs @ st # mid @ [en]) = NextCmdID evs + 1"
proof -
  have "0 \<le> max_cmd evs 0" by (rule max_cmd_ge)
  then show ?thesis using assms max_cmd_bystanders [OF assms(2)] by (simp add: NextCmdID_def max_cmd_append)
qed

text \<open>\<open>sound\<close>: the command is recorded, delivered, and its end recorded.\<close>

definition sound :: "run_world \<Rightarrow> bool" where
  "sound W \<longleftrightarrow> pendOk W \<and> idOk W \<and> recOk (sending W) \<and> litOk (sending W) \<and> enterOk (sending W) \<and> endOk W"

lemma run_done:
  assumes "sound W" "PendingCmd evs = None" "list_all bystander (arrived W)" "baseLog W = Some evs"
    and "waitDone (waiting W) (int (length (raw0 W))) (rMode P) (SentinelHasBoundary (rShell P)) (startAt W + rTimeout P)
      = Some (Inr res)" "Outcome res = OutcomeDone"
  obtains evs' where "run_command P W cmd evs =
      Some (RunDone (RExit res)
          (fst (RenderText (ReadRange (raw1 W) (int (length (raw0 W))) (MarkStart res)) (sent_text P cmd) (rHead P) (rTail P)))
          (snd (RenderText (ReadRange (raw1 W) (int (length (raw0 W))) (MarkStart res)) (sent_text P cmd) (rHead P) (rTail P)))
          (unseenNotes evs @ notesArrivedSince (midLog W) (int (length evs))), evs')"
    "PendingCmd evs' = None" "NextCmdID evs' = NextCmdID evs + 1"
    "evs' = evs @ stamp (dNow (sending W)) (start_event (NextCmdID evs) (int (length (raw0 W))) cmd) # arrived W
      @ [stamp (endAt W) (end_event (NextCmdID evs) (RExit res) (MarkStart res))]"
proof -
  define st where "st = stamp (dNow (sending W)) (start_event (NextCmdID evs) (int (length (raw0 W))) cmd)"
  define en where "en = stamp (endAt W) (end_event (NextCmdID evs) (RExit res) (MarkStart res))"
  define evs' where "evs' = evs @ st # arrived W @ [en]"
  have c: "CmdID st = NextCmdID evs" "EvType en = EvCmdEnd" "CmdID en = CmdID st"
    by (simp_all add: st_def en_def start_event_def blank_event_def)
  have "run_command P W cmd evs =
      Some (RunDone (RExit res)
          (fst (RenderText (ReadRange (raw1 W) (int (length (raw0 W))) (MarkStart res)) (sent_text P cmd) (rHead P) (rTail P)))
          (snd (RenderText (ReadRange (raw1 W) (int (length (raw0 W))) (MarkStart res)) (sent_text P cmd) (rHead P) (rTail P)))
          (unseenNotes evs @ notesArrivedSince (midLog W) (int (length evs))), evs')"
    using assms by (simp add: run_command_def run_wait_def sound_def settle_def notesBaseline_def recordAndSendCommand_def
        AppendEvent_def Let_def case_prod_beta evs'_def st_def en_def)
  then show ?thesis
    using that settled_among_bystanders [OF assms(2,3) c(2,3)] next_id_after [OF c(1) assms(3) c(3)]
    unfolding evs'_def st_def en_def by blast
qed

end
