(* ===== verification/Prompts.thy ===== *)
theory Prompts
  imports Wait Shape Patterns
begin

text \<open>
  The prompt classification of \<open>internal/detect/await.go\<close> over the patterns of \<open>Patterns\<close>, with the
  terminal and process states of \<open>tty.go\<close> and \<open>fgwait.go\<close> and the reader of \<open>/proc/*/stat\<close> lines of
  \<open>fgwait_proc.go\<close>. The operating system is outside the source: what its probes return are the arguments
  \<open>disc\<close> and \<open>fg\<close>; \<open>X\<close> is the user's own pattern.
\<close>

section \<open>Terminal and process states\<close>

record tty_state =
  Echo :: bool
  Canonical :: bool
  Known :: bool

definition tty_zero :: tty_state where "tty_zero = \<lparr>Echo = False, Canonical = False, Known = False\<rparr>"

definition tty_Secret :: "tty_state \<Rightarrow> bool" where
  "tty_Secret s \<longleftrightarrow> Known s \<and> Canonical s \<and> \<not> Echo s"

definition LineOriented :: "tty_state \<Rightarrow> bool" where
  "LineOriented s \<longleftrightarrow> Known s \<and> Canonical s"

definition RawInput :: "tty_state \<Rightarrow> bool" where
  "RawInput s \<longleftrightarrow> Known s \<and> \<not> Canonical s"

definition ReadTTYState :: "(byte list \<Rightarrow> tty_state) \<Rightarrow> byte list \<Rightarrow> tty_state" where
  "ReadTTYState probe path = (if path = [] then tty_zero else probe path)"

datatype FgWait = FgUnknown | FgParked | FgWorking

definition ReadFgWait :: "(byte list \<Rightarrow> FgWait) \<Rightarrow> byte list \<Rightarrow> FgWait" where
  "ReadFgWait probe path = (if path = [] then FgUnknown else probe path)"

section \<open>\<open>/proc\<close> lines\<close>

text \<open>\<open>atoiBytes\<close> computes in 64-bit arithmetic.\<close>

definition atoiBytes :: "byte list \<Rightarrow> 64 word option" where
  "atoiBytes b =
     (if b = [] \<or> length b > 20 \<or> \<not> list_all is_digit b then None
      else Some (foldl (\<lambda>n c. n * 10 + ucast (c - 48)) 0 b))"

text \<open>\<open>bytes.Fields\<close> on the ASCII of a stat line: runs of bytes other than white space.\<close>

definition is_white :: "byte \<Rightarrow> bool" where
  "is_white b \<longleftrightarrow> b \<in> {0x09, 0x0a, 0x0b, 0x0c, 0x0d, 0x20}"

function fields_of :: "byte list \<Rightarrow> byte list list" where
  "fields_of p =
     (case dropWhile is_white p of
        [] \<Rightarrow> []
      | c # q \<Rightarrow> takeWhile (\<lambda>b. \<not> is_white b) (c # q) # fields_of (dropWhile (\<lambda>b. \<not> is_white b) (c # q)))"
  by pat_completeness auto
termination
proof (relation "measure length", goal_cases)
  case (2 p c q)
  then have "\<not> is_white c" using hd_dropWhile [of is_white p] by (metis list.distinct(1) list.sel(1))
  then have "length (dropWhile (\<lambda>b. \<not> is_white b) (c # q)) \<le> length q"
    using length_dropWhile_le [of "\<lambda>b. \<not> is_white b" q] by simp
  moreover have "length (c # q) \<le> length p" using 2 by (metis length_dropWhile_le)
  ultimately show ?case by simp
qed simp

declare fields_of.simps [simp del]

record procStat =
  PState :: byte
  TTYNr :: "32 word"

definition parseProcStat :: "byte list \<Rightarrow> procStat option" where
  "parseProcStat data =
     (case index_of (bc CHR '')'') (rev data) of
        None \<Rightarrow> None
      | Some k \<Rightarrow>
          let cl = length data - 1 - k
          in if cl + 2 \<ge> length data then None
             else let fs = fields_of (drop (cl + 1) data)
                  in if length fs \<le> 4 \<or> length (fs ! 0) \<noteq> 1 then None
                     else case atoiBytes (fs ! 4) of
                       None \<Rightarrow> None
                     | Some nr \<Rightarrow> Some \<lparr>PState = fs ! 0 ! 0, TTYNr = ucast nr\<rparr>)"

definition isProcRunning :: "byte \<Rightarrow> bool" where
  "isProcRunning st \<longleftrightarrow> st = bc CHR ''R''"

text \<open>The loop of \<open>readFgWait\<close> on Linux over the stat files of the numbered entries of
  \<open>/proc\<close> (\<open>None\<close>: unreadable).\<close>

fun scan_procs :: "32 word \<Rightarrow> byte list option list \<Rightarrow> bool \<Rightarrow> FgWait" where
  "scan_procs want [] seen = (if \<not> seen then FgUnknown else FgParked)"
| "scan_procs want (None # ds) seen = scan_procs want ds seen"
| "scan_procs want (Some d # ds) seen =
     (case parseProcStat d of
        None \<Rightarrow> scan_procs want ds seen
      | Some ps \<Rightarrow>
          if TTYNr ps \<noteq> want then scan_procs want ds seen
          else if isProcRunning (PState ps) then FgWorking
          else scan_procs want ds True)"

definition readFgWait :: "32 word option \<Rightarrow> byte list option list option \<Rightarrow> FgWait" where
  "readFgWait rdev procs =
     (case rdev of None \<Rightarrow> FgUnknown
      | Some want \<Rightarrow> if want = 0 then FgUnknown
          else case procs of None \<Rightarrow> FgUnknown | Some ds \<Rightarrow> scan_procs want ds False)"

section \<open>Classification\<close>

definition refineQuiet :: int where "refineQuiet = 800000000"
definition rawQuiet :: int where "rawQuiet = 2000000000"
definition inferQuiet :: int where "inferQuiet = 10000000000"
definition refineTail :: int where "refineTail = 4096"

definition Waiting :: "prompt \<Rightarrow> bool" where
  "Waiting p \<longleftrightarrow> PKind p \<noteq> KindNone"

definition classify :: "extra_re \<Rightarrow> tty_state \<Rightarrow> byte list \<Rightarrow> bool \<Rightarrow> int \<Rightarrow> bool \<Rightarrow> FgWait \<Rightarrow> prompt" where
  "classify X disc l recognized quiet unterminated fg =
     (if tty_Secret disc then \<lparr>PKind = KindSecret, PLine = l, PRaw = False\<rparr>
      else if recognized then
        \<lparr>PKind = (if LooksSecret X l then KindSecret else KindOpen), PLine = l, PRaw = False\<rparr>
      else if RawInput disc \<and> quiet \<ge> rawQuiet \<and> fg = FgParked then
        \<lparr>PKind = KindInferred, PLine = l, PRaw = True\<rparr>
      else if LineOriented disc \<and> quiet \<ge> inferQuiet \<and> unterminated \<and> fg \<noteq> FgWorking then
        \<lparr>PKind = KindInferred, PLine = l, PRaw = False\<rparr>
      else no_prompt)"

definition unterminatedTail :: "byte list \<Rightarrow> bool" where
  "unterminatedTail raw =
     (let data = fst (TailBytes raw refineTail)
      in if data = [] then False
         else let shaped = StripANSI (CollapseCR data)
              in if shaped = [] then False
                 else \<not> (last shaped = NL \<or> last shaped = CR))"

definition PromptPending :: "extra_re \<Rightarrow> byte list \<Rightarrow> byte list \<times> bool" where
  "PromptPending X raw =
     (let data = fst (TailBytes raw refineTail)
      in if data = [] then ([], False)
         else let l = lastNonBlankLine (StripANSI (CollapseCR data))
              in if l = [] then ([], False) else (l, isInteractivePrompt X l))"

text \<open>\<open>quiet\<close> is \<open>time.Since\<close> of the modification time of \<open>raw.log\<close>, \<open>None\<close> when it is missing.\<close>

definition classifyAfter :: "extra_re \<Rightarrow> byte list \<Rightarrow> int option \<Rightarrow> Status \<Rightarrow> tty_state \<Rightarrow> FgWait \<Rightarrow> int \<Rightarrow> Status \<times> prompt" where
  "classifyAfter X raw quiet st disc fg settle =
     (if st \<noteq> StatusRunning then (st, no_prompt)
      else case quiet of
        None \<Rightarrow> (st, no_prompt)
      | Some q \<Rightarrow>
          if settle > 0 \<and> q < settle then (st, no_prompt)
          else let (l, recognized) = PromptPending X raw;
                   p = classify X disc l recognized q (unterminatedTail raw) fg
               in if \<not> Waiting p then (st, no_prompt) else (StatusAwaitingInput, p))"

definition Classify :: "extra_re \<Rightarrow> byte list \<Rightarrow> int option \<Rightarrow> Status \<Rightarrow> tty_state \<Rightarrow> FgWait \<Rightarrow> Status \<times> prompt" where
  "Classify X raw quiet st disc fg = classifyAfter X raw quiet st disc fg refineQuiet"

definition ClassifyPending :: "extra_re \<Rightarrow> byte list \<Rightarrow> int option \<Rightarrow> Status \<Rightarrow> tty_state \<Rightarrow> FgWait \<Rightarrow> Status \<times> prompt" where
  "ClassifyPending X raw quiet st disc fg = classifyAfter X raw quiet st disc fg 0"

text \<open>\<open>Refine\<close> has no terminal: the probes of the empty path.\<close>

definition Refine :: "extra_re \<Rightarrow> byte list \<Rightarrow> int option \<Rightarrow> Status \<Rightarrow> Status \<times> byte list" where
  "Refine X raw quiet st =
     (let (st', p) = Classify X raw quiet st tty_zero FgUnknown in (st', PLine p))"

section \<open>Properties\<close>

lemma classify_secret: "tty_Secret disc \<Longrightarrow> PKind (classify X disc l r q u fg) = KindSecret"
  by (simp add: classify_def)

lemma classify_open:
  "PKind (classify X disc l r q u fg) = KindOpen \<longleftrightarrow> \<not> tty_Secret disc \<and> r \<and> \<not> LooksSecret X l"
  by (simp add: classify_def no_prompt_def)

lemma classify_busy:
  "fg = FgWorking \<Longrightarrow> Waiting (classify X disc l r q u fg) \<longleftrightarrow> tty_Secret disc \<or> r"
  by (auto simp: classify_def Waiting_def no_prompt_def)

lemma classifyAfter_status:
  "fst (classifyAfter X raw quiet st disc fg settle) = st
   \<or> st = StatusRunning \<and> fst (classifyAfter X raw quiet st disc fg settle) = StatusAwaitingInput
      \<and> Waiting (snd (classifyAfter X raw quiet st disc fg settle))"
  by (auto simp: classifyAfter_def Let_def case_prod_beta split: option.split)

text \<open>Dropping the settle gate only adds verdicts.\<close>

lemma classify_settle:
  assumes "fst (Classify X raw quiet st disc fg) = StatusAwaitingInput" "st = StatusRunning"
  shows "ClassifyPending X raw quiet st disc fg = Classify X raw quiet st disc fg"
  using assms by (auto simp: Classify_def ClassifyPending_def classifyAfter_def Let_def case_prod_beta
      split: option.splits if_splits)

lemma awaiting_iff:
  "fst (Classify X raw (Some q) StatusRunning disc fg) = StatusAwaitingInput \<longleftrightarrow>
    refineQuiet \<le> q \<and>
    (tty_Secret disc \<or> snd (PromptPending X raw)
     \<or> RawInput disc \<and> rawQuiet \<le> q \<and> fg = FgParked
     \<or> LineOriented disc \<and> inferQuiet \<le> q \<and> unterminatedTail raw \<and> fg \<noteq> FgWorking)"
  by (auto simp: Classify_def classifyAfter_def classify_def Waiting_def no_prompt_def Let_def case_prod_beta
      refineQuiet_def)

text \<open>A process is on the terminal when its stat line says so.\<close>

definition on_tty :: "32 word \<Rightarrow> byte list option \<Rightarrow> byte option" where
  "on_tty want d =
     (case Option.bind d parseProcStat of None \<Rightarrow> None
      | Some ps \<Rightarrow> if TTYNr ps = want then Some (PState ps) else None)"

lemma scan_procs_spec:
  "scan_procs want ds seen =
     (if \<exists>d \<in> set ds. on_tty want d = Some (bc CHR ''R'') then FgWorking
      else if seen \<or> (\<exists>d \<in> set ds. on_tty want d \<noteq> None) then FgParked else FgUnknown)"
proof (induction want ds seen rule: scan_procs.induct)
  case (3 want d ds seen)
  then show ?case
    by (cases "parseProcStat d") (auto simp: on_tty_def isProcRunning_def)
qed (auto simp: on_tty_def)

lemma atoiBytes_value:
  assumes "list_all is_digit b" "b \<noteq> []" "length b \<le> 20"
  shows "atoiBytes b = Some (word_of_int (dec_val b))"
proof -
  have "foldl (\<lambda>n c. n * 10 + ucast (c - 48)) (word_of_int v) b = (word_of_int (foldl (\<lambda>v d. v * 10 + (uint d - 48)) v b) :: 64 word)"
    if "list_all is_digit b" for v b
    using that
  proof (induction b arbitrary: v)
    case (Cons c b)
    have "(ucast (c - 48) :: 64 word) = word_of_int (uint c - 48)"
    proof -
      have "48 \<le> c" using Cons.prems by (simp add: is_digit_def)
      then have "uint (c - 48) = uint c - 48" by (simp add: uint_minus_simple_alt)
      then show ?thesis by (metis ucast_eq)
    qed
    then have "word_of_int v * 10 + ucast (c - 48) = (word_of_int (v * 10 + (uint c - 48)) :: 64 word)"
      by (simp add: wi_hom_syms)
    moreover have "list_all is_digit b" using Cons.prems by simp
    ultimately show ?case using Cons.IH [of "v * 10 + (uint c - 48)"] by (simp only: foldl.simps)
  qed simp
  from this [of b 0] show ?thesis using assms by (simp add: atoiBytes_def dec_val_def)
qed

text \<open>In particular it wraps around.\<close>

lemma atoiBytes_wraps: "atoiBytes (bs ''18446744073709551617'') = Some 1"
  by code_simp

end
