(* ===== verification/Handoff.thy ===== *)
theory Handoff
  imports Commands Shellhooks Prompts Flags
begin

text \<open>
  \<open>pairmux wait\<close> (\<open>internal/cli/wait.go\<close>): arming a target, one poll of it, the loop over several targets,
  and the envelopes and next steps it returns (with \<open>peekNext\<close> and \<open>awaitingNext\<close> of \<open>commands.go\<close>).
  A \<open>tick\<close> holds what one poll of one target reads, in the order it reads it: other processes append to
  the journal between any two reads, so every read has its own field.
\<close>

section \<open>Envelopes\<close>

record envelope =
  eStatus :: "byte list"
  eTerminal :: "byte list"
  eMode :: "Mode option"
  eExit :: "int option"
  eDuration :: "int option"
  eOutput :: "byte list"
  eTruncated :: "(int \<times> int \<times> byte list) option"
  eNotes :: "byte list list"
  eNext :: "byte list list"

definition env0 :: envelope where
  "env0 = \<lparr>eStatus = [], eTerminal = [], eMode = None, eExit = None, eDuration = None, eOutput = [],
     eTruncated = None, eNotes = [], eNext = []\<rparr>"

definition status_name :: "Status \<Rightarrow> byte list" where
  "status_name st =
     (case st of StatusIdle \<Rightarrow> bs ''idle'' | StatusRunning \<Rightarrow> bs ''running'' | StatusDead \<Rightarrow> bs ''dead''
      | StatusUnknown \<Rightarrow> bs ''unknown'' | StatusAwaitingInput \<Rightarrow> bs ''awaiting-input'')"

abbreviation quote_mark :: byte where "quote_mark \<equiv> 0x22"
definition em_dash :: "byte list" where "em_dash = [0xe2, 0x80, 0x94]"

definition peek_hint :: "byte list \<Rightarrow> byte list" where
  "peek_hint name = bs ''pairmux peek '' @ name"

definition peekNext :: "byte list \<Rightarrow> Status \<Rightarrow> byte list list" where
  "peekNext name st =
     (case st of
        StatusRunning \<Rightarrow> [peek_hint name, bs ''pairmux send '' @ name @ bs '' --text ... --enter'']
      | StatusDead \<Rightarrow> [bs ''pairmux log '' @ name, bs ''pairmux new'']
      | _ \<Rightarrow> [bs ''pairmux run '' @ name @ bs '' '' @ [quote_mark] @ bs ''echo hello'' @ [quote_mark]])"

definition awaitingNext :: "byte list \<Rightarrow> prompt \<Rightarrow> byte list list" where
  "awaitingNext name p =
     (let answer = bs ''pairmux send '' @ name @ bs '' --text <answer> --enter'';
          screen = bs ''pairmux peek '' @ name @ bs '' --screen''
      in case PKind p of
           KindSecret \<Rightarrow>
             [bs ''do NOT guess or type secrets'',
              bs ''pairmux wait '' @ name @ bs '' --human --notify   # hand off to the human'']
         | KindInferred \<Rightarrow>
             (if PRaw p then
                [bs ''a full-screen program holds this terminal '' @ em_dash @ bs '' look at the screen, not the stream'',
                 screen, bs ''pairmux wait '' @ name @ bs '' --pattern RE   # if it turns out to still be working'', answer]
              else
                [bs ''quiet mid-line, but no prompt was recognised '' @ em_dash @ bs '' look before you answer'',
                 screen, bs ''pairmux wait '' @ name @ bs '' --done   # if it turns out to still be working'', answer])
         | _ \<Rightarrow> [answer])"

definition journalSizeGuard :: int where "journalSizeGuard = 268435456"

definition appendGuard :: "byte list list \<Rightarrow> int \<Rightarrow> byte list \<Rightarrow> byte list list" where
  "appendGuard nxt sz name =
     (if sz \<le> journalSizeGuard then nxt
      else nxt @ [bs ''journal is large ('' @ itoa (sz div 2 ^ 20) @ bs ''MB); rotate with pairmux kill '' @ name
        @ bs '' + pairmux new, then pairmux prune '' @ name @ bs '' to reclaim disk''])"

section \<open>Status\<close>

text \<open>What the status of a terminal is derived from: \<open>raw.log\<close>, the event log, the age of \<open>raw.log\<close>, the
  line discipline and the processes of the terminal.\<close>

record look =
  lRaw :: "byte list"
  lEvents :: "event list option"
  lSince :: "int option"
  lDisc :: tty_state
  lFg :: FgWait

text \<open>A mode that is neither of the two behaves like hooks mode here, and like a sentinel-less watcher of
  \<open>D\<close> marks below.\<close>

definition status_mode :: "Mode option \<Rightarrow> Mode" where
  "status_mode m = (if m = Some ModeSentinel then ModeSentinel else ModeHooks)"

definition deriveTerminalStatus :: "look \<Rightarrow> bool \<Rightarrow> Mode option \<Rightarrow> bool \<Rightarrow> Status" where
  "deriveTerminalStatus L alive mode program =
     (if alive \<and> program then StatusRunning
      else DeriveStatus (lRaw L) (lEvents L) (lSince L) alive (status_mode mode))"

definition new_watcher :: "int \<Rightarrow> Mode option \<Rightarrow> bool \<Rightarrow> watcher" where
  "new_watcher from mode bd =
     (case mode of Some m \<Rightarrow> NewCompletionWatcher from m bd
      | None \<Rightarrow> (NewCompletionWatcher from ModeSentinel False)\<lparr>wwant := MarkD\<rparr>)"

definition journalQuiet :: "int option \<Rightarrow> int \<Rightarrow> bool" where
  "journalQuiet since idle = (case since of None \<Rightarrow> True | Some d \<Rightarrow> d \<ge> idle)"

definition terminalStatusAfterQuiet ::
    "extra_re \<Rightarrow> int option \<Rightarrow> look \<Rightarrow> bool \<Rightarrow> Mode option \<Rightarrow> bool \<Rightarrow> int \<Rightarrow> Status \<times> prompt \<times> bool" where
  "terminalStatusAfterQuiet X since L alive mode program idle =
     (if \<not> journalQuiet since idle then (StatusUnknown, no_prompt, False)
      else let (st, p) = Classify X (lRaw L) (lSince L) (deriveTerminalStatus L alive mode program) (lDisc L) (lFg L)
           in (st, p, st \<in> {StatusIdle, StatusAwaitingInput, StatusDead}))"

definition waitCurrentTail :: "byte list option \<Rightarrow> byte list" where
  "waitCurrentTail raw =
     (case raw of None \<Rightarrow> [] | Some r \<Rightarrow> fst (lastLines (cleanNoTrunc (fst (TailBytes r 65536)) []) 20))"

section \<open>Arming a target\<close>

record wait_target =
  wtName :: "byte list"
  wtMode :: "Mode option"
  wtShell :: "byte list"
  baseSize :: int
  baseEvents :: int
  completion :: "watcher option"
  completionFrom :: int
  completionEcho :: "byte list"
  completionFull :: "byte list"
  completionStart :: int
  watchAnswered :: bool
  answerScan :: int
  answerSubmitted :: bool
  answeredAt :: "int option"
  lastStateCheck :: int

text \<open>\<open>armAnswered\<close> at a journal of \<open>n\<close> bytes.\<close>

definition armAnswered :: "nat \<Rightarrow> wait_target \<Rightarrow> wait_target" where
  "armAnswered n t = t\<lparr>watchAnswered := True, answerScan := int n, answerSubmitted := False\<rparr>"

datatype wait_error = WaitNoTerminal | WaitMux resolve_error | WaitDead | WaitNeedsShell | WaitInternal

record arm_world =
  awResolve :: "resolve_error + registered"
  awOpen :: bool
  awSize :: nat
  awEvents :: "event list option"
  awLook :: look
  awPending :: "event list option"
  awArm :: nat

definition new_target :: "byte list \<Rightarrow> registered \<Rightarrow> arm_world \<Rightarrow> wait_target" where
  "new_target name term W =
     \<lparr>wtName = name, wtMode = tMode term, wtShell = metaShell (tMeta term), baseSize = int (awSize W),
      baseEvents = (case awEvents W of None \<Rightarrow> 0 | Some es \<Rightarrow> int (length es)),
      completion = None, completionFrom = 0, completionEcho = [], completionFull = [], completionStart = zero_time,
      watchAnswered = False, answerScan = 0, answerSubmitted = False, answeredAt = None, lastStateCheck = zero_time\<rparr>"

text \<open>The completion baseline: \<open>pe\<close> is the command to watch, if it is the pending one.\<close>

definition arm_completion :: "event option \<Rightarrow> wait_target \<Rightarrow> wait_target" where
  "arm_completion pe t =
     (let wrap = (\<lambda>c. if wtMode t = Some ModeSentinel then SentinelPrefix (wtShell t) @ c @ SentinelSuffix (wtShell t) else c);
          from = (case pe of None \<Rightarrow> baseSize t | Some e \<Rightarrow> Offset e)
      in t\<lparr>completionFrom := from,
           completionEcho := (case pe of None \<Rightarrow> completionEcho t | Some e \<Rightarrow> wrap (EvText e)),
           completionStart := (case pe of None \<Rightarrow> completionStart t | Some e \<Rightarrow> TS e),
           completionFull := bs ''pairmux log '' @ wtName t
             @ (case pe of None \<Rightarrow> bs '' --range 1:end'' | Some e \<Rightarrow> bs '' --cmd '' @ itoa (CmdID e)),
           completion := Some (new_watcher from (wtMode t) (SentinelHasBoundary (wtShell t)))\<rparr>)"

definition armWaitTarget :: "extra_re \<Rightarrow> arm_world \<Rightarrow> byte list \<Rightarrow> bool \<Rightarrow> bool \<Rightarrow> wait_error + wait_target" where
  "armWaitTarget X W name human doneFlag =
     (case awResolve W of
        Inl e \<Rightarrow> Inl (if e = ErrNotFound then WaitNoTerminal else WaitMux e)
      | Inr term \<Rightarrow>
          if \<not> tAlive term then Inl WaitDead
          else let program = (metaShell (tMeta term) = [])
          in if doneFlag \<and> program then Inl WaitNeedsShell
             else if \<not> awOpen W then Inl WaitInternal
             else let L = awLook W;
                      startStatus = fst (ClassifyPending X (lRaw L) (lSince L)
                        (deriveTerminalStatus L (tAlive term) (tMode term) program) (lDisc L) (lFg L));
                      pend = Option.bind (awPending W) PendingCmd;
                      inFlight = (pend \<noteq> None \<and> startStatus \<in> {StatusRunning, StatusAwaitingInput});
                      watchPending = (inFlight \<or> (human \<and> pend \<noteq> None));
                      t1 = new_target name term W;
                      t2 = (if doneFlag \<or> (human \<and> pend \<noteq> None)
                            then arm_completion (if watchPending then pend else None) t1 else t1)
                  in Inr (if human \<and> startStatus = StatusAwaitingInput then armAnswered (awArm W) t2 else t2))"

section \<open>One poll\<close>

record wait_spec_t =
  sPattern :: "(byte list \<Rightarrow> bool) option"
  sNote :: bool
  sHuman :: bool
  sIdle :: bool
  sIdleFor :: int

record tick =
  kPattern :: "byte list option"
  kNotes :: "event list option"
  kPoll :: poll
  kDoneRaw :: "byte list"
  kDoneNow :: int
  kPrompt :: "byte list"
  kArm :: nat
  kAnswer :: "byte list"
  kAnswerFail :: bool
  kPrompt2 :: "byte list"
  kNow1 :: int
  kNow2 :: int
  kGone :: "resolve_error + registered"
  kGoneLook :: look
  kGoneTail :: "byte list option"
  kNow3 :: int
  kQuiet :: "int option"
  kNow4 :: int
  kCurrent :: "resolve_error + registered"
  kQuiet2 :: "int option"
  kLook :: look
  kArm2 :: nat
  kTail :: "byte list option"

datatype poll_result = PollAgain | PollDone envelope | PollFailed wait_error

definition matchShapedPattern :: "(byte list \<Rightarrow> bool) \<Rightarrow> byte list \<Rightarrow> byte list option" where
  "matchShapedPattern re raw =
     (let ls = lines_of (StripANSI (CollapseCR raw))
      in map_option (\<lambda>i. unlines (drop (i - 2) (take (i + 1) ls))) (find (\<lambda>i. re (ls ! i)) [0..<length ls]))"

definition noteEnvelope :: "byte list \<Rightarrow> byte list \<Rightarrow> bool \<Rightarrow> envelope" where
  "noteEnvelope name note human =
     env0\<lparr>eStatus := (if human then bs ''human-done'' else bs ''note''), eOutput := note, eNext := [peek_hint name]\<rparr>"

text \<open>\<open>Duration.Milliseconds\<close> truncates towards zero.\<close>

definition millis :: "int \<Rightarrow> int" where "millis d = sgn d * (\<bar>d\<bar> div 1000000)"

definition completionEnvelope :: "wait_target \<Rightarrow> run_result \<Rightarrow> byte list \<Rightarrow> int \<Rightarrow> bool \<Rightarrow> envelope" where
  "completionEnvelope t res raw now reveal =
     (let env = env0\<lparr>eStatus := bs ''done'', eExit := Some (RExit res), eNext := [peek_hint (wtName t)],
            eDuration := (if completionStart t = zero_time then None else Some (millis (now - completionStart t)))\<rparr>
      in if \<not> reveal then env
         else let (body, omitted) =
                lastLines (cleanNoTrunc (ReadRange raw (completionFrom t) (MarkStart res)) (completionEcho t)) 20
              in env\<lparr>eOutput := body,
                  eTruncated := (if omitted > 0 then Some (omitted, 0, completionFull t) else None)\<rparr>)"

definition answeredSettle :: int where "answeredSettle = 500000000"

definition answeredEnvelope :: "tick \<Rightarrow> wait_target \<Rightarrow> poll_result" where
  "answeredEnvelope k t =
     (case kGone k of
        Inl e \<Rightarrow> if e = ErrNotFound then
            PollDone (let st = deriveTerminalStatus (kGoneLook k) False (wtMode t) (wtShell t = [])
              in env0\<lparr>eStatus := status_name st, eOutput := waitCurrentTail (kGoneTail k), eNext := peekNext (wtName t) st\<rparr>)
          else PollFailed (WaitMux e)
      | Inr cur \<Rightarrow>
          let program = (wtShell t = []);
              st = deriveTerminalStatus (kGoneLook k) (tAlive cur) (wtMode t) program;
              follow = bs ''pairmux wait '' @ wtName t @ (if program then bs '' --idle 800'' else bs '' --done'')
          in PollDone (env0\<lparr>eStatus := status_name st,
               eOutput := (if st = StatusDead then waitCurrentTail (kGoneTail k) else []),
               eNext := (if st = StatusRunning then [follow] else []) @ peekNext (wtName t) st\<rparr>))"

definition poll_arm :: "extra_re \<Rightarrow> tick \<Rightarrow> bool \<Rightarrow> wait_target \<Rightarrow> wait_target" where
  "poll_arm X k human t =
     (if human \<and> \<not> watchAnswered t \<and> snd (PromptPending X (kPrompt k)) then armAnswered (kArm k) t else t)"

definition poll_submit :: "tick \<Rightarrow> wait_target \<Rightarrow> wait_target" where
  "poll_submit k t =
     (if watchAnswered t \<and> \<not> answerSubmitted t \<and> int (length (kAnswer k)) > answerScan t \<and> \<not> kAnswerFail k then
        (let data = ReadRange (kAnswer k) (answerScan t) (int (length (kAnswer k)))
         in if data \<noteq> [] then t\<lparr>answerScan := answerScan t + int (length data), answerSubmitted := NL \<in> set data\<rparr> else t)
      else t)"

definition poll_answered :: "extra_re \<Rightarrow> tick \<Rightarrow> wait_target \<Rightarrow> poll_result \<times> wait_target" where
  "poll_answered X k t =
     (if watchAnswered t \<and> answerSubmitted t then
        (if snd (PromptPending X (kPrompt2 k)) then (PollAgain, t\<lparr>answeredAt := None\<rparr>)
         else let since = (case answeredAt t of None \<Rightarrow> kNow1 k | Some s \<Rightarrow> s);
                  t' = t\<lparr>answeredAt := Some since\<rparr>
              in if kNow2 k - since \<ge> answeredSettle then (answeredEnvelope k t', t') else (PollAgain, t'))
      else (PollAgain, t))"

definition poll_state :: "extra_re \<Rightarrow> tick \<Rightarrow> wait_spec_t \<Rightarrow> wait_target \<Rightarrow> poll_result \<times> wait_target" where
  "poll_state X k spec t =
     (if (sIdle spec \<or> kNow3 k - lastStateCheck t \<ge> 1000000000) \<and> journalQuiet (kQuiet k) (sIdleFor spec) then
        (let t1 = t\<lparr>lastStateCheck := kNow4 k\<rparr>
         in case kCurrent k of
              Inl e \<Rightarrow>
                if e = ErrNotFound then
                  (PollDone (env0\<lparr>eStatus := bs ''dead'', eOutput := waitCurrentTail (kTail k),
                     eNext := [bs ''pairmux log '' @ wtName t, bs ''pairmux new'']\<rparr>), t1)
                else (PollFailed (WaitMux e), t1)
            | Inr cur \<Rightarrow>
                let (st, p, terminal) = terminalStatusAfterQuiet X (kQuiet2 k) (kLook k) (tAlive cur) (wtMode t)
                      (metaShell (tMeta cur) = []) (sIdleFor spec);
                    t2 = (if sHuman spec \<and> \<not> watchAnswered t1 \<and> st = StatusAwaitingInput
                          then armAnswered (kArm2 k) t1 else t1)
                in if terminal \<and> (sIdle spec \<or> st = StatusDead) \<and> \<not> (sHuman spec \<and> st = StatusAwaitingInput) then
                     (PollDone (env0\<lparr>eStatus := status_name st,
                        eOutput := (if st = StatusAwaitingInput then PLine p
                                    else if st = StatusDead then waitCurrentTail (kTail k) else []),
                        eNext := (if st = StatusAwaitingInput then awaitingNext (wtName t) p else peekNext (wtName t) st)\<rparr>), t2)
                   else (PollAgain, t2))
      else (PollAgain, t))"

definition poll_pattern :: "tick \<Rightarrow> wait_spec_t \<Rightarrow> wait_target \<Rightarrow> byte list option" where
  "poll_pattern k spec t =
     (case (sPattern spec, kPattern k) of
        (Some re, Some raw) \<Rightarrow>
          (let data = ReadRange raw (baseSize t) (- 1) in if data \<noteq> [] then matchShapedPattern re data else None)
      | _ \<Rightarrow> None)"

definition poll_note :: "tick \<Rightarrow> wait_spec_t \<Rightarrow> wait_target \<Rightarrow> byte list option" where
  "poll_note k spec t =
     (if sNote spec then Option.bind (kNotes k) (\<lambda>evs. newNote evs (baseEvents t)) else None)"

text \<open>Everything after the completion was polled.\<close>

definition poll_handoff :: "extra_re \<Rightarrow> tick \<Rightarrow> wait_spec_t \<Rightarrow> wait_target \<Rightarrow> poll_result \<times> wait_target" where
  "poll_handoff X k spec t =
     (case poll_answered X k (poll_submit k (poll_arm X k (sHuman spec) t)) of
        (PollAgain, t1) \<Rightarrow> poll_state X k spec t1
      | r \<Rightarrow> r)"

definition pollWaitTarget :: "extra_re \<Rightarrow> tick \<Rightarrow> wait_spec_t \<Rightarrow> wait_target \<Rightarrow> poll_result \<times> wait_target" where
  "pollWaitTarget X k spec t =
     (case poll_pattern k spec t of
        Some hit \<Rightarrow> (PollDone (env0\<lparr>eStatus := bs ''pattern-found'', eOutput := hit, eNext := [peek_hint (wtName t)]\<rparr>), t)
      | None \<Rightarrow>
          (case poll_note k spec t of
             Some note \<Rightarrow> (PollDone (noteEnvelope (wtName t) note (sHuman spec)), t)
           | None \<Rightarrow>
               (case completion t of
                  None \<Rightarrow> poll_handoff X k spec t
                | Some w \<Rightarrow>
                    (case Poll (kPoll k) w of
                       (Inl e, w') \<Rightarrow> (PollFailed WaitInternal, t\<lparr>completion := Some w'\<rparr>)
                     | (Inr (Some res), w') \<Rightarrow>
                         (PollDone (completionEnvelope t res (kDoneRaw k) (kDoneNow k) (\<not> sHuman spec)),
                          t\<lparr>completion := Some w'\<rparr>)
                     | (Inr None, w') \<Rightarrow> poll_handoff X k spec (t\<lparr>completion := Some w'\<rparr>)))))"

section \<open>The wait\<close>

text \<open>One turn over the targets: the first that is done or fails ends it, and the ones after it are not
  polled.\<close>

fun poll_round :: "extra_re \<Rightarrow> wait_spec_t \<Rightarrow> tick list \<Rightarrow> wait_target list
    \<Rightarrow> (wait_error + wait_target \<times> envelope) option \<times> wait_target list" where
  "poll_round X spec (k # ks) (t # ts) =
     (case pollWaitTarget X k spec t of
        (PollAgain, t') \<Rightarrow> (case poll_round X spec ks ts of (r, ts') \<Rightarrow> (r, t' # ts'))
      | (PollDone e, t') \<Rightarrow> (Some (Inr (t', e)), t' # ts)
      | (PollFailed err, t') \<Rightarrow> (Some (Inl err), t' # ts))"
| "poll_round X spec ks ts = (None, ts)"

definition timeoutEnvelope :: "bool \<Rightarrow> byte list \<Rightarrow> byte list \<Rightarrow> envelope" where
  "timeoutEnvelope human retryHint name =
     env0\<lparr>eStatus := bs ''timeout'',
       eNext := (if human then [bs ''the human has not answered yet '' @ em_dash @ bs '' do NOT type the secret'', retryHint, peek_hint name]
                 else [peek_hint name, retryHint])\<rparr>"

text \<open>A turn of the loop: the ticks of its polls, and the clock after them.\<close>

fun wait_rounds :: "extra_re \<Rightarrow> wait_spec_t \<Rightarrow> int \<Rightarrow> byte list \<Rightarrow> (tick list \<times> int) list \<Rightarrow> wait_target list
    \<Rightarrow> (wait_error + wait_target \<times> envelope) option" where
  "wait_rounds X spec deadline hint [] ts = None"
| "wait_rounds X spec deadline hint ((ks, now) # rs) ts =
     (case poll_round X spec ks ts of
        (Some r, ts') \<Rightarrow> Some r
      | (None, ts') \<Rightarrow>
          if deadline \<le> now then Some (Inr (hd ts', timeoutEnvelope (sHuman spec) hint (wtName (hd ts'))))
          else wait_rounds X spec deadline hint rs ts')"

text \<open>A note left before: the first target whose log holds an unseen one.\<close>

fun prior_note :: "event list option list \<Rightarrow> wait_target list \<Rightarrow> (wait_target \<times> byte list) option" where
  "prior_note (evs # es) (t # ts) =
     (case Option.bind evs latestUnseenNote of Some note \<Rightarrow> Some (t, note) | None \<Rightarrow> prior_note es ts)"
| "prior_note es ts = None"

definition wait_finish :: "byte list list \<Rightarrow> int \<Rightarrow> wait_target \<times> envelope \<Rightarrow> envelope" where
  "wait_finish extraNext sz te =
     (let (t, e) = te
      in e\<lparr>eTerminal := wtName t, eMode := wtMode t, eNext := appendGuard (extraNext @ eNext e) sz (wtName t)\<rparr>)"

text \<open>\<open>cmdWait\<close> from the armed targets on. \<open>notified\<close> is \<open>None\<close> without \<open>--notify\<close>, else whether the
  notification went out; \<open>sz\<close> is the size of the journal in the end.\<close>

definition wait_flow :: "extra_re \<Rightarrow> wait_spec_t \<Rightarrow> event list option list \<Rightarrow> bool option \<Rightarrow> int \<Rightarrow> byte list \<Rightarrow> int
    \<Rightarrow> (tick list \<times> int) list \<Rightarrow> wait_target list \<Rightarrow> (wait_error + envelope) option" where
  "wait_flow X spec logs notified deadline hint sz rounds ts =
     (case (if sNote spec then prior_note logs ts else None) of
        Some (t, note) \<Rightarrow> Some (Inr (wait_finish [] sz (t, noteEnvelope (wtName t) note (sHuman spec))))
      | None \<Rightarrow>
          let extraNext = (if notified = Some False
                then [bs ''notification failed '' @ em_dash @ bs '' check the terminal manually''] else [])
          in map_option (map_sum id (wait_finish extraNext sz)) (wait_rounds X spec deadline hint rounds ts))"

end
