(* ===== verification/Handoff_Laws.thy ===== *)
theory Handoff_Laws
  imports Handoff
begin

text \<open>
  What a wait promises: a handoff (\<open>--human\<close>) never hands back terminal output and never reports the prompt
  it waits for; it reports the terminal as moving again only after a line was terminated and the prompt has
  been gone for a while; every wait has returned once a turn is past its deadline.
\<close>

section \<open>What a handoff reveals\<close>

lemma derive_not_awaiting: "deriveTerminalStatus L alive mode program \<noteq> StatusAwaitingInput"
  by (auto simp: deriveTerminalStatus_def DeriveStatus_def split: option.split)

lemma status_name_inj [simp]: "status_name a = status_name b \<longleftrightarrow> a = b"
  by (cases a; cases b) (simp_all add: status_name_def)

lemma status_name_other [simp]:
  "status_name a \<noteq> bs ''done''" "status_name a \<noteq> bs ''human-done''" "status_name a \<noteq> bs ''note''"
  "status_name a \<noteq> bs ''pattern-found''" "status_name a \<noteq> bs ''timeout''"
  by (cases a; simp add: status_name_def)+

abbreviation awaiting :: "byte list" where "awaiting \<equiv> status_name StatusAwaitingInput"
abbreviation dead_text :: "byte list" where "dead_text \<equiv> status_name StatusDead"

text \<open>An envelope a handoff may return: no output, or the tail of a dead terminal, or a note.\<close>

definition handoff_env :: "envelope \<Rightarrow> bool" where
  "handoff_env e \<longleftrightarrow> eStatus e \<noteq> awaiting \<and> (eOutput e = [] \<or> eStatus e = dead_text \<or> eStatus e = bs ''human-done'')"

lemma derive_dead: "deriveTerminalStatus L False mode program = StatusDead"
  by (simp add: deriveTerminalStatus_def DeriveStatus_def)

lemma answered_env: "answeredEnvelope k t = PollDone e \<Longrightarrow> handoff_env e"
  using derive_not_awaiting derive_dead
  by (auto simp: answeredEnvelope_def handoff_env_def env0_def Let_def split: sum.splits if_splits)

lemma answered_handoff: "poll_answered X k t = (PollDone e, t') \<Longrightarrow> handoff_env e"
  using answered_env by (auto simp: poll_answered_def Let_def split: if_splits)

lemma state_handoff: "sHuman spec \<Longrightarrow> poll_state X k spec t = (PollDone e, t') \<Longrightarrow> handoff_env e"
  by (auto simp: poll_state_def handoff_env_def env0_def status_name_def Let_def case_prod_beta
      split: if_splits sum.splits Status.splits)

lemma handoff_handoff: "sHuman spec \<Longrightarrow> poll_handoff X k spec t = (PollDone e, t') \<Longrightarrow> handoff_env e"
  using answered_handoff state_handoff by (fastforce simp: poll_handoff_def split: prod.splits poll_result.splits)

text \<open>The poll of a target, as far as it matters here: a pattern, a note, the completion, or the rest.\<close>

lemma poll_cases:
  assumes "pollWaitTarget X k spec t = (r, t')"
  obtains (pattern) hit where "poll_pattern k spec t = Some hit" "r \<noteq> PollAgain"
  | (noted) n where "poll_note k spec t = Some n" "r = PollDone (noteEnvelope (wtName t) n (sHuman spec))"
  | (failed) "r = PollFailed WaitInternal"
  | (completed) res where "r = PollDone (completionEnvelope t res (kDoneRaw k) (kDoneNow k) (\<not> sHuman spec))"
  | (handoff) c where "poll_handoff X k spec (t\<lparr>completion := c\<rparr>) = (r, t')"
proof -
  have "thesis" if "poll_handoff X k spec t = (r, t')" using handoff [of "completion t"] that by simp
  then show thesis
    using assms pattern noted failed completed handoff unfolding pollWaitTarget_def
    by (auto split: option.splits prod.splits sum.splits)
qed

lemma poll_handoff_env:
  assumes "sHuman spec" "sPattern spec = None" "pollWaitTarget X k spec t = (PollDone e, t')"
  shows "handoff_env e \<and> (eStatus e = bs ''human-done'' \<longrightarrow> poll_note k spec t = Some (eOutput e))"
  using assms(3)
proof (cases rule: poll_cases)
  case (pattern hit)
  then show ?thesis using assms(2) by (simp add: poll_pattern_def)
next
  case (noted n)
  then show ?thesis using assms(1) by (simp add: noteEnvelope_def handoff_env_def env0_def status_name_def)
next
  case (completed res)
  then show ?thesis
    using assms(1) by (simp add: completionEnvelope_def handoff_env_def env0_def status_name_def Let_def)
next
  case (handoff c)
  have "eStatus e \<noteq> bs ''human-done''"
    using handoff by (auto simp: poll_handoff_def poll_answered_def poll_state_def answeredEnvelope_def env0_def Let_def
        status_name_def case_prod_beta split: prod.splits poll_result.splits if_splits sum.splits Status.splits)
  then show ?thesis using handoff_handoff [OF assms(1) handoff] by simp
qed simp

text \<open>The whole wait.\<close>

lemma poll_round_env:
  "sHuman spec \<Longrightarrow> sPattern spec = None \<Longrightarrow> poll_round X spec ks ts = (Some (Inr (t, e)), ts') \<Longrightarrow> handoff_env e"
proof (induction X spec ks ts arbitrary: ts' rule: poll_round.induct)
  case (1 X spec k ks t' ts)
  show ?case
  proof (cases "pollWaitTarget X k spec t'")
    case (Pair r t'')
    then show ?thesis
      using 1 poll_handoff_env [OF 1(2,3), of X k t' _ t''] by (cases r) (auto split: prod.splits)
  qed
qed simp_all

lemma timeout_env: "handoff_env (timeoutEnvelope human hint name)"
  by (simp add: handoff_env_def timeoutEnvelope_def env0_def status_name_def)

lemma wait_rounds_env:
  "sHuman spec \<Longrightarrow> sPattern spec = None \<Longrightarrow> wait_rounds X spec deadline hint rounds ts = Some (Inr (t, e)) \<Longrightarrow>
   handoff_env e"
proof (induction X spec deadline hint rounds ts rule: wait_rounds.induct)
  case (2 X spec deadline hint ks now rs ts)
  then show ?case
    using timeout_env poll_round_env [OF 2(2,3), of X ks ts t e] by (auto split: prod.splits option.splits if_splits)
qed simp

lemma map_sum_Inr: "map_sum f g y = Inr e \<longleftrightarrow> (\<exists>x. y = Inr x \<and> e = g x)"
  by (cases y) auto

lemma finish_fields [simp]:
  "eStatus (wait_finish x sz (t, e)) = eStatus e" "eOutput (wait_finish x sz (t, e)) = eOutput e"
  "eTerminal (wait_finish x sz (t, e)) = wtName t"
  by (simp_all add: wait_finish_def)

lemma wait_flow_env:
  assumes "sHuman spec" "sPattern spec = None"
    and "wait_flow X spec logs notified deadline hint sz rounds ts = Some (Inr e)"
  shows "handoff_env e"
proof (cases "if sNote spec then prior_note logs ts else None")
  case (Some tn)
  then show ?thesis
    using assms by (cases tn) (auto simp: wait_flow_def noteEnvelope_def handoff_env_def env0_def status_name_def)
next
  case None
  then obtain t e' x where "wait_rounds X spec deadline hint rounds ts = Some (Inr (t, e'))"
    "e = wait_finish x sz (t, e')"
    using assms(3) by (auto simp: wait_flow_def Let_def map_sum_Inr)
  then show ?thesis using wait_rounds_env [OF assms(1,2)] by (simp add: handoff_env_def)
qed

section \<open>The deadline\<close>

lemma wait_rounds_deadline:
  "\<exists>r \<in> set rounds. deadline \<le> snd r \<Longrightarrow> wait_rounds X spec deadline hint rounds ts \<noteq> None"
proof (induction X spec deadline hint rounds ts rule: wait_rounds.induct)
  case (2 X spec deadline hint ks now rs ts)
  show ?case
  proof (cases "fst (poll_round X spec ks ts) = None \<and> \<not> deadline \<le> now")
    case True
    then have "\<exists>r \<in> set rs. deadline \<le> snd r" using 2(2) by auto
    then show ?thesis using 2(1) True by (cases "poll_round X spec ks ts") simp
  qed (auto split: prod.split option.split)
qed simp

lemma wait_flow_deadline:
  "\<exists>r \<in> set rounds. deadline \<le> snd r \<Longrightarrow> wait_flow X spec logs notified deadline hint sz rounds ts \<noteq> None"
  using wait_rounds_deadline [of rounds deadline X spec hint ts]
  by (auto simp: wait_flow_def Let_def split: option.split prod.split)

section \<open>When a handoff is over\<close>

definition prompting :: "extra_re \<Rightarrow> tick \<Rightarrow> bool" where
  "prompting X k = snd (PromptPending X (kPrompt2 k))"

text \<open>Where a watch that runs at some time after the ticks \<open>ks\<close> can have been armed.\<close>

definition armed :: "wait_target \<Rightarrow> tick list \<Rightarrow> int \<Rightarrow> bool" where
  "armed t0 ks a \<longleftrightarrow> (watchAnswered t0 \<and> a = answerScan t0) \<or> (\<exists>j \<in> set ks. a = int (kArm j) \<or> a = int (kArm2 j))"

text \<open>What the state of a target says of the ticks it has seen: \<open>ks\<close> by the check of the submitted line,
  \<open>ls\<close> by the check of the prompt.\<close>

definition submitted_ok :: "wait_target \<Rightarrow> tick list \<Rightarrow> wait_target \<Rightarrow> bool" where
  "submitted_ok t0 ks t \<longleftrightarrow> (watchAnswered t \<longrightarrow>
     (\<exists>a. armed t0 ks a \<and> a \<le> answerScan t
       \<and> (answerSubmitted t \<longrightarrow> (\<exists>j \<in> set ks. NL \<in> set (drop (nat a) (kAnswer j))))))"

definition gone_since :: "extra_re \<Rightarrow> tick list \<Rightarrow> int \<Rightarrow> bool" where
  "gone_since X ls s \<longleftrightarrow>
     (\<exists>us vs. ls = us @ vs \<and> vs \<noteq> [] \<and> (\<forall>j \<in> set vs. \<not> prompting X j) \<and> kNow1 (hd vs) = s)"

definition answered_ok :: "extra_re \<Rightarrow> tick list \<Rightarrow> wait_target \<Rightarrow> bool" where
  "answered_ok X ls t \<longleftrightarrow>
     (\<forall>s. answeredAt t = Some s \<longrightarrow> watchAnswered t \<and> answerSubmitted t \<and> gone_since X ls s)"

lemma armed_mono: "armed t0 ks a \<Longrightarrow> armed t0 (ks @ [k]) a"
  by (auto simp: armed_def)

lemma arm_ok:
  assumes "submitted_ok t0 ks t" "k \<in> set ls" "n = kArm k \<or> n = kArm2 k" "answered_ok X ls' t" "\<not> watchAnswered t"
  shows "submitted_ok t0 ls (armAnswered n t) \<and> answered_ok X ls' (armAnswered n t)"
  using assms by (auto simp: submitted_ok_def answered_ok_def armAnswered_def armed_def)

lemma submitted_mono: "submitted_ok t0 ks t \<Longrightarrow> submitted_ok t0 (ks @ [k]) t"
proof -
  assume s: "submitted_ok t0 ks t"
  have "\<exists>a. armed t0 (ks @ [k]) a \<and> a \<le> answerScan t
      \<and> (answerSubmitted t \<longrightarrow> (\<exists>j \<in> set (ks @ [k]). NL \<in> set (drop (nat a) (kAnswer j))))" if "watchAnswered t"
  proof -
    obtain a where "armed t0 ks a" "a \<le> answerScan t"
      "answerSubmitted t \<longrightarrow> (\<exists>j \<in> set ks. NL \<in> set (drop (nat a) (kAnswer j)))"
      using s \<open>watchAnswered t\<close> by (auto simp: submitted_ok_def)
    then show ?thesis by (intro exI [of _ a] conjI armed_mono) auto
  qed
  then show ?thesis by (simp add: submitted_ok_def)
qed

lemma poll_arm_ok:
  "submitted_ok t0 ks t \<Longrightarrow> answered_ok X ls t \<Longrightarrow>
   submitted_ok t0 (ks @ [k]) (poll_arm X k human t) \<and> answered_ok X ls (poll_arm X k human t)"
  using arm_ok [of t0 ks t k "ks @ [k]" "kArm k" X ls] submitted_mono [of t0 ks t k] by (auto simp: poll_arm_def)

lemma set_ReadRange: "0 \<le> a \<Longrightarrow> a \<le> b \<Longrightarrow> set (ReadRange raw b (int (length raw))) \<subseteq> set (drop (nat a) raw)"
  by (simp add: ReadRange_tail set_drop_subset_set_drop nat_mono)

lemma poll_submit_ok:
  assumes "submitted_ok t0 (ks @ [k]) t" "answered_ok X ls t" "0 \<le> answerScan t0"
  shows "submitted_ok t0 (ks @ [k]) (poll_submit k t) \<and> answered_ok X ls (poll_submit k t)"
proof (cases "poll_submit k t = t")
  case False
  define data where "data = ReadRange (kAnswer k) (answerScan t) (int (length (kAnswer k)))"
  have e: "watchAnswered t" "\<not> answerSubmitted t"
    "poll_submit k t = t\<lparr>answerScan := answerScan t + int (length data), answerSubmitted := NL \<in> set data\<rparr>"
    using False by (auto simp: poll_submit_def data_def Let_def split: if_splits)
  obtain a where a: "armed t0 (ks @ [k]) a" "a \<le> answerScan t" using assms(1) e(1) by (auto simp: submitted_ok_def)
  have "0 \<le> a" using a(1) assms(3) by (auto simp: armed_def)
  then have "NL \<in> set data \<Longrightarrow> NL \<in> set (drop (nat a) (kAnswer k))"
    using set_ReadRange [of a "answerScan t" "kAnswer k"] a(2) by (auto simp: data_def)
  then have "submitted_ok t0 (ks @ [k]) (poll_submit k t)"
    unfolding submitted_ok_def e(3) using a by (intro impI exI [of _ a]) auto
  moreover have "answered_ok X ls (poll_submit k t)" using assms(2) e by (auto simp: answered_ok_def)
  ultimately show ?thesis ..
qed (use assms in simp)

lemma gone_snoc: "gone_since X ls s \<Longrightarrow> \<not> prompting X k \<Longrightarrow> gone_since X (ls @ [k]) s"
proof -
  assume "gone_since X ls s" and k: "\<not> prompting X k"
  then obtain us vs where "ls = us @ vs" "vs \<noteq> []" "\<forall>j \<in> set vs. \<not> prompting X j" "kNow1 (hd vs) = s"
    by (auto simp: gone_since_def)
  then show ?thesis unfolding gone_since_def using k by (intro exI [of _ us] exI [of _ "vs @ [k]"]) auto
qed

lemma gone_now: "\<not> prompting X k \<Longrightarrow> gone_since X (ls @ [k]) (kNow1 k)"
  unfolding gone_since_def by (intro exI [of _ ls] exI [of _ "[k]"]) simp

lemma poll_answered_ok:
  assumes "answered_ok X ls t" "poll_answered X k t = (r, t')"
  shows "answered_ok X (ls @ [k]) t' \<and> watchAnswered t' = watchAnswered t \<and> answerScan t' = answerScan t
    \<and> answerSubmitted t' = answerSubmitted t"
  using assms gone_snoc [of X ls _ k] gone_now [of X k ls]
  by (auto simp: poll_answered_def answered_ok_def prompting_def Let_def split: if_splits option.splits)

lemma poll_answered_done:
  assumes "answered_ok X ls t" "poll_answered X k t = (PollDone e, t')"
  shows "watchAnswered t \<and> answerSubmitted t \<and> (\<exists>s. gone_since X (ls @ [k]) s \<and> kNow2 k - s \<ge> answeredSettle)"
  using assms gone_snoc [of X ls _ k] gone_now [of X k ls]
  by (fastforce simp: poll_answered_def answered_ok_def prompting_def Let_def split: if_splits option.splits)

lemma poll_state_ok:
  assumes "submitted_ok t0 (ks @ [k]) t" "answered_ok X ls t" "poll_state X k spec t = (r, t')"
  shows "submitted_ok t0 (ks @ [k]) t' \<and> answered_ok X ls t'"
proof -
  have l: "submitted_ok t0 (ks @ [k]) (u\<lparr>lastStateCheck := c\<rparr>) = submitted_ok t0 (ks @ [k]) u"
    "answered_ok X ls (u\<lparr>lastStateCheck := c\<rparr>) = answered_ok X ls u" for u c
    by (simp_all add: submitted_ok_def answered_ok_def)
  show ?thesis
    using assms l arm_ok [of t0 "ks @ [k]" "t\<lparr>lastStateCheck := kNow4 k\<rparr>" k "ks @ [k]" "kArm2 k" X ls]
    by (auto simp: poll_state_def Let_def case_prod_beta split: if_splits sum.splits)
qed

text \<open>The polls of a target that all left it waiting.\<close>

definition poll_again :: "extra_re \<Rightarrow> wait_spec_t \<Rightarrow> wait_target option \<Rightarrow> tick \<Rightarrow> wait_target option" where
  "poll_again X spec ot k =
     (case ot of None \<Rightarrow> None
      | Some t \<Rightarrow> (case pollWaitTarget X k spec t of (PollAgain, t') \<Rightarrow> Some t' | _ \<Rightarrow> None))"

definition again_run :: "extra_re \<Rightarrow> wait_spec_t \<Rightarrow> tick list \<Rightarrow> wait_target \<Rightarrow> wait_target option" where
  "again_run X spec ks t = foldl (poll_again X spec) (Some t) ks"

definition fresh_target :: "wait_target \<Rightarrow> bool" where
  "fresh_target t \<longleftrightarrow> \<not> answerSubmitted t \<and> answeredAt t = None \<and> 0 \<le> answerScan t"

lemma arm_fresh: "armWaitTarget X W name human d = Inr t \<Longrightarrow> fresh_target t"
  by (auto simp: armWaitTarget_def fresh_target_def new_target_def arm_completion_def armAnswered_def Let_def
      split: sum.splits if_splits)

definition hist :: "extra_re \<Rightarrow> wait_target \<Rightarrow> tick list \<Rightarrow> wait_target \<Rightarrow> bool" where
  "hist X t0 ks t \<longleftrightarrow> submitted_ok t0 ks t \<and> answered_ok X ks t"

lemma hist_completion [simp]: "hist X t0 ks (t\<lparr>completion := c\<rparr>) = hist X t0 ks t"
  by (simp add: hist_def submitted_ok_def answered_ok_def)

text \<open>The state right before the prompt is checked.\<close>

lemma before_prompt_ok:
  assumes "hist X t0 ks t" "0 \<le> answerScan t0"
  shows "submitted_ok t0 (ks @ [k]) (poll_submit k (poll_arm X k human t))
    \<and> answered_ok X ks (poll_submit k (poll_arm X k human t))"
  using assms poll_arm_ok [of t0 ks t X ks k human] poll_submit_ok [of t0 ks k "poll_arm X k human t" X ks]
  by (simp add: hist_def)

lemma handoff_again:
  assumes "hist X t0 ks t" "0 \<le> answerScan t0" "poll_handoff X k spec t = (PollAgain, t')"
  shows "hist X t0 (ks @ [k]) t'"
proof -
  define t1 where "t1 = poll_submit k (poll_arm X k (sHuman spec) t)"
  obtain t2 where t2: "poll_answered X k t1 = (PollAgain, t2)" "poll_state X k spec t2 = (PollAgain, t')"
    using assms(3) by (auto simp: poll_handoff_def t1_def split: prod.splits poll_result.splits)
  have s: "submitted_ok t0 (ks @ [k]) t1" "answered_ok X ks t1"
    using before_prompt_ok [OF assms(1,2)] by (simp_all add: t1_def)
  have "answered_ok X (ks @ [k]) t2" "submitted_ok t0 (ks @ [k]) t2"
    using poll_answered_ok [OF s(2) t2(1)] s(1) by (simp_all add: submitted_ok_def)
  then show ?thesis using poll_state_ok [OF _ _ t2(2)] by (simp add: hist_def)
qed

lemma poll_again_ok:
  assumes "hist X t0 ks t" "0 \<le> answerScan t0" "pollWaitTarget X k spec t = (PollAgain, t')"
  shows "hist X t0 (ks @ [k]) t'"
proof -
  have "\<exists>c. poll_handoff X k spec (t\<lparr>completion := c\<rparr>) = (PollAgain, t')"
    using assms(3) by (cases rule: poll_cases) auto
  then show ?thesis using handoff_again [of X t0 ks _ k spec t'] assms(1,2) by (metis hist_completion)
qed

lemma again_run_hist:
  "fresh_target t0 \<Longrightarrow> again_run X spec ks t0 = Some t \<Longrightarrow> hist X t0 ks t"
proof (induction ks arbitrary: t rule: rev_induct)
  case Nil
  then show ?case by (auto simp: again_run_def hist_def fresh_target_def submitted_ok_def answered_ok_def armed_def)
next
  case (snoc k ks)
  then obtain u where "again_run X spec ks t0 = Some u" "pollWaitTarget X k spec u = (PollAgain, t)"
    by (auto simp: again_run_def poll_again_def split: option.splits prod.splits poll_result.splits)
  then show ?case using snoc poll_again_ok by (simp add: fresh_target_def)
qed

lemma state_dead_only:
  "sHuman spec \<Longrightarrow> \<not> sIdle spec \<Longrightarrow> poll_state X k spec t = (PollDone e, t') \<Longrightarrow> eStatus e = dead_text"
  by (auto simp: poll_state_def env0_def status_name_def Let_def case_prod_beta
      split: if_splits sum.splits Status.splits)

lemma moving_again:
  assumes "fresh_target t0" "sHuman spec" "sPattern spec = None" "\<not> sIdle spec"
    and "again_run X spec ks t0 = Some t" "pollWaitTarget X k spec t = (PollDone e, t')"
    and "eStatus e \<notin> {bs ''human-done'', bs ''done'', dead_text}"
  shows "\<exists>a. armed t0 (ks @ [k]) a \<and> (\<exists>j \<in> set (ks @ [k]). NL \<in> set (drop (nat a) (kAnswer j)))"
    and "\<exists>s. gone_since X (ks @ [k]) s \<and> kNow2 k - s \<ge> answeredSettle"
proof -
  have h: "hist X t0 ks t" using again_run_hist assms(1,5) by blast
  have "\<exists>c. poll_handoff X k spec (t\<lparr>completion := c\<rparr>) = (PollDone e, t')"
    using assms(6)
  proof (cases rule: poll_cases)
    case (pattern hit)
    then show ?thesis using assms(3) by (simp add: poll_pattern_def)
  next
    case (noted n)
    then show ?thesis using assms(2,7) by (simp add: noteEnvelope_def)
  next
    case (completed res)
    then show ?thesis using assms(2,7) by (simp add: completionEnvelope_def Let_def)
  qed auto
  then obtain c where c: "poll_handoff X k spec (t\<lparr>completion := c\<rparr>) = (PollDone e, t')" by blast
  define t1 where "t1 = poll_submit k (poll_arm X k (sHuman spec) (t\<lparr>completion := c\<rparr>))"
  have s: "submitted_ok t0 (ks @ [k]) t1" "answered_ok X ks t1"
    using before_prompt_ok [of X t0 ks "t\<lparr>completion := c\<rparr>" k] h assms(1) by (simp_all add: t1_def fresh_target_def)
  have "\<exists>t2. poll_answered X k t1 = (PollDone e, t2)"
    using c state_dead_only [OF assms(2,4), of X k _ e t'] assms(7)
    by (auto simp: poll_handoff_def t1_def split: prod.splits poll_result.splits)
  then obtain t2 where p: "poll_answered X k t1 = (PollDone e, t2)" by blast
  note d = poll_answered_done [OF s(2) p]
  show "\<exists>a. armed t0 (ks @ [k]) a \<and> (\<exists>j \<in> set (ks @ [k]). NL \<in> set (drop (nat a) (kAnswer j)))"
    using s(1) d by (auto simp: submitted_ok_def)
  show "\<exists>s. gone_since X (ks @ [k]) s \<and> kNow2 k - s \<ge> answeredSettle" using d by blast
qed

text \<open>With \<open>--pattern\<close> beside \<open>--human\<close> the output of the handoff is handed over all the same.\<close>

lemma human_pattern_reveals:
  "poll_pattern k spec t = Some hit \<Longrightarrow> \<exists>e t'. pollWaitTarget X k spec t = (PollDone e, t') \<and> eOutput e = hit"
  by (simp add: pollWaitTarget_def)

section \<open>A small handoff\<close>

text \<open>A program asks for a secret with echo off; the human types a line, and the terminal moves on.\<close>

definition small_term :: registered where
  "small_term = (blank_terminal (bs ''t1'') [bs ''t1''])\<lparr>tAlive := True\<rparr>"

definition small_look :: look where
  "small_look = \<lparr>lRaw = [], lEvents = Some [], lSince = Some 0,
     lDisc = \<lparr>Echo = False, Canonical = True, Known = True\<rparr>, lFg = FgUnknown\<rparr>"

definition small_arm :: arm_world where
  "small_arm = \<lparr>awResolve = Inr small_term, awOpen = True, awSize = 0, awEvents = Some [], awLook = small_look,
     awPending = Some [], awArm = 0\<rparr>"

definition human_spec :: wait_spec_t where
  "human_spec = \<lparr>sPattern = None, sNote = True, sHuman = True, sIdle = False, sIdleFor = 800000000\<rparr>"

definition small_tick :: "int \<Rightarrow> tick" where
  "small_tick now = \<lparr>kPattern = None, kNotes = Some [],
     kPoll = \<lparr>praw = [], pfail = False, pobs = 0, pnow = 0, pcls = (StatusRunning, no_prompt)\<rparr>,
     kDoneRaw = [], kDoneNow = 0, kPrompt = [], kArm = 0, kAnswer = [bc CHR ''x'', NL], kAnswerFail = False,
     kPrompt2 = [], kNow1 = now, kNow2 = now, kGone = Inr small_term, kGoneLook = small_look, kGoneTail = None,
     kNow3 = zero_time, kQuiet = None, kNow4 = now, kCurrent = Inr small_term, kQuiet2 = None, kLook = small_look,
     kArm2 = 0, kTail = None\<rparr>"

definition small_target :: wait_target where
  "small_target = armAnswered 0 (new_target (bs ''t1'') small_term small_arm)"

lemma no_prompt_empty [simp]: "snd (PromptPending X []) = False"
  by (simp add: PromptPending_def TailBytes_def ReadRange_def Let_def)

lemma small_armed: "armWaitTarget None small_arm (bs ''t1'') True False = Inr small_target"
proof -
  have "fst (ClassifyPending None [] (Some 0) StatusRunning \<lparr>Echo = False, Canonical = True, Known = True\<rparr> FgUnknown)
      = StatusAwaitingInput"
    by (simp add: ClassifyPending_def classifyAfter_def classify_def tty_Secret_def Waiting_def Let_def case_prod_beta)
  then show ?thesis
    by (simp add: armWaitTarget_def small_arm_def small_target_def small_term_def small_look_def blank_terminal_def
        no_meta_def deriveTerminalStatus_def PendingCmd_def Let_def)
qed

lemmas small_poll_simps = small_target_def pollWaitTarget_def poll_pattern_def poll_note_def poll_handoff_def
  poll_arm_def poll_submit_def poll_answered_def poll_state_def human_spec_def small_tick_def newNote_def
  new_target_def armAnswered_def answeredSettle_def small_term_def blank_terminal_def

lemma small_first:
  "\<exists>t. again_run None human_spec [small_tick 0] small_target = Some t \<and> answeredAt t = Some 0 \<and> watchAnswered t
    \<and> answerSubmitted t \<and> completion t = None \<and> wtShell t = [] \<and> baseEvents t = 0"
  by (simp add: small_poll_simps again_run_def poll_again_def ReadRange_def slice_def no_meta_def small_arm_def Let_def)

lemma small_second:
  assumes "answeredAt t = Some 0" "watchAnswered t" "answerSubmitted t" "completion t = None" "wtShell t = []" "baseEvents t = 0"
  shows "\<exists>e t'. pollWaitTarget None (small_tick 600000000) human_spec t = (PollDone e, t') \<and> eStatus e = bs ''running''"
  using assms by (simp add: small_poll_simps answeredEnvelope_def deriveTerminalStatus_def status_name_def Let_def)

end
