(* ===== verification/Views.thy ===== *)
theory Views
  imports Handoff Registry
begin

text \<open>
  The other commands on a terminal (\<open>internal/cli/commands.go\<close>): \<open>peek\<close>, \<open>send\<close>, \<open>log\<close>, \<open>note\<close>, \<open>kill\<close> and \<open>ls\<close>. What a
  command reads of the journal and of the multiplexer is its argument, and whether a delivery succeeds; what it
  delivers, records or kills is part of its result, in order. The texts of error messages are left out.
\<close>

section \<open>What the commands share\<close>

datatype reject =
    BadUsage
  | FlagsRejected flag_error
  | SocketRejected
  | NameRejected
  | NoTerminal
  | MuxFailed
  | TerminalGone
  | JournalFailed
  | ArgRejected
  | SendBusy
  | StillAlive

text \<open>The first positional argument, after the flags.\<close>

definition named :: "byte list \<Rightarrow> byte list list \<Rightarrow> reject + byte list" where
  "named socket pos =
     (case pos of [] \<Rightarrow> Inl BadUsage
      | name # _ \<Rightarrow> if \<not> ValidSocketName socket then Inl SocketRejected
                    else if \<not> ValidName name then Inl NameRejected else Inr name)"

definition found :: "resolve_error + registered \<Rightarrow> reject + registered" where
  "found r = (case r of Inl e \<Rightarrow> Inl (if e = ErrNotFound then NoTerminal else MuxFailed) | Inr t \<Rightarrow> Inr t)"

definition andThen :: "'e + 'a \<Rightarrow> ('a \<Rightarrow> 'e + 'b) \<Rightarrow> 'e + 'b" where
  "andThen r f = (case r of Inl e \<Rightarrow> Inl e | Inr x \<Rightarrow> f x)"

lemma andThen_simps [simp]: "andThen (Inl e) f = Inl e" "andThen (Inr x) f = f x"
  by (simp_all add: andThen_def)

lemma andThen_Inr: "andThen r f = Inr y \<longleftrightarrow> (\<exists>x. r = Inr x \<and> f x = Inr y)"
  by (cases r) simp_all

definition parsed :: "flag_spec \<Rightarrow> byte list list \<Rightarrow> reject + byte list list \<times> flag_values" where
  "parsed spec args = (case parseFlags spec args no_flags of Inl e \<Rightarrow> Inl (FlagsRejected e) | Inr r \<Rightarrow> Inr r)"

definition unseen_now :: "event list option \<Rightarrow> byte list list" where
  "unseen_now evs = (case evs of None \<Rightarrow> [] | Some es \<Rightarrow> unseenNotes es)"

section \<open>\<open>peek\<close>\<close>

record view_world =
  vResolve :: "resolve_error + registered"
  vOpen :: bool
  vLook :: look
  vTail :: "byte list option"
  vCapture :: "byte list option"
  vNotes :: "event list option"
  vSize :: int

definition peek_spec :: flag_spec where
  "peek_spec = \<lparr>bools = [bs ''screen''], vals = [bs ''tail''], lists = []\<rparr>"

text \<open>The shaped end of the journal: the last \<open>n\<close> lines of its last \<open>cap\<close> bytes.\<close>

definition tail_view :: "int \<Rightarrow> int \<Rightarrow> byte list \<Rightarrow> byte list \<Rightarrow> byte list \<times> (int \<times> int \<times> byte list) option" where
  "tail_view cap n name raw =
     (let (b, start) = TailBytes raw cap; (body, omitted) = lastLines (cleanNoTrunc b []) n
      in (body, if omitted > 0 \<or> start > 0
                then Some (omitted, start, bs ''pairmux log '' @ name @ bs '' --range 1:end'') else None))"

definition screen_view :: "byte list \<Rightarrow> byte list" where
  "screen_view s = trimTrailingBlankLines (StripBoundary s)"

definition peek_body :: "view_world \<Rightarrow> registered \<Rightarrow> bool \<Rightarrow> int \<Rightarrow> byte list \<Rightarrow> reject + byte list \<times> (int \<times> int \<times> byte list) option" where
  "peek_body W term screen n name =
     (if screen \<and> tAlive term then
        (case vCapture W of None \<Rightarrow> Inl MuxFailed | Some s \<Rightarrow> Inr (screen_view s, None))
      else case vTail W of None \<Rightarrow> Inl JournalFailed | Some raw \<Rightarrow> Inr (tail_view 65536 n name raw))"

definition cmdPeek :: "extra_re \<Rightarrow> byte list \<Rightarrow> view_world \<Rightarrow> byte list list \<Rightarrow> reject + envelope" where
  "cmdPeek X socket W args =
     andThen (parsed peek_spec args) (\<lambda>(pos, f).
      andThen (named socket pos) (\<lambda>name.
       case int_flag (valOf f (bs ''tail'')) 60 of None \<Rightarrow> Inl BadUsage
       | Some n \<Rightarrow>
          andThen (found (vResolve W)) (\<lambda>term.
           if \<not> vOpen W then Inl JournalFailed
           else let L = vLook W; st = deriveTerminalStatus L (tAlive term) (tMode term) (metaShell (tMeta term) = []);
                    (st', p) = Classify X (lRaw L) (lSince L) st (lDisc L) (lFg L)
             in andThen (peek_body W term (isSet f (bs ''screen'')) n name) (\<lambda>(body, trunc).
                Inr (env0\<lparr>eStatus := status_name st', eTerminal := name, eMode := tMode term, eOutput := body, eTruncated := trunc,
                  eNotes := unseen_now (vNotes W),
                  eNext := appendGuard (if st' = StatusAwaitingInput then awaitingNext name p else peekNext name st') (vSize W) name\<rparr>)))))"

section \<open>\<open>send\<close>\<close>

datatype delivery = Literal "byte list" | Keys "byte list list"

definition send_spec :: flag_spec where
  "send_spec = \<lparr>bools = [bs ''enter''], vals = [bs ''text''], lists = [bs ''key'']\<rparr>"

text \<open>Text, then keys, then Enter.\<close>

definition deliveries :: "bool \<Rightarrow> byte list \<Rightarrow> byte list list \<Rightarrow> bool \<Rightarrow> delivery list" where
  "deliveries hasText text ks enter =
     (if hasText then [Literal text] else []) @ (if ks \<noteq> [] then [Keys ks] else []) @ (if enter then [Keys [bs ''Enter'']] else [])"

text \<open>Deliver in order and stop at the first that fails: \<open>works\<close> says which succeed.\<close>

fun deliver :: "(delivery \<Rightarrow> bool) \<Rightarrow> delivery list \<Rightarrow> delivery list \<times> bool" where
  "deliver works [] = ([], True)"
| "deliver works (d # ds) = (if works d then (let (done', all') = deliver works ds in (d # done', all')) else ([], False))"

record send_world =
  sResolve :: "resolve_error + registered"
  sOpen :: bool
  sLook :: look
  sLocked :: bool
  sWorks :: "delivery \<Rightarrow> bool"
  sAppendOk :: bool
  sNow :: int
  sAudience :: "(int \<times> bool) option"

definition send_next :: "send_world \<Rightarrow> bool \<Rightarrow> byte list \<Rightarrow> byte list list" where
  "send_next W running name =
     (case sAudience W of Some (n, active) \<Rightarrow> if n > 0 \<and> active
          then [bs ''a human is attached to this window '' @ em_dash @ bs '' you are sharing its input line''] else [] | None \<Rightarrow> [])
     @ (if running then [bs ''a command is running; sent input goes to it''] else [])
     @ [peek_hint name]"

definition sent_event :: "bool \<Rightarrow> byte list list \<Rightarrow> bool \<Rightarrow> event" where
  "sent_event hasText ks enter = (blank_event EvSent)\<lparr>EvText := sentParts hasText ks enter\<rparr>"

text \<open>The answer, what reached the terminal, and the event log after it.\<close>

definition send_to :: "send_world \<Rightarrow> registered \<Rightarrow> byte list \<Rightarrow> flag_values \<Rightarrow> event list \<Rightarrow> (reject + envelope) \<times> delivery list \<times> event list" where
  "send_to W term name f evs =
     (let L = sLook W; ks = listOf f (bs ''key''); hasText = flagSeen f (bs ''text''); enter = isSet f (bs ''enter'');
          running = (deriveTerminalStatus L (tAlive term) (tMode term) (metaShell (tMeta term) = []) = StatusRunning);
          (sent, complete) = deliver (sWorks W) (deliveries hasText (valOf f (bs ''text'')) ks enter)
      in if sLocked W then (Inl SendBusy, [], evs)
         else if \<not> complete then (Inl MuxFailed, sent, evs)
         else (Inr (env0\<lparr>eStatus := bs ''sent'', eTerminal := name, eMode := tMode term, eNext := send_next W running name\<rparr>), sent,
               AppendEvent (sAppendOk W) (sNow W) (sent_event hasText ks enter) evs))"

definition cmdSend :: "byte list \<Rightarrow> send_world \<Rightarrow> byte list list \<Rightarrow> event list \<Rightarrow> (reject + envelope) \<times> delivery list \<times> event list" where
  "cmdSend socket W args evs =
     (case andThen (parsed send_spec args) (\<lambda>(pos, f). andThen (named socket pos) (\<lambda>name.
          if \<not> flagSeen f (bs ''text'') \<and> \<not> flagSeen f (bs ''key'') \<and> \<not> flagSeen f (bs ''enter'') then Inl ArgRejected
          else if \<not> list_all validKey (listOf f (bs ''key'')) then Inl ArgRejected
          else andThen (found (sResolve W)) (\<lambda>term.
            if \<not> tAlive term then Inl TerminalGone
            else if \<not> sOpen W then Inl JournalFailed
            else Inr (term, name, f)))) of
        Inl e \<Rightarrow> (Inl e, [], evs)
      | Inr (term, name, f) \<Rightarrow> send_to W term name f evs)"

section \<open>\<open>log\<close>\<close>

definition log_spec :: flag_spec where
  "log_spec = \<lparr>bools = [], vals = [bs ''cmd'', bs ''grep'', bs ''range''], lists = []\<rparr>"

definition scanCompletion :: "byte list \<Rightarrow> int \<Rightarrow> Mode \<Rightarrow> bool \<Rightarrow> int option" where
  "scanCompletion raw from mode bd =
     (case waitCompletion [\<lparr>praw = raw, pfail = False, pobs = 0, pnow = 0, pcls = (StatusUnknown, no_prompt)\<rparr>] from mode bd 0 False of
        Some (Inr r) \<Rightarrow> if Outcome r = OutcomeDone then Some (MarkStart r) else None
      | _ \<Rightarrow> None)"

text \<open>The last start and the last end recorded for a command.\<close>

definition command_start :: "event list \<Rightarrow> int \<Rightarrow> event option" where
  "command_start evs cid = find (\<lambda>e. EvType e = EvCmdStart \<and> CmdID e = cid) (rev evs)"

definition command_end :: "event list \<Rightarrow> int \<Rightarrow> int" where
  "command_end evs cid =
     (case find (\<lambda>e. EvType e = EvCmdEnd \<and> CmdID e = cid) (rev evs) of None \<Rightarrow> - 1 | Some e \<Rightarrow> Offset e)"

definition read_raw :: "byte list option \<Rightarrow> (byte list \<Rightarrow> reject + 'a) \<Rightarrow> reject + 'a" where
  "read_raw raw f = (case raw of None \<Rightarrow> Inl JournalFailed | Some r \<Rightarrow> f r)"

definition logCmd :: "event list option \<Rightarrow> byte list option \<Rightarrow> Mode option \<Rightarrow> bool \<Rightarrow> int \<Rightarrow> reject + byte list" where
  "logCmd log raw mode bd cid =
     (case log of None \<Rightarrow> Inl JournalFailed
      | Some evs \<Rightarrow>
          (case command_start evs cid of None \<Rightarrow> Inl ArgRejected
           | Some st \<Rightarrow> read_raw raw (\<lambda>r.
               let end' = command_end evs cid;
                   to' = (if end' < 0 then (case scanCompletion r (Offset st) (status_mode mode) bd of Some m \<Rightarrow> m | None \<Rightarrow> end') else end')
               in Inr (cleanNoTrunc (ReadRange r (Offset st) to') (EvText st)))))"

definition shapedJournal :: "byte list \<Rightarrow> byte list" where
  "shapedJournal raw = cleanNoTrunc (ReadRange raw 0 (- 1)) []"

text \<open>\<open>re\<close> is the compiled pattern.\<close>

definition logGrep :: "(byte list \<Rightarrow> bool) option \<Rightarrow> byte list option \<Rightarrow> reject + byte list" where
  "logGrep re raw =
     (case re of None \<Rightarrow> Inl ArgRejected
      | Some matches \<Rightarrow> read_raw raw (\<lambda>r.
          Inr (unlines (map (\<lambda>(i, l). itoa (int i + 1) @ bs '':'' @ l)
            (filter (\<lambda>(i, l). matches l) (enumerate 0 (lines_of (shapedJournal r))))))))"

definition logRange :: "byte list \<Rightarrow> byte list option \<Rightarrow> reject + byte list" where
  "logRange spec raw =
     (case parseRange spec of None \<Rightarrow> Inl ArgRejected
      | Some (a, b) \<Rightarrow> read_raw raw (\<lambda>r. Inr (unlines (range_lines a b (lines_of (shapedJournal r))))))"

record log_world =
  gResolve :: "resolve_error + registered"
  gOpen :: bool
  gEvents :: "event list option"
  gRaw :: "byte list option"

definition shapedViewCap :: int where "shapedViewCap = 4194304"

text \<open>\<open>compile\<close> is the compiler of regular expressions.\<close>

definition cmdLog :: "(byte list \<Rightarrow> (byte list \<Rightarrow> bool) option) \<Rightarrow> byte list \<Rightarrow> log_world \<Rightarrow> byte list list \<Rightarrow> reject + envelope" where
  "cmdLog compile socket W args =
     andThen (parsed log_spec args) (\<lambda>(pos, f). andThen (named socket pos) (\<lambda>name.
       if length (filter (flagSeen f) [bs ''cmd'', bs ''grep'', bs ''range'']) > 1 then Inl BadUsage
       else andThen (found (gResolve W)) (\<lambda>term.
         if \<not> gOpen W then Inl JournalFailed
         else let view = (\<lambda>body. Inr (env0\<lparr>eStatus := bs ''ok'', eTerminal := name, eMode := tMode term, eOutput := body\<rparr>))
         in if flagSeen f (bs ''cmd'') then
              (case atoi (valOf f (bs ''cmd'')) of None \<Rightarrow> Inl ArgRejected
               | Some cid \<Rightarrow> andThen (logCmd (gEvents W) (gRaw W) (tMode term) (SentinelHasBoundary (metaShell (tMeta term))) cid) view)
            else if flagSeen f (bs ''grep'') then
              andThen (logGrep (compile (valOf f (bs ''grep''))) (gRaw W)) view
            else if flagSeen f (bs ''range'') then
              andThen (logRange (valOf f (bs ''range'')) (gRaw W)) view
            else read_raw (gRaw W) (\<lambda>raw. let (body, trunc) = tail_view shapedViewCap 500 name raw
              in Inr (env0\<lparr>eStatus := bs ''ok'', eTerminal := name, eMode := tMode term, eOutput := body, eTruncated := trunc\<rparr>)))))"

section \<open>\<open>note\<close>\<close>

definition no_spec :: flag_spec where
  "no_spec = \<lparr>bools = [], vals = [], lists = []\<rparr>"

definition note_event :: "byte list \<Rightarrow> event" where
  "note_event text = (blank_event EvNote)\<lparr>EvText := text\<rparr>"

definition cmdNote :: "byte list \<Rightarrow> (resolve_error + registered) \<Rightarrow> bool \<Rightarrow> bool \<Rightarrow> int \<Rightarrow> byte list list \<Rightarrow> event list
    \<Rightarrow> (reject + envelope) \<times> event list" where
  "cmdNote socket resolve opens appends now args evs =
     (case andThen (parsed no_spec args) (\<lambda>(pos, f).
          if length pos < 2 then Inl BadUsage
          else andThen (named socket pos) (\<lambda>name. andThen (found resolve) (\<lambda>term.
            if \<not> opens then Inl JournalFailed else Inr (name, join_with (bs '' '') (tl pos))))) of
        Inl e \<Rightarrow> (Inl e, evs)
      | Inr (name, text) \<Rightarrow>
          if \<not> appends then (Inl JournalFailed, evs)
          else (Inr (env0\<lparr>eStatus := bs ''noted'', eTerminal := name,
                  eNext := [bs ''the agent sees this note in its next run/peek, or as output from pairmux wait '' @ name @ bs '' --human'']\<rparr>),
                AppendEvent True now (note_event text) evs))"

section \<open>\<open>kill\<close>\<close>

datatype kill_target = KillAll | KillOne "byte list"

definition kill_spec :: flag_spec where
  "kill_spec = \<lparr>bools = [bs ''all''], vals = [], lists = []\<rparr>"

definition kill_request :: "byte list \<Rightarrow> byte list list \<Rightarrow> reject + kill_target" where
  "kill_request socket args =
     andThen (parsed kill_spec args) (\<lambda>(pos, f).
       if \<not> ValidSocketName socket then Inl SocketRejected
       else if isSet f (bs ''all'') then (if pos \<noteq> [] then Inl BadUsage else Inr KillAll)
       else map_sum id KillOne (named socket pos))"

text \<open>What a kill does to the terminals of its own endpoint, in order; the nested layers are \<open>killLayers\<close>.\<close>

datatype kill_action = KillWindow "byte list" | RecordKilled path

record kill_world =
  kResolve :: "byte list \<Rightarrow> resolve_error + registered"
  kPanes :: "byte list + pane_info list"
  kDir :: "byte list \<Rightarrow> path"
  kOpens :: "path \<Rightarrow> bool"
  kHasDir :: "byte list \<Rightarrow> bool"
  kDies :: "byte list \<Rightarrow> bool"
  kLive :: layers

record kill_result =
  krNames :: "byte list list"
  krLayers :: "byte list list"
  krActions :: "kill_action list"
  krLive :: layers

definition record_killed :: "kill_world \<Rightarrow> path \<Rightarrow> kill_action list" where
  "record_killed W d = (if kOpens W d then [RecordKilled d] else [])"

definition kill_one :: "byte list \<Rightarrow> kill_world \<Rightarrow> byte list \<Rightarrow> registered \<Rightarrow> kill_result" where
  "kill_one socket W name term =
     (let (ks, live) = killLayers maxLayerDepth (kHasDir W) (kDies W) (kLive W) socket name
      in \<lparr>krNames = [name], krLayers = ks,
          krActions = (if tAlive term \<and> tPaneID term \<noteq> [] then [KillWindow (tPaneID term)] else []) @ record_killed W (tDir term),
          krLive = live\<rparr>)"

definition kill_pane :: "byte list \<Rightarrow> kill_world \<Rightarrow> kill_result \<Rightarrow> pane_info \<Rightarrow> kill_result" where
  "kill_pane socket W R p =
     (let name = InfoName p; valid = ValidName name;
          (ks, live) = (if valid then killLayers maxLayerDepth (kHasDir W) (kDies W) (krLive R) socket name else ([], krLive R));
          d = (case kResolve W name of Inl _ \<Rightarrow> kDir W name | Inr t \<Rightarrow> tDir t)
      in R\<lparr>krNames := krNames R @ [name], krLayers := krLayers R @ ks,
           krActions := krActions R @ [KillWindow (PaneID p)] @ (if valid then record_killed W d else []),
           krLive := live\<rparr>)"

definition killAll :: "byte list \<Rightarrow> kill_world \<Rightarrow> reject + kill_result" where
  "killAll socket W =
     andThen (case managedPanes (kPanes W) of Inl _ \<Rightarrow> Inl MuxFailed | Inr ps \<Rightarrow> Inr ps) (\<lambda>panes.
       let R = foldl (kill_pane socket W) \<lparr>krNames = [], krLayers = [], krActions = [], krLive = kLive W\<rparr> panes
       in Inr (R\<lparr>krNames := sort (krNames R)\<rparr>))"

definition cmdKill :: "byte list \<Rightarrow> kill_world \<Rightarrow> byte list list \<Rightarrow> reject + kill_result" where
  "cmdKill socket W args =
     andThen (kill_request socket args) (\<lambda>target.
       case target of KillAll \<Rightarrow> killAll socket W
       | KillOne name \<Rightarrow> andThen (found (kResolve W name)) (\<lambda>term. Inr (kill_one socket W name term)))"

section \<open>\<open>ls\<close>\<close>

record ls_row =
  rowName :: "byte list"
  rowStatus :: Status
  rowMode :: "Mode option"
  rowCmd :: "byte list"
  rowLock :: int
  rowNotes :: int
  rowChild :: "byte list"

text \<open>\<open>lockHolderPID\<close>: whether the lock file can be opened, whether the probe gets the lock, and the recorded holder.\<close>

definition lockHolderPID :: "bool \<Rightarrow> bool \<Rightarrow> int option \<Rightarrow> int" where
  "lockHolderPID opened free holder =
     (if \<not> opened then 0 else if free then 0 else case holder of Some pid \<Rightarrow> pid | None \<Rightarrow> - 1)"

record ls_look =
  llLook :: look
  llPending :: "event list option"
  llNotes :: "event list option"
  llLock :: "bool \<times> bool \<times> int option"

definition ls_row_of :: "extra_re \<Rightarrow> byte list \<Rightarrow> (byte list \<Rightarrow> bool) \<Rightarrow> layers \<Rightarrow> registered \<Rightarrow> ls_look \<Rightarrow> ls_row" where
  "ls_row_of X socket hasDir live t W =
     (let L = llLook W; st = deriveTerminalStatus L (tAlive t) (tMode t) (metaShell (tMeta t) = []);
          (st', _) = Refine X (lRaw L) (lSince L) st
      in \<lparr>rowName = tName t, rowStatus = st', rowMode = tMode t,
          rowCmd = (if st' = StatusRunning \<or> st' = StatusAwaitingInput
             then (case llPending W of None \<Rightarrow> [] | Some es \<Rightarrow> (case PendingCmd es of None \<Rightarrow> [] | Some p \<Rightarrow> EvText p)) else []),
          rowLock = (case llLock W of (a, b, c) \<Rightarrow> lockHolderPID a b c),
          rowNotes = int (length (unseen_now (llNotes W))),
          rowChild = liveChildLayer hasDir live socket (tName t)\<rparr>)"

definition ls_next :: "ls_row list \<Rightarrow> byte list list" where
  "ls_next rs =
     (case find (\<lambda>r. rowChild r \<noteq> []) rs of None \<Rightarrow> []
      | Some r \<Rightarrow> [bs ''pairmux --socket '' @ rowChild r @ bs '' ls   # the terminals '' @ rowName r @ bs '' is driving''])"

definition cmdLs :: "extra_re \<Rightarrow> byte list \<Rightarrow> (byte list \<Rightarrow> bool) \<Rightarrow> layers \<Rightarrow> (resolve_error + registered list) \<Rightarrow> (byte list \<Rightarrow> ls_look)
    \<Rightarrow> byte list list \<Rightarrow> reject + ls_row list \<times> byte list list" where
  "cmdLs X socket hasDir live listed looks args =
     andThen (parsed no_spec args) (\<lambda>_.
       if \<not> ValidSocketName socket then Inl SocketRejected
       else case listed of Inl _ \<Rightarrow> Inl MuxFailed
         | Inr ts \<Rightarrow>
             if ts = [] then Inr ([], [bs ''pairmux new''])
             else let rs = map (\<lambda>t. ls_row_of X socket hasDir live t (looks (tName t))) ts in Inr (rs, ls_next rs))"

end
