(* ===== verification/Json.thy ===== *)
theory Json
  imports Text
begin

text \<open>
  What the program uses of \<open>encoding/json\<close>: decoding one value. A number is kept as its literal (\<open>UseNumber\<close>,
  or the text a \<open>RawMessage\<close> holds), an object as the list of its members, of which the last one of a name
  counts. \<open>json_decode\<close> is \<open>None\<close> where \<open>json.Valid\<close> is false. Its fuel always suffices (\<open>jvalue_fuel\<close>).
\<close>

datatype json = JNull | JBool bool | JNum "byte list" | JStr "byte list" | JArr "json list" | JObj "(byte list \<times> json) list"

abbreviation quote :: byte where "quote \<equiv> 0x22"
abbreviation backslash :: byte where "backslash \<equiv> 0x5c"

definition json_space :: "byte \<Rightarrow> bool" where
  "json_space b \<longleftrightarrow> b = 0x20 \<or> b = 0x09 \<or> b = 0x0a \<or> b = 0x0d"

abbreviation skip_space :: "byte list \<Rightarrow> byte list" where
  "skip_space \<equiv> dropWhile json_space"

section \<open>Strings\<close>

definition hex_value :: "byte \<Rightarrow> int option" where
  "hex_value b =
     (if is_digit b then Some (uint b - 48)
      else if bc CHR ''a'' \<le> b \<and> b \<le> bc CHR ''f'' then Some (uint b - 87)
      else if bc CHR ''A'' \<le> b \<and> b \<le> bc CHR ''F'' then Some (uint b - 55)
      else None)"

text \<open>Four hexadecimal digits at the start.\<close>

definition hex4 :: "byte list \<Rightarrow> int option" where
  "hex4 s =
     (if length s < 4 \<or> list_ex (\<lambda>b. hex_value b = None) (take 4 s) then None
      else Some (foldl (\<lambda>v b. v * 16 + the (hex_value b)) 0 (take 4 s)))"

definition json_escape :: "byte \<Rightarrow> byte option" where
  "json_escape c =
     (if c = quote \<or> c = backslash \<or> c = bc CHR ''/'' then Some c
      else map_of (zip (bs ''bfnrt'') [0x08, 0x0c, 0x0a, 0x0d, 0x09]) c)"

text \<open>The text between the quotes, and what follows.\<close>

fun string_body :: "byte list \<Rightarrow> (byte list \<times> byte list) option" where
  "string_body [] = None"
| "string_body (b # r) =
     (if b = quote then Some ([], r)
      else if b < 0x20 then None
      else if b = backslash then
        (case r of [] \<Rightarrow> None
         | c # r' \<Rightarrow>
             if json_escape c = None \<and> (c \<noteq> bc CHR ''u'' \<or> hex4 r' = None) then None
             else map_option (\<lambda>(body, t). (b # c # body, t)) (string_body r'))
      else map_option (\<lambda>(body, t). (b # body, t)) (string_body r))"

text \<open>\<open>utf16.DecodeRune\<close>.\<close>

definition utf16_pair :: "int \<Rightarrow> int \<Rightarrow> int option" where
  "utf16_pair hi lo =
     (if 0xD800 \<le> hi \<and> hi < 0xDC00 \<and> 0xDC00 \<le> lo \<and> lo < 0xE000
      then Some ((hi - 0xD800) * 1024 + (lo - 0xDC00) + 0x10000) else None)"

definition next_u :: "byte list \<Rightarrow> int option" where
  "next_u s = (case s of b # c # r \<Rightarrow> if b = backslash \<and> c = bc CHR ''u'' then hex4 r else None | _ \<Rightarrow> None)"

text \<open>The rune a \<open>\\u\<close> escape stands for, and how many bytes after its four digits belong to it.\<close>

definition unicode_escape :: "byte list \<Rightarrow> rune \<times> nat" where
  "unicode_escape r =
     (case hex4 r of None \<Rightarrow> (rune_error, 0)
      | Some u \<Rightarrow>
          if \<not> surrogate u then (u, 0)
          else (case next_u (drop 4 r) of None \<Rightarrow> (rune_error, 0)
             | Some v \<Rightarrow> (case utf16_pair u v of None \<Rightarrow> (rune_error, 0) | Some w \<Rightarrow> (w, 6))))"

function unquote :: "byte list \<Rightarrow> byte list" where
  "unquote [] = []"
| "unquote (b # r) =
     (if b = backslash then
        (case r of [] \<Rightarrow> []
         | c # r' \<Rightarrow>
             if c = bc CHR ''u'' then (let (u, n) = unicode_escape r' in encode_rune u @ unquote (drop (4 + n) r'))
             else (case json_escape c of Some e \<Rightarrow> e | None \<Rightarrow> c) # unquote r')
      else if b < 0x80 then b # unquote r
      else (let (u, n) = decode_rune (b # r) in encode_rune u @ unquote (drop (n - 1) r)))"
  by pat_completeness auto
termination by (relation "measure length") auto

definition jstring :: "byte list \<Rightarrow> (byte list \<times> byte list) option" where
  "jstring s =
     (case s of b # r \<Rightarrow> if b = quote then map_option (\<lambda>(body, t). (unquote body, t)) (string_body r) else None | [] \<Rightarrow> None)"

section \<open>Numbers\<close>

text \<open>An optional part of a literal, begun by \<open>lead\<close>, with at least one digit.\<close>

definition digits_of :: "byte list \<Rightarrow> (byte list \<times> byte list) option" where
  "digits_of s = (let ds = takeWhile is_digit s in if ds = [] then None else Some (ds, dropWhile is_digit s))"

definition after :: "byte list \<Rightarrow> (byte list \<times> byte list) option \<Rightarrow> (byte list \<times> byte list) option" where
  "after l r = map_option (\<lambda>(t, s). (l @ t, s)) r"

definition int_part :: "byte list \<Rightarrow> (byte list \<times> byte list) option" where
  "int_part s = (case s of b # r \<Rightarrow> if b = bc CHR ''0'' then Some ([b], r) else digits_of s | [] \<Rightarrow> None)"

definition frac_part :: "byte list \<Rightarrow> (byte list \<times> byte list) option" where
  "frac_part s = (case s of b # r \<Rightarrow> if b = bc CHR ''.'' then after [b] (digits_of r) else Some ([], s) | [] \<Rightarrow> Some ([], s))"

definition exp_part :: "byte list \<Rightarrow> (byte list \<times> byte list) option" where
  "exp_part s =
     (case s of
        b # r \<Rightarrow>
          if b = bc CHR ''e'' \<or> b = bc CHR ''E'' then
            after [b] (case r of c # r' \<Rightarrow> if c = bc CHR ''+'' \<or> c = bc CHR ''-'' then after [c] (digits_of r') else digits_of r
                       | [] \<Rightarrow> None)
          else Some ([], s)
      | [] \<Rightarrow> Some ([], s))"

definition jnumber :: "byte list \<Rightarrow> (byte list \<times> byte list) option" where
  "jnumber s =
     (let (sign, r) = (case s of b # r \<Rightarrow> if b = bc CHR ''-'' then ([b], r) else ([], s) | [] \<Rightarrow> ([], s))
      in after sign (case int_part r of None \<Rightarrow> None
           | Some (i, r1) \<Rightarrow> after i (case frac_part r1 of None \<Rightarrow> None | Some (f, r2) \<Rightarrow> after f (exp_part r2))))"

section \<open>Values\<close>

definition jword :: "string \<Rightarrow> json \<Rightarrow> byte list \<Rightarrow> (json \<times> byte list) option" where
  "jword w j s = (if take (length w) s = bs w then Some (j, drop (length w) s) else None)"

definition jatom :: "byte list \<Rightarrow> (json \<times> byte list) option" where
  "jatom s =
     (case s of [] \<Rightarrow> None
      | b # r \<Rightarrow>
          if b = quote then map_option (\<lambda>(t, r'). (JStr t, r')) (jstring s)
          else if b = bc CHR ''n'' then jword ''null'' JNull s
          else if b = bc CHR ''t'' then jword ''true'' (JBool True) s
          else if b = bc CHR ''f'' then jword ''false'' (JBool False) s
          else map_option (\<lambda>(t, r'). (JNum t, r')) (jnumber s))"

text \<open>\<open>d\<close> is how much deeper values may nest.\<close>

fun jvalue :: "nat \<Rightarrow> nat \<Rightarrow> byte list \<Rightarrow> (json \<times> byte list) option"
  and jelements :: "nat \<Rightarrow> nat \<Rightarrow> byte list \<Rightarrow> (json list \<times> byte list) option"
  and jmembers :: "nat \<Rightarrow> nat \<Rightarrow> byte list \<Rightarrow> ((byte list \<times> json) list \<times> byte list) option" where
  "jvalue 0 d s = None"
| "jvalue (Suc f) d s =
     (case skip_space s of [] \<Rightarrow> None
      | b # r \<Rightarrow>
          if b = bc CHR ''['' then
            (if d = 0 then None
             else case skip_space r of [] \<Rightarrow> None
                | c # t \<Rightarrow> if c = bc CHR '']'' then Some (JArr [], t)
                           else map_option (\<lambda>(js, t). (JArr js, t)) (jelements f (d - 1) (c # t)))
          else if b = bc CHR ''{'' then
            (if d = 0 then None
             else case skip_space r of [] \<Rightarrow> None
                | c # t \<Rightarrow> if c = bc CHR ''}'' then Some (JObj [], t)
                           else map_option (\<lambda>(kvs, t). (JObj kvs, t)) (jmembers f (d - 1) (c # t)))
          else jatom (b # r))"
| "jelements 0 d s = None"
| "jelements (Suc f) d s =
     (case jvalue f d s of None \<Rightarrow> None
      | Some (v, r) \<Rightarrow>
          (case skip_space r of [] \<Rightarrow> None
           | c # t \<Rightarrow>
               if c = bc CHR '']'' then Some ([v], t)
               else if c = bc CHR '','' then map_option (\<lambda>(js, t). (v # js, t)) (jelements f d t)
               else None))"
| "jmembers 0 d s = None"
| "jmembers (Suc f) d s =
     (case jstring (skip_space s) of None \<Rightarrow> None
      | Some (k, r) \<Rightarrow>
          (case skip_space r of [] \<Rightarrow> None
           | c # t \<Rightarrow>
               if c \<noteq> bc CHR '':'' then None
               else case jvalue f d t of None \<Rightarrow> None
                 | Some (v, r') \<Rightarrow>
                     (case skip_space r' of [] \<Rightarrow> None
                      | e # t' \<Rightarrow>
                          if e = bc CHR ''}'' then Some ([(k, v)], t')
                          else if e = bc CHR '','' then map_option (\<lambda>(kvs, t). ((k, v) # kvs, t)) (jmembers f d t')
                          else None)))"

definition maxNestingDepth :: nat where "maxNestingDepth = 10000"

definition json_decode :: "byte list \<Rightarrow> json option" where
  "json_decode s =
     (case jvalue (2 * length s + 1) maxNestingDepth s of
        Some (j, r) \<Rightarrow> if skip_space r = [] then Some j else None
      | None \<Rightarrow> None)"

section \<open>The fuel suffices\<close>

lemma dropWhile_length: "length (dropWhile P xs) \<le> length xs"
  by (induction xs) auto

lemma skip_space_length: "skip_space s = b # r \<Longrightarrow> length r < length s"
  using dropWhile_length [of json_space s] by simp

lemma string_body_length: "string_body s = Some (b, r) \<Longrightarrow> length r < length s"
  by (induction s arbitrary: b r rule: string_body.induct) (fastforce split: if_splits list.splits)+

lemma jstring_length: "jstring s = Some (t, r) \<Longrightarrow> length r < length s"
  by (auto simp: jstring_def split: list.splits if_splits dest: string_body_length)

lemma digits_of_length: "digits_of s = Some (t, r) \<Longrightarrow> length r < length s"
proof -
  assume "digits_of s = Some (t, r)"
  then have "takeWhile is_digit s \<noteq> []" "r = dropWhile is_digit s" by (auto simp: digits_of_def Let_def split: if_splits)
  then show ?thesis using arg_cong [OF takeWhile_dropWhile_id, of length is_digit s] by (cases "takeWhile is_digit s") auto
qed

lemma after_Some: "after l x = Some (t, r) \<longleftrightarrow> (\<exists>t'. x = Some (t', r) \<and> t = l @ t')"
  by (auto simp: after_def)

lemma int_part_length: "int_part s = Some (t, r) \<Longrightarrow> length r < length s"
  by (auto simp: int_part_def split: list.splits if_splits dest: digits_of_length)

lemma frac_part_length: "frac_part s = Some (t, r) \<Longrightarrow> length r \<le> length s"
  by (auto simp: frac_part_def after_Some split: list.splits if_splits dest: digits_of_length)

lemma exp_part_length: "exp_part s = Some (t, r) \<Longrightarrow> length r \<le> length s"
  by (auto simp: exp_part_def after_Some split: list.splits if_splits dest!: digits_of_length)

lemma jnumber_length: "jnumber s = Some (t, r) \<Longrightarrow> length r < length s"
  by (fastforce simp: jnumber_def after_Some split: list.splits if_splits option.splits
      dest: int_part_length frac_part_length exp_part_length)

lemma jatom_length: "jatom s = Some (j, r) \<Longrightarrow> length r < length s"
  by (auto simp: jatom_def jword_def split: list.splits if_splits dest: jstring_length jnumber_length)

lemma value_lengths:
  "(\<forall>d s v r. jvalue f d s = Some (v, r) \<longrightarrow> length r < length s)
   \<and> (\<forall>d s v r. jelements f d s = Some (v, r) \<longrightarrow> length r < length s)
   \<and> (\<forall>d s v r. jmembers f d s = Some (v, r) \<longrightarrow> length r < length s)"
proof (induction f)
  case 0
  then show ?case by simp
next
  case (Suc f)
  have iv: "jvalue f d s = Some (v, r) \<Longrightarrow> length r < length s"
    and ie: "jelements f d s = Some (vs, r) \<Longrightarrow> length r < length s"
    and im: "jmembers f d s = Some (kvs, r) \<Longrightarrow> length r < length s" for d s v vs kvs r
    using Suc.IH by blast+
  have "length r < length s" if "jvalue (Suc f) d s = Some (v, r)" for d s v r
    using that
    by (auto split: list.splits if_splits dest!: ie im jatom_length skip_space_length)
  moreover have "length r < length s" if "jelements (Suc f) d s = Some (v, r)" for d s v r
    using that by (auto split: list.splits if_splits option.splits dest!: iv ie skip_space_length)
  moreover have "length r < length s" if "jmembers (Suc f) d s = Some (v, r)" for d s v r
    using that dropWhile_length [of json_space s]
    by (auto split: list.splits if_splits option.splits dest!: iv im jstring_length skip_space_length)
  ultimately show ?case by blast
qed

lemma jvalue_length: "jvalue f d s = Some (v, r) \<Longrightarrow> length r < length s"
  using value_lengths by blast

text \<open>More fuel than two per byte changes nothing.\<close>

lemma value_fuel:
  "(\<forall>g d s. 2 * length s < f \<longrightarrow> f \<le> g \<longrightarrow> jvalue g d s = jvalue f d s)
   \<and> (\<forall>g d s. 2 * length s + 1 < f \<longrightarrow> f \<le> g \<longrightarrow> jelements g d s = jelements f d s)
   \<and> (\<forall>g d s. 2 * length s + 1 < f \<longrightarrow> f \<le> g \<longrightarrow> jmembers g d s = jmembers f d s)"
proof (induction f)
  case 0
  then show ?case by simp
next
  case (Suc f)
  have iv: "2 * length s < f \<Longrightarrow> f \<le> g \<Longrightarrow> jvalue g d s = jvalue f d s"
    and ie: "2 * length s + 1 < f \<Longrightarrow> f \<le> g \<Longrightarrow> jelements g d s = jelements f d s"
    and im: "2 * length s + 1 < f \<Longrightarrow> f \<le> g \<Longrightarrow> jmembers g d s = jmembers f d s" for g d s
    using Suc.IH by blast+
  have "jvalue g d s = jvalue (Suc f) d s" if "2 * length s < Suc f" and g: "Suc f \<le> g" for g d s
  proof -
    obtain g' where g': "g = Suc g'" "f \<le> g'" using g by (cases g) auto
    show ?thesis
    proof (cases "skip_space s")
      case (Cons b q)
      have m: "2 * length (c # t) + 1 < f" if "skip_space q = c # t" for c t
        using skip_space_length [OF Cons] skip_space_length [OF that] \<open>2 * length s < Suc f\<close> by simp
      show ?thesis
      proof (cases "skip_space q")
        case (Cons c t)
        have "jelements g' (d - 1) (c # t) = jelements f (d - 1) (c # t)" "jmembers g' (d - 1) (c # t) = jmembers f (d - 1) (c # t)"
          using m [OF Cons] g' by (auto intro!: ie im)
        then show ?thesis using \<open>skip_space s = b # q\<close> Cons by (auto simp: g'(1))
      qed (use Cons g' in \<open>simp del: dropWhile_eq_Nil_conv\<close>)
    qed (simp add: g' del: dropWhile_eq_Nil_conv)
  qed
  moreover have "jelements g d s = jelements (Suc f) d s" if l: "2 * length s + 1 < Suc f" and g: "Suc f \<le> g" for g d s
  proof -
    obtain g' where g': "g = Suc g'" "f \<le> g'" using g by (cases g) auto
    have v: "jvalue g' d s = jvalue f d s" using l g' by (intro iv) auto
    have "jelements g' d t = jelements f d t" if "jvalue f d s = Some (x, r)" "skip_space r = c # t" for x r c t
      using jvalue_length [OF that(1)] skip_space_length [OF that(2)] l g' by (intro ie) auto
    then show ?thesis using g' v by (auto simp del: dropWhile_eq_Nil_conv split: list.split option.split)
  qed
  moreover have "jmembers g d s = jmembers (Suc f) d s" if l: "2 * length s + 1 < Suc f" and g: "Suc f \<le> g" for g d s
  proof -
    obtain g' where g': "g = Suc g'" "f \<le> g'" using g by (cases g) auto
    have k: "2 * length t + 1 < 2 * length s" if "jstring (skip_space s) = Some (x, r)" "skip_space r = c # t" for x r c t
      using jstring_length [OF that(1)] dropWhile_length [of json_space s] skip_space_length [OF that(2)] by simp
    have v: "jvalue g' d t = jvalue f d t" if "jstring (skip_space s) = Some (x, r)" "skip_space r = c # t" for x r c t
      using k [OF that] l g' by (intro iv) auto
    have "jmembers g' d t' = jmembers f d t'"
      if "jstring (skip_space s) = Some (x, r)" "skip_space r = c # t" "jvalue f d t = Some (y, r')" "skip_space r' = c' # t'" for x r c t y r' c' t'
      using k [OF that(1,2)] jvalue_length [OF that(3)] skip_space_length [OF that(4)] l g' by (intro im) auto
    then show ?thesis using g' v by (auto simp del: dropWhile_eq_Nil_conv split: list.split option.split)
  qed
  ultimately show ?case by blast
qed

lemma jvalue_fuel: "2 * length s < f \<Longrightarrow> jvalue f d s = jvalue (2 * length s + 1) d s"
  using value_fuel [of "2 * length s + 1"] by simp

end
