(* ===== verification/Mcp_Tools.thy ===== *)
theory Mcp_Tools
  imports Views Json
begin

text \<open>
  \<open>internal/mcpserver/tools.go\<close>: the argument checks of the MCP tools and the command lines they build, and the
  end of the way: how the process started for a tool call reads them (\<open>Main\<close>, \<open>dispatch\<close>). The descriptions and schemas of the tools are text for the client.
\<close>

section \<open>JSON values\<close>

type_synonym object = "byte list \<Rightarrow> json option"

definition members :: "(byte list \<times> json) list \<Rightarrow> object" where
  "members kvs = map_of (rev kvs)"

definition member_names :: "(byte list \<times> json) list \<Rightarrow> byte list list" where
  "member_names kvs = sort (remdups (map fst kvs))"

section \<open>Arguments\<close>

text \<open>\<open>None\<close> of an argument: absent. An error names its argument.\<close>

datatype arg_error =
    UnknownArgument "byte list"
  | MissingArgument "byte list"
  | MustBeString "byte list"
  | MustBeInteger "byte list"
  | TooSmall "byte list" int
  | MustBeBoolean "byte list"
  | MustBeStrings "byte list"
  | ScreenAndTail
  | NoKeys
  | NothingToSend
  | ManySelectors
  | OneOfTerminalAll

type_synonym arguments = "(byte list \<times> json) list"

definition allow :: "string list \<Rightarrow> arguments \<Rightarrow> arg_error option" where
  "allow names a =
     (case filter (\<lambda>n. n \<notin> set (map bs names)) (member_names a) of [] \<Rightarrow> None | n # _ \<Rightarrow> Some (UnknownArgument n))"

definition optionalString :: "arguments \<Rightarrow> string \<Rightarrow> arg_error + byte list option" where
  "optionalString a name =
     (case members a (bs name) of None \<Rightarrow> Inr None
      | Some (JStr s) \<Rightarrow> Inr (Some s)
      | Some _ \<Rightarrow> Inl (MustBeString (bs name)))"

definition requiredString :: "arguments \<Rightarrow> string \<Rightarrow> arg_error + byte list" where
  "requiredString a name =
     (case optionalString a name of Inl e \<Rightarrow> Inl e | Inr None \<Rightarrow> Inl (MissingArgument (bs name)) | Inr (Some s) \<Rightarrow> Inr s)"

definition optionalInt :: "arguments \<Rightarrow> string \<Rightarrow> int \<Rightarrow> arg_error + int option" where
  "optionalInt a name minimum =
     (case members a (bs name) of None \<Rightarrow> Inr None
      | Some (JNum l) \<Rightarrow>
          (case atoi l of
             None \<Rightarrow> Inl (MustBeInteger (bs name))
           | Some v \<Rightarrow> if v < minimum then Inl (TooSmall (bs name) minimum) else Inr (Some v))
      | Some _ \<Rightarrow> Inl (MustBeInteger (bs name)))"

definition optionalBool :: "arguments \<Rightarrow> string \<Rightarrow> arg_error + bool option" where
  "optionalBool a name =
     (case members a (bs name) of None \<Rightarrow> Inr None
      | Some (JBool b) \<Rightarrow> Inr (Some b)
      | Some _ \<Rightarrow> Inl (MustBeBoolean (bs name)))"

fun strings_of :: "json list \<Rightarrow> byte list list option" where
  "strings_of [] = Some []"
| "strings_of (JStr s # js) = map_option ((#) s) (strings_of js)"
| "strings_of (_ # js) = None"

definition optionalStrings :: "arguments \<Rightarrow> string \<Rightarrow> arg_error + byte list list option" where
  "optionalStrings a name =
     (case members a (bs name) of None \<Rightarrow> Inr None
      | Some (JArr js) \<Rightarrow> (case strings_of js of None \<Rightarrow> Inl (MustBeStrings (bs name)) | Some ss \<Rightarrow> Inr (Some ss))
      | Some _ \<Rightarrow> Inl (MustBeStrings (bs name)))"

section \<open>Command lines\<close>

text \<open>Steps that can fail, in order; and what an option adds to a command line.\<close>

definition bindE :: "'e + 'a \<Rightarrow> ('a \<Rightarrow> 'e + 'b) \<Rightarrow> 'e + 'b" where
  "bindE r f = (case r of Inl e \<Rightarrow> Inl e | Inr x \<Rightarrow> f x)"

definition checked :: "'e option \<Rightarrow> 'e + 'a \<Rightarrow> 'e + 'a" where
  "checked e r = (case e of Some err \<Rightarrow> Inl err | None \<Rightarrow> r)"

lemma bindE_simps [simp]: "bindE (Inl e) f = Inl e" "bindE (Inr x) f = f x"
  by (simp_all add: bindE_def)

lemma checked_simps [simp]: "checked None r = r" "checked (Some e) r = Inl e"
  by (simp_all add: checked_def)

definition flag_text :: "string \<Rightarrow> byte list option \<Rightarrow> byte list list" where
  "flag_text flag v = (case v of None \<Rightarrow> [] | Some s \<Rightarrow> [bs flag, s])"

definition flag_int :: "string \<Rightarrow> int option \<Rightarrow> byte list list" where
  "flag_int flag v = flag_text flag (map_option itoa v)"

definition flag_set :: "string \<Rightarrow> bool option \<Rightarrow> byte list list" where
  "flag_set flag v = (if v = Some True then [bs flag] else [])"

definition buildNew :: "arguments \<Rightarrow> arg_error + byte list list" where
  "buildNew a = checked (allow [''name'', ''cwd'', ''command''] a)
     (bindE (optionalString a ''name'') (\<lambda>name. bindE (optionalString a ''cwd'') (\<lambda>cwd.
      bindE (optionalString a ''command'') (\<lambda>cmd.
        Inr ([bs ''new''] @ flag_text ''--name'' name @ flag_text ''--cwd'' cwd @ flag_text ''--cmd'' cmd)))))"

definition buildRun :: "arguments \<Rightarrow> arg_error + byte list list" where
  "buildRun a = checked (allow [''terminal'', ''command'', ''timeout'', ''head'', ''tail''] a)
     (bindE (requiredString a ''terminal'') (\<lambda>terminal. bindE (requiredString a ''command'') (\<lambda>cmd.
      bindE (optionalString a ''timeout'') (\<lambda>timeout. bindE (optionalInt a ''head'' 0) (\<lambda>hd'. bindE (optionalInt a ''tail'' 0) (\<lambda>tl'.
        Inr ([bs ''run'', terminal] @ flag_text ''--timeout'' timeout @ flag_int ''--head'' hd' @ flag_int ''--tail'' tl'
          @ [bs ''--'', cmd])))))))"

definition buildPeek :: "arguments \<Rightarrow> arg_error + byte list list" where
  "buildPeek a = checked (allow [''terminal'', ''screen'', ''tail''] a)
     (bindE (requiredString a ''terminal'') (\<lambda>terminal. bindE (optionalBool a ''screen'') (\<lambda>screen.
      bindE (optionalInt a ''tail'' 1) (\<lambda>tl'.
        if screen = Some True \<and> tl' \<noteq> None then Inl ScreenAndTail
        else Inr ([bs ''peek'', terminal] @ flag_set ''--screen'' screen @ flag_int ''--tail'' tl')))))"

definition buildWait :: "arguments \<Rightarrow> arg_error + byte list list" where
  "buildWait a = checked (allow [''terminal'', ''idle_ms'', ''pattern'', ''note'', ''human'', ''done'', ''notify'', ''timeout''] a)
     (bindE (requiredString a ''terminal'') (\<lambda>terminal. bindE (optionalInt a ''idle_ms'' 1) (\<lambda>idle.
      bindE (optionalString a ''pattern'') (\<lambda>pattern. bindE (optionalBool a ''note'') (\<lambda>nt.
      bindE (optionalBool a ''human'') (\<lambda>human. bindE (optionalBool a ''done'') (\<lambda>dn.
      bindE (optionalBool a ''notify'') (\<lambda>notify. bindE (optionalString a ''timeout'') (\<lambda>timeout.
        Inr ([bs ''wait'', terminal] @ flag_int ''--idle'' idle @ flag_text ''--pattern'' pattern
          @ flag_set ''--note'' nt @ flag_set ''--human'' human @ flag_set ''--done'' dn @ flag_set ''--notify'' notify
          @ flag_text ''--timeout'' timeout))))))))))"

definition buildSend :: "arguments \<Rightarrow> arg_error + byte list list" where
  "buildSend a = checked (allow [''terminal'', ''text'', ''keys'', ''enter''] a)
     (bindE (requiredString a ''terminal'') (\<lambda>terminal. bindE (optionalString a ''text'') (\<lambda>txt'.
      bindE (optionalStrings a ''keys'') (\<lambda>keys.
        if keys = Some [] then Inl NoKeys
        else bindE (optionalBool a ''enter'') (\<lambda>enter.
          if txt' = None \<and> keys = None \<and> enter \<noteq> Some True then Inl NothingToSend
          else Inr ([bs ''send'', terminal] @ flag_text ''--text'' txt'
            @ concat (map (\<lambda>k. [bs ''--key'', k]) (case keys of None \<Rightarrow> [] | Some ks \<Rightarrow> ks)) @ flag_set ''--enter'' enter))))))"

definition buildLog :: "arguments \<Rightarrow> arg_error + byte list list" where
  "buildLog a = checked (allow [''terminal'', ''command_id'', ''grep'', ''range''] a)
     (bindE (requiredString a ''terminal'') (\<lambda>terminal. bindE (optionalInt a ''command_id'' 1) (\<lambda>cid.
      bindE (optionalString a ''grep'') (\<lambda>grep. bindE (optionalString a ''range'') (\<lambda>range'.
        if length (filter id [cid \<noteq> None, grep \<noteq> None, range' \<noteq> None]) > 1 then Inl ManySelectors
        else Inr ([bs ''log'', terminal] @ flag_int ''--cmd'' cid @ flag_text ''--grep'' grep @ flag_text ''--range'' range'))))))"

definition buildKill :: "arguments \<Rightarrow> arg_error + byte list list" where
  "buildKill a = checked (allow [''terminal'', ''all''] a)
     (bindE (optionalString a ''terminal'') (\<lambda>terminal. bindE (optionalBool a ''all'') (\<lambda>all.
        if (all = Some True) = (terminal \<noteq> None) then Inl OneOfTerminalAll
        else Inr (case terminal of None \<Rightarrow> [bs ''kill'', bs ''--all''] | Some t \<Rightarrow> [bs ''kill'', t]))))"

definition buildNote :: "arguments \<Rightarrow> arg_error + byte list list" where
  "buildNote a = checked (allow [''terminal'', ''text''] a)
     (bindE (requiredString a ''terminal'') (\<lambda>terminal. bindE (requiredString a ''text'') (\<lambda>txt'.
        Inr [bs ''note'', terminal, bs ''--'', txt'])))"

definition buildNoArgs :: "string \<Rightarrow> arguments \<Rightarrow> arg_error + byte list list" where
  "buildNoArgs cmd a = checked (allow [] a) (Inr [bs cmd])"

definition tools :: "(byte list \<times> (arguments \<Rightarrow> arg_error + byte list list)) list" where
  "tools =
     [(bs ''pairmux_new'', buildNew), (bs ''pairmux_run'', buildRun), (bs ''pairmux_peek'', buildPeek),
      (bs ''pairmux_wait'', buildWait), (bs ''pairmux_send'', buildSend), (bs ''pairmux_log'', buildLog),
      (bs ''pairmux_ls'', buildNoArgs ''ls''), (bs ''pairmux_kill'', buildKill), (bs ''pairmux_note'', buildNote),
      (bs ''pairmux_doctor'', buildNoArgs ''doctor'')]"

text \<open>The process that runs a tool call: global flags first, and \<open>--\<close> so that nothing after it is one.\<close>

definition tool_argv :: "byte list \<Rightarrow> byte list list \<Rightarrow> byte list list" where
  "tool_argv socket command = [bs ''--json'', bs ''--socket'', socket, bs ''--''] @ command"

text \<open>\<open>Main\<close> and \<open>dispatch\<close> up to the choice of the subcommand.\<close>

definition dispatch_rest :: "byte list list \<Rightarrow> byte list list" where
  "dispatch_rest rest = (case rest of r # rs \<Rightarrow> if r = bs ''--'' then rs else rest | [] \<Rightarrow> [])"

section \<open>What a tool call becomes\<close>

text \<open>Nothing a client puts in an argument is read as a global flag: the socket is the server's own.\<close>

lemma tool_argv_globals:
  "stripGlobals (tool_argv socket command) False env = (bs ''--'' # command, True, socket)"
  by (simp add: tool_argv_def splitFlag_def)

lemma dispatch_tool: "dispatch_rest (bs ''--'' # command) = command"
  by (simp add: dispatch_rest_def)

lemma bindE_Inr: "bindE r f = Inr y \<longleftrightarrow> (\<exists>x. r = Inr x \<and> f x = Inr y)"
  by (cases r) simp_all

lemma checked_Inr: "checked e r = Inr y \<longleftrightarrow> e = None \<and> r = Inr y"
  by (cases e) simp_all

lemma valid_name_plain:
  assumes "ValidName t"
  shows "t \<noteq> bs ''--''" "t ! 0 \<noteq> dash"
  using assms by (auto simp: ValidName_def name_head_def is_digit_def split: list.splits)

lemma parseRun_name:
  "ValidName t \<Longrightarrow>
   parseRun (t # as) False r = (case parseRun as False r of Inl e \<Rightarrow> Inl e | Inr (r', pos) \<Rightarrow> Inr (r', t # pos))"
  using valid_name_plain [of t] by (auto simp: Let_def split: prod.splits)

lemma parseRun_flags:
  "parseRun (flag_text ''--timeout'' v @ as) False r = parseRun as False (case v of None \<Rightarrow> r | Some s \<Rightarrow> r\<lparr>runTimeout := s\<rparr>)"
  "parseRun (flag_text ''--head'' v @ as) False r = parseRun as False (case v of None \<Rightarrow> r | Some s \<Rightarrow> r\<lparr>runHead := s\<rparr>)"
  "parseRun (flag_text ''--tail'' v @ as) False r = parseRun as False (case v of None \<Rightarrow> r | Some s \<Rightarrow> r\<lparr>runTail := s\<rparr>)"
  by (cases v; simp add: flag_text_def splitFlag_def set_run_def)+

lemma parseRun_end: "parseRun [bs ''--'', c] False r = Inr (r, [c])"
  by (simp split: prod.splits)

definition or_empty :: "byte list option \<Rightarrow> byte list" where
  "or_empty v = (case v of None \<Rightarrow> [] | Some s \<Rightarrow> s)"

lemma run_argv:
  assumes "buildRun a = Inr argv"
  shows "\<exists>t c to h l. requiredString a ''terminal'' = Inr t \<and> requiredString a ''command'' = Inr c \<and>
    optionalString a ''timeout'' = Inr to \<and> optionalInt a ''head'' 0 = Inr h \<and> optionalInt a ''tail'' 0 = Inr l \<and>
    argv = [bs ''run'', t] @ flag_text ''--timeout'' to @ flag_int ''--head'' h @ flag_int ''--tail'' l @ [bs ''--'', c]"
  using assms by (auto simp: buildRun_def bindE_Inr checked_Inr)

lemma run_argv_parsed:
  assumes "ValidName t"
  shows "parseRun ([t] @ flag_text ''--timeout'' to @ flag_int ''--head'' h @ flag_int ''--tail'' l @ [bs ''--'', c]) False
           \<lparr>runTimeout = [], runHead = [], runTail = []\<rparr>
       = Inr (\<lparr>runTimeout = or_empty to, runHead = or_empty (map_option itoa h), runTail = or_empty (map_option itoa l)\<rparr>, [t, c])"
  using assms
  by (simp add: parseRun_name parseRun_flags parseRun_end flag_int_def or_empty_def split: option.splits
      del: parseRun.simps list.map append_assoc)

text \<open>An integer argument survives being printed and parsed again.\<close>

lemma atoi_range: "atoi s = Some v \<Longrightarrow> - (2 ^ 63) \<le> v \<and> v < 2 ^ 63"
  by (auto simp: atoi_def Let_def split: if_splits)

lemma optionalInt_flag:
  assumes "optionalInt a name m = Inr v"
  shows "int_flag (or_empty (map_option itoa v)) d = Some (case v of None \<Rightarrow> d | Some n \<Rightarrow> n)"
proof (cases v)
  case None
  then show ?thesis by (simp add: or_empty_def int_flag_def)
next
  case (Some n)
  then have "- (2 ^ 63) \<le> n \<and> n < 2 ^ 63"
    using assms by (auto simp: optionalInt_def split: option.splits json.splits if_splits dest: atoi_range)
  moreover have "itoa n \<noteq> []" by (simp add: itoa_def digits_ne)
  ultimately show ?thesis by (simp add: Some or_empty_def int_flag_def atoi_itoa)
qed

lemma run_request_parsed:
  assumes "ValidSocketName socket" "ValidName t" "trim_space c \<noteq> []" "NL \<notin> set c" "CR \<notin> set c"
    and "(if or_empty to = [] then Some 60000000000 else dur (or_empty to)) = Some d"
    and "int_flag (or_empty (map_option itoa h)) 50 = Some hd'" "int_flag (or_empty (map_option itoa l)) 200 = Some tl'"
  shows "parse_run_request dur socket ([t] @ flag_text ''--timeout'' to @ flag_int ''--head'' h @ flag_int ''--tail'' l @ [bs ''--'', c])
    = Inr \<lparr>rqName = t, rqCmd = c, rqTimeout = d, rqHead = hd', rqTail = tl'\<rparr>"
  unfolding parse_run_request_def run_argv_parsed [OF assms(2)]
  using assms by (cases "or_empty to = []") (simp_all add: run_limits_def)

text \<open>
  \<open>run\<close> and \<open>note\<close> put their text after \<open>--\<close>, but the terminal of every tool stands where a flag may stand. For
  \<open>kill\<close> this makes a difference: a terminal named \<open>--all\<close> passes the check that a terminal and \<open>all\<close> exclude
  each other and kills every terminal.
\<close>

lemma kill_all_injected:
  "buildKill [(bs ''terminal'', JStr (bs ''--all''))] = Inr [bs ''kill'', bs ''--all'']"
  "kill_request (bs ''pairmux'') [bs ''--all''] = Inr KillAll"
  by code_simp+

lemma kill_valid_name:
  "ValidSocketName socket \<Longrightarrow> ValidName t \<Longrightarrow> kill_request socket [t] = Inr (KillOne t)"
  using valid_name_plain [of t] by (simp add: kill_request_def parsed_def named_def kill_spec_def no_flags_def)

end
