(* ===== verification/Mcp.thy ===== *)
theory Mcp
  imports Mcp_Tools
begin

text \<open>
  \<open>internal/mcpserver/server.go\<close> and the bounded buffers of \<open>executor.go\<close>: what the server answers to one
  message (\<open>handle_message\<close>), how a tool call's outcome becomes a response, and the concurrent loop \<open>Serve\<close> as a step
  relation: the reader, four workers, a queue of 32 jobs, cancellations and completions. The optional data of an error and what is written to the log are
  not modelled.
\<close>

section \<open>Messages and responses\<close>

datatype rpc_payload =
    ServerInfo "byte list" "byte list"
  | EmptyResult
  | ToolList "byte list list"
  | InvalidArguments arg_error
  | CaptureExceeded
  | ToolEnvelope json bool

datatype rpc_body = RpcResult rpc_payload | RpcError int "byte list"

record rpc_response =
  RespID :: json
  RespBody :: rpc_body

definition ProtocolVersion :: "byte list" where "ProtocolVersion = bs ''2025-11-25''"
definition maxConcurrentToolCalls :: nat where "maxConcurrentToolCalls = 4"
definition maxQueuedToolCalls :: nat where "maxQueuedToolCalls = 32"

definition codeParseError :: int where "codeParseError = - 32700"
definition codeInvalidRequest :: int where "codeInvalidRequest = - 32600"
definition codeMethodNotFound :: int where "codeMethodNotFound = - 32601"
definition codeInvalidParams :: int where "codeInvalidParams = - 32602"
definition codeInternalError :: int where "codeInternalError = - 32603"

text \<open>The key of a request: a number is told apart by its literal.\<close>

definition requestIDKey :: "json \<Rightarrow> byte list option" where
  "requestIDKey j = (case j of JStr s \<Rightarrow> Some (bs ''s:'' @ s) | JNum l \<Rightarrow> Some (bs ''n:'' @ l) | _ \<Rightarrow> None)"

definition validRequestID :: "json \<Rightarrow> bool" where
  "validRequestID j \<longleftrightarrow> requestIDKey j \<noteq> None"

definition responseID :: "json \<Rightarrow> json" where
  "responseID j = (if validRequestID j then j else JNull)"

definition resultResponse :: "json \<Rightarrow> rpc_payload \<Rightarrow> rpc_response" where
  "resultResponse i p = \<lparr>RespID = responseID i, RespBody = RpcResult p\<rparr>"

definition errorResponse :: "json \<Rightarrow> int \<Rightarrow> string \<Rightarrow> rpc_response" where
  "errorResponse i code msg = \<lparr>RespID = responseID i, RespBody = RpcError code (bs msg)\<rparr>"

record parsed_message =
  msgID :: json
  msgMethod :: "byte list"
  msgParams :: "arguments option"
  msgNotification :: bool

datatype parse_result = Ignored | Refused rpc_response | Parsed parsed_message

definition is_object :: "json \<Rightarrow> bool" where
  "is_object j \<longleftrightarrow> (case j of JObj _ \<Rightarrow> True | _ \<Rightarrow> False)"

definition object_of :: "json \<Rightarrow> arguments option" where
  "object_of j = (case j of JObj kvs \<Rightarrow> Some kvs | _ \<Rightarrow> None)"

text \<open>A string member that is present and not empty.\<close>

definition nonempty :: "arguments \<Rightarrow> string \<Rightarrow> byte list option" where
  "nonempty o' name = (case members o' (bs name) of Some (JStr s) \<Rightarrow> if s = [] then None else Some s | _ \<Rightarrow> None)"

definition only :: "string list \<Rightarrow> arguments \<Rightarrow> bool" where
  "only names o' \<longleftrightarrow> (\<forall>(k, v)\<in>set o'. k \<in> set (map bs names))"

definition refuse :: "bool \<Rightarrow> rpc_response \<Rightarrow> parse_result" where
  "refuse hasID r = (if hasID then Refused r else Ignored)"

definition parseObject :: "arguments \<Rightarrow> parse_result" where
  "parseObject o' =
     (let i = members o' (bs ''id''); hasID = (i \<noteq> None);
          rid = (case i of Some j \<Rightarrow> responseID j | None \<Rightarrow> JNull)
      in if \<not> only [''jsonrpc'', ''id'', ''method'', ''params''] o' then refuse hasID (errorResponse rid codeInvalidRequest ''Invalid Request'')
         else if members o' (bs ''jsonrpc'') \<noteq> Some (JStr (bs ''2.0'')) then refuse hasID (errorResponse rid codeInvalidRequest ''Invalid Request'')
         else case nonempty o' ''method'' of
           None \<Rightarrow> refuse hasID (errorResponse rid codeInvalidRequest ''Invalid Request'')
         | Some m \<Rightarrow>
             if hasID \<and> \<not> validRequestID (the i) then Refused (errorResponse JNull codeInvalidRequest ''Invalid Request'')
             else (case members o' (bs ''params'') of
                 None \<Rightarrow> Parsed \<lparr>msgID = rid, msgMethod = m, msgParams = None, msgNotification = \<not> hasID\<rparr>
               | Some p \<Rightarrow>
                   (case object_of p of
                      None \<Rightarrow> refuse hasID (errorResponse rid codeInvalidParams ''Invalid params'')
                    | Some ps \<Rightarrow> Parsed \<lparr>msgID = rid, msgMethod = m, msgParams = Some ps, msgNotification = \<not> hasID\<rparr>)))"

definition params_of :: "parsed_message \<Rightarrow> arguments" where
  "params_of m = (case msgParams m of None \<Rightarrow> [] | Some ps \<Rightarrow> ps)"

section \<open>The lifecycle\<close>

datatype lifecycle = LifecycleNew | LifecycleInitialized | LifecycleReady

definition requireImplementation :: "arguments \<Rightarrow> string \<Rightarrow> bool" where
  "requireImplementation o' name =
     (case members o' (bs name) of
        Some (JObj kvs) \<Rightarrow> nonempty kvs ''name'' \<noteq> None \<and> nonempty kvs ''version'' \<noteq> None
      | _ \<Rightarrow> False)"

definition has_object :: "arguments \<Rightarrow> string \<Rightarrow> bool" where
  "has_object o' name \<longleftrightarrow> (case members o' (bs name) of Some j \<Rightarrow> is_object j | None \<Rightarrow> False)"

definition initialize :: "byte list \<Rightarrow> lifecycle \<Rightarrow> parsed_message \<Rightarrow> lifecycle \<times> rpc_response" where
  "initialize version st m =
     (if st \<noteq> LifecycleNew then (st, errorResponse (msgID m) codeInvalidRequest ''Server is already initialized'')
      else let ps = params_of m
      in if nonempty ps ''protocolVersion'' = None \<or> \<not> has_object ps ''capabilities'' \<or> \<not> requireImplementation ps ''clientInfo''
         then (st, errorResponse (msgID m) codeInvalidParams ''Invalid initialize params'')
         else (LifecycleInitialized, resultResponse (msgID m) (ServerInfo ProtocolVersion version)))"

definition initialized :: "lifecycle \<Rightarrow> parsed_message \<Rightarrow> lifecycle \<times> rpc_response option" where
  "initialized st m =
     (if \<not> msgNotification m then (st, Some (errorResponse (msgID m) codeInvalidRequest ''notifications/initialized must be a notification''))
      else if st \<noteq> LifecycleInitialized then (st, None)
      else (LifecycleReady, None))"

definition listTools :: "parsed_message \<Rightarrow> rpc_response" where
  "listTools m =
     (if \<not> only [''cursor'', ''_meta''] (params_of m) \<or> members (params_of m) (bs ''cursor'') \<noteq> None
      then errorResponse (msgID m) codeInvalidParams ''Invalid tools/list params''
      else resultResponse (msgID m) (ToolList (map fst tools)))"

record tool_call =
  callID :: json
  callArgv :: "byte list list"

definition select_tool :: "byte list \<Rightarrow> (arguments \<Rightarrow> arg_error + byte list list) option" where
  "select_tool name = map_of tools name"

definition prepareToolCall :: "byte list \<Rightarrow> bool \<Rightarrow> parsed_message \<Rightarrow> rpc_response + tool_call" where
  "prepareToolCall socket executor m =
     (let ps = params_of m; bad = errorResponse (msgID m) codeInvalidParams ''Invalid tools/call params''
      in if \<not> only [''name'', ''arguments'', ''_meta'', ''task''] ps then Inl bad
         else if members ps (bs ''task'') \<noteq> None
           then Inl (errorResponse (msgID m) codeMethodNotFound ''Task-augmented tool calls are not supported'')
         else case nonempty ps ''name'' of
           None \<Rightarrow> Inl bad
         | Some name \<Rightarrow>
             (case select_tool name of
                None \<Rightarrow> Inl \<lparr>RespID = responseID (msgID m), RespBody = RpcError codeInvalidParams (bs ''Unknown tool: '' @ name)\<rparr>
              | Some build \<Rightarrow>
                  (case (case members ps (bs ''arguments'') of None \<Rightarrow> Some [] | Some j \<Rightarrow> object_of j) of
                     None \<Rightarrow> Inl bad
                   | Some args \<Rightarrow>
                       (case build args of
                          Inl e \<Rightarrow> Inl (resultResponse (msgID m) (InvalidArguments e))
                        | Inr command \<Rightarrow>
                            if \<not> executor then Inl (errorResponse (msgID m) codeInternalError ''Internal error'')
                            else Inr \<lparr>callID = msgID m, callArgv = tool_argv socket command\<rparr>))))"

text \<open>\<open>cancellationKey\<close>: \<open>None\<close> is a malformed cancellation.\<close>

definition cancellationKey :: "parsed_message \<Rightarrow> byte list option" where
  "cancellationKey m =
     (let ps = params_of m
      in if \<not> only [''requestId'', ''reason'', ''_meta''] ps then None
         else case members ps (bs ''requestId'') of
           None \<Rightarrow> None
         | Some j \<Rightarrow>
             (case members ps (bs ''reason'') of
                None \<Rightarrow> requestIDKey j
              | Some r \<Rightarrow> (case r of JStr _ \<Rightarrow> requestIDKey j | _ \<Rightarrow> None)))"

datatype outcome = NoOutcome | Reply rpc_response | Call tool_call | Cancel "byte list"

definition reply_opt :: "rpc_response option \<Rightarrow> outcome" where
  "reply_opt r = (case r of None \<Rightarrow> NoOutcome | Some x \<Rightarrow> Reply x)"

definition handle_ready :: "byte list \<Rightarrow> bool \<Rightarrow> lifecycle \<Rightarrow> parsed_message \<Rightarrow> outcome" where
  "handle_ready socket executor st m =
     (if msgNotification m then NoOutcome
      else if st \<noteq> LifecycleReady then Reply (errorResponse (msgID m) codeInvalidRequest ''Server is not initialized'')
      else if msgMethod m = bs ''tools/list'' then Reply (listTools m)
      else if msgMethod m = bs ''tools/call'' then
        (case prepareToolCall socket executor m of Inl r \<Rightarrow> Reply r | Inr c \<Rightarrow> Call c)
      else Reply \<lparr>RespID = responseID (msgID m), RespBody = RpcError codeMethodNotFound (bs ''Method not found: '' @ msgMethod m)\<rparr>)"

definition handle_parsed :: "byte list \<Rightarrow> byte list \<Rightarrow> bool \<Rightarrow> lifecycle \<Rightarrow> parsed_message \<Rightarrow> lifecycle \<times> outcome" where
  "handle_parsed version socket executor st m =
     (if msgMethod m = bs ''initialize'' then
        (if msgNotification m then (st, NoOutcome) else (let (st', r) = initialize version st m in (st', Reply r)))
      else if msgMethod m = bs ''notifications/initialized'' then
        (let (st', r) = initialized st m in (st', reply_opt r))
      else if msgMethod m = bs ''notifications/cancelled'' then
        (st, if \<not> msgNotification m then Reply (errorResponse (msgID m) codeInvalidRequest ''notifications/cancelled must be a notification'')
             else case cancellationKey m of None \<Rightarrow> NoOutcome | Some k \<Rightarrow> Cancel k)
      else if msgMethod m = bs ''ping'' then
        (st, if msgNotification m then NoOutcome else Reply (resultResponse (msgID m) EmptyResult))
      else (st, handle_ready socket executor st m))"

record mcp_config =
  cfgVersion :: "byte list"
  cfgSocket :: "byte list"
  cfgExecutor :: bool

definition handle_message :: "mcp_config \<Rightarrow> lifecycle \<Rightarrow> byte list \<Rightarrow> lifecycle \<times> outcome" where
  "handle_message C st line =
     (let l = trim_space line
      in if l = [] then (st, NoOutcome)
         else case json_decode l of
           None \<Rightarrow> (st, Reply (errorResponse JNull codeParseError ''Parse error''))
         | Some j \<Rightarrow>
             (case object_of j of
                None \<Rightarrow> (st, Reply (errorResponse JNull codeInvalidRequest ''Invalid Request''))
              | Some o' \<Rightarrow>
                  (case parseObject o' of
                     Ignored \<Rightarrow> (st, NoOutcome)
                   | Refused r \<Rightarrow> (st, Reply r)
                   | Parsed m \<Rightarrow> handle_parsed (cfgVersion C) (cfgSocket C) (cfgExecutor C) st m)))"

section \<open>What a tool call answers\<close>

record execution =
  exStdout :: "byte list"
  exExitCode :: int
  exStdoutTruncated :: bool
  exStderrTruncated :: bool

text \<open>\<open>envelopeResult\<close>: \<open>None\<close> is any of its errors.\<close>

definition envelopeResult :: "execution \<Rightarrow> rpc_payload option" where
  "envelopeResult e =
     (let raw = trim_space (exStdout e)
      in if raw = [] then None
         else case json_decode raw of
           Some (JObj kvs) \<Rightarrow>
             if members kvs (bs ''schema'') \<noteq> Some (JStr (bs ''pairmux.v1'')) then None
             else (case members kvs (bs ''ok'') of
                 Some (JBool okay) \<Rightarrow> Some (ToolEnvelope (JObj kvs) (\<not> okay \<or> exExitCode e \<noteq> 0))
               | _ \<Rightarrow> None)
         | _ \<Rightarrow> None)"

text \<open>\<open>executeTool\<close> when its context is not cancelled; \<open>None\<close> is an error of the executor.\<close>

definition tool_response :: "tool_call \<Rightarrow> execution option \<Rightarrow> rpc_response" where
  "tool_response call r =
     (case r of
        None \<Rightarrow> errorResponse (callID call) codeInternalError ''Internal error''
      | Some e \<Rightarrow>
          if exStdoutTruncated e \<or> exStderrTruncated e then resultResponse (callID call) CaptureExceeded
          else (case envelopeResult e of
              None \<Rightarrow> errorResponse (callID call) codeInternalError ''Internal error''
            | Some p \<Rightarrow> resultResponse (callID call) p))"

record bounded_buffer =
  bufData :: "byte list"
  bufLimit :: nat
  bufTruncated :: bool

definition newBoundedBuffer :: "nat \<Rightarrow> bounded_buffer" where
  "newBoundedBuffer limit = \<lparr>bufData = [], bufLimit = limit, bufTruncated = False\<rparr>"

definition buf_write :: "byte list \<Rightarrow> bounded_buffer \<Rightarrow> bounded_buffer" where
  "buf_write p b =
     (let remaining = bufLimit b - length (bufData b)
      in if remaining = 0 then b\<lparr>bufTruncated := bufTruncated b \<or> p \<noteq> []\<rparr>
         else if length p > remaining then b\<lparr>bufData := bufData b @ take remaining p, bufTruncated := True\<rparr>
         else b\<lparr>bufData := bufData b @ p\<rparr>)"

section \<open>\<open>Serve\<close>\<close>

text \<open>
  \<open>inflight\<close> maps the key of a request to whether it was cancelled. \<open>jobs\<close> and \<open>completions\<close> are the two channels;
  \<open>running\<close> are the calls the workers execute, \<open>finished\<close> those a worker holds the outcome of while it waits to send
  it (no response: its context was cancelled). What the server writes and accepts is the label of a step.
\<close>

type_synonym key = "byte list"
type_synonym completion = "key \<times> rpc_response option"

record serve_state =
  life :: lifecycle
  inflight :: "key \<Rightarrow> bool option"
  jobs :: "(key \<times> tool_call) list"
  running :: "(key \<times> tool_call) list"
  finished :: "completion list"
  completions :: "completion list"

datatype label =
    Accepted key
  | Cancelled key
  | Answered key rpc_response
  | Dropped key
  | Replied rpc_response

definition serve0 :: serve_state where
  "serve0 = \<lparr>life = LifecycleNew, inflight = (\<lambda>_. None), jobs = [], running = [], finished = [], completions = []\<rparr>"

definition cancelled :: "serve_state \<Rightarrow> key \<Rightarrow> bool" where
  "cancelled s k \<longleftrightarrow> inflight s k = Some True"

text \<open>The reader's branch of the loop.\<close>

definition accept_call :: "tool_call \<Rightarrow> serve_state \<Rightarrow> serve_state \<times> label list" where
  "accept_call c s =
     (case requestIDKey (callID c) of
        None \<Rightarrow> (s, [])
      | Some k \<Rightarrow>
          if inflight s k \<noteq> None then (s, [Replied (errorResponse (callID c) codeInvalidRequest ''Invalid Request'')])
          else if length (jobs s) < maxQueuedToolCalls
            then (s\<lparr>inflight := (inflight s)(k \<mapsto> False), jobs := jobs s @ [(k, c)]\<rparr>, [Accepted k])
          else (s, [Replied (errorResponse (callID c) codeInternalError ''Internal error'')]))"

definition cancel_call :: "key \<Rightarrow> serve_state \<Rightarrow> serve_state \<times> label list" where
  "cancel_call k s =
     (if inflight s k = None then (s, []) else (s\<lparr>inflight := (inflight s)(k \<mapsto> True)\<rparr>, [Cancelled k]))"

definition on_line :: "mcp_config \<Rightarrow> byte list \<Rightarrow> serve_state \<Rightarrow> serve_state \<times> label list" where
  "on_line C line s =
     (let (st, o') = handle_message C (life s) line; s' = s\<lparr>life := st\<rparr>
      in case o' of
           NoOutcome \<Rightarrow> (s', [])
         | Reply r \<Rightarrow> (s', [Replied r])
         | Cancel k \<Rightarrow> cancel_call k s'
         | Call c \<Rightarrow> accept_call c s')"

text \<open>A worker takes a job, finishes it with the outcome \<open>r\<close> of the executor, and sends the completion.\<close>

definition worker_takes :: "serve_state \<Rightarrow> serve_state option" where
  "worker_takes s =
     (case jobs s of [] \<Rightarrow> None
      | (k, c) # js \<Rightarrow>
          if length (running s) + length (finished s) < maxConcurrentToolCalls then
            Some (if cancelled s k then s\<lparr>jobs := js, finished := finished s @ [(k, None)]\<rparr>
                  else s\<lparr>jobs := js, running := running s @ [(k, c)]\<rparr>)
          else None)"

definition worker_finishes :: "nat \<Rightarrow> execution option \<Rightarrow> serve_state \<Rightarrow> serve_state option" where
  "worker_finishes n r s =
     (if n < length (running s) then
        (let (k, c) = running s ! n
         in Some (s\<lparr>running := take n (running s) @ drop (Suc n) (running s),
                    finished := finished s @ [(k, if cancelled s k then None else Some (tool_response c r))]\<rparr>))
      else None)"

definition worker_sends :: "nat \<Rightarrow> serve_state \<Rightarrow> serve_state option" where
  "worker_sends n s =
     (if n < length (finished s) \<and> length (completions s) < maxConcurrentToolCalls then
        Some (s\<lparr>finished := take n (finished s) @ drop (Suc n) (finished s), completions := completions s @ [finished s ! n]\<rparr>)
      else None)"

text \<open>The loop receives a completion.\<close>

definition loop_collects :: "serve_state \<Rightarrow> (serve_state \<times> label list) option" where
  "loop_collects s =
     (case completions s of [] \<Rightarrow> None
      | (k, r) # cs \<Rightarrow>
          let s' = s\<lparr>completions := cs\<rparr>
          in Some (case inflight s k of
               None \<Rightarrow> (s', [])
             | Some c \<Rightarrow>
                 (s'\<lparr>inflight := (inflight s)(k := None)\<rparr>,
                  if c then [Dropped k] else case r of None \<Rightarrow> [] | Some resp \<Rightarrow> [Answered k resp])))"

inductive internal :: "serve_state \<Rightarrow> label list \<Rightarrow> serve_state \<Rightarrow> bool" where
  take_job: "worker_takes s = Some s' \<Longrightarrow> internal s [] s'"
| finish_job: "worker_finishes n r s = Some s' \<Longrightarrow> internal s [] s'"
| send_job: "worker_sends n s = Some s' \<Longrightarrow> internal s [] s'"
| collect_job: "loop_collects s = Some (s', ls) \<Longrightarrow> internal s ls s'"

inductive serve_step :: "mcp_config \<Rightarrow> serve_state \<Rightarrow> label list \<Rightarrow> serve_state \<Rightarrow> bool" for C where
  read_line: "on_line C line s = (s', ls) \<Longrightarrow> serve_step C s ls s'"
| inside: "internal s ls s' \<Longrightarrow> serve_step C s ls s'"

inductive serves :: "mcp_config \<Rightarrow> label list \<Rightarrow> serve_state \<Rightarrow> bool" for C where
  serves0: "serves C [] serve0"
| serves_step: "serves C h s \<Longrightarrow> serve_step C s ls s' \<Longrightarrow> serves C (h @ ls) s'"

text \<open>\<open>drains n s ls s'\<close>: \<open>n\<close> internal steps.\<close>

inductive drains :: "nat \<Rightarrow> serve_state \<Rightarrow> label list \<Rightarrow> serve_state \<Rightarrow> bool" where
  drains0: "drains 0 s [] s"
| drains_step: "internal s ls s' \<Longrightarrow> drains n s' ls' s'' \<Longrightarrow> drains (Suc n) s (ls @ ls') s''"

end
