(* ===== verification/Mcp_Laws.thy ===== *)
theory Mcp_Laws
  imports Mcp "HOL-Library.Multiset"
begin

text \<open>
  What \<open>Serve\<close> promises. \<open>phase_step\<close> is the life of one request id as the client may see it: a call is accepted only when
  none with its id is open, and then answered once, or cancelled and not answered. The laws: every run of the server follows it
  for every id (\<open>serves_phases\<close>), the internal steps end and nothing blocks them while a call is open.
\<close>

section \<open>The specification\<close>

datatype phase = Idle | Open | Closing

text \<open>\<open>None\<close>: the specification does not allow the label.\<close>

fun phase_step :: "key \<Rightarrow> label \<Rightarrow> phase \<Rightarrow> phase option" where
  "phase_step k (Accepted k') p = (if k' \<noteq> k then Some p else if p = Idle then Some Open else None)"
| "phase_step k (Cancelled k') p = (if k' \<noteq> k then Some p else if p = Idle then None else Some Closing)"
| "phase_step k (Answered k' r) p =
     (if k' \<noteq> k then Some p else if p = Open \<and> requestIDKey (RespID r) = Some k then Some Idle else None)"
| "phase_step k (Dropped k') p = (if k' \<noteq> k then Some p else if p = Closing then Some Idle else None)"
| "phase_step k (Replied r) p = Some p"

fun phases :: "key \<Rightarrow> label list \<Rightarrow> phase \<Rightarrow> phase option" where
  "phases k [] p = Some p"
| "phases k (l # ls) p = (case phase_step k l p of None \<Rightarrow> None | Some q \<Rightarrow> phases k ls q)"

definition phase_in :: "serve_state \<Rightarrow> key \<Rightarrow> phase" where
  "phase_in s k = (case inflight s k of None \<Rightarrow> Idle | Some c \<Rightarrow> if c then Closing else Open)"

lemma phases_append: "phases k (h @ ls) p = (case phases k h p of None \<Rightarrow> None | Some q \<Rightarrow> phases k ls q)"
  by (induction h arbitrary: p) (simp_all split: option.split)

section \<open>The invariant\<close>

text \<open>Each id in flight is at exactly one place.\<close>

definition keys :: "serve_state \<Rightarrow> key multiset" where
  "keys s = mset (map fst (jobs s)) + mset (map fst (running s)) + mset (map fst (finished s)) + mset (map fst (completions s))"

definition job_ok :: "key \<times> tool_call \<Rightarrow> bool" where
  "job_ok j \<longleftrightarrow> requestIDKey (callID (snd j)) = Some (fst j)"

definition done_ok :: "(key \<Rightarrow> bool option) \<Rightarrow> completion \<Rightarrow> bool" where
  "done_ok f c \<longleftrightarrow>
     (case snd c of None \<Rightarrow> f (fst c) = Some True | Some r \<Rightarrow> requestIDKey (RespID r) = Some (fst c))"

definition serve_ok :: "serve_state \<Rightarrow> bool" where
  "serve_ok s \<longleftrightarrow>
     (\<forall>k. count (keys s) k = (if inflight s k = None then 0 else 1))
     \<and> list_all job_ok (jobs s) \<and> list_all job_ok (running s)
     \<and> list_all (done_ok (inflight s)) (finished s) \<and> list_all (done_ok (inflight s)) (completions s)
     \<and> length (jobs s) \<le> maxQueuedToolCalls
     \<and> length (running s) + length (finished s) \<le> maxConcurrentToolCalls
     \<and> length (completions s) \<le> maxConcurrentToolCalls"

lemma serve_ok0: "serve_ok serve0"
  by (simp add: serve_ok_def serve0_def keys_def)

text \<open>An element taken out of a list.\<close>

lemma mset_without: "n < length xs \<Longrightarrow> mset (map f xs) = add_mset (f (xs ! n)) (mset (map f (take n xs @ drop (Suc n) xs)))"
  by (subst id_take_nth_drop [of n xs]) simp_all

lemma list_all_without: "list_all P xs \<Longrightarrow> list_all P (take n xs @ drop (Suc n) xs)"
  by (auto simp: list_all_iff dest: in_set_takeD in_set_dropD)

lemma length_without: "n < length xs \<Longrightarrow> Suc (length (take n xs @ drop (Suc n) xs)) = length xs"
  by simp

lemma tool_response_id: "RespID (tool_response c r) = responseID (callID c)"
  by (auto simp: tool_response_def errorResponse_def resultResponse_def split: option.split)

lemma key_of_response: "requestIDKey (callID c) = Some k \<Longrightarrow> requestIDKey (RespID (tool_response c r)) = Some k"
  by (simp add: tool_response_id responseID_def validRequestID_def)

text \<open>Marking a call cancelled, and forgetting one, keep what is known of the others.\<close>

lemma done_ok_cancel: "done_ok f c \<Longrightarrow> done_ok (f(k \<mapsto> True)) c"
  by (auto simp: done_ok_def split: option.splits)

lemma done_ok_other: "done_ok f c \<Longrightarrow> fst c \<noteq> k \<Longrightarrow> done_ok (f(k := v)) c"
  by (auto simp: done_ok_def split: option.splits)

lemma count_fst: "c \<in> set xs \<Longrightarrow> 0 < count (mset (map fst xs)) (fst c)"
  by (simp add: count_greater_zero_iff)

lemma serve_ok_life: "serve_ok (s\<lparr>life := l\<rparr>) \<longleftrightarrow> serve_ok s"
  by (simp add: serve_ok_def keys_def)

lemma phase_in_life: "phase_in (s\<lparr>life := l\<rparr>) k = phase_in s k"
  by (simp add: phase_in_def)

text \<open>A step keeps the invariant and takes every id where its labels say.\<close>

definition follows :: "serve_state \<Rightarrow> label list \<Rightarrow> serve_state \<Rightarrow> bool" where
  "follows s ls s' \<longleftrightarrow> serve_ok s' \<and> (\<forall>k. phases k ls (phase_in s k) = Some (phase_in s' k))"

lemma accept_follows:
  assumes "serve_ok s" "accept_call c s = (s', ls)"
  shows "follows s ls s'"
proof (cases "requestIDKey (callID c)")
  case None
  then show ?thesis using assms by (simp add: accept_call_def follows_def)
next
  case (Some k)
  show ?thesis
  proof (cases "inflight s k = None \<and> length (jobs s) < maxQueuedToolCalls")
    case True
    then have s': "s' = s\<lparr>inflight := (inflight s)(k \<mapsto> False), jobs := jobs s @ [(k, c)]\<rparr>" "ls = [Accepted k]"
      using assms(2) Some by (auto simp: accept_call_def)
    have "count (keys s) k = 0" using assms(1) True by (simp add: serve_ok_def)
    then have n: "k \<notin> fst ` set (finished s)" "k \<notin> fst ` set (completions s)"
      by (auto simp: keys_def count_eq_zero_iff)
    have d: "list_all (done_ok ((inflight s)(k \<mapsto> False))) xs"
      if "list_all (done_ok (inflight s)) xs" "k \<notin> fst ` set xs" for xs
      using that by (auto simp: list_all_iff intro!: done_ok_other)
    have "serve_ok s'"
      using assms(1) True n Some d
      by (auto simp: s' serve_ok_def keys_def job_ok_def)
    moreover have "phases k' ls (phase_in s k') = Some (phase_in s' k')" for k'
      using True by (auto simp: s' phase_in_def)
    ultimately show ?thesis by (simp add: follows_def)
  next
    case False
    then show ?thesis using assms Some by (auto simp: accept_call_def follows_def split: if_splits)
  qed
qed

lemma cancel_follows:
  assumes "serve_ok s" "cancel_call k s = (s', ls)"
  shows "follows s ls s'"
proof (cases "inflight s k")
  case None
  then show ?thesis using assms by (simp add: cancel_call_def follows_def)
next
  case (Some b)
  then have s': "s' = s\<lparr>inflight := (inflight s)(k \<mapsto> True)\<rparr>" "ls = [Cancelled k]"
    using assms(2) by (auto simp: cancel_call_def)
  have "serve_ok s'"
    using assms(1) Some by (auto simp: s' serve_ok_def keys_def list_all_iff intro!: done_ok_cancel)
  then show ?thesis using Some by (simp add: follows_def s' phase_in_def)
qed

lemma line_follows:
  assumes "serve_ok s" "on_line C line s = (s', ls)"
  shows "follows s ls s'"
proof -
  obtain st o' where h: "handle_message C (life s) line = (st, o')" by fastforce
  have ok: "serve_ok (s\<lparr>life := st\<rparr>)" using assms(1) by (simp add: serve_ok_life)
  have "follows (s\<lparr>life := st\<rparr>) ls s'"
    using assms(2) h ok accept_follows [OF ok] cancel_follows [OF ok]
    by (cases o') (auto simp: on_line_def Let_def follows_def)
  then show ?thesis by (simp add: follows_def phase_in_life)
qed

lemma silent_follows: "serve_ok s' \<Longrightarrow> inflight s' = inflight s \<Longrightarrow> follows s [] s'"
  by (simp add: follows_def phase_in_def)

lemma take_follows:
  assumes "serve_ok s" "worker_takes s = Some s'"
  shows "follows s [] s'"
proof (rule silent_follows)
  obtain k c js where q: "jobs s = (k, c) # js" using assms(2) by (auto simp: worker_takes_def split: list.splits)
  have l: "length (running s) + length (finished s) < maxConcurrentToolCalls"
    using assms(2) q by (simp add: worker_takes_def split: if_splits)
  have s': "s' = (if cancelled s k then s\<lparr>jobs := js, finished := finished s @ [(k, None)]\<rparr>
                  else s\<lparr>jobs := js, running := running s @ [(k, c)]\<rparr>)"
    using assms(2) q l by (simp add: worker_takes_def)
  have "keys s' = keys s" by (simp add: s' q keys_def)
  moreover have "list_all job_ok ((k, c) # js)" using assms(1) by (simp add: serve_ok_def q)
  ultimately show "serve_ok s'"
    using assms(1) l q by (cases "cancelled s k") (simp_all add: serve_ok_def, simp_all add: s' done_ok_def cancelled_def)
  show "inflight s' = inflight s" by (simp add: s')
qed

lemma finish_follows:
  assumes "serve_ok s" "worker_finishes n r s = Some s'"
  shows "follows s [] s'"
proof (rule silent_follows)
  obtain k c where kc: "running s ! n = (k, c)" by fastforce
  have n: "n < length (running s)" using assms(2) by (simp add: worker_finishes_def split: if_splits)
  have s': "s' = s\<lparr>running := take n (running s) @ drop (Suc n) (running s),
      finished := finished s @ [(k, if cancelled s k then None else Some (tool_response c r))]\<rparr>"
    using assms(2) n kc by (simp add: worker_finishes_def)
  have j: "job_ok (k, c)" using assms(1) n kc by (metis list_all_length serve_ok_def)
  have k: "keys s' = keys s" using mset_without [OF n, of fst] kc by (simp add: s' keys_def)
  have "length (running s') + length (finished s') = length (running s) + length (finished s)"
    using length_without [OF n] by (simp add: s')
  moreover have "list_all (done_ok (inflight s)) (finished s')"
    using assms(1) j by (simp add: serve_ok_def s' done_ok_def job_ok_def cancelled_def key_of_response)
  moreover have "list_all job_ok (running s')"
    using assms(1) list_all_without [of job_ok "running s" n] by (simp add: serve_ok_def s')
  ultimately show "serve_ok s'"
    using assms(1) k by (simp add: serve_ok_def) (simp add: s')
  show "inflight s' = inflight s" by (simp add: s')
qed

lemma send_follows:
  assumes "serve_ok s" "worker_sends n s = Some s'"
  shows "follows s [] s'"
proof (rule silent_follows)
  have n: "n < length (finished s)" using assms(2) by (simp add: worker_sends_def split: if_splits)
  have c: "length (completions s) < maxConcurrentToolCalls" using assms(2) by (simp add: worker_sends_def split: if_splits)
  have s': "s' = s\<lparr>finished := take n (finished s) @ drop (Suc n) (finished s), completions := completions s @ [finished s ! n]\<rparr>"
    using assms(2) n c by (simp add: worker_sends_def)
  have d: "done_ok (inflight s) (finished s ! n)" using assms(1) n by (simp add: serve_ok_def list_all_length)
  have k: "keys s' = keys s" using mset_without [OF n, of fst] by (simp add: s' keys_def)
  have "length (finished s') \<le> length (finished s)" using n by (simp add: s')
  moreover have "list_all (done_ok (inflight s)) (finished s')"
    using assms(1) list_all_without [of "done_ok (inflight s)" "finished s" n] by (simp add: serve_ok_def s')
  ultimately show "serve_ok s'"
    using assms(1) k d c by (simp add: serve_ok_def) (simp add: s')
  show "inflight s' = inflight s" by (simp add: s')
qed

lemma collect_follows:
  assumes "serve_ok s" "loop_collects s = Some (s', ls)"
  shows "follows s ls s'"
proof -
  obtain k r cs where c: "completions s = (k, r) # cs" using assms(2) by (auto simp: loop_collects_def split: list.splits)
  have cnt: "count (keys s) k = (if inflight s k = None then 0 else 1)" using assms(1) by (simp add: serve_ok_def)
  then obtain b where b: "inflight s k = Some b" by (cases "inflight s k") (simp_all add: keys_def c)
  then have one: "count (keys s) k = 1" using cnt by simp
  have s': "s' = s\<lparr>completions := cs, inflight := (inflight s)(k := None)\<rparr>"
    using assms(2) b c by (auto simp: loop_collects_def)
  have n: "k \<notin> fst ` set (finished s)" "k \<notin> fst ` set cs"
    using one by (auto simp: keys_def c count_eq_zero_iff)
  have d: "list_all (done_ok ((inflight s)(k := None))) xs"
    if "list_all (done_ok (inflight s)) xs" "k \<notin> fst ` set xs" for xs
    using that by (auto simp: list_all_iff intro!: done_ok_other)
  have r: "done_ok (inflight s) (k, r)" using assms(1) by (simp add: serve_ok_def c)
  have a: "keys s = add_mset k (keys s')" by (simp add: s' keys_def c)
  have "count (keys s') k' = (if inflight s' k' = None then 0 else 1)" for k'
  proof (cases "k' = k")
    case True
    then show ?thesis using one a by (simp add: s')
  next
    case False
    then have "count (keys s') k' = count (keys s) k'" using a by simp
    then show ?thesis using assms(1) False by (simp add: s' serve_ok_def)
  qed
  then have "serve_ok s'"
    using assms(1) n d by (simp add: serve_ok_def) (simp add: s' c)
  moreover have "phases k' ls (phase_in s k') = Some (phase_in s' k')" for k'
    using assms(2) b r
    by (cases "k' = k"; cases b; cases r) (auto simp: loop_collects_def c phase_in_def done_ok_def)
  ultimately show ?thesis by (simp add: follows_def)
qed

lemma internal_follows: "internal s ls s' \<Longrightarrow> serve_ok s \<Longrightarrow> follows s ls s'"
  by (auto elim!: internal.cases intro: take_follows finish_follows send_follows collect_follows)

lemma step_follows: "serve_step C s ls s' \<Longrightarrow> serve_ok s \<Longrightarrow> follows s ls s'"
  by (auto elim!: serve_step.cases intro: line_follows internal_follows)

lemma serves_phases: "serves C h s \<Longrightarrow> serve_ok s \<and> (\<forall>k. phases k h Idle = Some (phase_in s k))"
proof (induction rule: serves.induct)
  case serves0
  then show ?case by (simp add: serve_ok0 phase_in_def) (simp add: serve0_def)
next
  case (serves_step h s ls s')
  then show ?case using step_follows [of C s ls s'] by (simp add: follows_def phases_append)
qed

section \<open>Every open call comes to an end\<close>

definition weight :: "serve_state \<Rightarrow> nat" where
  "weight s = 4 * length (jobs s) + 3 * length (running s) + 2 * length (finished s) + length (completions s)"

lemma internal_weight: "internal s ls s' \<Longrightarrow> weight s' < weight s"
proof (induction rule: internal.induct)
  case (finish_job n r s s')
  then show ?case
    using length_without [of n "running s"] by (auto simp: weight_def worker_finishes_def split: if_splits prod.splits)
next
  case (send_job n s s')
  then show ?case
    using length_without [of n "finished s"] by (auto simp: weight_def worker_sends_def split: if_splits)
qed (auto simp: weight_def worker_takes_def loop_collects_def Let_def split: list.splits if_splits option.splits)

lemma drains_weight: "drains n s ls s' \<Longrightarrow> n + weight s' \<le> weight s"
  by (induction rule: drains.induct) (auto dest: internal_weight)

lemma size_keys: "size (keys s) = length (jobs s) + length (running s) + length (finished s) + length (completions s)"
  by (simp add: keys_def)

lemma keys_card: "serve_ok s \<Longrightarrow> size (keys s) = card (dom (inflight s))"
proof -
  assume "serve_ok s"
  then have c: "count (keys s) k = (if inflight s k = None then 0 else 1)" for k by (simp add: serve_ok_def)
  have m: "k \<in># keys s \<longleftrightarrow> inflight s k \<noteq> None" for k
    using c [of k] by (cases "inflight s k") (simp_all add: not_in_iff count_greater_zero_iff [symmetric] del: count_greater_zero_iff)
  then have "set_mset (keys s) = dom (inflight s)" by auto
  moreover have "size (keys s) = (\<Sum>k\<in>set_mset (keys s). 1)"
    unfolding size_multiset_overloaded_eq by (rule sum.cong) (simp_all add: c m)
  ultimately show ?thesis by simp
qed

lemma weight_bound: "serve_ok s \<Longrightarrow> weight s \<le> 4 * card (dom (inflight s))"
  using keys_card [of s] by (simp add: size_keys weight_def)

lemma not_stuck:
  assumes "serve_ok s" "inflight s k \<noteq> None"
  shows "\<exists>ls s'. internal s ls s'"
proof -
  have "count (keys s) k \<noteq> 0" using assms by (simp add: serve_ok_def)
  then have "keys s \<noteq> {#}" by auto
  then consider (collecting) d ds where "completions s = d # ds"
    | (sending) d ds where "completions s = []" "finished s = d # ds"
    | (finishing) j js where "running s = j # js"
    | (taking) j js where "jobs s = j # js" "running s = []" "finished s = []"
    by (cases "completions s"; cases "finished s"; cases "running s"; cases "jobs s") (auto simp: keys_def)
  then show ?thesis
  proof cases
    case (collecting d ds)
    then have "loop_collects s \<noteq> None" by (cases d) (simp add: loop_collects_def Let_def)
    then obtain s' ls where "loop_collects s = Some (s', ls)" by auto
    then show ?thesis by (blast intro: internal.intros)
  next
    case (sending d ds)
    then obtain s' where "worker_sends 0 s = Some s'" by (auto simp: worker_sends_def maxConcurrentToolCalls_def)
    then show ?thesis by (blast intro: internal.intros)
  next
    case (finishing j js)
    then obtain s' where "worker_finishes 0 None s = Some s'" by (cases j) (auto simp: worker_finishes_def)
    then show ?thesis by (blast intro: internal.intros)
  next
    case (taking j js)
    then obtain s' where "worker_takes s = Some s'" by (cases j) (auto simp: worker_takes_def maxConcurrentToolCalls_def)
    then show ?thesis by (blast intro: internal.intros)
  qed
qed

lemma drains_follows: "drains n s ls s' \<Longrightarrow> serve_ok s \<Longrightarrow> follows s ls s'"
proof (induction rule: drains.induct)
  case (drains0 s)
  then show ?case by (simp add: follows_def)
next
  case (drains_step s ls s' n ls' s'')
  then show ?case using internal_follows [OF drains_step.hyps(1)] by (simp add: follows_def phases_append)
qed

lemma internal_no_cancel: "internal s ls s' \<Longrightarrow> Cancelled k \<notin> set ls"
  by (auto elim!: internal.cases simp: loop_collects_def Let_def split: list.splits option.splits if_splits)

lemma drains_no_cancel: "drains n s ls s' \<Longrightarrow> Cancelled k \<notin> set ls"
  by (induction rule: drains.induct) (auto dest: internal_no_cancel)

lemma open_is_answered:
  "phases k ls Open = Some Idle \<Longrightarrow> Cancelled k \<notin> set ls \<Longrightarrow> \<exists>r. Answered k r \<in> set ls"
proof (induction ls)
  case (Cons l ls)
  then show ?case by (cases l) (auto split: if_splits)
qed simp

lemma drained_answered:
  assumes "serve_ok s" "drains n s ls s'" "inflight s k = Some False" "inflight s' k = None"
  shows "\<exists>r. Answered k r \<in> set ls"
proof -
  have "phases k ls Open = Some Idle"
    using drains_follows [OF assms(2,1)] assms(3,4) by (simp add: follows_def phase_in_def) (metis (full_types) option.simps(4,5))
  then show ?thesis using drains_no_cancel [OF assms(2)] by (rule open_is_answered)
qed

section \<open>The captured output of a child\<close>

lemma buf_write_ok:
  assumes "bufData b = take (bufLimit b) w" "bufTruncated b \<longleftrightarrow> bufLimit b < length w"
  shows "bufData (buf_write p b) = take (bufLimit b) (w @ p) \<and> bufLimit (buf_write p b) = bufLimit b
    \<and> (bufTruncated (buf_write p b) \<longleftrightarrow> bufLimit b < length (w @ p))"
  using assms by (auto simp: buf_write_def Let_def min_def)

lemma buf_writes:
  "bufData (fold buf_write ps (newBoundedBuffer n)) = take n (concat ps)
   \<and> (bufTruncated (fold buf_write ps (newBoundedBuffer n)) \<longleftrightarrow> n < length (concat ps))"
proof -
  have "bufData (fold buf_write ps b) = take (bufLimit b) (w @ concat ps)
      \<and> (bufTruncated (fold buf_write ps b) \<longleftrightarrow> bufLimit b < length (w @ concat ps))"
    if "bufData b = take (bufLimit b) w" "bufTruncated b \<longleftrightarrow> bufLimit b < length w" for b w
    using that
  proof (induction ps arbitrary: b w)
    case (Cons p ps)
    then show ?case using Cons.IH [of "buf_write p b" "w @ p"] buf_write_ok [OF Cons.prems, of p] by simp
  qed simp
  from this [of "newBoundedBuffer n" "[]"] show ?thesis by (simp add: newBoundedBuffer_def)
qed

section \<open>A small session\<close>

text \<open>A client initializes the server, calls \<open>pairmux_ls\<close> and cancels the call. \<open>~\<close> stands for a quote.\<close>

definition small_text :: "string \<Rightarrow> byte list" where
  "small_text t = map (\<lambda>c. if c = CHR ''~'' then quote else of_char c) t"

definition small_config :: mcp_config where
  "small_config = \<lparr>cfgVersion = bs ''1.0'', cfgSocket = bs ''pairmux'', cfgExecutor = True\<rparr>"

lemma small_initialize:
  "handle_message small_config LifecycleNew (small_text ''{~jsonrpc~:~2.0~,~id~:1,~method~:~initialize~,~params~:{~protocolVersion~:~1~,~capabilities~:{},~clientInfo~:{~name~:~c~,~version~:~1~}}}'')
   = (LifecycleInitialized, Reply (resultResponse (JNum (bs ''1'')) (ServerInfo ProtocolVersion (bs ''1.0''))))"
  by code_simp

lemma small_ready:
  "handle_message small_config LifecycleInitialized (small_text ''{~jsonrpc~:~2.0~,~method~:~notifications/initialized~}'') = (LifecycleReady, NoOutcome)"
  by code_simp

lemma small_call:
  "handle_message small_config LifecycleReady (small_text ''{~jsonrpc~:~2.0~,~id~:~a~,~method~:~tools/call~,~params~:{~name~:~pairmux_ls~}}'')
   = (LifecycleReady, Call \<lparr>callID = JStr (bs ''a''), callArgv = tool_argv (bs ''pairmux'') [bs ''ls'']\<rparr>)"
  by code_simp
lemma small_cancel:
  "handle_message small_config LifecycleReady (small_text ''{~jsonrpc~:~2.0~,~method~:~notifications/cancelled~,~params~:{~requestId~:~a~}}'')
   = (LifecycleReady, Cancel (bs ''s:a''))"
  by code_simp
definition small_id :: key where "small_id = bs ''s:a''"

definition small_tool :: tool_call where
  "small_tool = \<lparr>callID = JStr (bs ''a''), callArgv = tool_argv (bs ''pairmux'') [bs ''ls'']\<rparr>"

definition small_hello :: rpc_response where
  "small_hello = resultResponse (JNum (bs ''1'')) (ServerInfo ProtocolVersion (bs ''1.0''))"

definition small_called :: serve_state where
  "small_called = serve0\<lparr>life := LifecycleReady, inflight := (\<lambda>_. None)(small_id \<mapsto> False), jobs := [(small_id, small_tool)]\<rparr>"

lemma line_step:
  assumes "handle_message C l line = (st, o')" "life s = l"
    and "(case o' of NoOutcome \<Rightarrow> (s\<lparr>life := st\<rparr>, []) | Reply r \<Rightarrow> (s\<lparr>life := st\<rparr>, [Replied r])
          | Call c \<Rightarrow> accept_call c (s\<lparr>life := st\<rparr>) | Cancel k \<Rightarrow> cancel_call k (s\<lparr>life := st\<rparr>)) = (s', ls)"
  shows "serve_step C s ls s'"
  by (rule read_line [of C line]) (use assms in \<open>simp add: on_line_def Let_def\<close>)

lemma small_serves_called: "serves small_config [Replied small_hello, Accepted small_id] small_called"
proof -
  have a: "serve_step small_config serve0 [Replied small_hello] (serve0\<lparr>life := LifecycleInitialized\<rparr>)"
    by (rule line_step [OF small_initialize]) (simp_all add: serve0_def small_hello_def)
  have b: "serve_step small_config (serve0\<lparr>life := LifecycleInitialized\<rparr>) [] (serve0\<lparr>life := LifecycleReady\<rparr>)"
    by (rule line_step [OF small_ready]) (simp_all add: serve0_def)
  have c: "serve_step small_config (serve0\<lparr>life := LifecycleReady\<rparr>) [Accepted small_id] small_called"
    by (rule line_step [OF small_call])
      (simp_all add: serve0_def small_called_def small_tool_def small_id_def accept_call_def requestIDKey_def maxQueuedToolCalls_def)
  show ?thesis using serves_step [OF serves_step [OF serves_step [OF serves0 a] b] c] by simp
qed

lemma small_serves_cancelled:
  "serves small_config [Replied small_hello, Accepted small_id, Cancelled small_id] (small_called\<lparr>inflight := (\<lambda>_. None)(small_id \<mapsto> True)\<rparr>)"
proof -
  have "serve_step small_config small_called [Cancelled small_id] (small_called\<lparr>inflight := (\<lambda>_. None)(small_id \<mapsto> True)\<rparr>)"
    by (rule line_step [OF small_cancel]) (simp_all add: small_called_def serve0_def cancel_call_def small_id_def)
  then show ?thesis using serves_step [OF small_serves_called] by simp
qed

lemma small_drains:
  "drains 4 small_called [Answered small_id (tool_response small_tool None)] (serve0\<lparr>life := LifecycleReady\<rparr>)"
proof -
  have w: "worker_takes small_called = Some (small_called\<lparr>jobs := [], running := [(small_id, small_tool)]\<rparr>)"
    by (simp add: worker_takes_def small_called_def serve0_def cancelled_def maxConcurrentToolCalls_def)
  have f: "worker_finishes 0 None (small_called\<lparr>jobs := [], running := [(small_id, small_tool)]\<rparr>)
      = Some (small_called\<lparr>jobs := [], finished := [(small_id, Some (tool_response small_tool None))]\<rparr>)"
    by (simp add: worker_finishes_def small_called_def serve0_def cancelled_def)
  have d: "worker_sends 0 (small_called\<lparr>jobs := [], finished := [(small_id, Some (tool_response small_tool None))]\<rparr>)
      = Some (small_called\<lparr>jobs := [], completions := [(small_id, Some (tool_response small_tool None))]\<rparr>)"
    by (simp add: worker_sends_def small_called_def serve0_def maxConcurrentToolCalls_def)
  have c: "loop_collects (small_called\<lparr>jobs := [], completions := [(small_id, Some (tool_response small_tool None))]\<rparr>)
      = Some (serve0\<lparr>life := LifecycleReady\<rparr>, [Answered small_id (tool_response small_tool None)])"
    by (simp add: loop_collects_def small_called_def serve0_def Let_def)
  show ?thesis
    using drains_step [OF take_job [OF w] drains_step [OF finish_job [OF f] drains_step [OF send_job [OF d]
      drains_step [OF collect_job [OF c] drains0]]]]
    by (simp add: numeral_eq_Suc)
qed

end
