(* ===== verification/Views_Laws.thy ===== *)
theory Views_Laws
  imports Views Shape_Laws
begin

text \<open>
  What the commands of \<open>Views\<close> promise: \<open>log --cmd\<close> shows what \<open>run\<close> recorded, a view of the journal's end has the lines it
  was asked for, \<open>send\<close> delivers in order and records only the shape of what it sent, a note is seen, and \<open>kill --all\<close> kills
  every terminal once.
\<close>

section \<open>\<open>log\<close>\<close>

text \<open>The events of a command that ended while only bystanders wrote to the log.\<close>

lemma find_bystander: "list_all bystander mid \<Longrightarrow> t \<noteq> EvNote \<Longrightarrow> t \<noteq> EvSent \<Longrightarrow> find (\<lambda>e. EvType e = t \<and> CmdID e = c) (rev mid) = None"
  by (auto simp: find_None_iff bystander_def list_all_iff)

lemma find_append_None: "find Q xs = None \<Longrightarrow> find Q (xs @ ys) = find Q ys"
  by (induction xs) (auto split: if_splits)

lemma logged_command:
  assumes "list_all bystander mid" "EvType st = EvCmdStart" "CmdID st = cid" "EvType en = EvCmdEnd" "CmdID en = cid"
  shows "command_start (evs @ st # mid @ [en]) cid = Some st" "command_end (evs @ st # mid @ [en]) cid = Offset en"
proof -
  show "command_start (evs @ st # mid @ [en]) cid = Some st"
    using assms find_bystander [OF assms(1), of EvCmdStart cid] by (simp add: command_start_def find_append_None)
  show "command_end (evs @ st # mid @ [en]) cid = Offset en"
    using assms by (simp add: command_end_def)
qed

text \<open>\<open>log --cmd\<close> of a finished command shows its region of the journal, whatever has been appended since.\<close>

lemma log_of_command:
  assumes "list_all bystander mid" "EvType st = EvCmdStart" "CmdID st = cid" "EvType en = EvCmdEnd" "CmdID en = cid"
    and "0 \<le> Offset en"
  shows "logCmd (Some (evs @ st # mid @ [en])) (Some raw) mode bd cid
    = Inr (cleanNoTrunc (ReadRange raw (Offset st) (Offset en)) (EvText st))"
  using assms(6) logged_command [OF assms(1-5), of evs] by (simp add: logCmd_def read_raw_def)

text \<open>In sentinel mode the shell echoes the command with the sentinel's text around it, and the log knows only the command:
  \<open>run\<close> drops the echoed line and \<open>log --cmd\<close> keeps it.\<close>

lemma log_keeps_echo:
  "cleanNoTrunc (sent_text \<lparr>rMode = Some ModeSentinel, rShell = bs ''bash'', rHead = 0, rTail = 0, rTimeout = 0\<rparr> (bs ''ls'') @ [NL] @ bs ''a'')
      (sent_text \<lparr>rMode = Some ModeSentinel, rShell = bs ''bash'', rHead = 0, rTail = 0, rTimeout = 0\<rparr> (bs ''ls'')) = bs ''a''"
  "cleanNoTrunc (sent_text \<lparr>rMode = Some ModeSentinel, rShell = bs ''bash'', rHead = 0, rTail = 0, rTimeout = 0\<rparr> (bs ''ls'') @ [NL] @ bs ''a'')
      (bs ''ls'') \<noteq> bs ''a''"
  by code_simp+

text \<open>A view of the end of a journal.\<close>

lemma lastLines_cases:
  "lastLines s n = (if n \<le> 0 \<or> s = [] \<or> int (length (lines_of s)) \<le> n then (s, 0)
     else (unlines (drop (length (lines_of s) - nat n) (lines_of s)), int (length (lines_of s)) - n))"
  by (simp add: lastLines_def Let_def)

lemma lastLines_bound: "0 < n \<Longrightarrow> lastLines s n = (b, om) \<Longrightarrow> int (length (lines_of b)) \<le> n \<or> b = []"
proof -
  assume n: "0 < n" and l: "lastLines s n = (b, om)"
  show ?thesis
  proof (cases "s = [] \<or> int (length (lines_of s)) \<le> n")
    case True
    then show ?thesis using l n by (simp add: lastLines_cases) force
  next
    case False
    let ?ls = "lines_of s"
    have "0 < nat n" "0 < length ?ls" using False n by auto
    then have d: "drop (length ?ls - nat n) ?ls \<noteq> []" unfolding drop_eq_Nil by linarith
    have "lines_of (unlines (drop (length ?ls - nat n) ?ls)) = drop (length ?ls - nat n) ?ls"
      using d by (intro lines_unlines) (auto dest!: in_set_dropD split_on_sep)
    moreover have "b = unlines (drop (length ?ls - nat n) ?ls)" using l False n by (simp add: lastLines_cases)
    ultimately have "length (lines_of b) \<le> nat n" by simp
    then show ?thesis using n by linarith
  qed
qed

lemma range_whole: "range_lines 1 (- 1) ls = ls"
  by (cases ls) (simp_all add: range_lines_def)

section \<open>\<open>send\<close>\<close>

lemma deliver_prefix:
  "\<exists>rest. ds = fst (deliver works ds) @ rest \<and> list_all works (fst (deliver works ds)) \<and> (snd (deliver works ds) \<longrightarrow> rest = [])
     \<and> (\<not> snd (deliver works ds) \<longrightarrow> rest \<noteq> [] \<and> \<not> works (hd rest))"
  by (induction ds) (auto split: prod.splits)

text \<open>What is recorded of a send does not depend on what was sent, only on which parts there were.\<close>

lemma sent_shape: "(ks = []) = (ks' = []) \<Longrightarrow> sent_event hasText ks enter = sent_event hasText ks' enter"
  by (simp add: sent_event_def sentParts_def)

lemma cmdSend_ok:
  assumes "cmdSend socket W args evs = (Inr env, sent, evs')"
  shows "\<exists>pos f. parsed send_spec args = Inr (pos, f)
    \<and> sent = deliveries (flagSeen f (bs ''text'')) (valOf f (bs ''text'')) (listOf f (bs ''key'')) (isSet f (bs ''enter''))
    \<and> list_all validKey (listOf f (bs ''key''))
    \<and> evs' = AppendEvent (sAppendOk W) (sNow W) (sent_event (flagSeen f (bs ''text'')) (listOf f (bs ''key'')) (isSet f (bs ''enter''))) evs"
proof -
  obtain pos f tm name where a: "parsed send_spec args = Inr (pos, f)" "list_all validKey (listOf f (bs ''key''))"
      "send_to W tm name f evs = (Inr env, sent, evs')"
    using assms unfolding cmdSend_def by (auto simp: andThen_Inr split: sum.splits if_splits)
  let ?ds = "deliveries (flagSeen f (bs ''text'')) (valOf f (bs ''text'')) (listOf f (bs ''key'')) (isSet f (bs ''enter''))"
  obtain rest where "?ds = fst (deliver (sWorks W) ?ds) @ rest" "snd (deliver (sWorks W) ?ds) \<longrightarrow> rest = []"
    using deliver_prefix [of ?ds "sWorks W"] by blast
  then have "sent = ?ds" and "evs' = AppendEvent (sAppendOk W) (sNow W)
      (sent_event (flagSeen f (bs ''text'')) (listOf f (bs ''key'')) (isSet f (bs ''enter''))) evs"
    using a(3) unfolding send_to_def Let_def by (auto split: if_splits prod.splits)
  then show ?thesis using a(1,2) by blast
qed

lemma cmdSend_rejected: "cmdSend socket W args evs = (Inl e, sent, evs') \<Longrightarrow> evs' = evs"
  by (auto simp: cmdSend_def send_to_def Let_def split: sum.splits prod.splits if_splits)

section \<open>\<open>note\<close>\<close>

lemma note_seen:
  assumes "cmdNote socket resolve opens appends now args evs = (Inr env, evs')" "lastActedOn evs < now"
  shows "\<exists>text. evs' = evs @ [stamp now (note_event text)] \<and> text \<in> set (unseenNotes evs')"
proof -
  obtain tx where e: "evs' = evs @ [stamp now (note_event tx)]"
    using assms(1) by (auto simp: cmdNote_def AppendEvent_def split: sum.splits prod.splits if_splits)
  have "lastActedOn evs' = lastActedOn evs"
    by (simp add: e lastActedOn_def acts_def note_event_def blank_event_def)
  then have "tx \<in> set (unseenNotes evs')"
    using assms(2) by (simp add: e unseenNotes_def Let_def unseen_def note_event_def blank_event_def stamp_def)
  then show ?thesis using e by blast
qed

section \<open>\<open>kill\<close>\<close>

definition windows :: "kill_action list \<Rightarrow> byte list list" where
  "windows as = concat (map (\<lambda>a. case a of KillWindow p \<Rightarrow> [p] | RecordKilled d \<Rightarrow> []) as)"

lemma windows_simps [simp]:
  "windows [] = []" "windows (KillWindow p # as) = p # windows as" "windows (RecordKilled d # as) = windows as"
  "windows (as @ bs') = windows as @ windows bs'" "windows (record_killed W d) = []"
  by (simp_all add: windows_def record_killed_def)

lemma kill_pane_ok:
  assumes "kill_ok (kHasDir W) (kDies W) (kLive W) (krLayers R, krLive R)"
  shows "kill_ok (kHasDir W) (kDies W) (kLive W) (krLayers (kill_pane socket W R p), krLive (kill_pane socket W R p))"
proof (cases "ValidName (InfoName p)")
  case True
  obtain ks l where k: "killLayers maxLayerDepth (kHasDir W) (kDies W) (krLive R) socket (InfoName p) = (ks, l)" by fastforce
  then show ?thesis
    using kill_ok_append [OF assms, of ks l] killLayers_ok [of "kHasDir W" "kDies W" "krLive R" maxLayerDepth socket "InfoName p"] True
    by (simp add: kill_pane_def Let_def)
next
  case False
  then show ?thesis using assms by (simp add: kill_pane_def Let_def)
qed

lemma kill_pane_fields:
  "krNames (kill_pane socket W R p) = krNames R @ [InfoName p]"
  "windows (krActions (kill_pane socket W R p)) = windows (krActions R) @ [PaneID p]"
  by (simp_all add: kill_pane_def Let_def split: prod.split)

text \<open>\<open>kill --all\<close>: every managed pane is killed once, its name is listed, and of the nested layers exactly those that are
  reported and end when they are told to are gone.\<close>

lemma killAll_ok:
  assumes "killAll socket W = Inr R"
  shows "\<exists>panes. managedPanes (kPanes W) = Inr panes \<and> windows (krActions R) = map PaneID panes
    \<and> krNames R = sort (map InfoName panes) \<and> kill_ok (kHasDir W) (kDies W) (kLive W) (krLayers R, krLive R)"
proof -
  define R0 where "R0 = \<lparr>krNames = [], krLayers = [], krActions = [], krLive = kLive W\<rparr>"
  obtain panes where p: "managedPanes (kPanes W) = Inr panes"
      "R = (foldl (kill_pane socket W) R0 panes)\<lparr>krNames := sort (krNames (foldl (kill_pane socket W) R0 panes))\<rparr>"
    using assms by (auto simp: killAll_def R0_def Let_def split: sum.splits)
  have f: "krNames (foldl (kill_pane socket W) r ps) = krNames r @ map InfoName ps
      \<and> windows (krActions (foldl (kill_pane socket W) r ps)) = windows (krActions r) @ map PaneID ps" for r ps
    by (induction ps arbitrary: r) (simp_all add: kill_pane_fields)
  have k: "kill_ok (kHasDir W) (kDies W) (kLive W) (krLayers r, krLive r) \<Longrightarrow>
      kill_ok (kHasDir W) (kDies W) (kLive W) (krLayers (foldl (kill_pane socket W) r ps), krLive (foldl (kill_pane socket W) r ps))" for r ps
    by (induction ps arbitrary: r) (simp_all add: kill_pane_ok)
  have "kill_ok (kHasDir W) (kDies W) (kLive W) (krLayers R0, krLive R0)" by (simp add: R0_def kill_ok_def ended_def)
  from k [OF this, of panes] show ?thesis using p f [of R0 panes] by (simp add: R0_def)
qed

end
