(* ===== verification/Tmux.thy ===== *)
theory Tmux
  imports Flags Registry Proto
begin

text \<open>
  The tmux backend (\<open>internal/tmux\<close>): the command line of every operation and what is read from the output of tmux. Running
  tmux is the operating system; its output is an argument.
\<close>

section \<open>Command lines\<close>

definition SessionName :: "byte list" where "SessionName = bs ''pairmux''"

text \<open>\<open>run\<close>: \<open>None\<close> is \<open>ErrInvalidSocket\<close>.\<close>

definition tmux_run :: "byte list \<Rightarrow> byte list list \<Rightarrow> byte list list option" where
  "tmux_run socket args = (if ValidSocketName socket then Some ([bs ''tmux'', bs ''-L'', socket] @ args) else None)"

record NewWindowReq =
  wrName :: "byte list"
  wrDir :: "byte list"
  wrEnv :: "(byte list \<times> byte list) list"
  wrArgv :: "byte list list"
  wrGate :: "byte list"

text \<open>The environment is a Go map: one value per key, in the order of the keys.\<close>

definition env_args :: "(byte list \<times> byte list) list \<Rightarrow> byte list list" where
  "env_args env = concat (map (\<lambda>k. [bs ''-e'', k @ bs ''='' @ the (map_of env k)]) (sort (remdups (map fst env))))"

definition gate_script :: "byte list" where
  "gate_script = bs ''read -r _ <'' @ [0x22] @ bs ''$1'' @ [0x22] @ bs '' || :; shift; exec '' @ [0x22] @ bs ''$@'' @ [0x22]"

definition NewWindow_args :: "NewWindowReq \<Rightarrow> byte list list" where
  "NewWindow_args r =
     [bs ''new-window'', bs ''-d'', bs ''-P'', bs ''-F'', bs ''#{pane_id}'', bs ''-t'', SessionName @ bs '':'', bs ''-n'', wrName r]
     @ (if wrDir r \<noteq> [] then [bs ''-c'', wrDir r] else [])
     @ env_args (wrEnv r)
     @ (if wrArgv r = [] then []
        else [bs ''--''] @ (if wrGate r \<noteq> [] then [bs ''sh'', bs ''-c'', gate_script, bs ''sh'', wrGate r] else []) @ wrArgv r)"

definition shSingleQuote :: "byte list \<Rightarrow> byte list" where
  "shSingleQuote s = squote # quote_bytes s @ [squote]"

definition PipePaneAppend_args :: "byte list \<Rightarrow> byte list \<Rightarrow> byte list list" where
  "PipePaneAppend_args pane path = [bs ''pipe-pane'', bs ''-t'', pane, bs ''-o'', bs ''cat >> '' @ shSingleQuote path]"

definition SendLiteral_args :: "byte list \<Rightarrow> byte list \<Rightarrow> byte list list" where
  "SendLiteral_args pane text = [bs ''send-keys'', bs ''-t'', pane, bs ''-l'', bs ''--'', text]"

definition SendKeys_args :: "byte list \<Rightarrow> byte list list \<Rightarrow> byte list list" where
  "SendKeys_args pane ks = [bs ''send-keys'', bs ''-t'', pane] @ ks"

definition CapturePane_args :: "byte list \<Rightarrow> int \<Rightarrow> byte list list" where
  "CapturePane_args pane history =
     [bs ''capture-pane'', bs ''-p'', bs ''-t'', pane] @ (if history > 0 then [bs ''-S'', bs ''-'' @ itoa history] else [])"

definition SetPaneOption_args :: "byte list \<Rightarrow> byte list \<Rightarrow> byte list \<Rightarrow> byte list list" where
  "SetPaneOption_args pane opt val = [bs ''set-option'', bs ''-p'', bs ''-t'', pane, opt, val]"

definition KillWindowOf_args :: "byte list \<Rightarrow> byte list list" where
  "KillWindowOf_args pane = [bs ''kill-window'', bs ''-t'', pane]"

definition SelectWindow_args :: "byte list \<Rightarrow> byte list list" where
  "SelectWindow_args name = [bs ''select-window'', bs ''-t'', SessionName @ bs '':'' @ name]"

definition HasSession_args :: "byte list list" where
  "HasSession_args = [bs ''has-session'', bs ''-t'', SessionName]"

definition NewSession_args :: "byte list list" where
  "NewSession_args = [bs ''new-session'', bs ''-d'', bs ''-s'', SessionName, bs ''-x'', bs ''220'', bs ''-y'', bs ''50'']"

definition KillServer_args :: "byte list list" where
  "KillServer_args = [bs ''kill-server'']"

definition PaneTTY_args :: "byte list \<Rightarrow> byte list list" where
  "PaneTTY_args pane = [bs ''display'', bs ''-p'', bs ''-t'', pane, bs ''-F'', bs ''#{pane_tty}'']"

definition PaneAudience_args :: "byte list \<Rightarrow> byte list list" where
  "PaneAudience_args pane = [bs ''display'', bs ''-p'', bs ''-t'', pane, bs ''-F'', bs ''#{session_attached} #{window_active}'']"

definition AttachArgv :: "byte list \<Rightarrow> byte list list" where
  "AttachArgv socket = [bs ''tmux'', bs ''-L'', socket, bs ''attach'', bs ''-t'', SessionName]"

text \<open>\<open>EnsureSession\<close>: the commands it runs and whether it succeeds, given what each of them would answer.\<close>

definition EnsureSession :: "bool \<Rightarrow> bool \<Rightarrow> bool \<Rightarrow> byte list list list \<times> bool" where
  "EnsureSession there created there' =
     (if there then ([HasSession_args], True)
      else if created then ([HasSession_args, NewSession_args], True)
      else ([HasSession_args, NewSession_args, HasSession_args], there'))"

section \<open>Reading the output\<close>

text \<open>\<open>strings.Fields\<close>.\<close>

function fields_loop :: "byte list \<Rightarrow> byte list \<Rightarrow> byte list list" where
  "fields_loop cur [] = (if cur = [] then [] else [cur])"
| "fields_loop cur (b # s) =
     (let (r, n) = decode_rune (b # s)
      in if is_space r then (if cur = [] then [] else [cur]) @ fields_loop [] (drop (n - 1) s)
         else fields_loop (cur @ take n (b # s)) (drop (n - 1) s))"
  by pat_completeness auto
termination by (relation "measure (\<lambda>(cur, s). length s)") auto

definition fields :: "byte list \<Rightarrow> byte list list" where
  "fields s = fields_loop [] s"

definition Version_of :: "byte list \<Rightarrow> byte list option" where
  "Version_of out' = (case fields (trim_space out') of _ # v # _ \<Rightarrow> Some v | _ \<Rightarrow> None)"

definition sep :: byte where "sep = bc CHR ''|''"

definition parse_pane :: "byte list \<Rightarrow> pane_info option" where
  "parse_pane line =
     (let parts = split_on sep line
      in if line = [] \<or> length parts < 5 \<or> parts ! 2 = [] then None
         else Some \<lparr>PaneID = parts ! 0, Window = parts ! 1, InfoName = parts ! 2,
           CurrentCmd = join_with [sep] (butlast (drop 3 parts)), PaneDead = (last parts = bs ''1'')\<rparr>)"

definition ListManaged :: "byte list \<Rightarrow> pane_info list" where
  "ListManaged out' = List.map_filter parse_pane (split_on 0x0a out')"

definition PaneAudience_of :: "byte list \<Rightarrow> int \<times> bool" where
  "PaneAudience_of out' =
     (case fields (trim_space out') of
        [a, b] \<Rightarrow> (case atoi a of None \<Rightarrow> (0, False) | Some n \<Rightarrow> (n, b = bs ''1''))
      | _ \<Rightarrow> (0, False))"

section \<open>Laws\<close>

text \<open>The pane list as tmux prints it for \<open>listFormat\<close>, an empty name for a pane that is not managed.\<close>

definition pane_line :: "pane_info \<Rightarrow> byte list" where
  "pane_line p = join_with [sep] [PaneID p, Window p, InfoName p, CurrentCmd p, (if PaneDead p then bs ''1'' else bs ''0'')]"

definition tame :: "pane_info \<Rightarrow> bool" where
  "tame p \<longleftrightarrow> sep \<notin> set (PaneID p) \<union> set (Window p) \<union> set (InfoName p)
     \<and> 0x0a \<notin> set (PaneID p) \<union> set (Window p) \<union> set (InfoName p) \<union> set (CurrentCmd p)"

lemma sep_flag: "sep \<notin> set (if d then bs ''1'' else bs ''0'')"
  by (simp add: sep_def)

lemma parse_pane_line:
  assumes "tame p"
  shows "parse_pane (pane_line p) = (if InfoName p = [] then None else Some p)"
proof -
  let ?d = "if PaneDead p then bs ''1'' else bs ''0''"
  have t: "sep \<notin> set (PaneID p)" "sep \<notin> set (Window p)" "sep \<notin> set (InfoName p)" using assms by (simp_all add: tame_def)
  have s: "split_on sep (pane_line p) = [PaneID p, Window p, InfoName p] @ split_on sep (CurrentCmd p) @ [?d]"
    unfolding pane_line_def
    by (simp add: split_snoc split_no_sep [OF t(1)] split_no_sep [OF t(2)] split_no_sep [OF t(3)] split_no_sep [OF sep_flag]
        del: split_on.simps)
  have ne: "pane_line p \<noteq> []" by (simp add: pane_line_def)
  have l: "5 \<le> length (split_on sep (pane_line p))" unfolding s by (cases "split_on sep (CurrentCmd p)") auto
  have c: "join_with [sep] (split_on sep (CurrentCmd p)) = CurrentCmd p" by (rule join_split)
  have d: "(?d = bs ''1'') = PaneDead p" by simp
  show ?thesis
    using ne l c d by (simp add: parse_pane_def Let_def s butlast_append)
qed

text \<open>What tmux prints is read back: the managed panes, in order, with their commands, separators in them included.\<close>

lemma list_round_trip:
  assumes "list_all tame ps"
  shows "ListManaged (concat (map (\<lambda>p. pane_line p @ [0x0a]) ps)) = filter (\<lambda>p. InfoName p \<noteq> []) ps"
  using assms
proof (induction ps)
  case Nil
  then show ?case by (simp add: ListManaged_def parse_pane_def List.map_filter_def)
next
  case (Cons p ps)
  have "0x0a \<notin> set (pane_line p)" using Cons.prems by (auto simp: pane_line_def tame_def sep_def)
  then have "split_on 0x0a (pane_line p @ [0x0a] @ r) = pane_line p # split_on 0x0a r" for r
    using split_sep [of "0x0a" "pane_line p" r] by simp
  then show ?case
    using Cons parse_pane_line [of p] by (simp add: ListManaged_def List.map_filter_def)
qed

text \<open>The window name of a pane that is not managed is not pairmux's: with a separator in it the pane is taken for a managed one.\<close>

lemma foreign_window_is_listed:
  "ListManaged (pane_line \<lparr>PaneID = bs ''%1'', Window = bs ''x|build'', InfoName = [], CurrentCmd = bs ''vim'', PaneDead = False\<rparr>)
   = [\<lparr>PaneID = bs ''%1'', Window = bs ''x'', InfoName = bs ''build'', CurrentCmd = bs ''|vim'', PaneDead = False\<rparr>]"
  by code_simp

text \<open>The shell that tmux starts for a pipe appends to exactly the given file, whatever bytes its path has.\<close>

lemma reads_shSingleQuote: "reads_as (shSingleQuote s) s"
  unfolding shSingleQuote_def by (rule reads_quote_bytes)

lemma pipe_pane_words:
  "sh_words None (last (PipePaneAppend_args pane path)) = [bs ''cat'', bs ''>>'', path]"
proof -
  have "sh_words None (join_with [0x20] [bs ''cat'', bs ''>>'', shSingleQuote path]) = [bs ''cat'', bs ''>>'', path]"
    by (rule sh_words_join) (simp add: reads_shSingleQuote reads_plain plain_byte_def)
  then show ?thesis by (simp add: PipePaneAppend_args_def)
qed

text \<open>No command line reaches a server outside tmux's own directory: a socket name holds no path separator.\<close>

lemma tmux_run_socket: "tmux_run socket args = Some argv \<Longrightarrow> argv = [bs ''tmux'', bs ''-L'', socket] @ args \<and> bc CHR ''/'' \<notin> set socket"
  by (auto simp: tmux_run_def ValidSocketName_def socket_head_def socket_byte_def name_head_def is_digit_def list_all_iff
      split: if_splits list.splits)

lemma EnsureSession_ok: "snd (EnsureSession a b c) \<longleftrightarrow> a \<or> b \<or> c"
  by (simp add: EnsureSession_def)

end
