(* ===== verification/Eventlog.thy ===== *)
theory Eventlog
  imports Json Commands
begin

text \<open>
  The event log as a file (\<open>AppendEvent\<close> and \<open>Events\<close> of \<open>internal/journal/journal.go\<close>, the tags of \<open>core.Event\<close>): one line
  of JSON per event. Formatting and parsing a time are arguments (\<open>time.Time\<close>); \<open>None\<close> of the parser is an error.
  The rest of the development takes the log as the list of its events; the laws here say when it may.
\<close>

section \<open>Encoding\<close>

definition hex_of :: "int \<Rightarrow> byte" where
  "hex_of d = (if d < 10 then of_int (48 + d) else of_int (87 + d))"

text \<open>The strings of \<open>json.Marshal\<close>, which also escapes what HTML would read.\<close>

definition escape_ascii :: "byte \<Rightarrow> byte list" where
  "escape_ascii b =
     (if b = quote \<or> b = backslash then [backslash, b]
      else if b = 0x08 then [backslash, bc CHR ''b''] else if b = 0x0c then [backslash, bc CHR ''f'']
      else if b = 0x0a then [backslash, bc CHR ''n''] else if b = 0x0d then [backslash, bc CHR ''r'']
      else if b = 0x09 then [backslash, bc CHR ''t'']
      else if b < 0x20 \<or> b = bc CHR ''<'' \<or> b = bc CHR ''>'' \<or> b = bc CHR ''&''
        then [backslash] @ bs ''u00'' @ [hex_of (uint b div 16), hex_of (uint b mod 16)]
      else [b])"

function json_escaped :: "byte list \<Rightarrow> byte list" where
  "json_escaped [] = []"
| "json_escaped (b # s) =
     (if b < 0x80 then escape_ascii b @ json_escaped s
      else let (r, n) = decode_rune (b # s)
      in (if r = rune_error \<and> n = 1 then [backslash] @ bs ''ufffd''
          else if r = 0x2028 \<or> r = 0x2029 then [backslash] @ bs ''u202'' @ [hex_of (r mod 16)]
          else take n (b # s)) @ json_escaped (drop (n - 1) s))"
  by pat_completeness auto
termination by (relation "measure length") auto

definition json_string :: "byte list \<Rightarrow> byte list" where
  "json_string s = quote # json_escaped s @ [quote]"

definition type_text :: "EventType \<Rightarrow> byte list" where
  "type_text t = (case t of EvCreated \<Rightarrow> bs ''created'' | EvCmdStart \<Rightarrow> bs ''cmd_start'' | EvCmdEnd \<Rightarrow> bs ''cmd_end''
     | EvNote \<Rightarrow> bs ''note'' | EvSent \<Rightarrow> bs ''sent'' | EvOther s \<Rightarrow> s)"

definition type_of_text :: "byte list \<Rightarrow> EventType" where
  "type_of_text s =
     (if s = bs ''created'' then EvCreated else if s = bs ''cmd_start'' then EvCmdStart else if s = bs ''cmd_end'' then EvCmdEnd
      else if s = bs ''note'' then EvNote else if s = bs ''sent'' then EvSent else EvOther s)"

text \<open>The members of an event, the empty ones left out, each with its text.\<close>

definition event_members :: "(int \<Rightarrow> byte list) \<Rightarrow> event \<Rightarrow> (byte list \<times> byte list) list" where
  "event_members fmt ev =
     [(bs ''ts'', json_string (fmt (TS ev))), (bs ''type'', json_string (type_text (EvType ev)))]
     @ (if CmdID ev = 0 then [] else [(bs ''cmd_id'', itoa (CmdID ev))])
     @ (if Offset ev = 0 then [] else [(bs ''offset'', itoa (Offset ev))])
     @ (case EvExit ev of None \<Rightarrow> [] | Some n \<Rightarrow> [(bs ''exit_code'', itoa n)])
     @ (if EvText ev = [] then [] else [(bs ''text'', json_string (EvText ev))])"

definition member_text :: "byte list \<times> byte list \<Rightarrow> byte list" where
  "member_text m = json_string (fst m) @ [bc CHR '':''] @ snd m"

definition event_json :: "(int \<Rightarrow> byte list) \<Rightarrow> event \<Rightarrow> byte list" where
  "event_json fmt ev = [bc CHR ''{''] @ join_with [bc CHR '',''] (map member_text (event_members fmt ev)) @ [bc CHR ''}'']"

definition event_line :: "(int \<Rightarrow> byte list) \<Rightarrow> event \<Rightarrow> byte list" where
  "event_line fmt ev = event_json fmt ev @ [NL]"

text \<open>\<open>AppendEvent\<close> when the file can be opened and written.\<close>

definition append_event :: "(int \<Rightarrow> byte list) \<Rightarrow> int \<Rightarrow> event \<Rightarrow> byte list \<Rightarrow> byte list" where
  "append_event fmt now ev file = file @ event_line fmt (stamp now ev)"

section \<open>Decoding\<close>

text \<open>\<open>encoding/json\<close> takes a member for a field if their names agree up to the folding of letters; the two letters that
  are not ASCII and fold into it are the long s and the Kelvin sign.\<close>

fun fold_name :: "byte list \<Rightarrow> byte list" where
  "fold_name [] = []"
| "fold_name (b # s) =
     (if b = 0xc5 \<and> take 1 s = [0xbf] then bc CHR ''S'' # fold_name (drop 1 s)
      else if b = 0xe2 \<and> take 2 s = [0x84, 0xaa] then bc CHR ''K'' # fold_name (drop 2 s)
      else (if bc CHR ''a'' \<le> b \<and> b \<le> bc CHR ''z'' then b - 32 else b) # fold_name s)"

definition names_field :: "byte list \<Rightarrow> string \<Rightarrow> bool" where
  "names_field k f \<longleftrightarrow> fold_name k = fold_name (bs f)"

text \<open>One member stored into the event; \<open>null\<close> stores nothing, except that it clears the exit code.\<close>

definition set_member :: "(byte list \<Rightarrow> int option) \<Rightarrow> byte list \<times> json \<Rightarrow> event \<Rightarrow> event option" where
  "set_member ptime m ev =
     (let (k, v) = m;
          str = (\<lambda>f. case v of JNull \<Rightarrow> Some ev | JStr s \<Rightarrow> f s | _ \<Rightarrow> None);
          num = (\<lambda>f. case v of JNull \<Rightarrow> Some ev | JNum l \<Rightarrow> map_option f (atoi l) | _ \<Rightarrow> None)
      in if names_field k ''ts'' then str (\<lambda>s. map_option (\<lambda>t. ev\<lparr>TS := t\<rparr>) (ptime s))
         else if names_field k ''type'' then str (\<lambda>s. Some (ev\<lparr>EvType := type_of_text s\<rparr>))
         else if names_field k ''cmd_id'' then num (\<lambda>n. ev\<lparr>CmdID := n\<rparr>)
         else if names_field k ''offset'' then num (\<lambda>n. ev\<lparr>Offset := n\<rparr>)
         else if names_field k ''exit_code'' then (case v of JNull \<Rightarrow> Some (ev\<lparr>EvExit := None\<rparr>) | _ \<Rightarrow> num (\<lambda>n. ev\<lparr>EvExit := Some n\<rparr>))
         else if names_field k ''text'' then str (\<lambda>s. Some (ev\<lparr>EvText := s\<rparr>))
         else Some ev)"

definition set_members :: "(byte list \<Rightarrow> int option) \<Rightarrow> (byte list \<times> json) list \<Rightarrow> event option" where
  "set_members ptime ms =
     foldl (\<lambda>acc m. case acc of None \<Rightarrow> None | Some ev \<Rightarrow> set_member ptime m ev) (Some (blank_event (EvOther []))) ms"

definition parse_event :: "(byte list \<Rightarrow> int option) \<Rightarrow> byte list \<Rightarrow> event option" where
  "parse_event ptime line =
     (case json_decode line of
        Some (JObj ms) \<Rightarrow> set_members ptime ms
      | Some JNull \<Rightarrow> Some (blank_event (EvOther []))
      | _ \<Rightarrow> None)"

definition maxEventLine :: int where "maxEventLine = 16777216"

text \<open>The lines of \<open>bufio.ScanLines\<close>.\<close>

definition drop_cr :: "byte list \<Rightarrow> byte list" where
  "drop_cr l = (if l \<noteq> [] \<and> last l = CR then butlast l else l)"

definition scan_lines :: "byte list \<Rightarrow> byte list list" where
  "scan_lines file = (let ls = split_on NL file in if last ls = [] then butlast ls else ls)"

text \<open>\<open>None\<close>: a line too long for the scanner.\<close>

definition Events :: "(byte list \<Rightarrow> int option) \<Rightarrow> byte list \<Rightarrow> event list option" where
  "Events ptime file =
     (let ls = scan_lines file
      in if list_ex (\<lambda>l. int (length l) \<ge> maxEventLine) ls then None
         else Some (List.map_filter (\<lambda>l. let t = trim_space (drop_cr l) in if t = [] then None else parse_event ptime t) ls))"

section \<open>Strings survive\<close>

text \<open>\<open>p\<close> stands for \<open>s\<close> inside a JSON string, wherever it stands.\<close>

definition reads_text :: "byte list \<Rightarrow> byte list \<Rightarrow> bool" where
  "reads_text p s \<longleftrightarrow>
     (\<forall>t. string_body (p @ t) = map_option (\<lambda>x. (p @ fst x, snd x)) (string_body t)) \<and> (\<forall>t. unquote (p @ t) = s @ unquote t)"

lemma reads_text_append: "reads_text p s \<Longrightarrow> reads_text q u \<Longrightarrow> reads_text (p @ q) (s @ u)"
  by (auto simp: reads_text_def option.map_comp comp_def case_prod_beta)

lemma reads_text_Nil: "reads_text [] []"
  by (simp add: reads_text_def option.map_ident)

lemma reads_text_jstring: "reads_text p s \<Longrightarrow> jstring (quote # p @ quote # t) = Some (s, t)"
proof -
  assume "reads_text p s"
  then have "string_body (p @ quote # t) = Some (p, t)" "unquote (p @ []) = s @ unquote []"
    unfolding reads_text_def by (simp_all del: append_Nil2)
  then show ?thesis by (simp add: jstring_def)
qed

lemma reads_plain_text: "0x20 \<le> b \<Longrightarrow> b < 0x80 \<Longrightarrow> b \<noteq> quote \<Longrightarrow> b \<noteq> backslash \<Longrightarrow> reads_text [b] [b]"
  by (auto simp: reads_text_def not_less map_option_case split: option.split)

lemma nibble: "0 \<le> d \<Longrightarrow> d < 16 \<Longrightarrow>
    d = 0 \<or> d = 1 \<or> d = 2 \<or> d = 3 \<or> d = 4 \<or> d = 5 \<or> d = 6 \<or> d = 7 \<or> d = 8 \<or> d = 9 \<or> d = 10 \<or> d = 11 \<or> d = 12 \<or> d = 13 \<or> d = 14 \<or> d = (15::int)"
  by presburger

lemma hex_of_value: "0 \<le> d \<Longrightarrow> d < 16 \<Longrightarrow> hex_value (hex_of d) = Some d"
  by (drule (1) nibble, elim disjE) (simp_all add: hex_of_def hex_value_def is_digit_def)

lemma hex_of_plain: "0 \<le> d \<Longrightarrow> d < 16 \<Longrightarrow> hex_of d \<noteq> quote \<and> hex_of d \<noteq> backslash \<and> \<not> hex_of d < 0x20"
  by (drule (1) nibble, elim disjE) (simp_all add: hex_of_def)

lemma reads_short_escape:
  assumes "json_escape c = Some e" "c \<noteq> bc CHR ''u''"
  shows "reads_text [backslash, c] [e]"
  using assms by (simp add: reads_text_def map_option_case split: option.split)

lemma hex4_of:
  assumes "0 \<le> a" "a < 16" "0 \<le> b" "b < 16" "0 \<le> c" "c < 16" "0 \<le> d" "d < 16"
  shows "hex4 ([hex_of a, hex_of b, hex_of c, hex_of d] @ t) = Some (((a * 16 + b) * 16 + c) * 16 + d)"
  using assms by (simp add: hex4_def hex_of_value)

lemma reads_unicode_escape:
  assumes "0 \<le> a" "a < 16" "0 \<le> b" "b < 16" "0 \<le> c" "c < 16" "0 \<le> d" "d < 16"
    and "u = ((a * 16 + b) * 16 + c) * 16 + d" "\<not> surrogate u"
  shows "reads_text ([backslash, bc CHR ''u''] @ [hex_of a, hex_of b, hex_of c, hex_of d]) (encode_rune u)"
proof -
  have h: "hex4 (hex_of a # hex_of b # hex_of c # hex_of d # t) = Some u" for t
    using hex4_of [OF assms(1-8), of t] assms(9) by simp
  have n: "json_escape (bc CHR ''u'') = None" by code_simp
  show ?thesis
    using h n hex_of_plain [OF assms(1,2)] hex_of_plain [OF assms(3,4)] hex_of_plain [OF assms(5,6)] hex_of_plain [OF assms(7,8)] assms(10)
    by (simp add: reads_text_def unicode_escape_def option.map_comp comp_def case_prod_beta)
qed

lemma hex_zero: "bs ''00'' = [hex_of 0, hex_of 0]" by (simp add: hex_of_def)

lemma reads_escape_ascii:
  assumes "b < 0x80"
  shows "reads_text (escape_ascii b) [b]"
proof -
  have l: "uint b < 128" using assms by (simp add: word_less_def)
  have e: "json_escape quote = Some quote" "json_escape backslash = Some backslash" "json_escape (bc CHR ''b'') = Some 0x08"
    "json_escape (bc CHR ''f'') = Some 0x0c" "json_escape (bc CHR ''n'') = Some 0x0a" "json_escape (bc CHR ''r'') = Some 0x0d"
    "json_escape (bc CHR ''t'') = Some 0x09"
    by code_simp+
  have u: "reads_text ([backslash] @ bs ''u00'' @ [hex_of (uint b div 16), hex_of (uint b mod 16)]) [b]"
  proof -
    have "reads_text ([backslash, bc CHR ''u''] @ [hex_of 0, hex_of 0, hex_of (uint b div 16), hex_of (uint b mod 16)]) (encode_rune (uint b))"
      using l by (intro reads_unicode_escape) (auto simp: surrogate_def pos_imp_zdiv_nonneg_iff)
    moreover have "encode_rune (uint b) = [b]" using l by (simp add: encode_rune_def valid_rune_def surrogate_def)
    ultimately show ?thesis using hex_zero by simp
  qed
  show ?thesis
    using u reads_plain_text [of b] assms
      reads_short_escape [OF e(1)] reads_short_escape [OF e(2)] reads_short_escape [OF e(3)] reads_short_escape [OF e(4)]
      reads_short_escape [OF e(5)] reads_short_escape [OF e(6)] reads_short_escape [OF e(7)]
    by (auto simp: escape_ascii_def not_less)
qed

text \<open>The text of the logs: valid UTF-8.\<close>

definition utf8_text :: "byte list \<Rightarrow> bool" where
  "utf8_text s \<longleftrightarrow> utf8 (runes_of s) = s"

lemma runes_valid: "list_all valid_rune (runes_of s)"
  by (induction s rule: runes_of.induct) (subst runes_of.simps, simp add: decode_rune_valid)

lemma encode_high:
  assumes "valid_rune r" "0x80 \<le> r"
  shows "\<forall>b \<in> set (encode_rune r). \<not> b < 0x80" "2 \<le> length (encode_rune r)"
  using assms
  by (auto simp: encode_rune_def valid_rune_def enc2_def enc3_def enc4_def byte_of_int_less simp del: of_int_add of_int_numeral)

lemma string_body_high: "\<forall>b \<in> set p. \<not> b < 0x80 \<Longrightarrow> string_body (p @ t) = map_option (\<lambda>x. (p @ fst x, snd x)) (string_body t)"
proof (induction p)
  case (Cons b p)
  then have "b \<noteq> quote" "\<not> b < 0x20" "b \<noteq> backslash" by (auto simp: word_less_def)
  then show ?case using Cons by (simp add: option.map_comp comp_def case_prod_beta)
qed (simp add: option.map_ident)

lemma reads_rune:
  assumes "valid_rune r" "0x80 \<le> r"
  shows "reads_text (encode_rune r) (encode_rune r)"
proof -
  obtain b p where e: "encode_rune r = b # p" using encode_ne [OF assms(1)] by (cases "encode_rune r") auto
  then have h: "\<not> b < 0x80" "b \<noteq> backslash" using encode_high [OF assms] by (auto simp: word_less_def)
  have "unquote (encode_rune r @ t) = encode_rune r @ unquote t" for t
    using decode_encode [OF assms(1), of t] h by (simp add: e)
  then show ?thesis using string_body_high [OF encode_high(1) [OF assms]] by (simp add: reads_text_def)
qed

lemma escaped_rune:
  assumes "valid_rune r"
  shows "\<exists>e. (\<forall>s. json_escaped (encode_rune r @ s) = e @ json_escaped s) \<and> reads_text e (encode_rune r)"
proof (cases "r < 0x80")
  case True
  then have e: "encode_rune r = [of_int r]" "(of_int r :: byte) < 0x80"
    using assms by (auto simp: encode_rune_def valid_rune_def byte_of_int_simps)
  then show ?thesis using reads_escape_ascii [OF e(2)] by (intro exI [of _ "escape_ascii (of_int r)"]) simp
next
  case False
  then have r: "0x80 \<le> r" by simp
  obtain b p where e: "encode_rune r = b # p" using encode_ne [OF assms] by (cases "encode_rune r") auto
  have h: "\<not> b < 0x80" "p \<noteq> []" using encode_high [OF assms r] by (auto simp: e)
  have d: "decode_rune (b # p @ s) = (r, Suc (length p))" for s using decode_encode [OF assms, of s] by (simp add: e)
  show ?thesis
  proof (cases "r = 0x2028 \<or> r = 0x2029")
    case True
    have u: "bs ''u202'' = [bc CHR ''u'', hex_of 2, hex_of 0, hex_of 2]" by (simp add: hex_of_def)
    have "reads_text ([backslash, bc CHR ''u''] @ [hex_of 2, hex_of 0, hex_of 2, hex_of (r mod 16)]) (encode_rune r)"
      using True by (intro reads_unicode_escape) (auto simp: surrogate_def)
    then show ?thesis
      using h d True u by (intro exI [of _ "[backslash] @ bs ''u202'' @ [hex_of (r mod 16)]"]) (auto simp: e rune_error_def)
  next
    case False
    then show ?thesis using h d reads_rune [OF assms r] by (intro exI [of _ "b # p"]) (auto simp: e)
  qed
qed

lemma reads_escaped_utf8: "list_all valid_rune rs \<Longrightarrow> reads_text (json_escaped (utf8 rs)) (utf8 rs)"
proof (induction rs)
  case (Cons r rs)
  then obtain e where "\<forall>s. json_escaped (encode_rune r @ s) = e @ json_escaped s" "reads_text e (encode_rune r)"
    using escaped_rune [of r] by auto
  then show ?case using Cons reads_text_append [of e "encode_rune r"] by (simp add: utf8_def)
qed (simp add: utf8_def reads_text_Nil)

lemma reads_escaped: "utf8_text s \<Longrightarrow> reads_text (json_escaped s) s"
  using reads_escaped_utf8 [OF runes_valid, of s] by (simp add: utf8_text_def)

text \<open>No line break stands in a string that can be read.\<close>

lemma escape_printable: "json_escape c \<noteq> None \<Longrightarrow> 0x20 \<le> c"
  by (auto simp: json_escape_def split: if_splits)

lemma string_body_printable: "string_body s = Some (b, r) \<Longrightarrow> \<forall>x \<in> set b. 0x20 \<le> x"
proof (induction s arbitrary: b r rule: string_body.induct)
  case (2 x q)
  consider "x = quote" | "x \<noteq> quote" "x < 0x20" | "x \<noteq> quote" "\<not> x < 0x20" "x = backslash" | "x \<noteq> quote" "\<not> x < 0x20" "x \<noteq> backslash"
    by blast
  then show ?case
  proof cases
    case 3
    then obtain c q' where q: "q = c # q'" using 2(3) by (cases q) auto
    with 2(3) 3 obtain b' where b: "string_body q' = Some (b', r)" "b = x # c # b'" and e: "json_escape c \<noteq> None \<or> c = bc CHR ''u''"
      by (auto split: if_splits)
    have "\<forall>x \<in> set b'. 0x20 \<le> x" using 2(1) [OF 3 q _ b(1)] 2(3) 3 q by (auto split: if_splits)
    then show ?thesis using b(2) e escape_printable [of c] 3 by auto
  next
    case 4
    then obtain b' where b: "string_body q = Some (b', r)" "b = x # b'" using 2(3) by auto
    then show ?thesis using 2(2) [OF 4 b(1)] 4 by (auto simp: not_less)
  qed (use 2(3) in auto)
qed simp

lemma json_string_printable: "utf8_text s \<Longrightarrow> x \<in> set (json_string s) \<Longrightarrow> 0x20 \<le> x"
proof -
  assume "utf8_text s" "x \<in> set (json_string s)"
  then have "string_body (json_escaped s @ [quote]) = Some (json_escaped s, [])"
    using reads_escaped unfolding reads_text_def by simp
  then show ?thesis using string_body_printable \<open>x \<in> set (json_string s)\<close> by (fastforce simp: json_string_def)
qed

section \<open>Events survive\<close>

lemma digits_hd_pos: "0 < n \<Longrightarrow> hd (digits n) \<noteq> bc CHR ''0''"
proof (induction n rule: digits.induct)
  case (1 n)
  show ?case
  proof (cases "n < 10")
    case True
    then have "uint (of_nat (n + 48) :: byte) = int n + 48" by (rule digit_byte)
    then show ?thesis using True 1(2) by (auto simp: digits.simps [of n] simp del: of_nat_add)
  next
    case False
    then have "hd (digits (n div 10)) \<noteq> bc CHR ''0''" using 1 by simp
    then show ?thesis using False by (subst digits.simps) simp
  qed
qed

lemma int_part_digits:
  assumes "\<not> is_digit c"
  shows "int_part (digits n @ c # t) = Some (digits n, c # t)"
proof (cases "n = 0")
  case True
  then show ?thesis by (simp add: digits.simps int_part_def)
next
  case False
  then have "hd (digits n) \<noteq> bc CHR ''0''" by (intro digits_hd_pos) simp
  moreover have "\<forall>x \<in> set (digits n). is_digit x" using digits_are_digits by (simp add: list_all_iff)
  ultimately show ?thesis using assms digits_ne [of n]
    by (cases "digits n") (simp_all add: int_part_def digits_of_def Let_def takeWhile_append2 dropWhile_append2)
qed

definition ends_value :: "byte \<Rightarrow> bool" where
  "ends_value c \<longleftrightarrow> c = bc CHR '','' \<or> c = bc CHR ''}''"

lemma ends_value_not: "ends_value c \<Longrightarrow> \<not> is_digit c \<and> c \<noteq> bc CHR ''.'' \<and> c \<noteq> bc CHR ''e'' \<and> c \<noteq> bc CHR ''E'' \<and> \<not> json_space c"
  by (auto simp: ends_value_def is_digit_def json_space_def)

lemma jnumber_itoa:
  assumes "ends_value c"
  shows "jnumber (itoa n @ c # t) = Some (itoa n, c # t)"
proof -
  note e = ends_value_not [OF assms]
  have p: "int_part (digits k @ c # t) = Some (digits k, c # t)" for k using e by (intro int_part_digits) simp
  have f: "frac_part (c # t) = Some ([], c # t)" "exp_part (c # t) = Some ([], c # t)"
    using e by (simp_all add: frac_part_def exp_part_def)
  have m: "hd (digits k) \<noteq> bc CHR ''-''" for k using digits_hd [of k] by (auto simp: is_digit_def)
  show ?thesis
  proof (cases "n < 0")
    case True
    then show ?thesis using p f by (simp add: jnumber_def itoa_def after_def)
  next
    case False
    obtain b q where b: "digits (nat n) = b # q" using digits_ne by (cases "digits (nat n)") auto
    then show ?thesis using False p [of "nat n"] f m [of "nat n"] by (simp add: jnumber_def itoa_def after_def)
  qed
qed

text \<open>\<open>p\<close> stands for the value \<open>v\<close> of a member.\<close>

definition reads_value :: "byte list \<Rightarrow> json \<Rightarrow> bool" where
  "reads_value p v \<longleftrightarrow> (\<forall>f d c t. ends_value c \<longrightarrow> jvalue (Suc f) d (p @ c # t) = Some (v, c # t))"

lemma reads_value_string: "utf8_text s \<Longrightarrow> reads_value (json_string s) (JStr s)"
  using reads_text_jstring [OF reads_escaped, of s]
  by (simp add: reads_value_def json_string_def json_space_def jatom_def)

lemma reads_value_int: "reads_value (itoa n) (JNum (itoa n))"
proof -
  have "jvalue (Suc f) d (itoa n @ c # t) = Some (JNum (itoa n), c # t)" if c: "ends_value c" for f d c t
  proof -
    obtain b q where b: "itoa n = b # q" using itoa_ne by (cases "itoa n") auto
    then have "b = bc CHR ''-'' \<or> is_digit b" using itoa_bytes [of b n] by simp
    then have "\<not> json_space b" "b \<notin> set (bs ''[{ntf'')" "b \<noteq> quote" by (auto simp: is_digit_def json_space_def)
    then show ?thesis using jnumber_itoa [OF c, of n t] by (simp add: b jatom_def)
  qed
  then show ?thesis by (simp add: reads_value_def)
qed

lemma members_read:
  assumes "list_all2 (\<lambda>m kv. utf8_text (fst m) \<and> fst kv = fst m \<and> reads_value (snd m) (snd kv)) ms kvs" "ms \<noteq> []" "length ms < f"
  shows "jmembers f d (join_with [bc CHR '',''] (map member_text ms) @ bc CHR ''}'' # t) = Some (kvs, t)"
  using assms
proof (induction ms kvs arbitrary: f rule: list_all2_induct)
  case (Cons m ms kv kvs)
  obtain g where f: "f = Suc g" "length ms < g" using Cons.prems by (cases f) auto
  obtain k p where m: "m = (k, p)" by (cases m)
  obtain v where kv: "kv = (k, v)" using Cons.hyps(1) m by (cases kv) auto
  have r: "utf8_text k" "reads_value p v" using Cons.hyps(1) m kv by auto
  have j: "jstring (skip_space (json_string k @ u)) = Some (k, u)" for u
    using reads_text_jstring [OF reads_escaped [OF r(1)]] by (simp add: json_string_def json_space_def)
  have v: "jvalue g d (p @ c # u) = Some (v, c # u)" if "ends_value c" for c u
    using r(2) that f(2) by (cases g) (auto simp: reads_value_def)
  have s: "\<not> json_space (bc CHR '':'')" "\<not> json_space (bc CHR '','')" "\<not> json_space (bc CHR ''}'')"
    by (simp_all add: json_space_def)
  have e: "ends_value (bc CHR '','')" "ends_value (bc CHR ''}'')" by (simp_all add: ends_value_def)
  show ?case
  proof (cases ms)
    case Nil
    then show ?thesis using Cons.hyps(2) j v [OF e(2)] s by (simp add: f m kv member_text_def)
  next
    case (Cons m' ms')
    then have i: "jmembers g d (join_with [bc CHR '',''] (map member_text ms) @ bc CHR ''}'' # t) = Some (kvs, t)"
      using Cons.IH f by simp
    have w: "join_with [bc CHR '',''] (map member_text (m # ms)) = json_string k @ bc CHR '':'' # p @ bc CHR '','' # join_with [bc CHR '',''] (map member_text ms)"
      using Cons by (simp add: m member_text_def)
    show ?thesis using i j v [OF e(1)] s unfolding w f(1) by (simp add: kv)
  qed
qed simp

definition event_values :: "(int \<Rightarrow> byte list) \<Rightarrow> event \<Rightarrow> (byte list \<times> json) list" where
  "event_values fmt ev =
     [(bs ''ts'', JStr (fmt (TS ev))), (bs ''type'', JStr (type_text (EvType ev)))]
     @ (if CmdID ev = 0 then [] else [(bs ''cmd_id'', JNum (itoa (CmdID ev)))])
     @ (if Offset ev = 0 then [] else [(bs ''offset'', JNum (itoa (Offset ev)))])
     @ (case EvExit ev of None \<Rightarrow> [] | Some n \<Rightarrow> [(bs ''exit_code'', JNum (itoa n))])
     @ (if EvText ev = [] then [] else [(bs ''text'', JStr (EvText ev))])"

text \<open>The events the file gives back: their strings are UTF-8, their numbers fit, and the time survives.\<close>

definition int64 :: "int \<Rightarrow> bool" where "int64 n \<longleftrightarrow> - (2 ^ 63) \<le> n \<and> n < 2 ^ 63"

definition storable :: "(int \<Rightarrow> byte list) \<Rightarrow> (byte list \<Rightarrow> int option) \<Rightarrow> event \<Rightarrow> bool" where
  "storable fmt ptime ev \<longleftrightarrow>
     utf8_text (fmt (TS ev)) \<and> ptime (fmt (TS ev)) = Some (TS ev)
     \<and> utf8_text (type_text (EvType ev)) \<and> type_of_text (type_text (EvType ev)) = EvType ev \<and> utf8_text (EvText ev)
     \<and> int64 (CmdID ev) \<and> int64 (Offset ev) \<and> (case EvExit ev of None \<Rightarrow> True | Some n \<Rightarrow> int64 n)"

lemma utf8_names:
  "utf8_text (bs ''ts'')" "utf8_text (bs ''type'')" "utf8_text (bs ''cmd_id'')" "utf8_text (bs ''offset'')"
  "utf8_text (bs ''exit_code'')" "utf8_text (bs ''text'')"
  by code_simp+

lemma members_values:
  assumes "storable fmt ptime ev"
  shows "list_all2 (\<lambda>m kv. utf8_text (fst m) \<and> fst kv = fst m \<and> reads_value (snd m) (snd kv)) (event_members fmt ev) (event_values fmt ev)"
  unfolding event_members_def event_values_def
  using assms utf8_names reads_value_string reads_value_int
  by (intro list_all2_appendI) (auto simp: storable_def split: option.split)

lemma member_text_length: "length ms \<le> length (join_with [c] (map member_text ms))"
proof (induction ms rule: induct_list012)
  case (2 m)
  then show ?case by (simp add: member_text_def)
next
  case (3 m m' ms)
  then show ?case by simp
qed simp

lemma json_decode_event:
  assumes "storable fmt ptime ev"
  shows "json_decode (event_json fmt ev) = Some (JObj (event_values fmt ev))"
proof -
  let ?ms = "event_members fmt ev" and ?b = "join_with [bc CHR '',''] (map member_text (event_members fmt ev)) @ [bc CHR ''}'']"
  have n: "?ms \<noteq> []" by (simp add: event_members_def)
  obtain q where q: "?b = quote # q" by (simp add: event_members_def member_text_def json_string_def split: option.split)
  have b: "event_json fmt ev = bc CHR ''{'' # quote # q" using q by (simp add: event_json_def)
  define g where "g = 2 * length (event_json fmt ev)"
  have "jmembers g (maxNestingDepth - 1) ?b = Some (event_values fmt ev, [])"
    using members_read [OF members_values [OF assms] n, of g "maxNestingDepth - 1" "[]"] member_text_length [of ?ms "bc CHR '',''"]
    by (simp add: event_json_def g_def)
  then have "jvalue (Suc g) maxNestingDepth (event_json fmt ev) = Some (JObj (event_values fmt ev), [])"
    unfolding b jvalue.simps q by (simp add: json_space_def maxNestingDepth_def del: jmembers.simps)
  then have "jvalue (2 * length (event_json fmt ev) + 1) maxNestingDepth (event_json fmt ev) = Some (JObj (event_values fmt ev), [])"
    by (simp only: g_def Suc_eq_plus1)
  then show ?thesis by (simp add: json_decode_def)
qed

lemma field_names:
  "names_field (bs ''ts'') ''ts''"
  "\<not> names_field (bs ''type'') ''ts''" "names_field (bs ''type'') ''type''"
  "\<not> names_field (bs ''cmd_id'') ''ts''" "\<not> names_field (bs ''cmd_id'') ''type''" "names_field (bs ''cmd_id'') ''cmd_id''"
  "\<not> names_field (bs ''offset'') ''ts''" "\<not> names_field (bs ''offset'') ''type''" "\<not> names_field (bs ''offset'') ''cmd_id''"
  "names_field (bs ''offset'') ''offset''"
  "\<not> names_field (bs ''exit_code'') ''ts''" "\<not> names_field (bs ''exit_code'') ''type''" "\<not> names_field (bs ''exit_code'') ''cmd_id''"
  "\<not> names_field (bs ''exit_code'') ''offset''" "names_field (bs ''exit_code'') ''exit_code''"
  "\<not> names_field (bs ''text'') ''ts''" "\<not> names_field (bs ''text'') ''type''" "\<not> names_field (bs ''text'') ''cmd_id''"
  "\<not> names_field (bs ''text'') ''offset''" "\<not> names_field (bs ''text'') ''exit_code''" "names_field (bs ''text'') ''text''"
  by code_simp+

lemma set_member_field:
  "set_member ptime (bs ''ts'', JStr s) ev = map_option (\<lambda>t. ev\<lparr>TS := t\<rparr>) (ptime s)"
  "set_member ptime (bs ''type'', JStr s) ev = Some (ev\<lparr>EvType := type_of_text s\<rparr>)"
  "set_member ptime (bs ''cmd_id'', JNum l) ev = map_option (\<lambda>n. ev\<lparr>CmdID := n\<rparr>) (atoi l)"
  "set_member ptime (bs ''offset'', JNum l) ev = map_option (\<lambda>n. ev\<lparr>Offset := n\<rparr>) (atoi l)"
  "set_member ptime (bs ''exit_code'', JNum l) ev = map_option (\<lambda>n. ev\<lparr>EvExit := Some n\<rparr>) (atoi l)"
  "set_member ptime (bs ''text'', JStr s) ev = Some (ev\<lparr>EvText := s\<rparr>)"
  unfolding set_member_def Let_def prod.case json.case by (simp_all only: field_names if_True if_False)

lemma set_members_values:
  assumes "storable fmt ptime ev"
  shows "set_members ptime (event_values fmt ev) = Some ev"
proof -
  have n: "atoi (itoa (CmdID ev)) = Some (CmdID ev)" "atoi (itoa (Offset ev)) = Some (Offset ev)" "EvExit ev = Some k \<Longrightarrow> atoi (itoa k) = Some k" for k
    using assms by (auto simp: storable_def int64_def intro!: atoi_itoa split: option.splits)
  have s: "ptime (fmt (TS ev)) = Some (TS ev)" "type_of_text (type_text (EvType ev)) = EvType ev"
    using assms by (auto simp: storable_def)
  show ?thesis
    by (cases ev, cases "EvExit ev")
      (use n s in \<open>auto simp: set_members_def event_values_def set_member_field blank_event_def simp del: list.map\<close>)
qed

lemma parse_event_json: "storable fmt ptime ev \<Longrightarrow> parse_event ptime (event_json fmt ev) = Some ev"
  by (simp add: parse_event_def json_decode_event set_members_values)

text \<open>A written line is one line, and trimming leaves it.\<close>

lemma event_json_printable:
  assumes "storable fmt ptime ev" "x \<in> set (event_json fmt ev)"
  shows "0x20 \<le> x"
proof -
  have i: "0x20 \<le> x" if "x \<in> set (itoa n)" for n using itoa_bytes [OF that] by (auto simp: is_digit_uint word_le_def)
  have m: "0x20 \<le> x" if "m \<in> set (event_members fmt ev)" "x \<in> set (member_text m)" for m
    using that assms(1) json_string_printable [of _ x] utf8_names i
    unfolding event_members_def member_text_def storable_def by (auto split: if_splits option.splits)
  have "x \<in> set (join_with [c] fs) \<Longrightarrow> x = c \<or> (\<exists>f \<in> set fs. x \<in> set f)" for c and fs :: "byte list list"
    by (induction fs rule: induct_list012) auto
  then show ?thesis using assms(2) m by (fastforce simp: event_json_def)
qed

lemma event_json_trimmed: "trim_space (drop_cr (event_json fmt ev)) = event_json fmt ev"
proof -
  have "trim_space (event_json fmt ev) = event_json fmt ev"
    by (intro trim_space_ascii) (auto simp: event_json_def is_space_def)
  then show ?thesis by (simp add: drop_cr_def event_json_def)
qed

section \<open>The file holds the list\<close>

lemma event_json_no_NL: "storable fmt ptime ev \<Longrightarrow> NL \<notin> set (event_json fmt ev)"
  using event_json_printable by fastforce

definition whole_lines :: "byte list \<Rightarrow> bool" where
  "whole_lines file \<longleftrightarrow> file = [] \<or> last file = NL"

lemma scan_lines_snoc:
  assumes "whole_lines file" "NL \<notin> set l"
  shows "scan_lines (file @ l @ [NL]) = scan_lines file @ [l]"
proof (rule rev_exhaust [of "file"])
  assume "file = []"
  then show ?thesis using split_sep [OF assms(2), of "[]"] by (simp add: scan_lines_def)
next
  fix f c
  assume "file = f @ [c]"
  then have "file = f @ NL # []" using assms(1) by (simp add: whole_lines_def)
  then show ?thesis
    using split_snoc [of NL f "[]"] split_snoc [of NL f "l @ [NL]"] split_sep [OF assms(2), of "[]"]
    by (simp add: scan_lines_def butlast_append del: split_on.simps(2))
qed

lemma map_filter_append: "List.map_filter f (xs @ ys) = List.map_filter f xs @ List.map_filter f ys"
  by (simp add: List.map_filter_def)

lemma Events_snoc:
  assumes "whole_lines file" "NL \<notin> set l" "Events ptime file = Some evs" "int (length l) < maxEventLine"
  shows "Events ptime (file @ l @ [NL])
    = Some (evs @ (let t = trim_space (drop_cr l) in if t = [] then [] else case parse_event ptime t of None \<Rightarrow> [] | Some ev \<Rightarrow> [ev]))"
  using assms(3,4) scan_lines_snoc [OF assms(1,2)]
  by (auto simp: Events_def Let_def map_filter_append List.map_filter_simps split: if_splits option.split)

lemma appended_event:
  assumes "whole_lines file" "Events ptime file = Some evs" "storable fmt ptime (stamp now ev)"
    "int (length (event_json fmt (stamp now ev))) < maxEventLine"
  shows "Events ptime (append_event fmt now ev file) = Some (AppendEvent True now ev evs)"
    and "whole_lines (append_event fmt now ev file)"
proof -
  have "event_json fmt (stamp now ev) \<noteq> []" by (simp add: event_json_def)
  then show "Events ptime (append_event fmt now ev file) = Some (AppendEvent True now ev evs)"
    using Events_snoc [OF assms(1) event_json_no_NL [OF assms(3)] assms(2,4)] event_json_trimmed parse_event_json [OF assms(3)]
    by (simp add: append_event_def event_line_def AppendEvent_def)
qed (simp add: append_event_def event_line_def whole_lines_def)

text \<open>Behind a torn append the next event is read as part of the torn line. The comment of \<open>Events\<close> counts only the torn one
  as skipped; where the write stopped inside the time, the event appended after it is lost with it.\<close>

definition torn_prefix :: "byte list" where
  "torn_prefix = [bc CHR ''{''] @ json_string (bs ''ts'') @ [bc CHR '':'', quote]"

lemma torn_prefix_text: "torn_prefix = bc CHR ''{'' # quote # bc CHR ''t'' # bc CHR ''s'' # quote # bc CHR '':'' # quote # []"
  by (simp add: torn_prefix_def json_string_def escape_ascii_def)

lemma torn_prefix_is_one: "take 7 (event_line fmt ev) = torn_prefix"
  by (simp add: torn_prefix_text event_line_def event_json_def event_members_def member_text_def json_string_def escape_ascii_def
      join_cons)

lemma torn_line_is_no_event: "parse_event ptime (torn_prefix @ event_json fmt ev) = None"
proof -
  obtain q where q: "event_json fmt ev = bc CHR ''{'' # quote # bc CHR ''t'' # q"
    by (simp add: event_json_def event_members_def member_text_def json_string_def escape_ascii_def join_cons)
  show ?thesis
    by (simp add: q torn_prefix_text parse_event_def json_decode_def json_space_def maxNestingDepth_def jstring_def jatom_def)
qed

lemma torn_append_swallows:
  assumes "whole_lines file" "Events ptime file = Some evs" "storable fmt ptime (stamp now ev)"
    "int (length (event_json fmt (stamp now ev))) < maxEventLine - 7"
  shows "Events ptime (append_event fmt now ev (file @ take 7 (event_line fmt ev'))) = Some evs"
proof -
  let ?l = "torn_prefix @ event_json fmt (stamp now ev)"
  have n: "NL \<notin> set ?l" using event_json_no_NL [OF assms(3)] by (simp add: torn_prefix_text)
  have l: "int (length ?l) < maxEventLine" using assms(4) by (simp add: torn_prefix_text)
  have "trim_space ?l = ?l" by (intro trim_space_ascii) (auto simp: torn_prefix_text event_json_def is_space_def)
  moreover have "drop_cr ?l = ?l" by (simp add: drop_cr_def event_json_def)
  ultimately show ?thesis
    using Events_snoc [OF assms(1) n assms(2) l] torn_line_is_no_event
    unfolding append_event_def torn_prefix_is_one by (simp add: event_line_def Let_def)
qed

end
