(* ===== verification/Prune.thy ===== *)
theory Prune
  imports Views
begin

text \<open>
  \<open>pairmux prune\<close> (\<open>internal/cli/prune.go\<close>): which retained directories it removes. The registry, sizes, locks and times of
  the directories are arguments, and whether a removal fails. The laws: a live terminal's journal and a locked directory
  are kept, a dry run removes nothing, an age limit spares what is newer.
\<close>

section \<open>Reports\<close>

text \<open>The value of \<open>float64(n)\<close>: 53 bits, ties to even.\<close>

definition round_even :: "int \<Rightarrow> int \<Rightarrow> int" where
  "round_even a b = (let q = a div b; r = a mod b in if 2 * r < b \<or> 2 * r = b \<and> even q then q else q + 1)"

function excess_bits :: "int \<Rightarrow> nat" where
  "excess_bits n = (if n < 2 ^ 53 then 0 else Suc (excess_bits (n div 2)))"
  by pat_completeness auto
termination by (relation "measure nat") auto

declare excess_bits.simps [simp del]

definition float64 :: "int \<Rightarrow> int" where
  "float64 n = (let k = 2 ^ excess_bits n in round_even n k * k)"

definition humanBytes :: "int \<Rightarrow> byte list" where
  "humanBytes n =
     (if n \<ge> 2 ^ 30 then (let t = round_even (10 * float64 n) (2 ^ 30) in itoa (t div 10) @ bs ''.'' @ itoa (t mod 10) @ bs ''GB'')
      else if n \<ge> 2 ^ 20 then itoa (n div 2 ^ 20) @ bs ''MB''
      else if n \<ge> 2 ^ 10 then itoa (n div 2 ^ 10) @ bs ''KB''
      else itoa n @ bs ''B'')"

section \<open>The age limit\<close>

text \<open>\<open>dur\<close> is \<open>time.ParseDuration\<close>. The product of days wraps around in 64 bits.\<close>

definition day_count :: "byte list \<Rightarrow> byte list option" where
  "day_count s = (if s \<noteq> [] \<and> last s = bc CHR ''d'' \<and> butlast s \<noteq> [] \<and> list_all is_digit (butlast s) then Some (butlast s) else None)"

definition parseOlderThan :: "(byte list \<Rightarrow> int option) \<Rightarrow> byte list \<Rightarrow> int option" where
  "parseOlderThan dur text' =
     (let s = trim_space text'
      in case day_count s of
           Some ds \<Rightarrow> map_option (\<lambda>n. wrap64 (wrap64 (n * 24) * 3600000000000)) (atoi ds)
         | None \<Rightarrow> dur s)"

section \<open>Candidates\<close>

record candidate =
  caName :: "byte list"
  caDir :: path
  caSize :: int
  caSkip :: "byte list"

record prune_world =
  prE :: endpoints
  prF :: fs
  prB :: backend
  prManaged :: "byte list + pane_info list"
  prSize :: "path \<Rightarrow> int"
  prLock :: "path \<Rightarrow> bool \<times> bool \<times> int option"
  prRaw :: "path \<Rightarrow> int option"
  prStat :: "path \<Rightarrow> int option"
  prNow :: int
  prRemove :: "path \<Rightarrow> byte list option"

text \<open>\<open>dir + ".prev"\<close>.\<close>

definition prev_dir :: "path \<Rightarrow> path" where
  "prev_dir d = butlast d @ [last d @ bs ''.prev'']"

definition pruneAge :: "prune_world \<Rightarrow> path \<Rightarrow> int" where
  "pruneAge W d =
     (case prRaw W d of Some t \<Rightarrow> t | None \<Rightarrow> (case prStat W d of Some t \<Rightarrow> t | None \<Rightarrow> zero_time))"

text \<open>\<open>time.Since\<close> saturates.\<close>

definition elapsed :: "int \<Rightarrow> int \<Rightarrow> int" where
  "elapsed now at' = max (- (2 ^ 63)) (min (2 ^ 63 - 1) (now - at'))"

definition lock_pid :: "prune_world \<Rightarrow> path \<Rightarrow> int" where
  "lock_pid W d = (case prLock W d of (a, b, c) \<Rightarrow> lockHolderPID a b c)"

definition skip_of :: "prune_world \<Rightarrow> int \<Rightarrow> path \<Rightarrow> byte list" where
  "skip_of W older d =
     (let pid = lock_pid W d
      in if pid > 0 then bs ''write lock held by pid '' @ itoa pid
         else if pid < 0 then bs ''write lock held''
         else if older > 0 \<and> pruneAge W d \<noteq> zero_time \<and> elapsed (prNow W) (pruneAge W d) < older then bs ''newer than --older-than''
         else [])"

definition cand :: "byte list \<Rightarrow> path \<Rightarrow> candidate" where
  "cand name d = \<lparr>caName = name, caDir = d, caSize = 0, caSkip = []\<rparr>"

text \<open>Candidates of one name may come in any order; here they keep theirs.\<close>

definition filterPruneCandidates :: "prune_world \<Rightarrow> int \<Rightarrow> candidate list \<Rightarrow> candidate list" where
  "filterPruneCandidates W older cs =
     sort_key caName (map (\<lambda>c. c\<lparr>caSize := prSize W (caDir c), caSkip := skip_of W older (caDir c)\<rparr>) cs)"

section \<open>Removing\<close>

record sweep =
  swLines :: "byte list list"
  swFreed :: int
  swPruned :: int
  swFailed :: bool
  swRemoved :: "path list"

definition prune_verb :: "bool \<Rightarrow> byte list" where
  "prune_verb dry = (if dry then bs ''would prune'' else bs ''pruned'')"

text \<open>\<open>swRemoved\<close> holds the directories on which \<open>RemoveAll\<close> was called, in order, whether or not it failed halfway.\<close>

definition prune_step :: "prune_world \<Rightarrow> bool \<Rightarrow> sweep \<Rightarrow> candidate \<Rightarrow> sweep" where
  "prune_step W dry s c =
     (let removing = (caSkip c = [] \<and> \<not> dry);
          err = (if removing then prRemove W (caDir c) else None);
          skip = (case err of Some e \<Rightarrow> bs ''remove failed: '' @ e | None \<Rightarrow> caSkip c);
          s' = s\<lparr>swFailed := swFailed s \<or> err \<noteq> None, swRemoved := swRemoved s @ (if removing then [caDir c] else [])\<rparr>;
          row = caName c @ bs ''  '' @ humanBytes (caSize c) @ bs ''  ''
      in if skip \<noteq> [] then s'\<lparr>swLines := swLines s @ [row @ bs ''kept ('' @ skip @ bs '')'']\<rparr>
         else s'\<lparr>swPruned := swPruned s + 1, swFreed := wrap64 (swFreed s + caSize c), swLines := swLines s @ [row @ prune_verb dry]\<rparr>)"

definition finishPrune :: "prune_world \<Rightarrow> bool \<Rightarrow> candidate list \<Rightarrow> envelope \<times> path list" where
  "finishPrune W dry cs =
     (let env = env0\<lparr>eNext := [bs ''pairmux ls'']\<rparr>
      in if cs = [] then (env\<lparr>eStatus := bs ''ok'', eOutput := bs ''nothing to prune''\<rparr>, [])
         else let s = foldl (prune_step W dry) \<lparr>swLines = [], swFreed = 0, swPruned = 0, swFailed = False, swRemoved = []\<rparr> cs;
                  summary = prune_verb dry @ bs '' '' @ itoa (swPruned s) @ bs '' of '' @ itoa (int (length cs)) @ bs '', '' @ humanBytes (swFreed s)
              in (env\<lparr>eStatus := (if swFailed s then bs ''issues'' else if dry then bs ''ok'' else bs ''pruned''),
                      eOutput := join_with [NL] (swLines s @ [summary])\<rparr>, swRemoved s))"

section \<open>Selecting\<close>

definition pruneOne :: "prune_world \<Rightarrow> byte list \<Rightarrow> byte list \<Rightarrow> int \<Rightarrow> bool \<Rightarrow> reject + envelope \<times> path list" where
  "pruneOne W socket name older dry =
     (if \<not> ValidName name then Inl NameRejected
      else andThen (found (resolveAtFor (prE W) (prF W) (prB W) socket (prManaged W) name)) (\<lambda>term.
        let prevs = (if dirAt (prF W) (prev_dir (tDir term)) then [cand (name @ bs ''.prev'') (prev_dir (tDir term))] else [])
        in if tAlive term \<and> prevs = [] then Inl StillAlive
           else Inr (finishPrune W dry (filterPruneCandidates W older
                  (prevs @ (if \<not> tAlive term \<and> dirAt (prF W) (tDir term) then [cand name (tDir term)] else []))))))"

definition add_cand :: "candidate list \<Rightarrow> byte list \<times> path \<Rightarrow> candidate list" where
  "add_cand cs nd = (if snd nd \<in> caDir ` set cs then cs else cs @ [cand (fst nd) (snd nd)])"

definition terminal_cands :: "fs \<Rightarrow> registered \<Rightarrow> (byte list \<times> path) list" where
  "terminal_cands F t =
     (if dirAt F (prev_dir (tDir t)) then [(tName t @ bs ''.prev'', prev_dir (tDir t))] else [])
     @ (if \<not> tAlive t \<and> dirAt F (tDir t) then [(tName t, tDir t)] else [])"

definition is_prev :: "byte list \<Rightarrow> bool" where
  "is_prev n \<longleftrightarrow> length n \<ge> 5 \<and> drop (length n - 5) n = bs ''.prev''"

definition archive_cands :: "fs \<Rightarrow> path \<Rightarrow> (byte list \<times> path) list" where
  "archive_cands F ns =
     (case listing F ns of None \<Rightarrow> []
      | Some es \<Rightarrow> map (\<lambda>(n, _). (n, ns @ [n])) (filter (\<lambda>(n, isdir). isdir \<and> is_prev n) es))"

definition pruneSweep :: "prune_world \<Rightarrow> byte list \<Rightarrow> int \<Rightarrow> bool \<Rightarrow> reject + envelope \<times> path list" where
  "pruneSweep W socket older dry =
     (case listAtFor (prE W) (prF W) (prB W) socket (prManaged W) of
        Inl _ \<Rightarrow> Inl MuxFailed
      | Inr ts \<Rightarrow> Inr (finishPrune W dry (filterPruneCandidates W older (foldl add_cand []
          (concat (map (terminal_cands (prF W)) ts) @ archive_cands (prF W) (SocketDirFor (prE W) (prB W) socket))))))"

definition prune_spec :: flag_spec where
  "prune_spec = \<lparr>bools = [bs ''dry-run''], vals = [bs ''older-than''], lists = []\<rparr>"

definition cmdPrune :: "(byte list \<Rightarrow> int option) \<Rightarrow> byte list \<Rightarrow> prune_world \<Rightarrow> byte list list \<Rightarrow> reject + envelope \<times> path list" where
  "cmdPrune dur socket W args =
     andThen (parsed prune_spec args) (\<lambda>(pos, f).
       if length pos > 1 then Inl BadUsage
       else if \<not> ValidSocketName socket then Inl SocketRejected
       else case (if valOf f (bs ''older-than'') = [] then Some 0 else parseOlderThan dur (valOf f (bs ''older-than''))) of
              None \<Rightarrow> Inl BadUsage
            | Some older \<Rightarrow>
                (case pos of [name] \<Rightarrow> pruneOne W socket name older (isSet f (bs ''dry-run''))
                 | _ \<Rightarrow> pruneSweep W socket older (isSet f (bs ''dry-run''))))"

section \<open>What is removed\<close>

lemma sweep_removed:
  "swRemoved (foldl (prune_step W dry) s cs) = swRemoved s @ (if dry then [] else map caDir (filter (\<lambda>c. caSkip c = []) cs))"
  by (induction cs arbitrary: s) (auto simp: prune_step_def Let_def split: option.split)

lemma finish_removed: "snd (finishPrune W dry cs) = (if dry then [] else map caDir (filter (\<lambda>c. caSkip c = []) cs))"
  by (simp add: finishPrune_def Let_def sweep_removed)

lemma removed_from:
  "d \<in> set (snd (finishPrune W dry (filterPruneCandidates W older cs))) \<longleftrightarrow> \<not> dry \<and> d \<in> caDir ` set cs \<and> skip_of W older d = []"
  by (auto simp: finish_removed filterPruneCandidates_def image_iff)

lemma skip_none:
  "skip_of W older d = [] \<Longrightarrow> lock_pid W d = 0 \<and> (older \<le> 0 \<or> pruneAge W d = zero_time \<or> older \<le> elapsed (prNow W) (pruneAge W d))"
  by (auto simp: skip_of_def Let_def not_less split: if_splits)

text \<open>Where the directories of terminals and their archives lie.\<close>

definition term_dir :: "prune_world \<Rightarrow> byte list \<Rightarrow> byte list \<Rightarrow> path" where
  "term_dir W socket n = fst (stateDirForName (prE W) (prF W) (prB W) socket n)"

lemma term_dir_last: "term_dir W socket n \<noteq> [] \<and> last (term_dir W socket n) = n"
  by (simp add: term_dir_def stateDirForName_def Let_def split: option.split)

lemma not_archive: "ValidName n \<Longrightarrow> n \<noteq> m @ bs ''.prev''"
proof -
  have "\<not> name_byte (bc CHR ''.'')" by (simp add: name_byte_def name_head_def is_digit_def)
  moreover assume "ValidName n"
  then have "\<forall>b \<in> set n. name_byte b" by (auto simp: ValidName_def name_byte_def list_all_iff split: list.splits)
  ultimately show ?thesis by auto
qed

lemma prev_not_term: "ValidName n \<Longrightarrow> prev_dir d \<noteq> term_dir W socket n"
  using term_dir_last [of W socket n] not_archive [of n "last d"] by (metis last_snoc prev_dir_def)

lemma archive_not_term: "ValidName n \<Longrightarrow> (m, d) \<in> set (archive_cands F ns) \<Longrightarrow> d \<noteq> term_dir W socket n"
proof -
  assume n: "ValidName n" and "(m, d) \<in> set (archive_cands F ns)"
  then have "last d = m" "drop (length m - 5) m = bs ''.prev''" by (auto simp: archive_cands_def is_prev_def split: option.splits)
  then show ?thesis using term_dir_last [of W socket n] not_archive [OF n] by (metis append_take_drop_id)
qed

lemma tDir_view: "tDir (view_of (new_terminal E F b socket) panes n) = fst (stateDirForName E F b socket n)"
  by (simp add: view_of_def new_terminal_def with_meta_def with_pane_def blank_terminal_def Let_def split: option.split)

lemma add_cands: "caDir ` set (foldl add_cand cs nds) = caDir ` set cs \<union> snd ` set nds"
  by (induction nds arbitrary: cs) (auto simp: add_cand_def cand_def)

text \<open>A candidate is an archive, or the directory of a terminal that is not alive.\<close>

definition spared :: "prune_world \<Rightarrow> byte list \<Rightarrow> pane_info list \<Rightarrow> path \<Rightarrow> bool" where
  "spared W socket panes d \<longleftrightarrow>
     (\<exists>p \<in> set panes. \<not> PaneDead p \<and> ValidName (InfoName p) \<and> d = term_dir W socket (InfoName p))"

lemma live_view:
  assumes "distinct (map InfoName panes)" "p \<in> set panes" "\<not> PaneDead p"
  shows "tAlive (view_of mk panes (InfoName p))"
  using find_distinct [OF assms(1,2)] assms(3) by (simp add: view_of_def with_pane_def)

lemma terminal_cands_spared:
  assumes "distinct (map InfoName panes)" "t = view_of (new_terminal (prE W) (prF W) (prB W) socket) panes (tName t)"
    "(m, d) \<in> set (terminal_cands F t)"
  shows "\<not> spared W socket panes d"
proof
  assume "spared W socket panes d"
  then obtain p where p: "p \<in> set panes" "\<not> PaneDead p" "ValidName (InfoName p)" "d = term_dir W socket (InfoName p)"
    by (auto simp: spared_def)
  have "tDir t = term_dir W socket (tName t)" using assms(2) tDir_view [of "prE W" "prF W" "prB W" socket panes "tName t"] by (simp add: term_dir_def)
  moreover have "d = prev_dir (tDir t) \<or> d = tDir t \<and> \<not> tAlive t" using assms(3) by (auto simp: terminal_cands_def split: if_splits)
  ultimately have "InfoName p = tName t \<and> \<not> tAlive t"
    using p(4) prev_not_term [OF p(3)] term_dir_last by metis
  then show False using live_view [OF assms(1) p(1,2)] assms(2) by metis
qed

lemma pruneOne_removes:
  assumes "distinct (map InfoName panes)" "managedPanes (prManaged W) = Inr panes" "pruneOne W socket name older dry = Inr (env, removed)"
    "d \<in> set removed"
  shows "\<not> spared W socket panes d \<and> \<not> dry \<and> skip_of W older d = []"
proof -
  obtain t where n: "ValidName name" and r: "resolveAtFor (prE W) (prF W) (prB W) socket (prManaged W) name = Inr t"
    using assms(3) by (auto simp: pruneOne_def andThen_Inr found_def split: if_splits sum.splits)
  define cs where "cs = (if dirAt (prF W) (prev_dir (tDir t)) then [cand (name @ bs ''.prev'') (prev_dir (tDir t))] else [])
    @ (if \<not> tAlive t \<and> dirAt (prF W) (tDir t) then [cand name (tDir t)] else [])"
  have t: "t = view_of (new_terminal (prE W) (prF W) (prB W) socket) panes (tName t)"
    using r resolve_view [OF n assms(2)] by (auto split: if_splits)
  have "(env, removed) = finishPrune W dry (filterPruneCandidates W older cs)"
    using assms(3) n r by (auto simp: pruneOne_def found_def Let_def cs_def split: if_split_asm)
  then have d: "\<not> dry" "d \<in> caDir ` set cs" "skip_of W older d = []"
    using assms(4) removed_from [of d W dry older cs] by (metis snd_conv)+
  have "caDir ` set cs = snd ` set (terminal_cands (prF W) t)" by (auto simp: cs_def terminal_cands_def cand_def)
  then obtain m where "(m, d) \<in> set (terminal_cands (prF W) t)" using d(2) by force
  then show ?thesis using d terminal_cands_spared [OF assms(1) t] by blast
qed

lemma pruneSweep_removes:
  assumes "distinct (map InfoName panes)" "managedPanes (prManaged W) = Inr panes" "pruneSweep W socket older dry = Inr (env, removed)"
    "d \<in> set removed"
  shows "\<not> spared W socket panes d \<and> \<not> dry \<and> skip_of W older d = []"
proof -
  obtain ts where l: "listAtFor (prE W) (prF W) (prB W) socket (prManaged W) = Inr ts"
    and v: "\<And>t. t \<in> set ts \<Longrightarrow> t = view_of (new_terminal (prE W) (prF W) (prB W) socket) panes (tName t)"
    using listed_terminals [OF assms(1,2), of "prE W" "prF W" "prB W" socket] by metis
  define nds where "nds = concat (map (terminal_cands (prF W)) ts) @ archive_cands (prF W) (SocketDirFor (prE W) (prB W) socket)"
  have "removed = snd (finishPrune W dry (filterPruneCandidates W older (foldl add_cand [] nds)))"
    using assms(3) by (simp add: pruneSweep_def l nds_def)
  then have d: "\<not> dry" "d \<in> snd ` set nds" "skip_of W older d = []"
    using assms(4) removed_from [of d W dry older "foldl add_cand [] nds"] add_cands [of "[]" nds] by auto
  then have "\<exists>m. (m, d) \<in> set (archive_cands (prF W) (SocketDirFor (prE W) (prB W) socket)) \<or> (\<exists>t \<in> set ts. (m, d) \<in> set (terminal_cands (prF W) t))"
    by (force simp: nds_def)
  then have "\<not> spared W socket panes d"
    using archive_not_term terminal_cands_spared [OF assms(1)] v unfolding spared_def by blast
  then show ?thesis using d by blast
qed

lemma cmdPrune_removes:
  assumes "distinct (map InfoName panes)" "managedPanes (prManaged W) = Inr panes" "cmdPrune dur socket W args = Inr (env, removed)"
  obtains pos f older where "parsed prune_spec args = Inr (pos, f)"
    "(if valOf f (bs ''older-than'') = [] then Some 0 else parseOlderThan dur (valOf f (bs ''older-than''))) = Some older"
    "\<And>d. d \<in> set removed \<Longrightarrow> \<not> spared W socket panes d \<and> \<not> isSet f (bs ''dry-run'') \<and> skip_of W older d = []"
proof -
  obtain pos f older where p: "parsed prune_spec args = Inr (pos, f)"
    "(if valOf f (bs ''older-than'') = [] then Some 0 else parseOlderThan dur (valOf f (bs ''older-than''))) = Some older"
    "(case pos of [name] \<Rightarrow> pruneOne W socket name older (isSet f (bs ''dry-run'')) | _ \<Rightarrow> pruneSweep W socket older (isSet f (bs ''dry-run''))) = Inr (env, removed)"
    using assms(3) by (auto simp: cmdPrune_def andThen_Inr split: if_splits option.splits)
  then have "pruneSweep W socket older (isSet f (bs ''dry-run'')) = Inr (env, removed) \<or> (\<exists>n. pruneOne W socket n older (isSet f (bs ''dry-run'')) = Inr (env, removed))"
    by (auto split: list.splits)
  then have "d \<in> set removed \<Longrightarrow> \<not> spared W socket panes d \<and> \<not> isSet f (bs ''dry-run'') \<and> skip_of W older d = []" for d
    using pruneSweep_removes [OF assms(1,2)] pruneOne_removes [OF assms(1,2)] by blast
  then show thesis using that p(1,2) by blast
qed

section \<open>Limits that do not limit\<close>

text \<open>Days are multiplied in 64 bits: 292 years become a negative age, which no filter applies to.\<close>

lemma older_than_wraps: "parseOlderThan dur (bs ''106752d'') = Some (- 9223371273709551616)"
  by code_simp

text \<open>\<open>new\<close> makes the directory and its journal before there is a pane, under a reservation of the name that \<open>prune\<close> does not
  take: a terminal that is being created has a directory, no metadata and no pane, and is removed as dead.\<close>

lemma prune_during_creation:
  assumes "ValidName n" "managedPanes (prManaged W) = Inr []" "\<And>d. metaAt (prF W) d = None"
    and "dirAt (prF W) (term_dir W socket n)" "\<not> dirAt (prF W) (prev_dir (term_dir W socket n))" "lock_pid W (term_dir W socket n) = 0"
  shows "\<exists>env. pruneOne W socket n 0 False = Inr (env, [term_dir W socket n])"
proof -
  define d where "d = SocketDirFor (prE W) (prB W) socket @ [n]"
  have "stateDirForName (prE W) (prF W) (prB W) socket n = (d, dirAt (prF W) d)"
    using assms(3) by (simp add: stateDirForName_def d_def Let_def)
  moreover from this have t: "term_dir W socket n = d" by (simp add: term_dir_def)
  ultimately have r: "resolveAtFor (prE W) (prF W) (prB W) socket (prManaged W) n = Inr (blank_terminal n d)"
    using assms(1-4) by (simp add: resolveAtFor_def with_meta_def)
  have "pruneOne W socket n 0 False = Inr (finishPrune W False (filterPruneCandidates W 0 [cand n d]))"
    unfolding pruneOne_def r found_def using assms(1,4,5) t by (simp add: blank_terminal_def)
  moreover have "snd (finishPrune W False (filterPruneCandidates W 0 [cand n d])) = [d]"
    using assms(6) t by (simp add: finish_removed filterPruneCandidates_def skip_of_def cand_def)
  ultimately show ?thesis using t by (metis prod.collapse)
qed

end
