(* ===== verification/Client.thy ===== *)
theory Client
  imports Server_Runs Registry Text
begin

text \<open>
  The client of the built-in multiplexer: where its sockets lie (\<open>internal/rundir/rundir.go\<close>), which backend is chosen
  (\<open>internal/backend/backend.go\<close>), a request over the wire to the server of theory \<open>Server\<close> and the operations made of
  requests (\<open>internal/muxd/client.go\<close>). What the operating system answers is an argument, and so is the encoding of
  requests and responses.
\<close>

section \<open>Socket paths\<close>

definition maxSocketPath :: nat where "maxSocketPath = 100"

definition digest :: "byte list \<Rightarrow> byte list" where
  "digest s = hex (take 8 (Sum256 s))"

text \<open>\<open>None\<close>: the directory is too deep.\<close>

definition socketPathIn :: "byte list \<Rightarrow> byte list \<Rightarrow> byte list option" where
  "socketPathIn d socket =
     (let p = path_under d (socket @ bs ''.sock''); q = path_under d (bs ''s-'' @ digest socket @ bs ''.sock'')
      in if length p \<le> maxSocketPath then Some p else if length q \<le> maxSocketPath then Some q else None)"

definition FileBase :: "byte list \<Rightarrow> byte list \<Rightarrow> byte list option" where
  "FileBase d socket =
     map_option (\<lambda>p. let b = last (split_on (bc CHR ''/'') p)
        in if length b \<ge> 5 \<and> drop (length b - 5) b = bs ''.sock'' then take (length b - 5) b else b) (socketPathIn d socket)"

section \<open>The choice of a backend\<close>

text \<open>\<open>fmt.Sscanf\<close> of a number: optional sign, digits; an integer that does not fit is an error.\<close>

definition scan_number :: "byte list \<Rightarrow> (int \<times> byte list) option" where
  "scan_number s =
     (let (sg, r) = (case s of b # r \<Rightarrow> if b = bc CHR ''-'' \<or> b = bc CHR ''+'' then ([b], r) else ([], s) | [] \<Rightarrow> ([], s));
          ds = takeWhile is_digit r
      in map_option (\<lambda>n. (n, dropWhile is_digit r)) (atoi (sg @ ds)))"

definition scan_major_minor :: "byte list \<Rightarrow> (int \<times> int) option" where
  "scan_major_minor v =
     (case scan_number v of None \<Rightarrow> None
      | Some (major, r) \<Rightarrow>
          (case r of b # r' \<Rightarrow> if b = bc CHR ''.'' then map_option (\<lambda>(minor, _). (major, minor)) (scan_number r') else None | [] \<Rightarrow> None))"

text \<open>A token that starts with a number keeps it although the rest cannot be read: the second scan starts over. Leading
  spaces do not occur: the token is a field of the version line.\<close>

definition tooOld :: "byte list \<Rightarrow> bool" where
  "tooOld tok =
     (let v = (if take 5 tok = bs ''next-'' then drop 5 tok else tok)
      in case (case scan_major_minor v of Some mm \<Rightarrow> Some mm | None \<Rightarrow> map_option (\<lambda>(major, _). (major, 0)) (scan_number v)) of
           None \<Rightarrow> False
         | Some (major, minor) \<Rightarrow> major < 3 \<or> major = 3 \<and> minor < 2)"

record host =
  onWindows :: bool
  haveTmux :: bool
  builtinUp :: bool
  tmuxUp :: bool
  tmuxVersion :: "byte list option"

text \<open>\<open>Choose\<close> of the value of the environment variable; \<open>None\<close> is an error. The reasons it gives are left out.\<close>

definition Choose :: "host \<Rightarrow> byte list \<Rightarrow> backend option" where
  "Choose H v =
     (let v = ToLower (trim_space v)
      in if v = bs ''tmux'' then (if onWindows H then None else Some BackendTmux)
         else if v = bs ''builtin'' \<or> v = bs ''native'' \<or> v = bs ''internal'' then Some BackendBuiltin
         else if v \<noteq> [] \<and> v \<noteq> bs ''auto'' then None
         else if onWindows H then Some BackendBuiltin
         else if builtinUp H then Some (if haveTmux H \<and> tmuxUp H then BackendTmux else BackendBuiltin)
         else if haveTmux H then
           Some (case tmuxVersion H of Some t \<Rightarrow> if tooOld t then BackendBuiltin else BackendTmux | None \<Rightarrow> BackendTmux)
         else Some BackendBuiltin)"

section \<open>Connecting\<close>

datatype client_error =
    BadSocket
  | UnsafeDir
  | NoServer
  | ConnectFailed
  | PathFailed
  | SendFailed io_error
  | NoReply io_error
  | Refused "byte list"

text \<open>A failed dial: whether the error is one that says nobody listens, whether the socket file is missing, the error
  number of Windows, and the text of the error.\<close>

record dial_failure =
  dfAbsent :: bool
  dfNoFile :: bool
  dfErrno :: "int option"
  dfText :: "byte list"

definition isAbsent :: "dial_failure \<Rightarrow> bool" where
  "isAbsent f \<longleftrightarrow>
     dfAbsent f \<or> dfNoFile f \<or> dfErrno f = Some 10061 \<or> dfErrno f = Some 10050
     \<or> list_ex (\<lambda>w. contains w (ToLower (dfText f)))
         (map bs [''no such file'', ''connection refused'', ''actively refused'', ''cannot find the file''])"

datatype run_dir = DirSafe | DirMissing | DirUnsafe

text \<open>\<open>dial\<close>: \<open>None\<close> is a connection.\<close>

definition dial :: "byte list \<Rightarrow> run_dir \<Rightarrow> byte list option \<Rightarrow> dial_failure option \<Rightarrow> client_error option" where
  "dial socket rd path failure =
     (if \<not> ValidSocketName socket then Some BadSocket
      else case rd of DirMissing \<Rightarrow> Some NoServer | DirUnsafe \<Rightarrow> Some UnsafeDir
        | DirSafe \<Rightarrow>
            (case path of None \<Rightarrow> Some PathFailed
             | Some _ \<Rightarrow> (case failure of None \<Rightarrow> None | Some f \<Rightarrow> Some (if isAbsent f then NoServer else ConnectFailed))))"

section \<open>A request over the wire\<close>

record codec =
  encQ :: "request \<Rightarrow> byte list"
  decQ :: "byte list \<Rightarrow> request option"
  encR :: "response \<Rightarrow> byte list"
  decR :: "byte list \<Rightarrow> response option"

definition proto_mismatch :: "int \<Rightarrow> byte list" where
  "proto_mismatch p =
     (if p = protoVersion then []
      else bs '' (server protocol '' @ itoa p @ bs '', client '' @ itoa protoVersion
        @ bs '': a server from another pairmux version is running; `pairmux kill --all` and retry once its terminals are no longer needed)'')"

text \<open>What \<open>call\<close> makes of a reply.\<close>

definition read_reply :: "response \<Rightarrow> client_error + response" where
  "read_reply r =
     (if \<not> OK r \<and> RError r = errShuttingDown then Inl NoServer
      else if \<not> OK r then Inl (Refused (RError r @ proto_mismatch (RProto r)))
      else Inr r)"

text \<open>\<open>call\<close> on a connection to a server in state \<open>s\<close>, which answers by \<open>handleConn\<close>: a request it cannot read is not
  answered, a reply that is too large is not sent.\<close>

definition call_over :: "codec \<Rightarrow> env \<Rightarrow> request \<Rightarrow> server \<Rightarrow> (client_error + response) \<times> server" where
  "call_over C E req s =
     (case writeMsg (encQ C) req of Inl e \<Rightarrow> (Inl (SendFailed e), s)
      | Inr m \<Rightarrow>
          (case readMsg (decQ C) m of Inl _ \<Rightarrow> (Inl (NoReply ErrShort), s)
           | Inr (req', _) \<Rightarrow>
               let (r, s') = handleConn E req' s
               in (case writeMsg (encR C) r of Inl _ \<Rightarrow> (Inl (NoReply ErrShort), s')
                   | Inr m' \<Rightarrow> (case readMsg (decR C) m' of Inl e \<Rightarrow> (Inl (NoReply e), s') | Inr (r', _) \<Rightarrow> (read_reply r', s')))))"

section \<open>Operations\<close>

definition req0 :: request where
  "req0 = \<lparr>Op = [], Pane = [], ReqName = [], Argv = [], JournalPath = [], ReqText = [], Keys = [], HistoryLines = 0,
     Opt = [], OptVal = [], ReqCols = 0, ReqRows = 0\<rparr>"

definition ping_req :: request where "ping_req = req0\<lparr>Op := bs ''ping''\<rparr>"
definition pipe_req :: "byte list \<Rightarrow> byte list \<Rightarrow> request" where "pipe_req p f = req0\<lparr>Op := bs ''pipe'', Pane := p, JournalPath := f\<rparr>"
definition text_req :: "byte list \<Rightarrow> byte list \<Rightarrow> request" where "text_req p t = req0\<lparr>Op := bs ''send-text'', Pane := p, ReqText := t\<rparr>"
definition keys_req :: "byte list \<Rightarrow> byte list list \<Rightarrow> request" where "keys_req p ks = req0\<lparr>Op := bs ''send-keys'', Pane := p, Keys := ks\<rparr>"
definition capture_req :: "byte list \<Rightarrow> int \<Rightarrow> request" where
  "capture_req p h = req0\<lparr>Op := bs ''capture'', Pane := p, HistoryLines := h\<rparr>"
definition option_req :: "byte list \<Rightarrow> byte list \<Rightarrow> byte list \<Rightarrow> request" where
  "option_req p k v = req0\<lparr>Op := bs ''set-option'', Pane := p, Opt := k, OptVal := v\<rparr>"
definition list_req :: request where "list_req = req0\<lparr>Op := bs ''list''\<rparr>"
definition kill_req :: "byte list \<Rightarrow> request" where "kill_req p = req0\<lparr>Op := bs ''kill-window'', Pane := p\<rparr>"
definition select_req :: "byte list \<Rightarrow> request" where "select_req n = req0\<lparr>Op := bs ''select-window'', ReqName := n\<rparr>"
definition stop_req :: request where "stop_req = req0\<lparr>Op := bs ''kill-server''\<rparr>"
definition tty_req :: "byte list \<Rightarrow> request" where "tty_req p = req0\<lparr>Op := bs ''pane-tty'', Pane := p\<rparr>"
definition audience_req :: "byte list \<Rightarrow> request" where "audience_req p = req0\<lparr>Op := bs ''audience'', Pane := p\<rparr>"

text \<open>\<open>NewWindow\<close>: the default shell when no command is given. The environment of the request (\<open>paneEnv\<close>) does not reach a
  definition of the server.\<close>

definition window_req :: "byte list \<Rightarrow> byte list \<Rightarrow> byte list list \<Rightarrow> byte list \<Rightarrow> request" where
  "window_req shell name argv journal =
     req0\<lparr>Op := bs ''new-window'', ReqName := name, Argv := (if argv = [] then [shell] else argv), JournalPath := journal\<rparr>"

definition managed_of :: "response \<Rightarrow> pane_info list" where
  "managed_of r = filter (\<lambda>p. InfoName p \<noteq> []) (RPanes r)"

text \<open>An operation is its request and what it makes of the reply; they are given over any way to call.\<close>

type_synonym 's caller = "request \<Rightarrow> 's \<Rightarrow> (client_error + response) \<times> 's"

definition op :: "(response \<Rightarrow> 'a) \<Rightarrow> request \<Rightarrow> 's caller \<Rightarrow> 's \<Rightarrow> (client_error + 'a) \<times> 's" where
  "op f req call s = (let (r, s') = call req s in (map_sum id f r, s'))"

definition cl_list :: "'s caller \<Rightarrow> 's \<Rightarrow> (client_error + pane_info list) \<times> 's" where "cl_list = op managed_of list_req"
definition cl_option :: "byte list \<Rightarrow> byte list \<Rightarrow> byte list \<Rightarrow> 's caller \<Rightarrow> 's \<Rightarrow> (client_error + unit) \<times> 's" where
  "cl_option p k v = op (\<lambda>_. ()) (option_req p k v)"
definition cl_kill :: "byte list \<Rightarrow> 's caller \<Rightarrow> 's \<Rightarrow> (client_error + unit) \<times> 's" where "cl_kill p = op (\<lambda>_. ()) (kill_req p)"
definition cl_text :: "byte list \<Rightarrow> byte list \<Rightarrow> 's caller \<Rightarrow> 's \<Rightarrow> (client_error + unit) \<times> 's" where "cl_text p t = op (\<lambda>_. ()) (text_req p t)"
definition cl_keys :: "byte list \<Rightarrow> byte list list \<Rightarrow> 's caller \<Rightarrow> 's \<Rightarrow> (client_error + unit) \<times> 's" where
  "cl_keys p ks = op (\<lambda>_. ()) (keys_req p ks)"
definition cl_capture :: "byte list \<Rightarrow> int \<Rightarrow> 's caller \<Rightarrow> 's \<Rightarrow> (client_error + byte list) \<times> 's" where "cl_capture p h = op RText (capture_req p h)"
definition cl_tty :: "byte list \<Rightarrow> 's caller \<Rightarrow> 's \<Rightarrow> (client_error + byte list) \<times> 's" where "cl_tty p = op RText (tty_req p)"
definition cl_audience :: "byte list \<Rightarrow> 's caller \<Rightarrow> 's \<Rightarrow> (client_error + nat \<times> bool) \<times> 's" where
  "cl_audience p = op (\<lambda>r. (Attached r, Active r)) (audience_req p)"
definition cl_pipe :: "byte list \<Rightarrow> byte list \<Rightarrow> 's caller \<Rightarrow> 's \<Rightarrow> (client_error + unit) \<times> 's" where "cl_pipe p f = op (\<lambda>_. ()) (pipe_req p f)"
definition cl_select :: "byte list \<Rightarrow> 's caller \<Rightarrow> 's \<Rightarrow> (client_error + unit) \<times> 's" where "cl_select n = op (\<lambda>_. ()) (select_req n)"
definition cl_stop :: "'s caller \<Rightarrow> 's \<Rightarrow> (client_error + unit) \<times> 's" where "cl_stop = op (\<lambda>_. ()) stop_req"
definition cl_pid :: "'s caller \<Rightarrow> 's \<Rightarrow> (client_error + int) \<times> 's" where "cl_pid = op RPid ping_req"
definition cl_running :: "'s caller \<Rightarrow> 's \<Rightarrow> bool \<times> 's" where
  "cl_running call s = (let (r, s') = call ping_req s in (case r of Inl _ \<Rightarrow> False | Inr _ \<Rightarrow> True, s'))"
definition cl_version :: "byte list \<Rightarrow> 's caller \<Rightarrow> 's \<Rightarrow> byte list \<times> 's" where
  "cl_version own call s = (let (r, s') = call ping_req s in (case r of Inl _ \<Rightarrow> own | Inr x \<Rightarrow> RVersion x, s'))"

text \<open>\<open>EnsureSession\<close>: spawning may fail; afterwards it pings until it is answered or the deadline has passed. \<open>pings\<close> are the
  answers and the times at which they came; \<open>None\<close> is that it is still pinging after them.\<close>

fun await_server :: "int \<Rightarrow> (client_error option \<times> int) list \<Rightarrow> client_error option option" where
  "await_server deadline [] = None"
| "await_server deadline ((e, now) # ps) =
     (if e = None then Some None else if \<not> now < deadline then Some e else await_server deadline ps)"

definition cl_ensure :: "client_error option \<Rightarrow> client_error option \<Rightarrow> int \<Rightarrow> (client_error option \<times> int) list \<Rightarrow> client_error option option" where
  "cl_ensure first spawn deadline pings =
     (if first = None then Some None
      else if first \<noteq> Some NoServer then Some first
      else if spawn \<noteq> None then Some spawn
      else await_server deadline pings)"

text \<open>\<open>NewWindow\<close> calls again once when there was no server and \<open>EnsureSession\<close> succeeded.\<close>

definition cl_window :: "request \<Rightarrow> 's caller \<Rightarrow> ('s \<Rightarrow> client_error option \<times> 's) \<Rightarrow> 's \<Rightarrow> (client_error + byte list) \<times> 's" where
  "cl_window req call ensure s =
     (case call req s of
        (Inl NoServer, s1) \<Rightarrow>
          (case ensure s1 of (Some e, s2) \<Rightarrow> (Inl e, s2) | (None, s2) \<Rightarrow> op RPane req call s2)
      | (r, s1) \<Rightarrow> (map_sum id RPane r, s1))"

section \<open>The environment of a terminal\<close>

text \<open>Go's map with the order of first additions; \<open>key\<close> is the name as the system compares it (upper case on Windows).\<close>

definition env_add :: "(byte list \<Rightarrow> byte list) \<Rightarrow> (byte list \<times> byte list) list \<Rightarrow> byte list \<times> byte list \<Rightarrow> (byte list \<times> byte list) list" where
  "env_add key kvs kv =
     (let e = fst kv @ bs ''='' @ snd kv
      in if key (fst kv) \<in> fst ` set kvs then map (\<lambda>(n, x). (n, if n = key (fst kv) then e else x)) kvs
         else kvs @ [(key (fst kv), e)])"

definition cut_env :: "byte list \<Rightarrow> (byte list \<times> byte list) option" where
  "cut_env kv = (if bc CHR ''='' \<in> set kv then Some (takeWhile (\<lambda>b. b \<noteq> bc CHR ''='') kv, tl (dropWhile (\<lambda>b. b \<noteq> bc CHR ''='') kv)) else None)"

definition dropped_vars :: "byte list list" where "dropped_vars = map bs [''TMUX'', ''TMUX_PANE'', ''PAIRMUX_BUILTIN_PANE'']"

definition paneEnv :: "bool \<Rightarrow> (byte list \<Rightarrow> byte list) \<Rightarrow> byte list list \<Rightarrow> (byte list \<times> byte list) list \<Rightarrow> byte list list" where
  "paneEnv windows upper environ extra =
     (let key = (if windows then upper else (\<lambda>k. k));
          own = filter (\<lambda>(k, v). k \<notin> set dropped_vars) (List.map_filter cut_env environ);
          term = (if windows then [] else [(bs ''TERM'', bs ''xterm-256color'')]);
          given = map (\<lambda>k. (k, the (map_of extra k))) (sort (remdups (map fst extra)))
      in map snd (foldl (env_add key) [] (own @ term @ given)))"

section \<open>The interface of a multiplexer\<close>

text \<open>What the command line relies on, whichever backend it drives: a terminal is created without a name, gets one, is listed by
  it, and is gone once it is killed. \<open>view\<close> is every pane, named or not.\<close>

definition set_name :: "byte list \<Rightarrow> byte list \<Rightarrow> pane_info \<Rightarrow> pane_info" where
  "set_name p v i = (if PaneID i = p then i\<lparr>InfoName := v\<rparr> else i)"

definition named_panes :: "pane_info list \<Rightarrow> pane_info list" where
  "named_panes is = filter (\<lambda>i. InfoName i \<noteq> []) is"

locale multiplexer =
  fixes ok :: "'s \<Rightarrow> bool" and view :: "'s \<Rightarrow> pane_info list"
    and create :: "'e \<Rightarrow> request \<Rightarrow> 's \<Rightarrow> (client_error + byte list) \<times> 's"
    and tag :: "'e \<Rightarrow> byte list \<Rightarrow> byte list \<Rightarrow> 's \<Rightarrow> (client_error + unit) \<times> 's"
    and kill :: "'e \<Rightarrow> byte list \<Rightarrow> 's \<Rightarrow> (client_error + unit) \<times> 's"
    and panes :: "'e \<Rightarrow> 's \<Rightarrow> (client_error + pane_info list) \<times> 's"
  assumes created: "ok s \<Longrightarrow> Op q = bs ''new-window'' \<Longrightarrow> create e q s = (Inr p, s') \<Longrightarrow>
      ok s' \<and> p \<notin> PaneID ` set (view s) \<and> (\<exists>i. view s' = view s @ [i] \<and> PaneID i = p \<and> InfoName i = [] \<and> \<not> PaneDead i)"
    and tagged: "ok s \<Longrightarrow> tag e p v s = (Inr (), s') \<Longrightarrow> ok s' \<and> view s' = map (set_name p v) (view s)"
    and killed: "ok s \<Longrightarrow> kill e p s = (Inr (), s') \<Longrightarrow> ok s' \<and> view s' = filter (\<lambda>i. PaneID i \<noteq> p) (view s)"
    and listed: "ok s \<Longrightarrow> panes e s = (Inr is, s') \<Longrightarrow> s' = s \<and> is = named_panes (view s)"
    and tags: "ok s \<Longrightarrow> p \<in> PaneID ` set (view s) \<Longrightarrow> \<exists>s'. tag e p v s = (Inr (), s')"
    and kills: "ok s \<Longrightarrow> p \<in> PaneID ` set (view s) \<Longrightarrow> \<exists>s'. kill e p s = (Inr (), s')"
    and lists: "ok s \<Longrightarrow> view s \<noteq> [] \<Longrightarrow> \<exists>is s'. panes e s = (Inr is, s')"
begin

lemma set_name_other: "p \<notin> PaneID ` set is \<Longrightarrow> map (set_name p v) is = is"
  by (induction "is") (auto simp: set_name_def)

text \<open>A created terminal can be named; then it is listed after all that were, and killing it leaves what was there.\<close>

lemma come_and_go:
  assumes "ok s" "Op q = bs ''new-window''" "create e q s = (Inr p, s1)" "v \<noteq> []"
  shows "\<exists>s2 i s3. tag e1 p v s1 = (Inr (), s2) \<and> panes e2 s2 = (Inr (named_panes (view s) @ [i]), s2)
    \<and> PaneID i = p \<and> InfoName i = v \<and> \<not> PaneDead i
    \<and> kill e3 p s2 = (Inr (), s3) \<and> ok s3 \<and> view s3 = view s"
proof -
  obtain i where i: "ok s1" "p \<notin> PaneID ` set (view s)" "view s1 = view s @ [i]" "PaneID i = p" "\<not> PaneDead i"
    using created [OF assms(1-3)] by blast
  obtain s2 where s2: "tag e1 p v s1 = (Inr (), s2)" using tags [OF i(1)] i(3,4) by fastforce
  have t: "ok s2" "view s2 = view s @ [i\<lparr>InfoName := v\<rparr>]"
    using tagged [OF i(1) s2] i set_name_other [OF i(2)] by (auto simp: set_name_def)
  obtain is' s2' where l: "panes e2 s2 = (Inr is', s2')" using lists [OF t(1)] t(2) by fastforce
  have l': "panes e2 s2 = (Inr (named_panes (view s) @ [i\<lparr>InfoName := v\<rparr>]), s2)"
    using l listed [OF t(1) l] t(2) assms(4) by (simp add: named_panes_def)
  obtain s3 where s3: "kill e3 p s2 = (Inr (), s3)" using kills [OF t(1)] t(2) i(4) by fastforce
  have "filter (\<lambda>i. PaneID i \<noteq> p) (view s) = view s" using i(2) by (auto simp: filter_id_conv)
  then have "ok s3 \<and> view s3 = view s" using killed [OF t(1) s3] t(2) i(4) by simp
  then show ?thesis using s2 l' s3 i(4,5) by (intro exI [of _ s2] exI [of _ "i\<lparr>InfoName := v\<rparr>"] exI [of _ s3]) simp
qed

end

section \<open>The server provides it\<close>

text \<open>A call whose messages arrive as they were sent.\<close>

definition direct :: "env \<Rightarrow> server caller" where
  "direct E req s = (let (r, s') = handleConn E req s in (read_reply r, s'))"

definition all_panes :: "server \<Rightarrow> pane_info list" where
  "all_panes s = RPanes (list_panes s)"

lemma read_reply_Inr: "read_reply r = Inr x \<longleftrightarrow> OK r \<and> x = r"
  by (auto simp: read_reply_def)

lemma direct_Inr: "direct E req s = (Inr r, s') \<longleftrightarrow> handleConn E req s = (r, s') \<and> OK r"
  by (auto simp: direct_def Let_def read_reply_Inr case_prod_beta prod_eq_iff)

lemma not_ok_fail [simp]: "\<not> OK (fail m)" "OK ok_resp"
  by (simp_all add: fail_def resp0_def ok_resp_def)

lemma all_panes_eq: "all_panes s = map (\<lambda>n. pane_info_of n (the (s_store s n))) (sort (s_reg s))"
  by (simp add: all_panes_def list_panes_def)

lemma pane_info_id [simp]: "PaneID (pane_info_of n p) = pane_id n"
  by (simp add: pane_info_of_def)

lemma insort_snoc: "x < n \<Longrightarrow> insort x (ys @ [n::nat]) = insort x ys @ [n]"
  by (induction ys) auto

lemma sort_snoc: "\<forall>m \<in> set xs. m < (n::nat) \<Longrightarrow> sort (xs @ [n]) = sort xs @ [n]"
  by (induction xs) (auto simp: insort_snoc)

lemma store_below: "server_ok s \<Longrightarrow> n \<in> set (s_reg s) \<Longrightarrow> n < s_nextID s"
  unfolding server_ok_def by blast

lemma window_created:
  assumes "server_ok s" "op RPane req (direct E) s = (Inr p, s')" "Op req = bs ''new-window''"
  shows "server_ok s' \<and> p \<notin> PaneID ` set (all_panes s)
    \<and> (\<exists>i. all_panes s' = all_panes s @ [i] \<and> PaneID i = p \<and> InfoName i = [] \<and> \<not> PaneDead i)"
proof -
  obtain r where r: "handleConn E req s = (r, s')" "OK r" "p = RPane r"
    using assms(2) by (cases "direct E req s"; cases "fst (direct E req s)") (auto simp: op_def direct_Inr)
  define w where "w = newWindow E req s"
  have h: "handle E req s = w" and c: "\<not> s_closing s"
    using r assms(3) by (auto simp: handleConn_def handle_def Let_def case_prod_beta w_def split: if_splits)
  have w: "r = fst w\<lparr>RProto := protoVersion\<rparr>" "s' = snd w"
    using r(1) assms(3) by (simp_all add: handleConn_def h Let_def case_prod_beta prod_eq_iff)
  define n where "n = s_nextID s"
  define s1 where "s1 = s\<lparr>s_nextID := n + 1\<rparr>"
  have ok: "OK (fst w)" "p = RPane (fst w)" using w(1) r(2,3) by simp_all
  then obtain j where j: "w = new_register E n (new_pane E req j n) s1"
    using c by (auto simp: w_def newWindow_def new_reserve_def n_def s1_def split: if_splits sum.splits option.splits)
  have s': "s' = put_pane n (new_pane E req j n) s1\<lparr>s_reg := s_reg s @ [n], s_lastActive := e_now E\<rparr>" and p: "p = pane_id n"
    using w(2) ok c by (auto simp: j new_register_def s1_def Let_def ok_resp_def)
  have lt: "\<forall>m \<in> set (s_reg s). m < n" using store_below [OF assms(1)] by (simp add: n_def)
  have v: "all_panes s' = all_panes s @ [pane_info_of n (new_pane E req j n)]"
    unfolding all_panes_eq using lt by (auto simp: s' s1_def put_pane_def sort_snoc)
  have "p \<notin> PaneID ` set (all_panes s)" using lt by (auto simp: all_panes_eq p)
  moreover have "server_ok s'" using server_ok_handleConn [OF assms(1), of E req] r(1) by simp
  ultimately show ?thesis using v p by (simp add: pane_info_of_def new_pane_def Let_def)
qed

lemma direct_simple:
  assumes "direct E req s = (Inr r, s')" "Op req \<noteq> bs ''kill-server''"
  shows "OK (fst (handle E req s))" "r = fst (handle E req s)\<lparr>RProto := protoVersion\<rparr>" "s' = snd (handle E req s)"
  using assms by (cases "handle E req s"; auto simp: direct_Inr handleConn_def)+

lemma op_unit: "op f req call s = (Inr x, s') \<longleftrightarrow> (\<exists>r. call req s = (Inr r, s') \<and> x = f r)"
  by (cases "call req s"; cases "fst (call req s)") (auto simp: op_def)

lemma lookup_pane_Inr:
  assumes "server_ok s" "lookup_pane pid s = Inr (n, p)"
  shows "n \<in> set (s_reg s)" "s_store s n = Some p" "pane_id n = pid"
  using lookup_found [OF assms] by auto

lemma option_tagged:
  assumes "server_ok s" "cl_option p PaneOptName v (direct E) s = (Inr (), s')"
  shows "server_ok s' \<and> all_panes s' = map (set_name p v) (all_panes s)"
proof -
  have o: "Op (option_req p PaneOptName v) = bs ''set-option''" "Pane (option_req p PaneOptName v) = p"
    "Opt (option_req p PaneOptName v) = PaneOptName" "OptVal (option_req p PaneOptName v) = v"
    by (simp_all add: option_req_def req0_def)
  obtain r where r: "direct E (option_req p PaneOptName v) s = (Inr r, s')" using assms(2) by (auto simp: cl_option_def op_unit)
  from direct_simple [OF this] o have h: "snd (handle E (option_req p PaneOptName v) s) = s'" "OK (fst (handle E (option_req p PaneOptName v) s))"
    by simp_all
  then obtain n q where n: "lookup_pane p s = Inr (n, q)"
    by (auto simp: handle_def o lookup_pane_def split: if_splits option.splits)
  note l = lookup_pane_Inr [OF assms(1) n]
  have s': "s' = put_pane n (q\<lparr>p_opts := (p_opts q)(PaneOptName \<mapsto> v)\<rparr>) s"
    using h by (auto simp: handle_def o n handle_pane_def split: if_splits)
  have e: "pane_info_of m (the (s_store s' m)) = set_name p v (pane_info_of m (the (s_store s m)))" for m
    using l by (auto simp: s' put_pane_def set_name_def pane_info_of_def)
  have "server_ok s'" using server_ok_handleConn [OF assms(1), of E "option_req p PaneOptName v"] r by (simp add: direct_Inr)
  moreover have "s_reg s' = s_reg s" by (simp add: s' put_pane_def)
  ultimately show ?thesis using e by (simp add: all_panes_eq)
qed

lemma sort_removeAll: "sort (removeAll n xs) = filter (\<lambda>m. m \<noteq> (n::nat)) (sort xs)"
proof -
  have "removeAll n xs = filter (\<lambda>m. m \<noteq> n) xs" by (induction xs) auto
  then show ?thesis by (simp add: filter_sort)
qed

lemma kill_killed:
  assumes "server_ok s" "cl_kill p (direct E) s = (Inr (), s')"
  shows "server_ok s' \<and> all_panes s' = filter (\<lambda>i. PaneID i \<noteq> p) (all_panes s)"
proof -
  have o: "Op (kill_req p) = bs ''kill-window''" "Pane (kill_req p) = p" by (simp_all add: kill_req_def req0_def)
  obtain r where r: "direct E (kill_req p) s = (Inr r, s')" using assms(2) by (auto simp: cl_kill_def op_unit)
  from direct_simple [OF this] o have h: "snd (handle E (kill_req p) s) = s'" "OK (fst (handle E (kill_req p) s))"
    by simp_all
  then obtain n q where n: "lookup_pane p s = Inr (n, q)"
    by (auto simp: handle_def o lookup_pane_def split: if_splits option.splits)
  note l = lookup_pane_Inr [OF assms(1) n]
  have s': "s' = unregister E n s" using h by (auto simp: handle_def o n handle_pane_def split: if_splits)
  have "pane_id m \<noteq> p \<longleftrightarrow> m \<noteq> n" for m using l(3) by (metis pane_id_inj)
  then have "all_panes s' = filter (\<lambda>i. PaneID i \<noteq> p) (all_panes s)"
    by (simp add: all_panes_eq s' unregister_def sort_removeAll filter_map comp_def)
  moreover have "server_ok s'" using server_ok_handleConn [OF assms(1), of E "kill_req p"] r by (simp add: direct_Inr)
  ultimately show ?thesis by blast
qed

lemma list_listed:
  assumes "cl_list (direct E) s = (Inr is, s')"
  shows "s' = s \<and> is = named_panes (all_panes s)"
proof -
  have o: "Op list_req = bs ''list''" by (simp add: list_req_def)
  obtain r where r: "direct E list_req s = (Inr r, s')" "is = managed_of r" using assms by (auto simp: cl_list_def op_unit)
  have "RPanes r = RPanes (fst (handle E list_req s))" "s' = snd (handle E list_req s)" "OK (fst (handle E list_req s))"
    using direct_simple [OF r(1)] o by simp_all
  then show ?thesis using r(2) by (auto simp: handle_def o managed_of_def named_panes_def all_panes_def split: if_splits)
qed

text \<open>The requests on a pane it lists are answered.\<close>

lemma pane_found:
  assumes "server_ok s" "p \<in> PaneID ` set (all_panes s)"
  obtains n q where "lookup_pane p s = Inr (n, q)" "\<not> s_closing s"
proof -
  obtain n where n: "n \<in> set (s_reg s)" "pane_id n = p" using assms(2) by (auto simp: all_panes_eq)
  then have "find (\<lambda>n. pane_id n = p) (s_reg s) \<noteq> None" by (auto simp: find_None_iff)
  moreover have "\<not> s_closing s" using assms(1) n(1) by (auto simp: server_ok_def)
  ultimately show ?thesis using that by (auto simp: lookup_pane_def)
qed

lemma op_answers: "OK (fst (handle E req s)) \<Longrightarrow> \<exists>x s'. op f req (direct E) s = (Inr x, s')"
  by (cases "handle E req s") (auto simp: op_def direct_def handleConn_def read_reply_def)

lemma pane_answers:
  assumes "server_ok s" "p \<in> PaneID ` set (all_panes s)"
  shows "\<exists>s'. cl_option p k v (direct E) s = (Inr (), s')" "\<exists>s'. cl_kill p (direct E) s = (Inr (), s')"
proof -
  obtain n q where n: "lookup_pane p s = Inr (n, q)" "\<not> s_closing s" using pane_found [OF assms] .
  have "OK (fst (handle E (option_req p k v) s))" "OK (fst (handle E (kill_req p) s))"
    using n by (simp_all add: handle_def handle_pane_def option_req_def kill_req_def req0_def)
  from op_answers [OF this(1), of "\<lambda>_. ()"] op_answers [OF this(2), of "\<lambda>_. ()"]
  show "\<exists>s'. cl_option p k v (direct E) s = (Inr (), s')" "\<exists>s'. cl_kill p (direct E) s = (Inr (), s')"
    by (simp_all add: cl_option_def cl_kill_def)
qed

lemma list_answers:
  assumes "server_ok s" "all_panes s \<noteq> []"
  shows "\<exists>is s'. cl_list (direct E) s = (Inr is, s')"
proof -
  have "\<not> s_closing s" using assms by (auto simp: server_ok_def all_panes_eq)
  then have "OK (fst (handle E list_req s))" by (simp add: handle_def list_req_def list_panes_def ok_resp_def)
  from op_answers [OF this, of managed_of] show ?thesis by (simp add: cl_list_def)
qed

interpretation builtin: multiplexer server_ok all_panes "\<lambda>E q. op RPane q (direct E)"
    "\<lambda>E p v. cl_option p PaneOptName v (direct E)" "\<lambda>E p. cl_kill p (direct E)" "\<lambda>E. cl_list (direct E)"
  by unfold_locales (blast dest: window_created option_tagged kill_killed list_listed intro: pane_answers list_answers)+

end
