(* ===== verification/Attach_Client.thy ===== *)
theory Attach_Client
  imports Server
begin

text \<open>
  The human's end of an attach (\<open>internal/muxd/attach.go\<close>): the prefix key, the frames sent for what is typed, and the
  writes to the human's terminal up to its restoration. The two goroutines only meet in the two locks, so every run is a
  sequence of the operations given here. The laws: however the keyboard's bytes are cut into reads, the pane's input queue
  receives what was typed without the prefix sequences, and nothing is written to the terminal after its restoration.
\<close>

section \<open>Typing\<close>

definition PrefixKey :: byte where "PrefixKey = 0x02"

text \<open>What the typed bytes send, whether a prefix is left open, and whether the human detached.\<close>

fun typed :: "bool \<Rightarrow> byte list \<Rightarrow> byte list \<times> bool \<times> bool" where
  "typed prefix [] = ([], prefix, False)"
| "typed prefix (b # s) =
     (if prefix then
        (if b = bc CHR ''d'' \<or> b = bc CHR ''D'' then ([], False, True)
         else let (sent, r) = typed False s in ((if b = PrefixKey then [PrefixKey] else []) @ sent, r))
      else if b = PrefixKey then typed True s
      else let (sent, r) = typed False s in (b # sent, r))"

text \<open>One read of the keyboard.\<close>

definition on_read :: "bool \<Rightarrow> byte list \<Rightarrow> (byte \<times> byte list) list \<times> bool \<times> bool" where
  "on_read prefix chunk =
     (let (sent, p, detached) = typed prefix chunk
      in ((if sent \<noteq> [] then [(frameInput, sent)] else []) @ (if detached then [(frameDetach, [])] else []), p, detached))"

fun read_loop :: "bool \<Rightarrow> byte list list \<Rightarrow> (byte \<times> byte list) list \<times> bool \<times> bool" where
  "read_loop prefix [] = ([], prefix, False)"
| "read_loop prefix (c # cs) =
     (let (fs, p, detached) = on_read prefix c
      in if detached then (fs, p, True) else (let (fs', r) = read_loop p cs in (fs @ fs', r)))"

definition attach_request :: "byte list \<Rightarrow> int \<Rightarrow> int \<Rightarrow> request" where
  "attach_request p cols' rows' =
     \<lparr>Op = bs ''attach'', Pane = p, ReqName = [], Argv = [], JournalPath = [], ReqText = [], Keys = [], HistoryLines = 0,
      Opt = [], OptVal = [], ReqCols = cols', ReqRows = rows'\<rparr>"

text \<open>The frames of one connection at the server, until the human leaves.\<close>

fun serve_frames :: "bool \<Rightarrow> (byte \<times> byte list) list \<Rightarrow> pane \<Rightarrow> pane" where
  "serve_frames ptyok [] p = p"
| "serve_frames ptyok ((t, b) # fs) p =
     (case attach_frame ptyok t b p of (True, p') \<Rightarrow> serve_frames ptyok fs p' | (False, p') \<Rightarrow> p')"

section \<open>The human's terminal\<close>

definition esc_texts :: "string list \<Rightarrow> byte list" where
  "esc_texts ts = concat (map (\<lambda>t. ESC # bs t) ts)"

definition enterSeq :: "byte list" where
  "enterSeq = esc_texts [''[?1049h'', ''[H'', ''[2J'']"

definition leaveSeq :: "byte list" where
  "leaveSeq = esc_texts [''[0m'', ''[r'', ''[?25h'', ''[?1l'', ''>'', ''[?2004l'', ''[?1000l'', ''[?1002l'', ''[?1003l'', ''[?1005l'',
     ''[?1006l'', ''[?1015l'', ''[?1004l'', ''[?7h'', ''[4l'', ''[0 q'', ''(B'', ''[?1049l'']"

record human_terminal =
  htWritten :: "byte list"
  htClosed :: bool
  htEntered :: bool
  htRestored :: nat

definition ht_open :: human_terminal where
  "ht_open = \<lparr>htWritten = [], htClosed = False, htEntered = False, htRestored = 0\<rparr>"

datatype ht_op = WriteOut "byte list" | EnterScreen | RestoreTerminal

definition ht_step :: "human_terminal \<Rightarrow> ht_op \<Rightarrow> human_terminal" where
  "ht_step t x =
     (case x of
        WriteOut b \<Rightarrow> if htClosed t then t else t\<lparr>htWritten := htWritten t @ b\<rparr>
      | EnterScreen \<Rightarrow> t\<lparr>htEntered := True, htWritten := htWritten t @ enterSeq\<rparr>
      | RestoreTerminal \<Rightarrow>
          if htClosed t then t
          else t\<lparr>htClosed := True, htRestored := htRestored t + 1, htWritten := htWritten t @ (if htEntered t then leaveSeq else [])\<rparr>)"

text \<open>What a frame from the server does: its output is written, and an exit or the end of the connection ends the attach with
  a message.\<close>

datatype attach_event = ShowOutput "byte list" | EndAttach "byte list" | IgnoreFrame

definition on_frame :: "byte \<times> byte list \<Rightarrow> attach_event" where
  "on_frame f = (if fst f = frameOutput then ShowOutput (snd f) else if fst f = frameExit then EndAttach (snd f) else IgnoreFrame)"

definition lost_connection :: "byte list" where "lost_connection = bs ''lost the connection to the built-in multiplexer''"

fun receive :: "(byte \<times> byte list) list \<Rightarrow> ht_op list \<times> byte list" where
  "receive [] = ([], lost_connection)"
| "receive (f # fs) =
     (case on_frame f of
        ShowOutput b \<Rightarrow> (let (os, m) = receive fs in (WriteOut b # os, m))
      | EndAttach m \<Rightarrow> ([], m)
      | IgnoreFrame \<Rightarrow> receive fs)"

section \<open>What is typed arrives\<close>

lemma typed_append:
  "typed p (u @ v) = (let (s, q, d) = typed p u in if d then (s, q, True) else let (s', r) = typed q v in (s @ s', r))"
  by (induction p u rule: typed.induct) (auto simp: Let_def case_prod_beta)

definition frames_text :: "(byte \<times> byte list) list \<Rightarrow> byte list" where
  "frames_text fs = concat (map snd fs)"

lemma frames_text_simps [simp]: "frames_text [] = []" "frames_text (f # fs) = snd f @ frames_text fs" "frames_text (fs @ gs) = frames_text fs @ frames_text gs"
  by (simp_all add: frames_text_def)

lemma read_loop_typed: "read_loop p cs = (fs, q, d) \<Longrightarrow> typed p (concat cs) = (frames_text fs, q, d)"
proof (induction p cs arbitrary: fs rule: read_loop.induct)
  case (2 p c cs)
  obtain s q' d' where t: "typed p c = (s, q', d')" by (cases "typed p c") auto
  show ?case
  proof (cases d')
    case True
    then show ?thesis using 2(2) t by (auto simp: on_read_def typed_append Let_def)
  next
    case False
    then have e: "on_read p c = ((if s \<noteq> [] then [(frameInput, s)] else []), q', False)" by (simp add: on_read_def t)
    obtain fs' r where l: "read_loop q' cs = (fs', r)" by (cases "read_loop q' cs") auto
    then have d: "r = (q, d)" "fs = (if s \<noteq> [] then [(frameInput, s)] else []) @ fs'" using 2(2) e False by (auto split: if_splits)
    have "typed q' (concat cs) = (frames_text fs', q, d)" using 2(1) [OF e [symmetric] refl] False l d(1) by auto
    then show ?thesis using t False d(2) by (auto simp: typed_append)
  qed
qed simp

lemma read_loop_input: "read_loop p cs = (fs, q, d) \<Longrightarrow> \<exists>is. fs = map (Pair frameInput) is @ (if d then [(frameDetach, [])] else [])"
proof (induction p cs arbitrary: fs rule: read_loop.induct)
  case (2 p c cs)
  obtain s q' d' where t: "typed p c = (s, q', d')" by (cases "typed p c") auto
  define is0 where "is0 = (if s \<noteq> [] then [s] else [])"
  have e: "on_read p c = (map (Pair frameInput) is0 @ (if d' then [(frameDetach, [])] else []), q', d')" by (simp add: on_read_def t is0_def)
  show ?case
  proof (cases d')
    case True
    then show ?thesis using 2(2) e by auto
  next
    case False
    obtain fs' r where l: "read_loop q' cs = (fs', r)" by (cases "read_loop q' cs") auto
    then have d: "r = (q, d)" "fs = map (Pair frameInput) is0 @ fs'" using 2(2) e False by auto
    have "\<exists>is. fs' = map (Pair frameInput) is @ (if d then [(frameDetach, [])] else [])"
      using 2(1) [OF e [symmetric] refl] False l d(1) by auto
    then obtain is1 where "fs = map (Pair frameInput) (is0 @ is1) @ (if d then [(frameDetach, [])] else [])" using d(2) by auto
    then show ?thesis by blast
  qed
qed simp

definition input_text :: "pane \<Rightarrow> byte list" where
  "input_text p = concat (p_inQueue p)"

lemma enqueue_room:
  assumes "\<not> p_gone p" "p_inBytes p + length b \<le> inputQueueBytes"
  shows "input_text (snd (enqueue b p)) = input_text p @ b" "p_inBytes (snd (enqueue b p)) = p_inBytes p + length b" "p_gone (snd (enqueue b p)) = p_gone p"
  using assms by (auto simp: enqueue_def input_text_def)

lemma serve_inputs:
  "\<not> p_gone p \<Longrightarrow> p_inBytes p + length (concat is) \<le> inputQueueBytes \<Longrightarrow>
   input_text (serve_frames ok (map (Pair frameInput) is @ (if d then [(frameDetach, [])] else [])) p) = input_text p @ concat is"
proof (induction "is" arbitrary: p)
  case Nil
  then show ?case by (simp add: attach_frame_def frameDetach_def frameInput_def frameResize_def)
next
  case (Cons b bs')
  have r: "p_inBytes p + length b \<le> inputQueueBytes" using Cons.prems(2) by simp
  note e = enqueue_room [OF Cons.prems(1) r]
  have "input_text (serve_frames ok (map (Pair frameInput) bs' @ (if d then [(frameDetach, [])] else [])) (snd (enqueue b p)))
      = input_text (snd (enqueue b p)) @ concat bs'"
    using Cons.prems e by (intro Cons.IH) auto
  then show ?case using e(1) by (simp add: attach_frame_def)
qed

lemma typed_length: "length (fst (typed p s)) \<le> length s"
  by (induction p s rule: typed.induct) (auto simp: Let_def case_prod_beta)

lemma sent_frames_short: "read_loop p cs = (fs, q, d) \<Longrightarrow> list_all (\<lambda>c. length c \<le> n) cs \<Longrightarrow> \<forall>f \<in> set fs. length (snd f) \<le> n"
proof (induction p cs arbitrary: fs rule: read_loop.induct)
  case (2 p c cs)
  obtain s q' d' where t: "typed p c = (s, q', d')" by (cases "typed p c") auto
  then have s: "length s \<le> n" using typed_length [of p c] 2(3) by simp
  define fs0 where "fs0 = (if s \<noteq> [] then [(frameInput, s)] else []) @ (if d' then [(frameDetach, [])] else [])"
  have e: "on_read p c = (fs0, q', d')" "\<forall>f \<in> set fs0. length (snd f) \<le> n" using s by (auto simp: on_read_def t fs0_def)
  obtain fs' r where l: "read_loop q' cs = (fs', r)" by (cases "read_loop q' cs") auto
  show ?case
  proof (cases d')
    case True
    then show ?thesis using 2(2) e by auto
  next
    case False
    then have d: "r = (q, d)" "fs = fs0 @ fs'" using 2(2) e l by auto
    have "\<forall>f \<in> set fs'. length (snd f) \<le> n" using 2(1) [OF e(1) [symmetric] refl] False l d(1) 2(3) by auto
    then show ?thesis using d(2) e(2) by auto
  qed
qed simp

lemma typing_arrives:
  assumes "read_loop False cs = (fs, q, d)" "list_all (\<lambda>c. length c \<le> 4096) cs"
    and "\<not> p_gone p" "p_inBytes p + length (concat cs) \<le> inputQueueBytes"
  shows "input_text (serve_frames ok (fst (read_frames (concat (map (\<lambda>(t, b). encodeFrame t b) fs)))) p) = input_text p @ fst (typed False (concat cs))"
proof -
  obtain "is" where i: "fs = map (Pair frameInput) is @ (if d then [(frameDetach, [])] else [])" using read_loop_input [OF assms(1)] by blast
  have t: "typed False (concat cs) = (frames_text fs, q, d)" using read_loop_typed [OF assms(1)] .
  have c: "frames_text fs = concat is" by (simp add: i frames_text_def comp_def)
  have "\<forall>f \<in> set fs. length (snd f) \<le> maxFrame" using sent_frames_short [OF assms(1,2)] by (auto simp: maxFrame_def)
  then have "fst (read_frames (concat (map (\<lambda>(t, b). encodeFrame t b) fs))) = fs" by (simp add: read_frames_encode)
  moreover have "p_inBytes p + length (concat is) \<le> inputQueueBytes"
    using typed_length [of False "concat cs"] assms(4) t c by simp
  ultimately show ?thesis using serve_inputs [OF assms(3), of "is" ok d] t c i by simp
qed

text \<open>Without the prefix key everything is sent; a doubled prefix is one, and a prefix with \<open>d\<close> detaches.\<close>

lemma typed_plain: "PrefixKey \<notin> set s \<Longrightarrow> typed False s = (s, False, False)"
  by (induction s) auto

lemma typed_detach: "PrefixKey \<notin> set u \<Longrightarrow> typed False (u @ PrefixKey # bc CHR ''d'' # v) = (u, False, True)"
  by (simp add: typed_append typed_plain)

lemma typed_literal: "PrefixKey \<notin> set u \<Longrightarrow> typed False (u @ PrefixKey # PrefixKey # v) = (let (s, r) = typed False v in (u @ PrefixKey # s, r))"
  by (simp add: typed_append typed_plain PrefixKey_def Let_def case_prod_beta)

section \<open>Nothing is written after the restoration\<close>

lemma closed_stays: "htClosed t \<Longrightarrow> EnterScreen \<notin> set xs \<Longrightarrow> foldl ht_step t xs = t"
  by (induction xs) (auto simp: ht_step_def split: ht_op.split)

lemma written_before:
  "\<not> htClosed t \<Longrightarrow> list_all (\<lambda>x. \<exists>b. x = WriteOut b) xs \<Longrightarrow>
   htWritten (foldl ht_step t xs) = htWritten t @ concat (map (\<lambda>x. case x of WriteOut b \<Rightarrow> b | _ \<Rightarrow> []) xs)
   \<and> \<not> htClosed (foldl ht_step t xs) \<and> htEntered (foldl ht_step t xs) = htEntered t \<and> htRestored (foldl ht_step t xs) = htRestored t"
proof (induction xs arbitrary: t)
  case (Cons x xs)
  then obtain b where b: "x = WriteOut b" by auto
  have "ht_step t x = t\<lparr>htWritten := htWritten t @ b\<rparr>" using Cons.prems(1) by (simp add: ht_step_def b)
  then show ?case using Cons.IH [of "t\<lparr>htWritten := htWritten t @ b\<rparr>"] Cons.prems b by simp
qed simp

lemma restored_last:
  assumes "list_all (\<lambda>x. \<exists>b. x = WriteOut b) xs" "EnterScreen \<notin> set ys"
  shows "htWritten (foldl ht_step ht_open (EnterScreen # xs @ RestoreTerminal # ys))
      = enterSeq @ concat (map (\<lambda>x. case x of WriteOut b \<Rightarrow> b | _ \<Rightarrow> []) xs) @ leaveSeq"
    and "htRestored (foldl ht_step ht_open (EnterScreen # xs @ RestoreTerminal # ys)) = 1"
proof -
  define t where "t = foldl ht_step (ht_step ht_open EnterScreen) xs"
  have w: "htWritten t = enterSeq @ concat (map (\<lambda>x. case x of WriteOut b \<Rightarrow> b | _ \<Rightarrow> []) xs)" "\<not> htClosed t" "htEntered t" "htRestored t = 0"
    using written_before [OF _ assms(1), of "ht_step ht_open EnterScreen"] by (simp_all add: t_def ht_step_def ht_open_def)
  have "foldl ht_step ht_open (EnterScreen # xs @ RestoreTerminal # ys) = ht_step t RestoreTerminal"
    using closed_stays [of "ht_step t RestoreTerminal" ys] assms(2) w(2) by (simp add: t_def) (simp add: ht_step_def)
  then show "htWritten (foldl ht_step ht_open (EnterScreen # xs @ RestoreTerminal # ys))
      = enterSeq @ concat (map (\<lambda>x. case x of WriteOut b \<Rightarrow> b | _ \<Rightarrow> []) xs) @ leaveSeq"
    "htRestored (foldl ht_step ht_open (EnterScreen # xs @ RestoreTerminal # ys)) = 1"
    using w by (simp_all add: ht_step_def)
qed

end
