(* ===== verification/New.thy ===== *)
theory New
  imports Views Shellhooks Tmux
begin

text \<open>
  \<open>pairmux new\<close> (\<open>cmdNew\<close> of \<open>internal/cli/commands.go\<close>, with \<open>internal/state/reservation.go\<close> and the start gate of
  \<open>internal/cli/gate.go\<close>, \<open>gate_unix.go\<close>): the reservation of the name, the reuse of a dead terminal's name, the journal, the
  window, the gate that holds a program until its output is journalled, the registration, and the wait for the shell.
  What the operating system, the multiplexer and the clock answer is the record \<open>new_world\<close>; the state is the terminal's
  directory, the archive of the name and the gate, with the requests sent to the multiplexer in order.
\<close>

section \<open>State\<close>

record jfiles =
  jfMeta :: "meta option"
  jfEvents :: "event list"

datatype new_action =
    EnsureServer
  | KillDead "byte list"
  | OpenWindow NewWindowReq "byte list"
  | PipeTo "byte list" "byte list"
  | ReleaseGate
  | NameWindow "byte list" "byte list"
  | Nudge "byte list"
  | KillCreated "byte list"

record nst =
  nsDir :: "jfiles option"
  nsPrev :: "jfiles option"
  nsGate :: bool
  nsActs :: "new_action list"

definition act :: "new_action \<Rightarrow> nst \<Rightarrow> nst" where
  "act x s = s\<lparr>nsActs := nsActs s @ [x]\<rparr>"

datatype new_error =
    NewUsage
  | NewFlags flag_error
  | NewBadSocket
  | NewBadName
  | NewExists
  | NewInternal
  | NewMux

text \<open>\<open>NewWaiting\<close>: the command is still in one of its waits after the polls given.\<close>

datatype new_result = NewFailed new_error | NewMade envelope | NewWaiting

datatype lock_try = LockHeld | LockTaken | LockError

record new_world =
  nwE :: endpoints
  nwB :: backend
  nwSocket :: "byte list"
  nwRoot :: "byte list"
  nwList :: "resolve_error + registered list"
  nwLock :: "byte list \<Rightarrow> lock_try"
  nwPanes :: "byte list + pane_info list"
  nwRename :: bool
  nwWindows :: bool
  nwShell :: "byte list"
  nwShim :: "byte list"
  nwShimWrites :: bool
  nwEnsure :: bool
  nwCwd :: "byte list option"
  nwMkdir :: bool
  nwChmod :: bool
  nwRaw :: bool
  nwRawClose :: bool
  nwFifo :: bool
  nwOpen :: "byte list option"
  nwPipe :: bool
  nwTries :: "((bool \<times> bool) option \<times> int) list"
  nwGateEnd :: int
  nwTag :: bool
  nwTTY :: "byte list option"
  nwWriteMeta :: bool
  nwRewriteMeta :: bool
  nwEvent :: bool
  nwNow :: int
  nwPolls :: "poll list"
  nwTurns :: "(int \<times> int) list"
  nwSize0 :: int
  nwReadyStart :: int
  nwCycle :: "poll list"
  nwCycleEnd :: int
  nwResolve :: "resolve_error + registered"
  nwLook :: look

definition path_string :: "byte list \<Rightarrow> path \<Rightarrow> byte list" where
  "path_string root d = foldl path_under root d"

definition namespace_dir :: "new_world \<Rightarrow> path" where
  "namespace_dir W = SocketDirFor (nwE W) (nwB W) (nwSocket W)"

definition terminal_dir :: "new_world \<Rightarrow> byte list \<Rightarrow> byte list" where
  "terminal_dir W name = path_string (nwRoot W) (namespace_dir W @ [name])"

section \<open>The name\<close>

text \<open>\<open>AcquireNameReservation\<close>; the name's lock covers the directory of the locks, the file and its \<open>flock\<close>.\<close>

definition reserve :: "new_world \<Rightarrow> byte list \<Rightarrow> lock_try" where
  "reserve W name = (if ValidName name then nwLock W name else LockError)"

definition existingNames :: "new_world \<Rightarrow> byte list list" where
  "existingNames W = (case nwList W of Inl _ \<Rightarrow> [] | Inr ts \<Rightarrow> map tName ts)"

text \<open>The loop over automatic names, with fuel; \<open>None\<close> says that it goes on.\<close>

fun auto_name :: "nat \<Rightarrow> new_world \<Rightarrow> byte list list \<Rightarrow> (new_error + byte list) option" where
  "auto_name 0 W existing = None"
| "auto_name (Suc k) W existing =
     (let name = NextAutoName existing
      in case reserve W name of
           LockHeld \<Rightarrow> Some (Inr name)
         | LockTaken \<Rightarrow> auto_name k W (existing @ [name])
         | LockError \<Rightarrow> Some (Inl NewInternal))"

definition given_name :: "new_world \<Rightarrow> byte list \<Rightarrow> new_error + byte list" where
  "given_name W name =
     (if \<not> ValidName name then Inl NewBadName
      else case reserve W name of LockHeld \<Rightarrow> Inr name | LockTaken \<Rightarrow> Inl NewExists | LockError \<Rightarrow> Inl NewInternal)"

section \<open>Steps\<close>

text \<open>A step returns early with a result, or \<open>None\<close> to go on.\<close>

type_synonym new_step = "nst \<Rightarrow> new_result option \<times> nst"

definition seq :: "new_step \<Rightarrow> new_step \<Rightarrow> new_step" where
  "seq f g s = (case f s of (None, s1) \<Rightarrow> g s1 | (Some r, s1) \<Rightarrow> (Some r, s1))"

definition archive :: "new_world \<Rightarrow> new_step" where
  "archive W s =
     (case nsDir s of
        None \<Rightarrow> (None, s)
      | Some j \<Rightarrow>
          if (case jfMeta j of None \<Rightarrow> False | Some m \<Rightarrow> \<not> MetaMatchesSocket m (nwSocket W)) then (Some (NewFailed NewExists), s)
          else if nwRename W then (None, s\<lparr>nsPrev := Some j, nsDir := None\<rparr>)
          else (Some (NewFailed NewInternal), s\<lparr>nsPrev := None\<rparr>))"

text \<open>\<open>findPane\<close> and the reuse of a dead terminal's name.\<close>

definition reclaim :: "new_world \<Rightarrow> byte list \<Rightarrow> new_step" where
  "reclaim W name s =
     (case managedPanes (nwPanes W) of
        Inl _ \<Rightarrow> (Some (NewFailed NewMux), s)
      | Inr panes \<Rightarrow>
          (case find (\<lambda>p. InfoName p = name) panes of
             None \<Rightarrow> archive W s
           | Some p \<Rightarrow> if \<not> PaneDead p then (Some (NewFailed NewExists), s) else archive W (act (KillDead (PaneID p)) s)))"

definition no_files :: jfiles where "no_files = \<lparr>jfMeta = None, jfEvents = []\<rparr>"

text \<open>\<open>prepareTerminalJournalWith\<close>.\<close>

definition prepareTerminalJournal :: "new_world \<Rightarrow> new_step" where
  "prepareTerminalJournal W s =
     (if \<not> nwMkdir W then (Some (NewFailed NewInternal), s)
      else (if nwChmod W \<and> nwRaw W \<and> nwRawClose W then None else Some (NewFailed NewInternal),
            s\<lparr>nsDir := Some (case nsDir s of None \<Rightarrow> no_files | Some j \<Rightarrow> j)\<rparr>))"

definition newStartGate :: "new_world \<Rightarrow> new_step" where
  "newStartGate W s = (if nwFifo W then None else Some (NewFailed NewInternal), s\<lparr>nsGate := nwFifo W\<rparr>)"

text \<open>\<open>release\<close>: each try to open the FIFO with the clock after it; an opened one is written and closed, which may fail.
  \<open>None\<close>: it is still trying.\<close>

fun release :: "int \<Rightarrow> ((bool \<times> bool) option \<times> int) list \<Rightarrow> (bool \<times> bool) option" where
  "release deadline [] = None"
| "release deadline ((opened, now) # ts) =
     (case opened of
        Some (written, closed) \<Rightarrow> Some (True, written \<and> closed)
      | None \<Rightarrow> if deadline \<le> now then Some (False, False) else release deadline ts)"

definition release_gate :: "new_world \<Rightarrow> bool \<Rightarrow> new_step" where
  "release_gate W gated s =
     (if \<not> gated then (None, s)
      else case release (nwGateEnd W) (nwTries W) of
        None \<Rightarrow> (Some NewWaiting, s)
      | Some (opened, ok) \<Rightarrow>
          (if ok then None else Some (NewFailed NewInternal),
           (if opened then act ReleaseGate s else s)\<lparr>nsGate := False\<rparr>))"

text \<open>A request to the multiplexer that may fail.\<close>

definition ask :: "new_action \<Rightarrow> bool \<Rightarrow> new_step" where
  "ask x ok s = (if ok then None else Some (NewFailed NewMux), act x s)"

definition on_files :: "(jfiles \<Rightarrow> jfiles) \<Rightarrow> nst \<Rightarrow> nst" where
  "on_files f s = s\<lparr>nsDir := map_option f (nsDir s)\<rparr>"

definition write_meta :: "bool \<Rightarrow> meta \<Rightarrow> nst \<Rightarrow> nst" where
  "write_meta ok m s = (if ok then on_files (\<lambda>j. j\<lparr>jfMeta := Some m\<rparr>) s else s)"

definition record_created :: "new_world \<Rightarrow> byte list \<Rightarrow> new_step" where
  "record_created W name s =
     (if nwEvent W then
        (None, on_files (\<lambda>j. j\<lparr>jfEvents := jfEvents j
           @ [\<lparr>TS = nwNow W, EvType = EvCreated, CmdID = 0, Offset = 0, EvExit = None, EvText = name\<rparr>]\<rparr>) s)
      else (Some (NewFailed NewInternal), s))"

section \<open>Waiting for the shell\<close>

text \<open>\<open>WaitReady\<close>, over the turns of \<open>Quiesce\<close> or the polls of its own loop.\<close>

definition WaitReady :: "new_world \<Rightarrow> Mode \<Rightarrow> (unit + bool) option" where
  "WaitReady W mode =
     (let deadline = nwReadyStart W + ReadyTimeout (nwShell W)
      in if mode = ModeSentinel then
           map_option (\<lambda>_. Inr False) (quiesce_loop 800000000 deadline (nwTurns W) (nwSize0 W) (nwReadyStart W))
         else map_option (map_sum (\<lambda>_. ()) id) (ready_loop deadline (nwPolls W) 0 (NewScanner 0)))"

definition degraded :: "byte list" where
  "degraded = bs ''hooks unavailable in this shell config '' @ [0xe2, 0x80, 0x94]
     @ bs '' completion detection degraded to sentinel mode''"

text \<open>From the nudge to the envelope.\<close>

definition await_shell :: "new_world \<Rightarrow> byte list \<Rightarrow> bool \<Rightarrow> Mode \<Rightarrow> meta \<Rightarrow> byte list \<Rightarrow> new_step" where
  "await_shell W name program mode m p s =
     (let nudged = (mode = ModeHooks \<and> nwB W = BackendTmux);
          s1 = (if nudged then act (Nudge p) s else s)
      in case WaitReady W mode of
           None \<Rightarrow> (Some NewWaiting, s1)
         | Some (Inl _) \<Rightarrow> (Some (NewFailed NewInternal), s1)
         | Some (Inr hooks) \<Rightarrow>
             if nudged \<and> hooks \<and> WaitPromptCycle (nwCycle W) (nwCycleEnd W) = None then (Some NewWaiting, s1)
             else
               let degrade = (mode = ModeHooks \<and> \<not> hooks);
                   eff = (if degrade then ModeSentinel else mode);
                   s2 = (if degrade then write_meta (nwRewriteMeta W) (m\<lparr>metaMode := Some ModeSentinel\<rparr>) s1 else s1);
                   next1 = (if degrade then [degraded] else [])
               in if program then
                    (case nwResolve W of
                       Inl _ \<Rightarrow> (Some (NewFailed NewMux), s2)
                     | Inr t \<Rightarrow>
                         let st = deriveTerminalStatus (nwLook W) (tAlive t) (tMode t) True
                         in (Some (NewMade (env0\<lparr>eStatus := status_name st, eTerminal := name, eMode := Some eff,
                               eNext := next1 @ peekNext name st\<rparr>)), s2))
                  else
                    (Some (NewMade (env0\<lparr>eStatus := bs ''created'', eTerminal := name, eMode := Some eff,
                       eNext := next1 @ [bs ''pairmux run '' @ name @ bs '' '' @ [0x22] @ bs ''echo hello'' @ [0x22]]\<rparr>)), s2))"

section \<open>The window\<close>

definition new_env :: "new_world \<Rightarrow> byte list \<Rightarrow> (byte list \<times> byte list) list \<Rightarrow> (byte list \<times> byte list) list" where
  "new_env W name prep =
     prep @
     [(bs ''PAIRMUX'', bs ''1''), (bs ''PAIRMUX_NAME'', name), (bs ''PAIRMUX_STATE_DIR'', nwRoot W),
      (bs ''PAIRMUX_STATE_NAMESPACE'', path_string (nwRoot W) (namespace_dir W)),
      (bs ''PAIRMUX_TERMINAL_DIR'', terminal_dir W name),
      (bs ''PAIRMUX_SOCKET'', ChildSocket (nwSocket W) name),
      (bs ''PAIRMUX_BACKEND'', (case nwB W of BackendTmux \<Rightarrow> bs ''tmux'' | BackendBuiltin \<Rightarrow> bs ''builtin''))]"

definition raw_path :: "new_world \<Rightarrow> byte list \<Rightarrow> byte list" where
  "raw_path W name = path_under (terminal_dir W name) (bs ''raw.log'')"

definition gate_path :: "new_world \<Rightarrow> byte list \<Rightarrow> byte list" where
  "gate_path W name = path_under (terminal_dir W name) (bs ''.start-gate'')"

definition window_of :: "new_world \<Rightarrow> byte list \<Rightarrow> byte list \<Rightarrow> launch \<Rightarrow> bool \<Rightarrow> NewWindowReq" where
  "window_of W name cwd l gated =
     (case l of (argv, prep, _) \<Rightarrow>
        \<lparr>wrName = name, wrDir = (if cwd = [] then (case nwCwd W of None \<Rightarrow> [] | Some d \<Rightarrow> d) else cwd),
         wrEnv = new_env W name prep, wrArgv = argv, wrGate = (if gated then gate_path W name else [])\<rparr>)"

definition meta_of :: "new_world \<Rightarrow> byte list \<Rightarrow> bool \<Rightarrow> Mode \<Rightarrow> byte list \<Rightarrow> meta" where
  "meta_of W name program mode p =
     \<lparr>metaName = name, metaPaneID = p, metaTty = (case nwTTY W of None \<Rightarrow> [] | Some t \<Rightarrow> t),
      metaShell = (if program then [] else nwShell W), metaMode = Some mode, metaSocket = nwSocket W, metaCreatedAt = nwNow W\<rparr>"

text \<open>What follows once the window exists.\<close>

definition wire :: "new_world \<Rightarrow> byte list \<Rightarrow> bool \<Rightarrow> Mode \<Rightarrow> bool \<Rightarrow> byte list \<Rightarrow> new_step" where
  "wire W name program mode gated p =
     (let m = meta_of W name program mode p
      in seq (if nwB W = BackendTmux then ask (PipeTo p (raw_path W name)) (nwPipe W) else (\<lambda>s. (None, s)))
        (seq (release_gate W gated)
        (seq (ask (NameWindow p name) (nwTag W))
        (seq (\<lambda>s. (if nwWriteMeta W then None else Some (NewFailed NewInternal), write_meta (nwWriteMeta W) m s))
        (seq (record_created W name)
          (await_shell W name program mode m p))))))"

text \<open>The deferred cleanup: unless the pane is kept, the gate is dropped and the pane killed.\<close>

definition clean_up :: "bool \<Rightarrow> byte list \<Rightarrow> new_result option \<times> nst \<Rightarrow> new_result option \<times> nst" where
  "clean_up gated p x =
     (case x of
        (Some (NewFailed e), s) \<Rightarrow> (Some (NewFailed e), act (KillCreated p) (if gated then s\<lparr>nsGate := False\<rparr> else s))
      | y \<Rightarrow> y)"

definition open_window :: "new_world \<Rightarrow> byte list \<Rightarrow> byte list \<Rightarrow> bool \<Rightarrow> launch \<Rightarrow> new_step" where
  "open_window W name cwd program l s =
     (let gated = (fst l \<noteq> [] \<and> nwB W = BackendTmux)
      in case (if gated then newStartGate W s else (None, s)) of
           (Some r, s1) \<Rightarrow> (Some r, s1)
         | (None, s1) \<Rightarrow>
             let s2 = act (OpenWindow (window_of W name cwd l gated) (if nwB W = BackendTmux then [] else raw_path W name)) s1
             in case nwOpen W of
                  None \<Rightarrow> (Some (NewFailed NewMux), if gated then s2\<lparr>nsGate := False\<rparr> else s2)
                | Some p \<Rightarrow> clean_up gated p (wire W name program (snd (snd l)) gated p s2))"

section \<open>The command\<close>

definition launch_of :: "new_world \<Rightarrow> byte list \<Rightarrow> launch option" where
  "launch_of W cmd =
     Prepare (nwWindows W) (nwShim W) (nwShimWrites W) (path_string (nwRoot W) (namespace_dir W)) (nwShell W)
       (if cmd = [] then [] else [cmd])"

definition create :: "new_world \<Rightarrow> byte list \<Rightarrow> byte list \<Rightarrow> byte list \<Rightarrow> new_step" where
  "create W name cwd cmd =
     seq (reclaim W name)
    (seq (ask EnsureServer (nwEnsure W))
         (\<lambda>s. case launch_of W cmd of
            None \<Rightarrow> (Some (NewFailed NewInternal), s)
          | Some l \<Rightarrow> seq (prepareTerminalJournal W) (open_window W name cwd (cmd \<noteq> []) l) s))"

definition new_spec :: flag_spec where
  "new_spec = \<lparr>bools = [], vals = [bs ''name'', bs ''cwd'', bs ''cmd''], lists = []\<rparr>"

text \<open>\<open>None\<close>: the loop over automatic names has not ended with the fuel.\<close>

definition cmdNew :: "nat \<Rightarrow> new_world \<Rightarrow> byte list list \<Rightarrow> nst \<Rightarrow> (new_result \<times> nst) option" where
  "cmdNew fuel W args s =
     (case parseFlags new_spec args no_flags of
        Inl e \<Rightarrow> Some (NewFailed (NewFlags e), s)
      | Inr (pos, f) \<Rightarrow>
          if pos \<noteq> [] then Some (NewFailed NewUsage, s)
          else if \<not> ValidSocketName (nwSocket W) then Some (NewFailed NewBadSocket, s)
          else
            (case (if valOf f (bs ''name'') = [] then auto_name fuel W (existingNames W) else Some (given_name W (valOf f (bs ''name'')))) of
               None \<Rightarrow> None
             | Some (Inl e) \<Rightarrow> Some (NewFailed e, s)
             | Some (Inr name) \<Rightarrow>
                 (case create W name (valOf f (bs ''cwd'')) (valOf f (bs ''cmd'')) s of
                    (None, s1) \<Rightarrow> Some (NewWaiting, s1)
                  | (Some r, s1) \<Rightarrow> Some (r, s1))))"

section \<open>The requests of a run\<close>

text \<open>What a successful run asks of the multiplexer, in order.\<close>

definition dead_window :: "new_world \<Rightarrow> byte list \<Rightarrow> new_action list" where
  "dead_window W name =
     (case managedPanes (nwPanes W) of Inl _ \<Rightarrow> []
      | Inr panes \<Rightarrow> (case find (\<lambda>p. InfoName p = name) panes of None \<Rightarrow> [] | Some p \<Rightarrow> if PaneDead p then [KillDead (PaneID p)] else []))"

definition after_window :: "new_world \<Rightarrow> byte list \<Rightarrow> Mode \<Rightarrow> bool \<Rightarrow> byte list \<Rightarrow> new_action list" where
  "after_window W name mode gated p =
     (if nwB W = BackendTmux then [PipeTo p (raw_path W name)] else [])
     @ (if gated then [ReleaseGate] else [])
     @ [NameWindow p name]
     @ (if mode = ModeHooks \<and> nwB W = BackendTmux then [Nudge p] else [])"

definition within :: "new_step \<Rightarrow> new_action list \<Rightarrow> bool" where
  "within f zs \<longleftrightarrow>
     (\<forall>s. \<exists>xs ys. zs = xs @ ys \<and> nsActs (snd (f s)) = nsActs s @ xs
        \<and> (ys = [] \<or> fst (f s) = Some NewWaiting \<or> (\<exists>e. fst (f s) = Some (NewFailed e))))"

definition early :: "new_step \<Rightarrow> bool" where
  "early f \<longleftrightarrow> (\<forall>s e. fst (f s) \<noteq> Some (NewMade e))"

lemma withinI:
  assumes "\<And>s. nsActs (snd (f s)) = nsActs s @ zs"
  shows "within f zs"
  using assms by (auto simp: within_def)

lemma within_seq:
  assumes "within f zs" "early f" "within g ws"
  shows "within (seq f g) (zs @ ws)"
  unfolding within_def
proof
  fix s
  obtain xs ys where f: "zs = xs @ ys" "nsActs (snd (f s)) = nsActs s @ xs"
    "ys = [] \<or> fst (f s) = Some NewWaiting \<or> (\<exists>e. fst (f s) = Some (NewFailed e))"
    using assms(1) unfolding within_def by blast
  show "\<exists>xs ys. zs @ ws = xs @ ys \<and> nsActs (snd (seq f g s)) = nsActs s @ xs
      \<and> (ys = [] \<or> fst (seq f g s) = Some NewWaiting \<or> (\<exists>e. fst (seq f g s) = Some (NewFailed e)))"
  proof (cases "f s")
    case (Pair r s1)
    show ?thesis
    proof (cases r)
      case None
      then have y: "ys = []" "seq f g s = g s1" using f(3) Pair by (auto simp: seq_def)
      obtain xs' ys' where "ws = xs' @ ys'" "nsActs (snd (g s1)) = nsActs s1 @ xs'"
        "ys' = [] \<or> fst (g s1) = Some NewWaiting \<or> (\<exists>e. fst (g s1) = Some (NewFailed e))"
        using assms(3) unfolding within_def by blast
      then show ?thesis using y f(1,2) Pair by (intro exI [of _ "xs @ xs'"] exI [of _ ys']) auto
    next
      case (Some r')
      then have "seq f g s = (Some r', s1)" "r' \<noteq> NewMade e" for e
        using Pair assms(2) by (auto simp: seq_def early_def) (metis fst_conv)
      then show ?thesis using f(1,2) Pair by (intro exI [of _ xs] exI [of _ "ys @ ws"]) (cases r'; auto)
    qed
  qed
qed

lemma early_seq: "early f \<Longrightarrow> early g \<Longrightarrow> early (seq f g)"
  by (auto simp: early_def seq_def split: prod.split option.split) (metis fst_conv)+

lemma seq_made:
  "early f \<Longrightarrow> seq f g s = (Some (NewMade e), s') \<longleftrightarrow> (\<exists>s1. f s = (None, s1) \<and> g s1 = (Some (NewMade e), s'))"
  by (auto simp: early_def seq_def split: prod.splits option.splits) (metis fst_conv)

lemma seq_None: "seq f g s = (None, s') \<longleftrightarrow> (\<exists>s1. f s = (None, s1) \<and> g s1 = (None, s'))"
  by (auto simp: seq_def split: prod.splits option.splits)

lemma early_steps [simp]:
  "early (ask x ok)" "early (release_gate W gated)" "early (record_created W name)" "early (prepareTerminalJournal W)"
  "early (archive W)" "early (reclaim W name)" "early (newStartGate W)"
  "early (\<lambda>s. (None, s))" "early (\<lambda>s. (if ok then None else Some (NewFailed e), h s))"
  by (auto simp: early_def ask_def release_gate_def record_created_def prepareTerminalJournal_def archive_def reclaim_def
      newStartGate_def split: option.split sum.split prod.split)

lemma acts_frame [simp]:
  "nsActs (act x s) = nsActs s @ [x]" "nsActs (on_files f s) = nsActs s" "nsActs (write_meta ok m s) = nsActs s"
  by (simp_all add: act_def on_files_def write_meta_def)

lemma within_nothing: "within (\<lambda>s. (None, s)) []"
  by (simp add: within_def)

lemma within_ask: "within (ask x ok) [x]"
  by (rule withinI) (simp add: ask_def)

lemma within_files:
  "within (\<lambda>s. (r, write_meta ok m s)) []" "within (record_created W name) []" "within (prepareTerminalJournal W) []" "within (archive W) []"
  by (rule withinI, simp add: record_created_def prepareTerminalJournal_def archive_def split: option.split)+

lemma within_release: "within (release_gate W gated) (if gated then [ReleaseGate] else [])"
proof (cases gated)
  case True
  have opened: "release d ts = Some (op, True) \<Longrightarrow> op" for d ts op
    by (induction d ts rule: release.induct) (auto split: option.splits if_splits)
  show ?thesis unfolding within_def
  proof
    fix s
    show "\<exists>xs ys. (if gated then [ReleaseGate] else []) = xs @ ys \<and> nsActs (snd (release_gate W gated s)) = nsActs s @ xs
       \<and> (ys = [] \<or> fst (release_gate W gated s) = Some NewWaiting \<or> (\<exists>e. fst (release_gate W gated s) = Some (NewFailed e)))"
    proof (cases "release (nwGateEnd W) (nwTries W)")
      case None
      then show ?thesis using True by (auto simp: release_gate_def)
    next
      case (Some r)
      then obtain op ok where r: "release (nwGateEnd W) (nwTries W) = Some (op, ok)" by (cases r) auto
      show ?thesis
      proof (cases op)
        case True
        then show ?thesis using r \<open>gated\<close> by (auto simp: release_gate_def intro: exI [of _ "[]"])
      next
        case False
        then have "\<not> ok" using r opened by (cases ok) auto
        then show ?thesis using r False \<open>gated\<close> by (auto simp: release_gate_def)
      qed
    qed
  qed
next
  case False
  then show ?thesis by (simp add: within_def release_gate_def)
qed

lemma within_shell: "within (await_shell W name program mode m p) (if mode = ModeHooks \<and> nwB W = BackendTmux then [Nudge p] else [])"
  by (rule withinI) (auto simp: await_shell_def Let_def split: option.split sum.split)

lemma wire_requests: "within (wire W name program mode gated p) (after_window W name mode gated p)"
proof -
  have pipe: "within (if nwB W = BackendTmux then ask (PipeTo p (raw_path W name)) (nwPipe W) else (\<lambda>s. (None, s)))
      (if nwB W = BackendTmux then [PipeTo p (raw_path W name)] else [])"
    by (simp add: within_ask within_nothing)
  have early: "early (if nwB W = BackendTmux then ask (PipeTo p (raw_path W name)) (nwPipe W) else (\<lambda>s. (None, s)))" by simp
  have rest: "within (seq (\<lambda>s. (if nwWriteMeta W then None else Some (NewFailed NewInternal), write_meta (nwWriteMeta W) m s))
      (seq (record_created W name) (await_shell W name program mode m p)))
      ([] @ [] @ (if mode = ModeHooks \<and> nwB W = BackendTmux then [Nudge p] else []))" for m
    by (intro within_seq within_shell within_files early_steps)
  show ?thesis
    unfolding wire_def after_window_def Let_def
    using rest by (intro within_seq pipe early within_release within_ask early_steps) auto
qed

section \<open>A window is kept or killed\<close>

definition opened :: "nst \<Rightarrow> bool" where
  "opened s \<longleftrightarrow> (\<exists>q j. OpenWindow q j \<in> set (nsActs s))"

text \<open>The requests up to the window, and the whole plan for window \<open>p\<close>.\<close>

definition before_window :: "new_world \<Rightarrow> byte list \<Rightarrow> new_action list" where
  "before_window W name = dead_window W name @ [EnsureServer]"

definition the_window :: "new_world \<Rightarrow> byte list \<Rightarrow> byte list \<Rightarrow> launch \<Rightarrow> new_action" where
  "the_window W name cwd l =
     OpenWindow (window_of W name cwd l (nwB W = BackendTmux)) (if nwB W = BackendTmux then [] else raw_path W name)"

definition new_plan :: "new_world \<Rightarrow> byte list \<Rightarrow> byte list \<Rightarrow> launch \<Rightarrow> new_action list" where
  "new_plan W name cwd l =
     before_window W name @ [the_window W name cwd l]
     @ (case nwOpen W of None \<Rightarrow> [] | Some p \<Rightarrow> after_window W name (snd (snd l)) (nwB W = BackendTmux) p)"

lemma Prepare_command: "Prepare wd shim wr d shell cmd = Some l \<Longrightarrow> fst l \<noteq> []"
  by (auto simp: Prepare_def prepare_override_def Let_def split: if_splits)

lemma no_kill_after: "KillCreated x \<notin> set (after_window W name mode gated p)"
  by (simp add: after_window_def)

text \<open>How a run ends: \<open>done_by\<close> says that the requests made are an initial part of the plan, all of it on success, and
  that they are followed by the killing of the new window exactly when the run failed after opening it.\<close>

definition done_by :: "new_world \<Rightarrow> new_action list \<Rightarrow> new_result option \<Rightarrow> new_action list \<Rightarrow> new_action list \<Rightarrow> bool" where
  "done_by W plan r as0 as1 \<longleftrightarrow>
     (\<exists>xs ys. plan = xs @ ys
        \<and> as1 = as0 @ xs
            @ (case r of Some (NewFailed e) \<Rightarrow>
                 (case nwOpen W of Some p \<Rightarrow> if \<exists>q j. OpenWindow q j \<in> set xs then [KillCreated p] else [] | None \<Rightarrow> []) | _ \<Rightarrow> [])
        \<and> (\<forall>e. r = Some (NewMade e) \<longrightarrow> ys = [] \<and> nwOpen W \<noteq> None))"

lemma done_byI:
  assumes "plan = xs @ ys"
    and "as1 = as0 @ xs
            @ (case r of Some (NewFailed e) \<Rightarrow>
                 (case nwOpen W of Some p \<Rightarrow> if \<exists>q j. OpenWindow q j \<in> set xs then [KillCreated p] else [] | None \<Rightarrow> []) | _ \<Rightarrow> [])"
    and "\<And>e. r = Some (NewMade e) \<Longrightarrow> ys = [] \<and> nwOpen W \<noteq> None"
  shows "done_by W plan r as0 as1"
  using assms unfolding done_by_def by blast

lemma open_window_requests:
  assumes "fst l \<noteq> []" "open_window W name cwd program l s = (r, s')"
  shows "done_by W (the_window W name cwd l # (case nwOpen W of None \<Rightarrow> [] | Some p \<Rightarrow> after_window W name (snd (snd l)) (nwB W = BackendTmux) p))
    r (nsActs s) (nsActs s')"
proof -
  define gated where "gated = (nwB W = BackendTmux)"
  have g: "(fst l \<noteq> [] \<and> nwB W = BackendTmux) = gated" using assms(1) by (simp add: gated_def)
  obtain r0 s1 where s1: "(if gated then newStartGate W s else (None, s)) = (r0, s1)" by (cases "if gated then newStartGate W s else (None, s)") auto
  have a1: "nsActs s1 = nsActs s" using s1 by (auto simp: newStartGate_def split: if_splits)
  show ?thesis
  proof (cases r0)
    case (Some e)
    have "r = Some e" "s' = s1" using assms(2) s1 Some by (simp_all add: open_window_def g)
    moreover have "\<exists>e'. e = NewFailed e'" using s1 Some by (auto simp: newStartGate_def split: if_splits)
    ultimately show ?thesis
      using a1 by (auto intro!: done_byI [where xs = "[]" and ys = "the_window W name cwd l # _"] split: option.split)
  next
    case None
    define s2 where "s2 = act (the_window W name cwd l) s1"
    have s2: "act (OpenWindow (window_of W name cwd l gated) (if nwB W = BackendTmux then [] else raw_path W name)) s1 = s2"
      unfolding s2_def the_window_def gated_def ..
    have open': "open_window W name cwd program l s =
        (case nwOpen W of None \<Rightarrow> (Some (NewFailed NewMux), if gated then s2\<lparr>nsGate := False\<rparr> else s2)
         | Some p \<Rightarrow> clean_up gated p (wire W name program (snd (snd l)) gated p s2))"
      unfolding open_window_def g Let_def s1 None using s2 by (cases "nwB W = BackendTmux"; cases "nwOpen W"; cases gated) simp_all
    have a2: "nsActs s2 = nsActs s @ [the_window W name cwd l]" by (simp add: s2_def a1)
    show ?thesis
    proof (cases "nwOpen W")
      case None
      then show ?thesis using assms(2) open' a2
        by (auto intro!: done_byI [where xs = "[the_window W name cwd l]" and ys = "[]"])
    next
      case (Some p)
      obtain r1 s3 where w: "wire W name program (snd (snd l)) gated p s2 = (r1, s3)"
        by (cases "wire W name program (snd (snd l)) gated p s2") auto
      obtain xs ys where x: "after_window W name (snd (snd l)) gated p = xs @ ys" "nsActs s3 = nsActs s2 @ xs"
        "ys = [] \<or> r1 = Some NewWaiting \<or> (\<exists>e. r1 = Some (NewFailed e))"
        using wire_requests [of W name program "snd (snd l)" gated p] w unfolding within_def by (metis fst_conv snd_conv)
      have c: "(r, s') = clean_up gated p (r1, s3)" using assms(2) open' Some w by simp
      have r: "r = r1" using c by (auto simp: clean_up_def split: option.splits new_result.splits)
      have q: "\<exists>q j. OpenWindow q j \<in> set (the_window W name cwd l # xs)" by (auto simp: the_window_def)
      have "nsActs s' = nsActs s3 @ (case r of Some (NewFailed e) \<Rightarrow> [KillCreated p] | _ \<Rightarrow> [])"
        using c by (auto simp: clean_up_def split: option.splits new_result.splits)
      then show ?thesis using x a2 r q Some
        by (intro done_byI [where xs = "the_window W name cwd l # xs" and ys = ys]) (auto simp: gated_def split: option.split new_result.split)
    qed
  qed
qed

lemma archive_result:
  assumes "archive W s = (r, s1)"
  shows "(r = None \<or> (\<exists>e. r = Some (NewFailed e))) \<and> nsActs s1 = nsActs s"
  using assms by (auto simp: archive_def split: option.splits if_splits)

lemma reclaim_result:
  assumes "reclaim W name s = (r, s1)"
  shows "(r = None \<and> nsActs s1 = nsActs s @ dead_window W name)
    \<or> ((\<exists>e. r = Some (NewFailed e)) \<and> (\<exists>xs ys. dead_window W name = xs @ ys \<and> nsActs s1 = nsActs s @ xs))"
proof -
  consider e where "managedPanes (nwPanes W) = Inl e"
    | ps where "managedPanes (nwPanes W) = Inr ps" "find (\<lambda>p. InfoName p = name) ps = None"
    | ps p where "managedPanes (nwPanes W) = Inr ps" "find (\<lambda>p. InfoName p = name) ps = Some p"
    by (cases "managedPanes (nwPanes W)") (blast, metis not_None_eq)
  then show ?thesis
  proof cases
    case 1
    then show ?thesis using assms by (auto simp: reclaim_def dead_window_def)
  next
    case 2
    then show ?thesis using assms archive_result [of W s r s1] by (auto simp: reclaim_def dead_window_def)
  next
    case 3
    then show ?thesis using assms archive_result [of W "act (KillDead (PaneID p)) s" r s1]
      by (cases "PaneDead p") (auto simp: reclaim_def dead_window_def)
  qed
qed

lemma no_window_before: "OpenWindow q j \<notin> set (before_window W name)"
  by (auto simp: before_window_def dead_window_def split: sum.split option.split)

lemma fails_before:
  assumes "plan = before_window W name @ zs" "before_window W name = xs @ ys" "as1 = as0 @ xs"
  shows "done_by W plan (Some (NewFailed e)) as0 as1"
proof -
  have "\<nexists>q j. OpenWindow q j \<in> set xs" using no_window_before [of _ _ W name] assms(2) by auto
  then show ?thesis using assms by (intro done_byI [where xs = xs and ys = "ys @ zs"]) (auto split: option.split)
qed

text \<open>Every run of \<open>create\<close> follows the plan.\<close>

lemma create_requests:
  assumes "create W name cwd cmd s = (r, s')"
  obtains l where "launch_of W cmd = Some l" "done_by W (new_plan W name cwd l) r (nsActs s) (nsActs s')"
  | e where "launch_of W cmd = None" "r = Some (NewFailed e)" "\<exists>xs ys. before_window W name = xs @ ys \<and> nsActs s' = nsActs s @ xs"
proof -
  obtain r1 s1 where r1: "reclaim W name s = (r1, s1)" by (cases "reclaim W name s") auto
  note R = reclaim_result [OF r1]
  have plan: "new_plan W name cwd l = before_window W name @ (the_window W name cwd l
      # (case nwOpen W of None \<Rightarrow> [] | Some p \<Rightarrow> after_window W name (snd (snd l)) (nwB W = BackendTmux) p))" for l
    by (simp add: new_plan_def)
  have early: "(\<exists>xs ys. before_window W name = xs @ ys \<and> nsActs s' = nsActs s @ xs)" "\<exists>e. r = Some (NewFailed e)"
    if "r1 \<noteq> None \<or> \<not> nwEnsure W \<or> launch_of W cmd = None \<or> fst (prepareTerminalJournal W (snd (ask EnsureServer (nwEnsure W) s1))) \<noteq> None"
  proof -
    have "(\<exists>xs ys. before_window W name = xs @ ys \<and> nsActs s' = nsActs s @ xs) \<and> (\<exists>e. r = Some (NewFailed e))"
    proof (cases r1)
      case (Some e)
      then have "r = Some e" "s' = s1" using assms r1 by (auto simp: create_def seq_def)
      then show ?thesis using R Some by (auto simp: before_window_def)
    next
      case None
      then have a: "nsActs s1 = nsActs s @ dead_window W name" using R by simp
      have "nsActs s' = nsActs s @ before_window W name \<and> (\<exists>e. r = Some (NewFailed e))"
        using assms r1 None that a
        by (auto simp: create_def seq_def ask_def before_window_def prepareTerminalJournal_def split: if_splits option.splits)
      then show ?thesis by blast
    qed
    then show "(\<exists>xs ys. before_window W name = xs @ ys \<and> nsActs s' = nsActs s @ xs)" "\<exists>e. r = Some (NewFailed e)" by blast+
  qed
  show ?thesis
  proof (cases "launch_of W cmd")
    case None
    then show ?thesis using early that(2) by blast
  next
    case (Some l)
    show ?thesis
    proof (cases "r1 \<noteq> None \<or> \<not> nwEnsure W \<or> fst (prepareTerminalJournal W (snd (ask EnsureServer (nwEnsure W) s1))) \<noteq> None")
      case True
      then have "done_by W (new_plan W name cwd l) r (nsActs s) (nsActs s')" using early fails_before [OF plan] by blast
      then show ?thesis using Some that(1) by blast
    next
      case False
      define s2 where "s2 = snd (prepareTerminalJournal W (act EnsureServer s1))"
      have p: "prepareTerminalJournal W (act EnsureServer s1) = (None, s2)"
        using False by (cases "prepareTerminalJournal W (act EnsureServer s1)") (auto simp: s2_def ask_def)
      have o: "open_window W name cwd (cmd \<noteq> []) l s2 = (r, s')"
        using assms r1 False Some p by (simp add: create_def seq_def ask_def)
      have a: "nsActs s2 = nsActs s @ before_window W name"
        using R False p by (auto simp: before_window_def prepareTerminalJournal_def split: if_splits)
      have "fst l \<noteq> []" using Some Prepare_command by (auto simp: launch_of_def)
      from open_window_requests [OF this o] obtain xs ys where x:
        "the_window W name cwd l # (case nwOpen W of None \<Rightarrow> [] | Some p \<Rightarrow> after_window W name (snd (snd l)) (nwB W = BackendTmux) p) = xs @ ys"
        "nsActs s' = nsActs s2 @ xs @ (case r of Some (NewFailed e) \<Rightarrow>
           (case nwOpen W of Some p \<Rightarrow> if \<exists>q j. OpenWindow q j \<in> set xs then [KillCreated p] else [] | None \<Rightarrow> []) | _ \<Rightarrow> [])"
        "\<forall>e. r = Some (NewMade e) \<longrightarrow> ys = [] \<and> nwOpen W \<noteq> None"
        unfolding done_by_def by blast
      have "done_by W (new_plan W name cwd l) r (nsActs s) (nsActs s')"
        unfolding plan x(1) using x(2,3) a no_window_before [of _ _ W name]
        by (intro done_byI [where xs = "before_window W name @ xs" and ys = ys]) (auto split: option.split new_result.split)
      then show ?thesis using Some that(1) by blast
    qed
  qed
qed

section \<open>What a successful run leaves\<close>

lemma write_meta_made:
  "write_meta True m s = on_files (\<lambda>j. j\<lparr>jfMeta := Some m\<rparr>) s" "write_meta False m s = s"
  by (simp_all add: write_meta_def)

lemma files_frame [simp]:
  "nsPrev (on_files f s) = nsPrev s" "nsGate (on_files f s) = nsGate s" "nsDir (on_files f s) = map_option f (nsDir s)"
  "nsPrev (act x s) = nsPrev s" "nsGate (act x s) = nsGate s" "nsDir (act x s) = nsDir s"
  by (simp_all add: on_files_def act_def)

lemma await_shell_made:
  assumes "await_shell W name program mode m p s = (Some (NewMade e), s')"
  shows "nsPrev s' = nsPrev s" "nsGate s' = nsGate s"
    "nsDir s' = nsDir s \<or> nsDir s' = map_option (\<lambda>j. j\<lparr>jfMeta := Some (m\<lparr>metaMode := Some ModeSentinel\<rparr>)\<rparr>) (nsDir s)"
    "eTerminal e = name"
  using assms
  by (auto simp: await_shell_def write_meta_def env0_def Let_def split: option.splits sum.splits if_splits)

lemma release_gate_done:
  "release_gate W gated s = (None, s') \<Longrightarrow> nsDir s' = nsDir s \<and> nsPrev s' = nsPrev s \<and> nsGate s' = (nsGate s \<and> \<not> gated)"
  by (auto simp: release_gate_def split: if_splits option.splits)

definition names_terminal :: "new_world \<Rightarrow> byte list \<Rightarrow> byte list \<Rightarrow> jfiles \<Rightarrow> bool" where
  "names_terminal W name p j \<longleftrightarrow>
     (\<exists>m. jfMeta j = Some m \<and> metaName m = name \<and> metaPaneID m = p \<and> metaSocket m = nwSocket W)
     \<and> jfEvents j \<noteq> [] \<and> EvType (last (jfEvents j)) = EvCreated \<and> EvText (last (jfEvents j)) = name"

lemma wire_made:
  assumes "wire W name program mode gated p s = (Some (NewMade e), s')" "nsDir s \<noteq> None"
  shows "nsPrev s' = nsPrev s" "nsGate s' = (nsGate s \<and> \<not> gated)" "\<exists>j. nsDir s' = Some j \<and> names_terminal W name p j" "eTerminal e = name"
proof -
  define m where "m = meta_of W name program mode p"
  have e: "early (if nwB W = BackendTmux then ask (PipeTo p (raw_path W name)) (nwPipe W) else (\<lambda>s. (None, s)))" by simp
  from assms(1) obtain s1 s2 s3 s4 s5 where
    s1: "(if nwB W = BackendTmux then ask (PipeTo p (raw_path W name)) (nwPipe W) else (\<lambda>s. (None, s))) s = (None, s1)"
    and s2: "release_gate W gated s1 = (None, s2)" and s3: "ask (NameWindow p name) (nwTag W) s2 = (None, s3)"
    and s4: "nwWriteMeta W" "s4 = write_meta True m s3" and s5: "record_created W name s4 = (None, s5)"
    and s6: "await_shell W name program mode m p s5 = (Some (NewMade e), s')"
    unfolding wire_def Let_def m_def [symmetric] by (auto simp: seq_made e split: if_splits)
  have f1: "nsDir s1 = nsDir s" "nsPrev s1 = nsPrev s" "nsGate s1 = nsGate s" using s1 by (auto simp: ask_def split: if_splits)
  note f2 = release_gate_done [OF s2]
  have f3: "nsDir s3 = nsDir s2" "nsPrev s3 = nsPrev s2" "nsGate s3 = nsGate s2" using s3 by (auto simp: ask_def split: if_splits)
  have f5: "nsPrev s5 = nsPrev s3" "nsGate s5 = nsGate s3"
    "nsDir s5 = map_option (\<lambda>j. j\<lparr>jfMeta := Some m, jfEvents := jfEvents j
       @ [\<lparr>TS = nwNow W, EvType = EvCreated, CmdID = 0, Offset = 0, EvExit = None, EvText = name\<rparr>]\<rparr>) (nsDir s3)"
    using s5 s4(2) by (auto simp: record_created_def write_meta_made option.map_comp comp_def split: if_splits)
  note f6 = await_shell_made [OF s6]
  show "nsPrev s' = nsPrev s" "nsGate s' = (nsGate s \<and> \<not> gated)" "eTerminal e = name" using f1 f2 f3 f5 f6 by auto
  show "\<exists>j. nsDir s' = Some j \<and> names_terminal W name p j"
    using f1 f2 f3 f5 f6 assms(2) by (auto simp: names_terminal_def m_def meta_of_def)
qed

lemma archive_done:
  "archive W s = (None, s1) \<Longrightarrow> nsDir s1 = None \<and> nsPrev s1 = (case nsDir s of None \<Rightarrow> nsPrev s | Some j \<Rightarrow> Some j)
     \<and> nsGate s1 = nsGate s"
  by (auto simp: archive_def split: option.splits if_splits)

lemma reclaim_done:
  "reclaim W name s = (None, s1) \<Longrightarrow> nsDir s1 = None \<and> nsPrev s1 = (case nsDir s of None \<Rightarrow> nsPrev s | Some j \<Rightarrow> Some j)
     \<and> nsGate s1 = nsGate s"
  by (auto simp: reclaim_def split: sum.splits option.splits if_splits dest!: archive_done)

lemma clean_up_made: "clean_up gated p x = (Some (NewMade e), s') \<Longrightarrow> x = (Some (NewMade e), s')"
  by (cases x) (auto simp: clean_up_def split: option.splits new_result.splits)

lemma create_made:
  assumes "create W name cwd cmd s = (Some (NewMade e), s')" "\<not> nsGate s"
  shows "nsPrev s' = (case nsDir s of None \<Rightarrow> nsPrev s | Some j \<Rightarrow> Some j) \<and> \<not> nsGate s' \<and> eTerminal e = name
    \<and> (\<exists>p j. nwOpen W = Some p \<and> nsDir s' = Some j \<and> names_terminal W name p j)"
proof -
  from assms(1) obtain s1 s2 l s3 where s1: "reclaim W name s = (None, s1)" and s2: "ask EnsureServer (nwEnsure W) s1 = (None, s2)"
    and l: "launch_of W cmd = Some l" and s3: "prepareTerminalJournal W s2 = (None, s3)"
    and o: "open_window W name cwd (cmd \<noteq> []) l s3 = (Some (NewMade e), s')"
    unfolding create_def by (auto simp: seq_made split: option.splits)
  note f1 = reclaim_done [OF s1]
  have f2: "nsDir s2 = nsDir s1" "nsPrev s2 = nsPrev s1" "nsGate s2 = nsGate s1" using s2 by (auto simp: ask_def split: if_splits)
  have f3: "nsDir s3 \<noteq> None" "nsPrev s3 = nsPrev s2" "nsGate s3 = nsGate s2"
    using s3 by (auto simp: prepareTerminalJournal_def split: if_splits)
  define gated where "gated = (fst l \<noteq> [] \<and> nwB W = BackendTmux)"
  obtain s4 p where s4: "(if gated then newStartGate W s3 else (None, s3)) = (None, s4)" "nwOpen W = Some p"
    "\<exists>a. clean_up gated p (wire W name (cmd \<noteq> []) (snd (snd l)) gated p (act a s4)) = (Some (NewMade e), s')"
    using o unfolding open_window_def gated_def [symmetric] Let_def
    by (cases "if gated then newStartGate W s3 else (None, s3)"; cases "fst (if gated then newStartGate W s3 else (None, s3))";
        cases "nwOpen W") (auto simp: newStartGate_def split: if_splits)
  then obtain a where w: "wire W name (cmd \<noteq> []) (snd (snd l)) gated p (act a s4) = (Some (NewMade e), s')"
    using clean_up_made by blast
  have f4: "nsDir s4 = nsDir s3" "nsPrev s4 = nsPrev s3" "\<not> gated \<Longrightarrow> nsGate s4 = nsGate s3"
    using s4(1) by (auto simp: newStartGate_def split: if_splits)
  show ?thesis using wire_made [OF w] f1 f2 f3 f4 s4(2) assms(2) by auto
qed

text \<open>A name that is in use is left alone.\<close>

lemma live_name_untouched:
  assumes "managedPanes (nwPanes W) = Inr ps" "find (\<lambda>p. InfoName p = name) ps = Some p" "\<not> PaneDead p"
  shows "create W name cwd cmd s = (Some (NewFailed NewExists), s)"
  using assms by (simp add: create_def seq_def reclaim_def)

text \<open>A run that fails at its window has archived the journal of the dead terminal and leaves an empty directory; the next run
  archives that one, and the journal is lost although no terminal was ever created.\<close>

lemma failed_new_loses_archive:
  assumes "managedPanes (nwPanes W) = Inr []" "nwRename W" "nwEnsure W" "launch_of W cmd \<noteq> None"
    and "nwMkdir W" "nwB W = BackendBuiltin" "nwOpen W = None"
    and "nsDir s = Some j" "\<forall>m. jfMeta j = Some m \<longrightarrow> MetaMatchesSocket m (nwSocket W)"
    and "create W name cwd cmd s = (r1, s1)" "create W name cwd cmd s1 = (r2, s2)"
  shows "nsPrev s1 = Some j \<and> nsPrev s2 = Some no_files \<and> nsDir s2 = Some no_files"
proof -
  obtain l where l: "launch_of W cmd = Some l" using assms(4) by auto
  have c: "nsPrev (snd (create W name cwd cmd t)) = Some i \<and> nsDir (snd (create W name cwd cmd t)) = Some no_files"
    if "nsDir t = Some i" "\<forall>m. jfMeta i = Some m \<longrightarrow> MetaMatchesSocket m (nwSocket W)" for t i
    using assms(1-3,5-7) that
    by (auto simp: create_def seq_def reclaim_def archive_def ask_def l prepareTerminalJournal_def open_window_def Let_def
        split: option.splits)
  have "nsPrev s1 = Some j \<and> nsDir s1 = Some no_files" using c [OF assms(8,9)] assms(10) by simp
  then show ?thesis using c [of s1 no_files] assms(11) by (simp add: no_files_def)
qed

section \<open>Automatic names\<close>

text \<open>The names tried are consecutive, so the loop ends at the first that is free.\<close>

lemma auto_name_ends:
  assumes "max_auto existing + int n < 2 ^ 63 - 1" "\<exists>k \<le> n. nwLock W (bc CHR ''t'' # itoa (max_auto existing + 1 + int k)) \<noteq> LockTaken" "n < fuel"
  shows "\<exists>r. auto_name fuel W existing = Some r \<and> (case r of Inr name \<Rightarrow> name \<notin> set existing \<and> ValidName name \<and> nwLock W name = LockHeld | Inl e \<Rightarrow> e = NewInternal)"
  using assms
proof (induction fuel arbitrary: existing n)
  case (Suc fuel)
  define name where "name = NextAutoName existing"
  note N = next_auto [of existing]
  have m: "max_auto existing < 2 ^ 63 - 1" using Suc.prems(1) by simp
  have v: "ValidName name" "name \<notin> set existing" "auto_value name = Some (max_auto existing + 1)" using N [OF m] by (simp_all add: name_def)
  have e: "name = bc CHR ''t'' # itoa (max_auto existing + 1)"
    using m max_auto_nonneg [of existing] by (simp add: name_def NextAutoName_def wrap64_id)
  show ?case
  proof (cases "nwLock W name")
    case LockTaken
    have x: "max_auto (existing @ [name]) = max_auto existing + 1" using v(3) by (simp add: max_auto_def)
    obtain k where k: "k \<le> n" "nwLock W (bc CHR ''t'' # itoa (max_auto existing + 1 + int k)) \<noteq> LockTaken" using Suc.prems(2) by blast
    then obtain k' where k': "k = Suc k'" using LockTaken e by (cases k) auto
    have "\<exists>r. auto_name fuel W (existing @ [name]) = Some r \<and> (case r of Inr nm \<Rightarrow> nm \<notin> set (existing @ [name]) \<and> ValidName nm \<and> nwLock W nm = LockHeld | Inl e \<Rightarrow> e = NewInternal)"
    proof (rule Suc.IH [where n = "n - 1"])
      show "max_auto (existing @ [name]) + int (n - 1) < 2 ^ 63 - 1" using Suc.prems(1) k k' by (simp add: x)
      show "\<exists>i\<le>n - 1. nwLock W (bc CHR ''t'' # itoa (max_auto (existing @ [name]) + 1 + int i)) \<noteq> LockTaken"
        using k k' by (intro exI [of _ k']) (simp add: x add.commute add.left_commute)
      show "n - 1 < fuel" using Suc.prems(3) k k' by simp
    qed
    then show ?thesis using LockTaken v
      by (auto simp: name_def [symmetric] Let_def reserve_def split: sum.splits)
  qed (use v in \<open>simp_all add: name_def [symmetric] Let_def reserve_def\<close>)
qed simp

section \<open>The command\<close>

lemma release_after_pipe:
  assumes "new_plan W name cwd l = xs @ ys" "xs @ zs = us @ ReleaseGate # vs" "ReleaseGate \<notin> set zs"
  shows "\<exists>p. PipeTo p (raw_path W name) \<in> set us"
proof -
  define A where "A = before_window W name @ [the_window W name cwd l]"
  have n: "ReleaseGate \<notin> set A"
    by (auto simp: A_def before_window_def dead_window_def the_window_def split: sum.split option.split)
  have "\<exists>vs'. xs = us @ ReleaseGate # vs'"
    using assms(2,3) by (auto simp: append_eq_append_conv2 append_eq_Cons_conv Cons_eq_append_conv)
  then obtain vs' where e: "new_plan W name cwd l = us @ ReleaseGate # vs'" using assms(1) by auto
  then have "ReleaseGate \<in> set (new_plan W name cwd l)" by simp
  then obtain p where p: "nwOpen W = Some p" "nwB W = BackendTmux"
    using n by (cases "nwOpen W") (auto simp: new_plan_def A_def after_window_def split: if_splits)
  define B where "B = [NameWindow p name] @ (if snd (snd l) = ModeHooks then [Nudge p] else [])"
  have "(A @ [PipeTo p (raw_path W name)]) @ ReleaseGate # B = us @ ReleaseGate # vs'"
    using e p by (simp add: new_plan_def after_window_def A_def B_def)
  moreover have "ReleaseGate \<notin> set (A @ [PipeTo p (raw_path W name)])" "ReleaseGate \<notin> set B" using n by (simp_all add: B_def)
  ultimately have "us = A @ [PipeTo p (raw_path W name)]" using append_Cons_eq_iff by metis
  then show ?thesis by auto
qed

text \<open>The requests of a run of \<open>cmdNew\<close>: \<open>tail\<close> is the killing of a window that a failed run has opened.\<close>

definition kill_of :: "new_world \<Rightarrow> new_result \<Rightarrow> new_action list \<Rightarrow> new_action list" where
  "kill_of W r xs =
     (case r of NewFailed e \<Rightarrow>
        (case nwOpen W of Some p \<Rightarrow> if \<exists>q j. OpenWindow q j \<in> set xs then [KillCreated p] else [] | None \<Rightarrow> []) | _ \<Rightarrow> [])"

lemma cmdNew_cases:
  assumes "cmdNew fuel W args s = Some (r, s')"
  obtains name cwd cmd r0 where "create W name cwd cmd s = (r0, s')" "r = (case r0 of None \<Rightarrow> NewWaiting | Some x \<Rightarrow> x)"
  | e where "r = NewFailed e" "s' = s"
  using assms unfolding cmdNew_def
  by (auto split: sum.splits prod.splits if_splits option.splits)

lemma new_run:
  assumes "cmdNew fuel W args s = Some (r, s')" "nsActs s = []" "\<not> nsGate s"
  shows "\<exists>name cwd l xs ys. new_plan W name cwd l = xs @ ys \<and> nsActs s' = xs @ kill_of W r xs
      \<and> (\<forall>us vs. nsActs s' = us @ ReleaseGate # vs \<longrightarrow> (\<exists>p. PipeTo p (raw_path W name) \<in> set us))
      \<and> (\<forall>e. r = NewMade e \<longrightarrow> ys = [] \<and> eTerminal e = name \<and> \<not> nsGate s'
           \<and> nsPrev s' = (case nsDir s of None \<Rightarrow> nsPrev s | Some j \<Rightarrow> Some j)
           \<and> (\<exists>p j. nwOpen W = Some p \<and> nsDir s' = Some j \<and> names_terminal W name p j))"
    (is "\<exists>name cwd l xs ys. ?P name cwd l xs ys")
proof (cases rule: cmdNew_cases [OF assms(1)])
  case (2 e)
  then have "?P [] [] undefined [] (new_plan W [] [] undefined)" using assms(2) by (simp add: kill_of_def split: option.split)
  then show ?thesis by blast
next
  case (1 name cwd cmd r0)
  have k: "ReleaseGate \<notin> set (kill_of W r xs)" for xs by (simp add: kill_of_def split: new_result.split option.split)
  have made: "\<forall>e. r = NewMade e \<longrightarrow> eTerminal e = name \<and> \<not> nsGate s'
           \<and> nsPrev s' = (case nsDir s of None \<Rightarrow> nsPrev s | Some j \<Rightarrow> Some j)
           \<and> (\<exists>p j. nwOpen W = Some p \<and> nsDir s' = Some j \<and> names_terminal W name p j)"
    using create_made [OF _ assms(3)] 1 by (cases r0) auto
  have "\<exists>l xs ys. new_plan W name cwd l = xs @ ys \<and> nsActs s' = xs @ kill_of W r xs \<and> (\<forall>e. r = NewMade e \<longrightarrow> ys = [])"
  proof (cases rule: create_requests [OF 1(1)])
    case (1 l)
    then obtain xs ys where x: "new_plan W name cwd l = xs @ ys"
      "nsActs s' = nsActs s @ xs @ (case r0 of Some (NewFailed e) \<Rightarrow>
            (case nwOpen W of Some p \<Rightarrow> if \<exists>q j. OpenWindow q j \<in> set xs then [KillCreated p] else [] | None \<Rightarrow> []) | _ \<Rightarrow> [])"
      "\<forall>e. r0 = Some (NewMade e) \<longrightarrow> ys = []" unfolding done_by_def by blast
    have "r = NewMade e \<Longrightarrow> r0 = Some (NewMade e)" for e using \<open>r = (case r0 of None \<Rightarrow> NewWaiting | Some x \<Rightarrow> x)\<close> by (cases r0) auto
    moreover have "nsActs s' = xs @ kill_of W r xs"
      using x(2) assms(2) \<open>r = (case r0 of None \<Rightarrow> NewWaiting | Some x \<Rightarrow> x)\<close> by (cases r0) (auto simp: kill_of_def split: new_result.split)
    ultimately show ?thesis using x by blast
  next
    case (2 e)
    then obtain xs ys where x: "before_window W name = xs @ ys" "nsActs s' = xs" using assms(2) by auto
    have "\<nexists>q j. OpenWindow q j \<in> set xs" using no_window_before [of _ _ W name] x(1) by auto
    then have "nsActs s' = xs @ kill_of W r xs" using x(2) 1 2 by (simp add: kill_of_def split: option.split)
    moreover have "new_plan W name cwd undefined = xs @ (ys @ drop (length (before_window W name)) (new_plan W name cwd undefined))"
      using x(1) by (simp add: new_plan_def)
    moreover have "\<forall>e. r = NewMade e \<longrightarrow> ys @ drop (length (before_window W name)) (new_plan W name cwd undefined) = []"
      using 1 2 by simp
    ultimately show ?thesis by blast
  qed
  then obtain l xs ys where x: "new_plan W name cwd l = xs @ ys" "nsActs s' = xs @ kill_of W r xs" "\<forall>e. r = NewMade e \<longrightarrow> ys = []" by blast
  have "\<forall>us vs. nsActs s' = us @ ReleaseGate # vs \<longrightarrow> (\<exists>p. PipeTo p (raw_path W name) \<in> set us)"
    using release_after_pipe [OF x(1) _ k] x(2) by metis
  then have "?P name cwd l xs ys" using x made by simp
  then show ?thesis by blast
qed

text \<open>A program terminal over tmux, with a dead terminal of its name.\<close>

definition small_new :: new_world where
  "small_new =
     \<lparr>nwE = \<lparr>tmuxRoot = bs ''/tmp'', legacyRoot = bs ''/tmp'', userID = 1, runDir = None\<rparr>, nwB = BackendTmux, nwSocket = bs ''s'',
      nwRoot = bs ''/r'', nwList = Inr [], nwLock = (\<lambda>_. LockHeld), nwPanes = Inr [], nwRename = True, nwWindows = False,
      nwShell = bs ''dash'', nwShim = [], nwShimWrites = True, nwEnsure = True, nwCwd = None, nwMkdir = True, nwChmod = True,
      nwRaw = True, nwRawClose = True, nwFifo = True, nwOpen = Some (bs ''%1''), nwPipe = True,
      nwTries = [(None, 1), (Some (True, True), 2)], nwGateEnd = 9, nwTag = True, nwTTY = None, nwWriteMeta = True,
      nwRewriteMeta = True, nwEvent = True, nwNow = 5, nwPolls = [], nwTurns = [(2000000000, 0)], nwSize0 = 0, nwReadyStart = 0,
      nwCycle = [], nwCycleEnd = 0,
      nwResolve = Inr \<lparr>tName = bs ''a'', tPaneID = bs ''%1'', tMode = Some ModeSentinel, tDir = [], tAlive = True, tMeta = no_meta\<rparr>,
      nwLook = \<lparr>lRaw = [], lEvents = None, lSince = None, lDisc = tty_zero, lFg = FgUnknown\<rparr>\<rparr>"

definition small_dirs :: nst where
  "small_dirs = \<lparr>nsDir = Some no_files, nsPrev = None, nsGate = False, nsActs = []\<rparr>"

lemma small_new_made:
  "\<exists>e s'. cmdNew 0 small_new [bs ''--name'', bs ''a'', bs ''--cmd'', bs ''x''] small_dirs = Some (NewMade e, s')"
proof -
  obtain f where f: "parseFlags new_spec [bs ''--name'', bs ''a'', bs ''--cmd'', bs ''x''] no_flags = Inr ([], f)"
    "valOf f (bs ''name'') = bs ''a''" "valOf f (bs ''cwd'') = []" "valOf f (bs ''cmd'') = bs ''x''"
  proof -
    have "case parseFlags new_spec [bs ''--name'', bs ''a'', bs ''--cmd'', bs ''x''] no_flags of Inl _ \<Rightarrow> False
      | Inr (pos, f) \<Rightarrow> pos = [] \<and> valOf f (bs ''name'') = bs ''a'' \<and> valOf f (bs ''cwd'') = [] \<and> valOf f (bs ''cmd'') = bs ''x''"
      by code_simp
    then show ?thesis using that by (auto split: sum.splits)
  qed
  have v: "ValidSocketName (bs ''s'')" "ValidName (bs ''a'')" by code_simp+
  show ?thesis
    unfolding cmdNew_def f(1) using f(2-4) v
    by (simp add: given_name_def reserve_def small_new_def create_def seq_def reclaim_def managedPanes_def archive_def small_dirs_def
        no_files_def ask_def act_def launch_of_def Prepare_def prepare_override_def prepareTerminalJournal_def open_window_def
        newStartGate_def wire_def release_gate_def clean_up_def write_meta_def record_created_def on_files_def await_shell_def
        WaitReady_def ReadyTimeout_def deriveTerminalStatus_def Let_def)
qed

end
