(* ===== verification/Update.thy ===== *)
theory Update
  imports Eventlog Handoff Shellhooks Unicode_Tables
begin

text \<open>
  \<open>pairmux update\<close> (\<open>internal/cli/update.go\<close>): release versions and their order, the text and paths it trusts, the listing of uv,
  the environment it hands on, and the whole command, which replaces a persistent installation only after uv's own records
  have been found to own it. What the file system holds is read at several times, so it is a snapshot per reading; what uv
  and the replaced binary answer are arguments. Resolving and making absolute a path are part of a snapshot.
\<close>

section \<open>Versions\<close>

record updateVersion =
  vParts :: "byte list list"
  vPre :: bool

definition canonical_numeral :: "byte list \<Rightarrow> bool" where
  "canonical_numeral s \<longleftrightarrow> s = bs ''0'' \<or> s \<noteq> [] \<and> list_all is_digit s \<and> hd s \<noteq> bc CHR ''0''"

definition take_numeral :: "byte list \<Rightarrow> (byte list \<times> byte list) option" where
  "take_numeral s = (let d = takeWhile is_digit s in if canonical_numeral d then Some (d, dropWhile is_digit s) else None)"

definition after_prefix :: "byte list \<Rightarrow> byte list \<Rightarrow> byte list option" where
  "after_prefix p s = (if take (length p) s = p then Some (drop (length p) s) else None)"

definition pre_release :: "byte list \<Rightarrow> bool" where
  "pre_release s = list_ex (\<lambda>w. case after_prefix (bs ''-'' @ bs w @ bs ''.'') s of Some n \<Rightarrow> canonical_numeral n | None \<Rightarrow> False) [''alpha'', ''beta'', ''rc'']"

text \<open>\<open>updateVersionPattern\<close>. Digits end where the pattern wants a dot or the end, so the longest run of them is taken.\<close>

definition parseUpdateVersion :: "byte list \<Rightarrow> updateVersion option" where
  "parseUpdateVersion s =
     (let v = (case after_prefix (bs ''v'') s of Some r \<Rightarrow> r | None \<Rightarrow> s)
      in Option.bind (take_numeral v) (\<lambda>(a, r1).
         Option.bind (after_prefix (bs ''.'') r1) (\<lambda>r2.
         Option.bind (take_numeral r2) (\<lambda>(b, r3).
         Option.bind (after_prefix (bs ''.'') r3) (\<lambda>r4.
         Option.bind (take_numeral r4) (\<lambda>(c, r5).
           if r5 = [] then Some \<lparr>vParts = [a, b, c], vPre = False\<rparr>
           else if pre_release r5 then Some \<lparr>vParts = [a, b, c], vPre = True\<rparr> else None))))))"

definition core_version :: "updateVersion \<Rightarrow> byte list" where
  "core_version v = join_with (bs ''.'') (vParts v)"

definition Compare :: "byte list \<Rightarrow> byte list \<Rightarrow> int" where
  "Compare a b = (if a = b then 0 else if a < b then - 1 else 1)"

fun compare_parts :: "byte list list \<Rightarrow> byte list list \<Rightarrow> int" where
  "compare_parts (a # as) (b # bs') =
     (if length a < length b then - 1
      else if length a > length b then 1
      else if Compare a b \<noteq> 0 then Compare a b else compare_parts as bs')"
| "compare_parts _ _ = 0"

definition compareUpdateCore :: "updateVersion \<Rightarrow> updateVersion \<Rightarrow> int" where
  "compareUpdateCore a b = compare_parts (vParts a) (vParts b)"

section \<open>Text and paths\<close>

definition IsControl :: "rune \<Rightarrow> bool" where
  "IsControl r \<longleftrightarrow> r < 0x20 \<or> 0x7f \<le> r \<and> r < 0xa0"

function safe_runes :: "bool \<Rightarrow> byte list \<Rightarrow> bool" where
  "safe_runes receipt s =
     (if s = [] then True
      else let (r, n) = decode_rune s; rest = drop n s
           in (r = 10 \<or> receipt \<and> r = 9 \<or> receipt \<and> r = 13 \<and> rest \<noteq> [] \<and> hd rest = 10
               \<or> \<not> (IsControl r \<or> unicode_Is unicode_Cf r \<or> r = 0x2028 \<or> r = 0x2029))
              \<and> safe_runes receipt rest)"
  by pat_completeness auto
termination
proof (relation "measure (length \<circ> snd)")
  fix receipt :: bool and s :: "byte list" and x r n rest
  assume "s \<noteq> []" "x = decode_rune s" "(r, n) = x" "rest = drop n s"
  then have "0 < n" using decode_rune_size_pos [of s] by (metis snd_conv)
  then show "((receipt, rest), receipt, s) \<in> measure (length \<circ> snd)" using \<open>s \<noteq> []\<close> \<open>rest = drop n s\<close> by simp
qed simp

declare safe_runes.simps [simp del]

definition safeUpdateText :: "byte list \<Rightarrow> bool \<Rightarrow> bool" where
  "safeUpdateText b receipt \<longleftrightarrow> utf8_text b \<and> safe_runes receipt b"

text \<open>An absolute path that \<open>filepath.Clean\<close> leaves as it is.\<close>

definition clean_absolute :: "byte list \<Rightarrow> bool" where
  "clean_absolute p \<longleftrightarrow>
     p = [slash] \<or> (p \<noteq> [] \<and> hd p = slash
       \<and> list_all (\<lambda>c. c \<noteq> [] \<and> c \<noteq> bs ''.'' \<and> c \<noteq> bs ''..'') (split_on slash (tl p)))"

definition safeUpdatePath :: "byte list \<Rightarrow> bool" where
  "safeUpdatePath p \<longleftrightarrow> clean_absolute p \<and> list_all (\<lambda>b. b \<notin> {0x5c, 10, 13, 9}) p \<and> safeUpdateText p False"

definition path_dir :: "byte list \<Rightarrow> byte list" where
  "path_dir p = (let q = rstrip (\<lambda>b. b \<noteq> slash) p in if q = [slash] then q else rstrip (\<lambda>b. b = slash) q)"

definition triple :: "byte \<Rightarrow> byte list" where "triple q = [q, q, q]"

definition receipt_text :: "byte list \<Rightarrow> bool" where
  "receipt_text b \<longleftrightarrow> b \<noteq> [] \<and> safeUpdateText b True \<and> 0x5c \<notin> set b \<and> \<not> contains (triple 0x22) b \<and> \<not> contains (triple 0x27) b"

section \<open>What is read of the file system\<close>

record file_info =
  fiFile :: nat
  fiSize :: int
  fiRegular :: bool
  fiExec :: bool
  fiSymlink :: bool
  fiMode :: int
  fiTime :: int

text \<open>The reading of a receipt: the file before, the opened file with its content (none when it cannot be read), the file after.\<close>

record receipt_view =
  rvBefore :: "file_info option"
  rvOpened :: "(file_info \<times> byte list option) option"
  rvAfter :: "file_info option"

record snapshot =
  ssLstat :: "byte list \<Rightarrow> file_info option"
  ssStat :: "byte list \<Rightarrow> file_info option"
  ssResolve :: "byte list \<Rightarrow> byte list option"
  ssAbs :: "byte list \<Rightarrow> byte list option"
  ssReadlink :: "byte list \<Rightarrow> byte list option"
  ssReceipt :: "byte list \<Rightarrow> receipt_view"

definition updateReceiptLimit :: int where "updateReceiptLimit = 65536"

definition sameUpdateFile :: "file_info \<Rightarrow> file_info \<Rightarrow> bool" where
  "sameUpdateFile a b \<longleftrightarrow> fiFile a = fiFile b \<and> fiSize a = fiSize b \<and> fiMode a = fiMode b \<and> fiTime a = fiTime b"

definition readUpdateReceipt :: "receipt_view \<Rightarrow> byte list option" where
  "readUpdateReceipt v =
     (case (rvBefore v, rvOpened v, rvAfter v) of
        (Some before, Some (opened, Some b), Some after') \<Rightarrow>
          if fiRegular before \<and> fiSize before \<le> updateReceiptLimit
             \<and> fiRegular opened \<and> fiFile before = fiFile opened
             \<and> int (length b) \<le> updateReceiptLimit
             \<and> fiRegular after' \<and> sameUpdateFile before after' \<and> int (length b) = fiSize after'
             \<and> receipt_text b
          then Some b else None
      | _ \<Rightarrow> None)"

record updateInstallation =
  inBinary :: "byte list"
  inEnv :: "byte list"
  inToolRoot :: "byte list"
  inReceipt :: "byte list"
  inInfo :: file_info
  inEntry :: "byte list"
  inLink :: "byte list"
  inBinDir :: "byte list"

definition receipt_at :: "snapshot \<Rightarrow> byte list \<Rightarrow> byte list option" where
  "receipt_at S env = readUpdateReceipt (ssReceipt S (path_under env (bs ''uv-receipt.toml'')))"

definition locateUpdateInstallation :: "snapshot \<Rightarrow> byte list \<Rightarrow> updateInstallation option" where
  "locateUpdateInstallation S exe =
     Option.bind (Option.bind (ssResolve S exe) (ssAbs S)) (\<lambda>binary.
       let bin = path_dir binary; env = path_dir bin
       in if \<not> safeUpdatePath binary then None
          else if path_base binary \<noteq> bs ''pairmux'' \<or> path_base bin \<noteq> bs ''bin'' \<or> path_base env \<noteq> bs ''pairmux'' then None
          else case ssStat S binary of
            None \<Rightarrow> None
          | Some info \<Rightarrow>
              if \<not> fiRegular info \<or> \<not> fiExec info then None
              else map_option (\<lambda>receipt. \<lparr>inBinary = binary, inEnv = env, inToolRoot = path_dir env, inReceipt = receipt,
                     inInfo = info, inEntry = [], inLink = [], inBinDir = []\<rparr>) (receipt_at S env))"

datatype uv_found = UvAt "byte list" | UvNotFound | UvUnsafe

text \<open>A path inside a directory: \<open>filepath.Rel\<close> of two absolute paths does not go up.\<close>

definition inside :: "byte list \<Rightarrow> byte list \<Rightarrow> bool" where
  "inside env p \<longleftrightarrow> p = env \<or> env = [slash] \<or> take (length env + 1) p = env @ [slash]"

definition is_abs :: "byte list \<Rightarrow> bool" where "is_abs p \<longleftrightarrow> p \<noteq> [] \<and> hd p = slash"

definition resolveUpdateUV :: "snapshot \<Rightarrow> uv_found \<Rightarrow> byte list option \<Rightarrow> byte list \<Rightarrow> byte list option" where
  "resolveUpdateUV S found home env =
     (case (case found of UvAt p \<Rightarrow> Some p | UvUnsafe \<Rightarrow> None
            | UvNotFound \<Rightarrow> Option.bind home (\<lambda>h. if is_abs h then Some (path_under h (bs ''.local/bin/uv'')) else None)) of
        None \<Rightarrow> None
      | Some p \<Rightarrow>
          if \<not> is_abs p then None
          else Option.bind (Option.bind (ssResolve S p) (ssAbs S)) (\<lambda>q.
            if \<not> safeUpdatePath q then None
            else case ssStat S q of
              None \<Rightarrow> None
            | Some info \<Rightarrow> if fiRegular info \<and> fiExec info \<and> \<not> inside env q then Some q else None))"

definition verifyUpdateEntrypoint :: "snapshot \<Rightarrow> byte list \<Rightarrow> byte list \<Rightarrow> byte list option" where
  "verifyUpdateEntrypoint S entry binary =
     (case ssLstat S entry of
        None \<Rightarrow> None
      | Some info \<Rightarrow>
          if \<not> fiSymlink info then None
          else Option.bind (ssReadlink S entry) (\<lambda>link. if ssResolve S entry = Some binary then Some link else None))"

definition recheck :: "snapshot \<Rightarrow> updateInstallation \<Rightarrow> bool" where
  "recheck S i \<longleftrightarrow>
     receipt_at S (inEnv i) = Some (inReceipt i)
     \<and> (case ssLstat S (inBinary i) of None \<Rightarrow> False | Some info \<Rightarrow> fiRegular info \<and> sameUpdateFile (inInfo i) info)
     \<and> ssResolve S (inBinary i) = Some (inBinary i)
     \<and> verifyUpdateEntrypoint S (inEntry i) (inBinary i) = Some (inLink i)
     \<and> ssResolve S (path_dir (inEntry i)) = Some (inBinDir i)"

section \<open>The environment of uv\<close>

definition starts :: "string \<Rightarrow> byte list \<Rightarrow> bool" where
  "starts w s \<longleftrightarrow> after_prefix (bs w) s \<noteq> None"

definition var_name :: "byte list \<Rightarrow> byte list" where
  "var_name kv = takeWhile (\<lambda>b. b \<noteq> bc CHR ''='') kv"

definition dropped_var :: "byte list \<Rightarrow> bool" where
  "dropped_var n \<longleftrightarrow> starts ''UV_'' n \<or> starts ''CARGO_DIST_'' n \<or> starts ''INSTALLER_'' n \<or> n = bs ''CARGO_HOME''"

definition updateEnvironment :: "byte list list \<Rightarrow> byte list \<Rightarrow> byte list \<Rightarrow> byte list list" where
  "updateEnvironment original toolRoot binDir =
     filter (\<lambda>kv. \<not> dropped_var (var_name kv)) original @ [bs ''UV_TOOL_DIR='' @ toolRoot]
     @ (if binDir \<noteq> [] then [bs ''UV_TOOL_BIN_DIR='' @ binDir] else [])"

section \<open>The listing\<close>

definition tool_byte :: "byte \<Rightarrow> bool" where
  "tool_byte b \<longleftrightarrow> is_digit b \<or> bc CHR ''a'' \<le> b \<and> b \<le> bc CHR ''z'' \<or> bc CHR ''A'' \<le> b \<and> b \<le> bc CHR ''Z''
     \<or> b \<in> {bc CHR ''_'', bc CHR ''.'', bc CHR ''-''}"

definition line_space :: "byte \<Rightarrow> bool" where
  "line_space b \<longleftrightarrow> b \<in> {9, 10, 11, 12, 13, 0x20}"

text \<open>\<open>(/...)\<close> up to the end of the line.\<close>

definition listed_path :: "byte list \<Rightarrow> byte list option" where
  "listed_path s =
     Option.bind (after_prefix (bs '' ('') s) (\<lambda>r.
       if length r \<ge> 2 \<and> hd r = slash \<and> last r = bc CHR '')'' then Some (butlast r) else None)"

text \<open>\<open>updateListHeader\<close> and \<open>updateListEntry\<close>.\<close>

definition list_header :: "byte list \<Rightarrow> (byte list \<times> byte list) option" where
  "list_header line =
     (let tool = takeWhile tool_byte line; r = dropWhile tool_byte line
      in if tool = [] then None
         else Option.bind (after_prefix (bs '' v'') r) (\<lambda>r2.
           let ver = takeWhile (\<lambda>b. \<not> line_space b) r2
           in if ver = [] then None else map_option (Pair tool) (listed_path (dropWhile (\<lambda>b. \<not> line_space b) r2))))"

definition list_entry :: "byte list \<Rightarrow> (byte list \<times> byte list) option" where
  "list_entry line =
     Option.bind (after_prefix (bs ''- '') line) (\<lambda>r.
       let n = takeWhile tool_byte r in if n = [] then None else map_option (Pair n) (listed_path (dropWhile tool_byte r)))"

fun count_open :: "byte list \<Rightarrow> nat" where
  "count_open [] = 0"
| "count_open (b # s) = (if take 2 (b # s) = bs '' ('' then Suc (count_open s) else count_open s)"

record listing_state =
  lsTools :: "byte list list"
  lsEntries :: "(byte list \<times> byte list) list"
  lsPaths :: "byte list list"
  lsTool :: "byte list"
  lsEntry :: "byte list"
  lsCount :: nat

text \<open>The key \<open>tool/name\<close> of the source is a pair here: neither part holds a slash.\<close>

definition list_line :: "(byte list \<Rightarrow> byte list option) \<Rightarrow> byte list \<Rightarrow> listing_state \<Rightarrow> byte list \<Rightarrow> listing_state option" where
  "list_line resolve env st line =
     (if count_open line \<noteq> 1 then None
      else case list_header line of
        Some (tool, p) \<Rightarrow>
          if tool \<in> set (lsTools st) \<or> \<not> safeUpdatePath p then None
          else if tool = bs ''pairmux'' \<and> resolve p \<noteq> Some env then None
          else Some (st\<lparr>lsTool := tool, lsTools := lsTools st @ [tool]\<rparr>)
      | None \<Rightarrow>
          (case list_entry line of
             None \<Rightarrow> None
           | Some (n, p) \<Rightarrow>
               if lsTool st = [] \<or> \<not> safeUpdatePath p then None
               else if (lsTool st, n) \<in> set (lsEntries st) \<or> p \<in> set (lsPaths st) then None
               else let st1 = st\<lparr>lsEntries := lsEntries st @ [(lsTool st, n)], lsPaths := lsPaths st @ [p]\<rparr>
                    in if lsTool st \<noteq> bs ''pairmux'' then Some st1
                       else if n \<noteq> bs ''pairmux'' \<or> path_base p \<noteq> bs ''pairmux'' then None
                       else Some (st1\<lparr>lsCount := lsCount st + 1, lsEntry := p\<rparr>)))"

fun list_lines :: "(byte list \<Rightarrow> byte list option) \<Rightarrow> byte list \<Rightarrow> listing_state \<Rightarrow> byte list list \<Rightarrow> listing_state option" where
  "list_lines resolve env st [] = Some st"
| "list_lines resolve env st (l # ls) = Option.bind (list_line resolve env st l) (\<lambda>st'. list_lines resolve env st' ls)"

definition updateOutputLimit :: nat where "updateOutputLimit = 65536"

definition listing0 :: listing_state where
  "listing0 = \<lparr>lsTools = [], lsEntries = [], lsPaths = [], lsTool = [], lsEntry = [], lsCount = 0\<rparr>"

definition parseUpdateListing :: "(byte list \<Rightarrow> byte list option) \<Rightarrow> byte list \<Rightarrow> byte list \<Rightarrow> byte list option" where
  "parseUpdateListing resolve env b =
     (if b = [] \<or> length b > updateOutputLimit \<or> \<not> safeUpdateText b False \<or> 0x5c \<in> set b then None
      else Option.bind (list_lines resolve env listing0 (split_on 10 (trim_suffix [10] b))) (\<lambda>st.
        if bs ''pairmux'' \<in> set (lsTools st) \<and> lsCount st = 1 then Some (lsEntry st) else None))"

section \<open>Running uv\<close>

record updateCapture =
  capData :: "byte list"
  capTruncated :: bool

definition capture0 :: updateCapture where "capture0 = \<lparr>capData = [], capTruncated = False\<rparr>"

definition capture_write :: "updateCapture \<Rightarrow> byte list \<Rightarrow> updateCapture" where
  "capture_write c p =
     (let remaining = updateOutputLimit - length (capData c)
      in \<lparr>capData = capData c @ take remaining p, capTruncated = capTruncated c \<or> length p > remaining\<rparr>)"

text \<open>What a process wrote, in the pieces in which it arrived, and whether it ended without an error.\<close>

record process =
  prOut :: "byte list list"
  prOk :: bool

definition captured :: "process \<Rightarrow> updateCapture" where
  "captured p = foldl capture_write capture0 (prOut p)"

definition install_args :: "updateVersion \<Rightarrow> byte list list" where
  "install_args old =
     map bs [''tool'', ''install'', ''--no-config'', ''--default-index'', ''https://pypi.org/simple'', ''--no-sources'', ''--no-build'',
       ''--python'', ''>=3.9'', ''--upgrade'', ''--reinstall'', ''--no-cache'', ''--prerelease'', ''disallow'']
     @ [bs ''pairmux>='' @ core_version old]"

definition list_args :: "byte list list" where
  "list_args = map bs [''tool'', ''list'', ''--no-config'', ''--show-paths'', ''--color'', ''never'']"

definition version_args :: "byte list list" where "version_args = map bs [''--json'', ''version'']"

text \<open>\<open>inspect\<close>: the entry that uv lists, checked against the file system, and the recheck after it.\<close>

definition inspect :: "snapshot \<Rightarrow> snapshot \<Rightarrow> process \<Rightarrow> updateInstallation \<Rightarrow> updateInstallation option" where
  "inspect S S' shown i =
     (if \<not> prOk shown \<or> capTruncated (captured shown) then None
      else Option.bind (parseUpdateListing (ssResolve S) (inEnv i) (capData (captured shown))) (\<lambda>entry.
        Option.bind (verifyUpdateEntrypoint S entry (inBinary i)) (\<lambda>link.
        Option.bind (ssResolve S (path_dir entry)) (\<lambda>binDir.
          let i' = i\<lparr>inEntry := entry, inLink := link, inBinDir := binDir\<rparr>
          in if recheck S' i' then Some i' else None))))"

section \<open>The reply of the replaced binary\<close>

text \<open>The decoder reads token by token; every value it accepts is a string or a boolean (or null, which leaves the variable as it
  is), and nothing but white space may follow, so the reply is one object.\<close>

definition str_field :: "json \<Rightarrow> byte list option" where
  "str_field v = (case v of JStr s \<Rightarrow> Some s | JNull \<Rightarrow> Some [] | _ \<Rightarrow> None)"

definition bool_field :: "json \<Rightarrow> bool option" where
  "bool_field v = (case v of JBool b \<Rightarrow> Some b | JNull \<Rightarrow> Some False | _ \<Rightarrow> None)"

definition reply_keys :: "byte list list" where "reply_keys = map bs [''schema'', ''status'', ''output'', ''ok'']"

definition parseUpdateVersionReply :: "updateCapture \<Rightarrow> byte list option" where
  "parseUpdateVersionReply c =
     (if capTruncated c \<or> length (capData c) > updateOutputLimit \<or> \<not> utf8_text (capData c) then None
      else case json_decode (capData c) of
        Some (JObj ms) \<Rightarrow>
          if \<not> distinct (map fst ms) \<or> \<not> list_all (\<lambda>(k, v). k \<in> set reply_keys) ms \<or> length ms \<noteq> 4 then None
          else
            (case (map_of ms (bs ''schema''), map_of ms (bs ''status''), map_of ms (bs ''output''), map_of ms (bs ''ok'')) of
               (Some a, Some b, Some c, Some d) \<Rightarrow>
                 (case (str_field a, str_field b, str_field c, bool_field d) of
                    (Some schema, Some status, Some value, Some ok) \<Rightarrow>
                      if schema = bs ''pairmux.v1'' \<and> ok \<and> status = bs ''ok'' then Some value else None
                  | _ \<Rightarrow> None)
             | _ \<Rightarrow> None)
      | _ \<Rightarrow> None)"

section \<open>The command\<close>

datatype update_error =
    UpdFlags
  | UpdWindows
  | UpdVersion
  | UpdOwnership
  | UpdNoUV
  | UpdInstall
  | UpdUnverified
  | UpdReply
  | UpdOlder

datatype update_run = RunList "byte list" | RunInstall "byte list" "byte list list" "byte list list" | RunVersion "byte list"

text \<open>The snapshots in the order in which the command reads the file system.\<close>

record update_world =
  uwArgs :: "byte list list"
  uwCurrent :: "byte list"
  uwWindows :: bool
  uwExe :: "byte list option"
  uwFound :: uv_found
  uwHome :: "byte list option"
  uwEnviron :: "byte list list"
  uwLocate :: snapshot
  uwUV :: snapshot
  uwListed :: snapshot
  uwChecked :: snapshot
  uwBefore :: snapshot
  uwRelocate :: snapshot
  uwRelisted :: snapshot
  uwRechecked :: snapshot
  uwAfter :: snapshot
  uwLast :: snapshot
  uwList1 :: process
  uwInstall :: process
  uwList2 :: process
  uwVersion :: process

text \<open>What follows the installation: its runs and the new version, if it is accepted.\<close>

definition verify_replacement :: "update_world \<Rightarrow> updateVersion \<Rightarrow> byte list \<Rightarrow> updateInstallation
    \<Rightarrow> update_run list \<times> (update_error + byte list \<times> updateVersion \<times> updateInstallation)" where
  "verify_replacement W old uv i =
     (case locateUpdateInstallation (uwRelocate W) (inBinary i) of
        None \<Rightarrow> ([], Inl UpdUnverified)
      | Some u \<Rightarrow>
          if inBinary u \<noteq> inBinary i then ([], Inl UpdUnverified)
          else case inspect (uwRelisted W) (uwRechecked W) (uwList2 W) u of
            None \<Rightarrow> ([RunList uv], Inl UpdUnverified)
          | Some u' \<Rightarrow>
              if inBinDir u' \<noteq> inBinDir i \<or> \<not> recheck (uwAfter W) u' then ([RunList uv], Inl UpdUnverified)
              else
                ([RunList uv, RunVersion (inBinary u')],
                 if \<not> prOk (uwVersion W) then Inl UpdReply
                 else case parseUpdateVersionReply (captured (uwVersion W)) of
                   None \<Rightarrow> Inl UpdReply
                 | Some new \<Rightarrow>
                     (case parseUpdateVersion new of
                        None \<Rightarrow> Inl UpdOlder
                      | Some v \<Rightarrow>
                          if vPre v \<or> compareUpdateCore v old < 0 then Inl UpdOlder
                          else if \<not> recheck (uwLast W) u' then Inl UpdUnverified
                          else Inr (new, v, u'))))"

definition update_envelope :: "byte list \<Rightarrow> updateVersion \<Rightarrow> byte list \<Rightarrow> updateVersion \<Rightarrow> byte list \<Rightarrow> envelope" where
  "update_envelope current old new v entry =
     env0\<lparr>eStatus := (if \<not> vPre old \<and> compareUpdateCore old v = 0 then bs ''refreshed'' else bs ''updated''),
          eOutput := bs ''pairmux '' @ current @ bs '' -> '' @ new @ [10] @ bs ''source: https://pypi.org/simple'' @ [10]
            @ bs ''installed: '' @ entry\<rparr>"

definition cmdUpdateWith :: "update_world \<Rightarrow> update_run list \<times> (update_error + envelope)" where
  "cmdUpdateWith W =
     (if uwArgs W \<noteq> [] then ([], Inl UpdFlags)
      else if uwWindows W then ([], Inl UpdWindows)
      else case parseUpdateVersion (uwCurrent W) of
        None \<Rightarrow> ([], Inl UpdVersion)
      | Some old \<Rightarrow>
          (case Option.bind (uwExe W) (locateUpdateInstallation (uwLocate W)) of
             None \<Rightarrow> ([], Inl UpdOwnership)
           | Some i0 \<Rightarrow>
               (case resolveUpdateUV (uwUV W) (uwFound W) (uwHome W) (inEnv i0) of
                  None \<Rightarrow> ([], Inl UpdNoUV)
                | Some uv \<Rightarrow>
                    (case inspect (uwListed W) (uwChecked W) (uwList1 W) i0 of
                       None \<Rightarrow> ([RunList uv], Inl UpdOwnership)
                     | Some i \<Rightarrow>
                         if \<not> recheck (uwBefore W) i then ([RunList uv], Inl UpdOwnership)
                         else
                           let env = updateEnvironment (uwEnviron W) (inToolRoot i) (path_dir (inEntry i));
                               runs = [RunList uv, RunInstall uv (install_args old) env]
                           in if \<not> prOk (uwInstall W) then (runs, Inl UpdInstall)
                              else let (more, r) = verify_replacement W old uv i
                                   in (runs @ more,
                                       map_sum id (\<lambda>(new, v, u). update_envelope (uwCurrent W) old new v (inEntry u)) r)))))"

end
