(* ===== verification/Update_Laws.thy ===== *)
theory Update_Laws
  imports Update
begin

text \<open>
  What an update may do: the order of versions is that of their numbers, an entry is taken from a listing only when the listing
  shows the running environment under the name of this program, uv is started for an installation only after the ownership
  has been verified twice, with no setting of its own left in the environment, and success means that the replaced binary
  reported a stable version that is not older.
\<close>

section \<open>Versions are ordered by their numbers\<close>

lemma dec_val_cons: "dec_val (d # ds) = (uint d - 48) * 10 ^ length ds + dec_val ds"
  by (induction ds rule: rev_induct) (simp_all add: dec_val_snoc dec_val_def [of "[_]"] dec_val_def [of "[]"] algebra_simps
      flip: append_Cons)

lemma dec_val_bounds: "list_all is_digit ds \<Longrightarrow> 0 \<le> dec_val ds \<and> dec_val ds < 10 ^ length ds"
proof (induction ds)
  case Nil
  then show ?case by (simp add: dec_val_def)
next
  case (Cons d ds)
  then have d: "48 \<le> uint d" "uint d \<le> 57" by (auto simp: is_digit_def word_le_def)
  define k :: int where "k = 10 ^ length ds"
  have "(uint d - 48) * k \<le> 9 * k" using d by (intro mult_right_mono) (auto simp: k_def)
  moreover have "0 \<le> (uint d - 48) * k" using d(1) by (simp add: k_def)
  moreover have "0 \<le> dec_val ds" "dec_val ds < k" using Cons by (auto simp: k_def)
  moreover have "dec_val (d # ds) = (uint d - 48) * k + dec_val ds" "10 ^ length (d # ds) = 10 * k" by (simp_all add: dec_val_cons k_def)
  ultimately show ?case by linarith
qed

lemma numeral_digits: "canonical_numeral s \<Longrightarrow> list_all is_digit s \<and> s \<noteq> []"
  by (auto simp: canonical_numeral_def is_digit_def)

lemma numeral_large:
  assumes "canonical_numeral s" "1 < length s"
  shows "10 ^ (length s - 1) \<le> dec_val s"
proof -
  obtain d ds where s: "s = d # ds" using assms(2) by (cases s) auto
  have d: "is_digit d" "d \<noteq> 48" "list_all is_digit ds" using assms by (auto simp: canonical_numeral_def s)
  then have "uint d \<noteq> 48" using word_uint_eq_iff [of d 48] by simp
  then have "1 \<le> uint d - 48" using d(1) by (simp add: is_digit_def word_le_def)
  then have "1 * 10 ^ length ds \<le> (uint d - 48) * 10 ^ length ds" by (intro mult_right_mono) auto
  moreover have "0 \<le> dec_val ds" using dec_val_bounds [OF d(3)] by blast
  moreover have "dec_val s = (uint d - 48) * 10 ^ length ds + dec_val ds" by (simp add: s dec_val_cons)
  ultimately have "10 ^ length ds \<le> dec_val s" by linarith
  then show ?thesis by (simp add: s)
qed

lemma shorter_is_smaller:
  assumes "canonical_numeral a" "canonical_numeral b" "length a < length b"
  shows "dec_val a < dec_val b"
proof -
  have "dec_val a < 10 ^ length a" using dec_val_bounds numeral_digits assms(1) by blast
  also have "(10::int) ^ length a \<le> 10 ^ (length b - 1)" using assms(3) by (intro power_increasing) auto
  also have "\<dots> \<le> dec_val b"
  proof (rule numeral_large [OF assms(2)])
    have "0 < length a" using numeral_digits [OF assms(1)] by simp
    then show "1 < length b" using assms(3) by linarith
  qed
  finally show ?thesis .
qed

lemma same_length_order:
  "length a = length b \<Longrightarrow> list_all is_digit a \<Longrightarrow> list_all is_digit b \<Longrightarrow>
   (a < b \<longleftrightarrow> dec_val a < dec_val b) \<and> (a = b \<longleftrightarrow> dec_val a = dec_val b)"
proof (induction a b rule: list_induct2)
  case (Cons x xs y ys)
  define k :: int where "k = 10 ^ length xs"
  have b: "0 \<le> dec_val xs" "dec_val xs < k" "0 \<le> dec_val ys" "dec_val ys < k"
    using dec_val_bounds [of xs] dec_val_bounds [of ys] Cons.prems Cons.hyps by (auto simp: k_def)
  have v: "dec_val (x # xs) = (uint x - 48) * k + dec_val xs" "dec_val (y # ys) = (uint y - 48) * k + dec_val ys"
    using Cons.hyps by (simp_all add: dec_val_cons k_def)
  consider "uint x < uint y" | "uint x = uint y" | "uint y < uint x" by linarith
  then show ?case
  proof cases
    case 1
    then have "(uint x - 48 + 1) * k \<le> (uint y - 48) * k" using b by (intro mult_right_mono) auto
    then have "dec_val (x # xs) < dec_val (y # ys)" using b unfolding v by (simp add: algebra_simps)
    then show ?thesis using 1 by (auto simp: word_less_def)
  next
    case 2
    then have "x = y" by (simp add: word_uint_eq_iff)
    then show ?thesis using Cons v by auto
  next
    case 3
    then have "(uint y - 48 + 1) * k \<le> (uint x - 48) * k" using b by (intro mult_right_mono) auto
    then have "dec_val (y # ys) < dec_val (x # xs)" using b unfolding v by (simp add: algebra_simps)
    then show ?thesis using 3 by (auto simp: word_less_def)
  qed
qed simp

definition order_sign :: "'a::linorder \<Rightarrow> 'a \<Rightarrow> int" where
  "order_sign x y = (if x = y then 0 else if x < y then - 1 else 1)"

lemma compare_parts_sign:
  "length xs = length ys \<Longrightarrow> list_all canonical_numeral xs \<Longrightarrow> list_all canonical_numeral ys \<Longrightarrow>
   compare_parts xs ys = order_sign (map dec_val xs) (map dec_val ys)"
proof (induction xs ys rule: list_induct2)
  case (Cons a as b bs')
  then have n: "canonical_numeral a" "canonical_numeral b" and IH: "compare_parts as bs' = order_sign (map dec_val as) (map dec_val bs')" by auto
  consider "length a < length b" | "length b < length a" | "length a = length b" by linarith
  then show ?case
  proof cases
    case 1
    then show ?thesis using shorter_is_smaller [OF n 1] by (auto simp: order_sign_def)
  next
    case 2
    then show ?thesis using shorter_is_smaller [OF n(2,1) 2] by (auto simp: order_sign_def)
  next
    case 3
    then have s: "a < b \<longleftrightarrow> dec_val a < dec_val b" "a = b \<longleftrightarrow> dec_val a = dec_val b"
      using same_length_order numeral_digits n by blast+
    show ?thesis using 3 s IH by (auto simp: Compare_def order_sign_def)
  qed
qed (simp add: order_sign_def)

definition version_value :: "updateVersion \<Rightarrow> int list" where
  "version_value v = map dec_val (vParts v)"

lemma take_numeral_Some: "take_numeral s = Some (d, r) \<Longrightarrow> canonical_numeral d \<and> s = d @ r"
  by (auto simp: take_numeral_def Let_def split: if_splits)

lemma parsed_version: "parseUpdateVersion s = Some v \<Longrightarrow> length (vParts v) = 3 \<and> list_all canonical_numeral (vParts v)"
  by (auto simp: parseUpdateVersion_def Let_def bind_eq_Some_conv dest!: take_numeral_Some split: if_splits)

lemma compare_is_numeric:
  assumes "parseUpdateVersion s = Some a" "parseUpdateVersion t = Some b"
  shows "compareUpdateCore a b = order_sign (version_value a) (version_value b)"
  using parsed_version [OF assms(1)] parsed_version [OF assms(2)]
  by (auto simp: compareUpdateCore_def version_value_def intro: compare_parts_sign)

text \<open>What is handed to uv as the lower bound is read as the version itself.\<close>

lemma take_numeral_dot:
  assumes "canonical_numeral d" "r = [] \<or> hd r = bc CHR ''.''"
  shows "take_numeral (d @ r) = Some (d, r)"
proof -
  have d: "\<forall>b \<in> set d. is_digit b" using numeral_digits [OF assms(1)] by (auto simp: list_all_iff)
  have n: "\<not> is_digit (bc CHR ''.'')" by (simp add: is_digit_def)
  have "takeWhile is_digit (d @ r) = d" "dropWhile is_digit (d @ r) = r"
    using d n assms(2) by (cases r; auto)+
  then show ?thesis using assms(1) by (simp add: take_numeral_def)
qed

lemma after_prefix_append [simp]: "after_prefix p (p @ s) = Some s"
  by (simp add: after_prefix_def)

lemma core_version_round_trip:
  assumes "length (vParts v) = 3" "list_all canonical_numeral (vParts v)"
  shows "parseUpdateVersion (core_version v) = Some (v\<lparr>vPre := False\<rparr>)"
proof -
  obtain a b c where p: "vParts v = [a, b, c]" using assms(1) by (auto simp: length_Suc_conv numeral_3_eq_3)
  have n: "canonical_numeral a" "canonical_numeral b" "canonical_numeral c" using assms(2) by (auto simp: p)
  have core: "core_version v = a @ bs ''.'' @ b @ bs ''.'' @ c" by (simp add: core_version_def p)
  obtain x a' where a: "a = x # a'" using numeral_digits [OF n(1)] by (cases a) auto
  have "x \<noteq> bc CHR ''v''" using numeral_digits [OF n(1)] by (auto simp: a is_digit_def)
  then have "after_prefix (bs ''v'') (core_version v) = None" by (simp add: core a after_prefix_def)
  moreover have "take_numeral (core_version v) = Some (a, bs ''.'' @ b @ bs ''.'' @ c)"
    unfolding core using n(1) by (intro take_numeral_dot) auto
  moreover have "take_numeral (b @ bs ''.'' @ c) = Some (b, bs ''.'' @ c)" using n(2) by (intro take_numeral_dot) auto
  moreover have "take_numeral c = Some (c, [])" using take_numeral_dot [OF n(3), of "[]"] by simp
  ultimately show ?thesis
    unfolding parseUpdateVersion_def Let_def using p after_prefix_append [of "bs ''.''"] by (cases v) simp
qed

section \<open>Bounded output\<close>

lemma capture_writes:
  "length (capData c) \<le> updateOutputLimit \<Longrightarrow>
   capData (foldl capture_write c ps) = capData c @ take (updateOutputLimit - length (capData c)) (concat ps)
   \<and> (capTruncated (foldl capture_write c ps) \<longleftrightarrow> capTruncated c \<or> length (capData c) + length (concat ps) > updateOutputLimit)"
proof (induction ps arbitrary: c)
  case (Cons p ps)
  have l: "length (capData (capture_write c p)) \<le> updateOutputLimit" using Cons.prems by (simp add: capture_write_def Let_def)
  show ?case using Cons.IH [OF l] Cons.prems by (auto simp: capture_write_def Let_def min_def)
qed simp

lemma captured_bounded:
  "capData (captured p) = take updateOutputLimit (concat (prOut p))"
  "capTruncated (captured p) \<longleftrightarrow> length (concat (prOut p)) > updateOutputLimit"
  using capture_writes [of capture0 "prOut p"] by (simp_all add: captured_def capture0_def)

section \<open>The environment of uv\<close>

lemma starts_name:
  assumes "bc CHR ''='' \<notin> set (bs w)"
  shows "starts w (var_name kv) \<longleftrightarrow> starts w kv"
proof -
  have t: "take n (takeWhile P s) = u \<longleftrightarrow> take n s = u" if "length u = n" "list_all P u" for n P and s u :: "byte list"
    using that
  proof (induction n arbitrary: s u)
    case (Suc n)
    then obtain x u' where u: "u = x # u'" by (cases u) auto
    show ?case using Suc by (cases s) (auto simp: u)
  qed simp
  have "list_all (\<lambda>b. b \<noteq> bc CHR ''='') (bs w)" using assms by (auto simp: list_all_iff)
  from t [OF refl this, of kv] show ?thesis by (simp add: starts_def after_prefix_def var_name_def)
qed

lemma no_uv_settings:
  assumes "kv \<in> set (updateEnvironment original toolRoot binDir)" "starts ''UV_'' kv"
  shows "kv = bs ''UV_TOOL_DIR='' @ toolRoot \<or> binDir \<noteq> [] \<and> kv = bs ''UV_TOOL_BIN_DIR='' @ binDir"
proof -
  have "starts ''UV_'' (var_name kv)" using assms(2) starts_name [of "''UV_''" kv] by simp
  then have "dropped_var (var_name kv)" by (simp add: dropped_var_def)
  then show ?thesis using assms(1) by (auto simp: updateEnvironment_def split: if_splits)
qed

section \<open>The listing\<close>

text \<open>What a state of the reading rests on.\<close>

definition listed_well :: "(byte list \<Rightarrow> byte list option) \<Rightarrow> byte list \<Rightarrow> byte list list \<Rightarrow> listing_state \<Rightarrow> bool" where
  "listed_well resolve env ls st \<longleftrightarrow>
     (bs ''pairmux'' \<in> set (lsTools st) \<longrightarrow> (\<exists>h \<in> set ls. \<exists>p. list_header h = Some (bs ''pairmux'', p) \<and> resolve p = Some env))
     \<and> (lsCount st > 0 \<longrightarrow> (\<exists>l \<in> set ls. list_entry l = Some (bs ''pairmux'', lsEntry st)) \<and> safeUpdatePath (lsEntry st)
          \<and> path_base (lsEntry st) = bs ''pairmux'')"

lemma list_line_well:
  assumes "listed_well resolve env ls st" "list_line resolve env st l = Some st'"
  shows "listed_well resolve env (ls @ [l]) st'"
proof (cases "list_header l")
  case (Some tp)
  then obtain tool p where h: "list_header l = Some (tool, p)" by (cases tp) auto
  then have "st' = st\<lparr>lsTool := tool, lsTools := lsTools st @ [tool]\<rparr>" "tool = bs ''pairmux'' \<Longrightarrow> resolve p = Some env"
    using assms(2) by (auto simp: list_line_def split: if_splits)
  then show ?thesis using assms(1) h by (auto simp: listed_well_def)
next
  case None
  then obtain n p where e: "list_entry l = Some (n, p)" "safeUpdatePath p"
    using assms(2) by (auto simp: list_line_def Let_def split: if_splits option.splits)
  then show ?thesis using assms None
    by (auto simp: list_line_def listed_well_def Let_def split: if_splits)
qed

lemma list_lines_well:
  "listed_well resolve env ls0 st \<Longrightarrow> list_lines resolve env st ls = Some st' \<Longrightarrow> listed_well resolve env (ls0 @ ls) st'"
proof (induction ls arbitrary: ls0 st)
  case (Cons l ls)
  then obtain st1 where s: "list_line resolve env st l = Some st1" "list_lines resolve env st1 ls = Some st'"
    by (auto simp: bind_eq_Some_conv)
  show ?case using Cons.IH [OF list_line_well [OF Cons.prems(1) s(1)] s(2)] by simp
qed simp

definition listing_shows :: "(byte list \<Rightarrow> byte list option) \<Rightarrow> byte list \<Rightarrow> byte list \<Rightarrow> byte list \<Rightarrow> bool" where
  "listing_shows resolve env b entry \<longleftrightarrow>
     (\<exists>h \<in> set (split_on 10 (trim_suffix [10] b)). \<exists>p. list_header h = Some (bs ''pairmux'', p) \<and> resolve p = Some env)
     \<and> (\<exists>l \<in> set (split_on 10 (trim_suffix [10] b)). list_entry l = Some (bs ''pairmux'', entry))
     \<and> safeUpdatePath entry \<and> path_base entry = bs ''pairmux''"

lemma listing_sound:
  assumes "parseUpdateListing resolve env b = Some entry"
  shows "listing_shows resolve env b entry"
proof -
  obtain st where st: "list_lines resolve env listing0 (split_on 10 (trim_suffix [10] b)) = Some st"
    "bs ''pairmux'' \<in> set (lsTools st)" "lsCount st = 1" "lsEntry st = entry"
    using assms by (auto simp: parseUpdateListing_def bind_eq_Some_conv split: if_splits)
  have "listed_well resolve env [] listing0" by (simp add: listed_well_def listing0_def)
  from list_lines_well [OF this st(1)] show ?thesis using st(2-4) by (auto simp: listed_well_def listing_shows_def)
qed

section \<open>The command\<close>

text \<open>The ownership of an installation: uv's listing names its entry, which resolves to the binary, and the rechecks passed.\<close>

definition owned :: "snapshot \<Rightarrow> snapshot list \<Rightarrow> process \<Rightarrow> updateInstallation \<Rightarrow> bool" where
  "owned S checks shown i \<longleftrightarrow>
     prOk shown \<and> listing_shows (ssResolve S) (inEnv i) (concat (prOut shown)) (inEntry i)
     \<and> ssResolve S (inEntry i) = Some (inBinary i) \<and> list_all (\<lambda>S'. recheck S' i) checks"

lemma inspect_owned:
  assumes "inspect S S' shown i = Some i'"
  shows "owned S [S'] shown i' \<and> inBinary i' = inBinary i \<and> inEnv i' = inEnv i \<and> inToolRoot i' = inToolRoot i"
proof -
  from assms have t: "\<not> capTruncated (captured shown)" by (auto simp: inspect_def split: if_splits)
  then have c: "capData (captured shown) = concat (prOut shown)" using captured_bounded [of shown] by simp
  from assms t show ?thesis
    by (auto simp: inspect_def c owned_def verifyUpdateEntrypoint_def Let_def bind_eq_Some_conv
        dest!: listing_sound split: if_splits option.splits)
qed

lemma resolved_uv: "resolveUpdateUV S found home env = Some uv \<Longrightarrow> \<not> inside env uv \<and> safeUpdatePath uv"
  by (auto simp: resolveUpdateUV_def bind_eq_Some_conv split: uv_found.splits option.splits if_splits)

lemma replacement_verified:
  assumes "verify_replacement W old uv i = (runs, r)"
  shows "\<forall>u as e. RunInstall u as e \<notin> set runs"
    and "r = Inr (new, v, u) \<Longrightarrow>
      runs = [RunList uv, RunVersion (inBinary i)] \<and> inBinary u = inBinary i \<and> inBinDir u = inBinDir i
      \<and> owned (uwRelisted W) [uwRechecked W, uwAfter W, uwLast W] (uwList2 W) u
      \<and> prOk (uwVersion W) \<and> parseUpdateVersionReply (captured (uwVersion W)) = Some new
      \<and> parseUpdateVersion new = Some v \<and> \<not> vPre v \<and> 0 \<le> compareUpdateCore v old"
proof -
  show "\<forall>u as e. RunInstall u as e \<notin> set runs"
    using assms by (auto simp: verify_replacement_def Let_def split: option.splits if_splits)
  assume r: "r = Inr (new, v, u)"
  then obtain u0 where u: "locateUpdateInstallation (uwRelocate W) (inBinary i) = Some u0" "inBinary u0 = inBinary i"
    "inspect (uwRelisted W) (uwRechecked W) (uwList2 W) u0 = Some u" "inBinDir u = inBinDir i" "recheck (uwAfter W) u" "recheck (uwLast W) u"
    "runs = [RunList uv, RunVersion (inBinary u)]" "prOk (uwVersion W)" "parseUpdateVersionReply (captured (uwVersion W)) = Some new"
    "parseUpdateVersion new = Some v" "\<not> vPre v" "\<not> compareUpdateCore v old < 0"
    using assms by (auto simp: verify_replacement_def Let_def split: option.splits if_splits)
  note o = inspect_owned [OF u(3)]
  show "runs = [RunList uv, RunVersion (inBinary i)] \<and> inBinary u = inBinary i \<and> inBinDir u = inBinDir i
      \<and> owned (uwRelisted W) [uwRechecked W, uwAfter W, uwLast W] (uwList2 W) u
      \<and> prOk (uwVersion W) \<and> parseUpdateVersionReply (captured (uwVersion W)) = Some new
      \<and> parseUpdateVersion new = Some v \<and> \<not> vPre v \<and> 0 \<le> compareUpdateCore v old"
    using o u by (auto simp: owned_def)
qed

text \<open>A run of the command.\<close>

lemma update_cases:
  assumes "cmdUpdateWith W = (runs, r)"
  obtains e where "r = Inl e" "\<forall>u as env. RunInstall u as env \<notin> set runs"
  | old i0 uv i more where "uwArgs W = []" "\<not> uwWindows W" "parseUpdateVersion (uwCurrent W) = Some old"
      "resolveUpdateUV (uwUV W) (uwFound W) (uwHome W) (inEnv i0) = Some uv"
      "inspect (uwListed W) (uwChecked W) (uwList1 W) i0 = Some i" "recheck (uwBefore W) i"
      "runs = [RunList uv, RunInstall uv (install_args old) (updateEnvironment (uwEnviron W) (inToolRoot i) (path_dir (inEntry i)))] @ more"
      "\<not> prOk (uwInstall W) \<and> more = [] \<and> r = Inl UpdInstall
       \<or> prOk (uwInstall W) \<and> (\<exists>q. verify_replacement W old uv i = (more, q)
           \<and> r = map_sum id (\<lambda>(new, v, u). update_envelope (uwCurrent W) old new v (inEntry u)) q)"
proof -
  note D = cmdUpdateWith_def [of W]
  consider "\<exists>e. r = Inl e \<and> (\<forall>u as env. RunInstall u as env \<notin> set runs)"
    | old i0 uv i where "uwArgs W = []" "\<not> uwWindows W" "parseUpdateVersion (uwCurrent W) = Some old"
      "Option.bind (uwExe W) (locateUpdateInstallation (uwLocate W)) = Some i0"
      "resolveUpdateUV (uwUV W) (uwFound W) (uwHome W) (inEnv i0) = Some uv"
      "inspect (uwListed W) (uwChecked W) (uwList1 W) i0 = Some i" "recheck (uwBefore W) i"
    using assms unfolding D by (auto simp: Let_def split: if_splits option.splits)
  then show ?thesis
  proof cases
    case 1
    then show ?thesis using that(1) by blast
  next
    case 2
    obtain more q where q: "verify_replacement W old uv i = (more, q)" by (cases "verify_replacement W old uv i") auto
    show ?thesis
    proof (cases "prOk (uwInstall W)")
      case True
      then show ?thesis using assms 2 q unfolding D by (intro that(2) [OF 2(1-3,5-7), of more]) (simp_all add: Let_def)
    next
      case False
      then show ?thesis using assms 2 unfolding D by (intro that(2) [OF 2(1-3,5-7), of "[]"]) (simp_all add: Let_def)
    qed
  qed
qed

lemma install_is_owned:
  assumes "cmdUpdateWith W = (runs, r)" "RunInstall uv as env \<in> set runs"
  shows "\<exists>i old. owned (uwListed W) [uwChecked W, uwBefore W] (uwList1 W) i \<and> \<not> inside (inEnv i) uv
    \<and> parseUpdateVersion (uwCurrent W) = Some old \<and> as = install_args old
    \<and> env = updateEnvironment (uwEnviron W) (inToolRoot i) (path_dir (inEntry i))"
proof (cases rule: update_cases [OF assms(1)])
  case (1 e)
  then show ?thesis using assms(2) by blast
next
  case (2 old i0 uv' i more)
  have "RunInstall uv as env \<notin> set more" using 2(8) replacement_verified(1) by (metis empty_iff list.set(1))
  then have e: "uv = uv'" "as = install_args old" "env = updateEnvironment (uwEnviron W) (inToolRoot i) (path_dir (inEntry i))"
    using assms(2) 2(7) by auto
  have "owned (uwListed W) [uwChecked W, uwBefore W] (uwList1 W) i" "inEnv i = inEnv i0"
    using inspect_owned [OF 2(5)] 2(6) by (auto simp: owned_def)
  then show ?thesis using e 2(3) resolved_uv [OF 2(4)] by metis
qed

lemma update_succeeds:
  assumes "cmdUpdateWith W = (runs, Inr e)"
  shows "\<exists>old (i :: updateInstallation) u new v uv env. parseUpdateVersion (uwCurrent W) = Some old
    \<and> runs = [RunList uv, RunInstall uv (install_args old) env, RunList uv, RunVersion (inBinary i)]
    \<and> inBinary u = inBinary i \<and> inBinDir u = inBinDir i
    \<and> owned (uwRelisted W) [uwRechecked W, uwAfter W, uwLast W] (uwList2 W) u
    \<and> parseUpdateVersionReply (captured (uwVersion W)) = Some new
    \<and> parseUpdateVersion new = Some v \<and> \<not> vPre v \<and> version_value old \<le> version_value v
    \<and> e = update_envelope (uwCurrent W) old new v (inEntry u)"
proof (cases rule: update_cases [OF assms])
  case (2 old i0 uv i more)
  then obtain q where q: "verify_replacement W old uv i = (more, q)"
    "Inr e = map_sum id (\<lambda>(new, v, u). update_envelope (uwCurrent W) old new v (inEntry u)) q" by auto
  obtain new v u where r: "q = Inr (new, v, u)" "e = update_envelope (uwCurrent W) old new v (inEntry u)"
    using q(2) by (cases q) auto
  note R = replacement_verified(2) [OF q(1) r(1)]
  have "compareUpdateCore v old = order_sign (version_value v) (version_value old)"
    using R 2(3) compare_is_numeric by blast
  then have "version_value old \<le> version_value v" using R by (auto simp: order_sign_def split: if_splits)
  moreover have "runs = [RunList uv, RunInstall uv (install_args old) (updateEnvironment (uwEnviron W) (inToolRoot i) (path_dir (inEntry i))),
      RunList uv, RunVersion (inBinary i)]" using R 2(7) by simp
  ultimately show ?thesis using R r(2) 2(3) by blast
qed simp

section \<open>A small installation\<close>

definition small_file :: file_info where
  "small_file = \<lparr>fiFile = 1, fiSize = 1, fiRegular = True, fiExec = True, fiSymlink = True, fiMode = 0, fiTime = 0\<rparr>"

definition small_snapshot :: snapshot where
  "small_snapshot =
     \<lparr>ssLstat = (\<lambda>_. Some small_file), ssStat = (\<lambda>_. Some small_file),
      ssResolve = (\<lambda>p. Some (if p = bs ''/b/pairmux'' then bs ''/t/pairmux/bin/pairmux'' else p)), ssAbs = Some,
      ssReadlink = (\<lambda>_. Some []),
      ssReceipt = (\<lambda>_. \<lparr>rvBefore = Some small_file, rvOpened = Some (small_file, Some (bs ''x'')), rvAfter = Some small_file\<rparr>)\<rparr>"

definition small_listing :: process where
  "small_listing =
     \<lparr>prOut = [bs ''pairmux v1.0.0 (/t/pairmux)'' @ [10], bs ''- pairmux (/b/pairmux)'' @ [10]], prOk = True\<rparr>"

definition quoted :: "string \<Rightarrow> byte list" where "quoted s = [quote] @ bs s @ [quote]"

definition small_reply :: "byte list" where
  "small_reply = bs ''{'' @ quoted ''schema'' @ bs '':'' @ quoted ''pairmux.v1'' @ bs '','' @ quoted ''ok'' @ bs '':true,''
     @ quoted ''status'' @ bs '':'' @ quoted ''ok'' @ bs '','' @ quoted ''output'' @ bs '':'' @ quoted ''1.10.0'' @ bs ''}''"

definition small_update :: update_world where
  "small_update =
     \<lparr>uwArgs = [], uwCurrent = bs ''1.9.0'', uwWindows = False, uwExe = Some (bs ''/b/pairmux''), uwFound = UvAt (bs ''/u/uv''),
      uwHome = None, uwEnviron = [bs ''UV_INDEX=x'', bs ''A=b''], uwLocate = small_snapshot, uwUV = small_snapshot,
      uwListed = small_snapshot, uwChecked = small_snapshot, uwBefore = small_snapshot, uwRelocate = small_snapshot,
      uwRelisted = small_snapshot, uwRechecked = small_snapshot, uwAfter = small_snapshot, uwLast = small_snapshot,
      uwList1 = small_listing, uwInstall = \<lparr>prOut = [], prOk = True\<rparr>, uwList2 = small_listing,
      uwVersion = \<lparr>prOut = [small_reply], prOk = True\<rparr>\<rparr>"

lemma small_captured:
  "capData (captured small_listing) = concat (prOut small_listing)" "\<not> capTruncated (captured small_listing)"
  "capData (captured (uwVersion small_update)) = small_reply" "\<not> capTruncated (captured (uwVersion small_update))"
  unfolding captured_bounded
  by (simp_all add: small_listing_def small_update_def small_reply_def quoted_def updateOutputLimit_def)

lemma small_listing_parsed:
  "parseUpdateListing (ssResolve small_snapshot) (bs ''/t/pairmux'') (concat (prOut small_listing)) = Some (bs ''/b/pairmux'')"
proof -
  have "concat (prOut small_listing) \<noteq> [] \<and> safeUpdateText (concat (prOut small_listing)) False \<and> 0x5c \<notin> set (concat (prOut small_listing))"
    by code_simp
  moreover have "(case list_lines (ssResolve small_snapshot) (bs ''/t/pairmux'') listing0 (split_on 10 (trim_suffix [10] (concat (prOut small_listing))))
      of None \<Rightarrow> None | Some st \<Rightarrow> if bs ''pairmux'' \<in> set (lsTools st) \<and> lsCount st = 1 then Some (lsEntry st) else None) = Some (bs ''/b/pairmux'')"
    by code_simp
  moreover have "\<not> length (concat (prOut small_listing)) > updateOutputLimit" by (simp add: small_listing_def updateOutputLimit_def)
  ultimately show ?thesis
    by (cases "list_lines (ssResolve small_snapshot) (bs ''/t/pairmux'') listing0 (split_on 10 (trim_suffix [10] (concat (prOut small_listing))))")
      (simp_all add: parseUpdateListing_def)
qed

definition small_installation :: updateInstallation where
  "small_installation =
     \<lparr>inBinary = bs ''/t/pairmux/bin/pairmux'', inEnv = bs ''/t/pairmux'', inToolRoot = bs ''/t'', inReceipt = bs ''x'',
      inInfo = small_file, inEntry = [], inLink = [], inBinDir = []\<rparr>"

definition small_verified :: updateInstallation where
  "small_verified = small_installation\<lparr>inEntry := bs ''/b/pairmux'', inLink := [], inBinDir := bs ''/b''\<rparr>"

lemma small_located:
  "locateUpdateInstallation small_snapshot (bs ''/b/pairmux'') = Some small_installation"
  "locateUpdateInstallation small_snapshot (inBinary small_verified) = Some small_installation"
  by code_simp+

lemma small_rechecked: "recheck small_snapshot small_verified"
  by code_simp

lemma small_inspected: "inspect small_snapshot small_snapshot small_listing small_installation = Some small_verified"
proof -
  have "verifyUpdateEntrypoint small_snapshot (bs ''/b/pairmux'') (inBinary small_installation) = Some []"
    "ssResolve small_snapshot (path_dir (bs ''/b/pairmux'')) = Some (bs ''/b'')" "inEnv small_installation = bs ''/t/pairmux''"
    "prOk small_listing" by code_simp+
  then show ?thesis
    using small_rechecked small_listing_parsed by (simp add: inspect_def small_captured small_verified_def)
qed

lemma small_new_version: "parseUpdateVersionReply (captured (uwVersion small_update)) = Some (bs ''1.10.0'')"
proof -
  have "utf8_text small_reply" by code_simp
  moreover have "json_decode small_reply = Some (JObj [(bs ''schema'', JStr (bs ''pairmux.v1'')), (bs ''ok'', JBool True),
      (bs ''status'', JStr (bs ''ok'')), (bs ''output'', JStr (bs ''1.10.0''))])" by code_simp
  moreover have "length small_reply \<le> updateOutputLimit" by (simp add: small_reply_def quoted_def updateOutputLimit_def)
  ultimately show ?thesis
    by (simp add: parseUpdateVersionReply_def small_captured reply_keys_def str_field_def bool_field_def)
qed

text \<open>A version whose middle number has more digits is newer, although its text comes first.\<close>

lemma small_update_runs:
  "\<exists>runs e. cmdUpdateWith small_update = (runs, Inr e) \<and> eStatus e = bs ''updated'' \<and> length runs = 4"
proof -
  have v: "parseUpdateVersion (bs ''1.9.0'') = Some \<lparr>vParts = [bs ''1'', bs ''9'', bs ''0''], vPre = False\<rparr>"
    "parseUpdateVersion (bs ''1.10.0'') = Some \<lparr>vParts = [bs ''1'', bs ''10'', bs ''0''], vPre = False\<rparr>"
    "compareUpdateCore \<lparr>vParts = [bs ''1'', bs ''9'', bs ''0''], vPre = False\<rparr> \<lparr>vParts = [bs ''1'', bs ''10'', bs ''0''], vPre = False\<rparr> = - 1"
    "compareUpdateCore \<lparr>vParts = [bs ''1'', bs ''10'', bs ''0''], vPre = False\<rparr> \<lparr>vParts = [bs ''1'', bs ''9'', bs ''0''], vPre = False\<rparr> = 1"
    by code_simp+
  have u: "resolveUpdateUV small_snapshot (UvAt (bs ''/u/uv'')) None (inEnv small_installation) = Some (bs ''/u/uv'')" by code_simp
  have w: "uwArgs small_update = []" "\<not> uwWindows small_update" "uwCurrent small_update = bs ''1.9.0''" "uwExe small_update = Some (bs ''/b/pairmux'')"
    "uwFound small_update = UvAt (bs ''/u/uv'')" "uwHome small_update = None" "uwLocate small_update = small_snapshot"
    "uwUV small_update = small_snapshot" "uwListed small_update = small_snapshot" "uwChecked small_update = small_snapshot"
    "uwBefore small_update = small_snapshot" "uwRelocate small_update = small_snapshot" "uwRelisted small_update = small_snapshot"
    "uwRechecked small_update = small_snapshot" "uwAfter small_update = small_snapshot" "uwLast small_update = small_snapshot"
    "uwList1 small_update = small_listing" "uwList2 small_update = small_listing" "prOk (uwInstall small_update)" "prOk (uwVersion small_update)"
    by (simp_all add: small_update_def)
  have b: "inBinary small_installation = inBinary small_verified" by (simp add: small_verified_def)
  show ?thesis
    by (simp add: cmdUpdateWith_def verify_replacement_def w v u b small_located small_inspected small_rechecked small_new_version
        update_envelope_def env0_def Let_def del: list.map)
qed

end
