(* ===== verification/Spec2Isabelle.thy ===== *)
theory Spec2Isabelle
  imports Lifecycle Server_Runs Handoff_Laws Mcp_Laws Views_Laws Tmux Eventlog Prune Client Attach_Client New Update_Laws
begin

text \<open>
  A model of pairmux (Go), a program that lets agents and humans share terminals: each command runs in a
  terminal of a multiplexer, which appends the raw output to the terminal's journal, keeps a virtual
  screen, and streams to attached humans; \<open>run\<close> and \<open>wait\<close> find the end of a command by marks in the
  journal, and what an agent reads is the journal shaped into plain text.

  Conventions. A byte is an \<open>8 word\<close>, a rune an \<open>int\<close>, a string a list of bytes. Structs are records with
  the fields of the source (a field or constructor is renamed only where its name is taken), enumerations
  datatypes, maps partial functions, an \<open>int\<close> of the source an \<open>int\<close> where no operation can leave its range
  and a word where it wraps. Errors are \<open>option\<close> or sum values. Loops over data are recursive functions,
  all of them total; only the JSON decoder takes fuel, two steps per byte, which \<open>jvalue_fuel\<close> shows to be enough. A wait loop is a function of the list of the polls it makes, so its
  result \<open>None\<close> says that it is still waiting after them. A function that the source runs under a lock is
  one definition, and goroutines are the steps of a relation over such definitions.

  The virtual terminal (\<open>internal/vt\<close>):
  \<^item> \<open>Utf8\<close>, \<open>Unicode_Tables\<close>, \<open>Width\<close>: decoding and encoding of runes, their widths (\<open>width.go\<close>).
  \<^item> \<open>Cells\<close>, \<open>History\<close>, \<open>Screen\<close>: cells and rows, the scrollback ring, the screen (\<open>screen.go\<close>, \<open>csi.go\<close>);
    \<open>Params\<close>: control sequence parameters and renditions; \<open>Render\<close>: redrawing (\<open>render.go\<close>).
  \<^item> \<open>Terminal\<close>, \<open>Parser\<close>: dispatch of sequences, forwarding, replies, the state machine of \<open>Feed\<close>
    (\<open>csi.go\<close>, \<open>parser.go\<close>); \<open>Resize\<close>.
  \<^item> \<open>Screen_WF\<close>, \<open>Terminal_WF\<close>: the invariants and their preservation; \<open>Print\<close>: the bulk path for ASCII
    equals printing byte by byte; \<open>Feed_Laws\<close>: \<open>Feed\<close> of a concatenation; \<open>Frames\<close>: what operations leave
    alone; \<open>Lifecycle\<close>: the step relation of a terminal, its invariant over all runs.

  Marks and waiting (\<open>internal/detect\<close>, \<open>internal/journal\<close>, \<open>internal/core\<close>):
  \<^item> \<open>Text\<close>: white space trimming of Go strings; \<open>Scanner\<close>: the incremental mark scanner (\<open>scanner.go\<close>);
    \<open>Marks\<close>: what it reports and that it misses nothing.
  \<^item> \<open>Journal\<close>: ranges and tails of the raw log, pending commands; \<open>Wait\<close>: the wait loops, the correlated
    wait, the watcher and the status (\<open>wait.go\<close>, \<open>await.go\<close>); \<open>Wait_Laws\<close>: they compute a function of the
    stream alone, and agree with each other.
  \<^item> \<open>Regex\<close>, \<open>Patterns\<close>: the regular expressions of \<open>await.go\<close> with a matcher proved to decide them;
    \<open>Prompts\<close>: classification of quiet terminals (\<open>await.go\<close>, \<open>tty.go\<close>, \<open>fgwait.go\<close>,
    \<open>fgwait_proc.go\<close>, \<open>fgwait_linux.go\<close>).

  Shaping (\<open>internal/shape\<close>): \<open>Shape\<close> is \<open>shape.go\<close>, \<open>Shape_Laws\<close> what its results contain.

  The built-in multiplexer (\<open>internal/muxd\<close>): \<open>Proto\<close> is \<open>proto.go\<close>, \<open>keys.go\<close> and the key allowlist of the
  command line; \<open>Server\<close> is \<open>server.go\<close> and \<open>attach_server.go\<close>; \<open>Server_Laws\<close> proves the invariant of a pane
  and what its journal, screen and attached humans see under any interleaving; \<open>Server_Runs\<close> the same for
  the server; \<open>Client\<close> is \<open>client.go\<close> with the socket paths of \<open>internal/rundir/rundir.go\<close> and the choice of a backend of
  \<open>internal/backend/backend.go\<close>, and states what the command line relies on as the interface \<open>multiplexer\<close>, which the
  server provides; \<open>Attach_Client\<close> is the human's end of an attach (\<open>attach.go\<close>).

  The registry and the command line: \<open>Sha256\<close> is the digest endpoints are named by; \<open>Registry\<close> is
  \<open>internal/state/state.go\<close> with the names of \<open>internal/mux/mux.go\<close> and the nested layers of
  \<open>internal/cli/state_scope.go\<close>; \<open>Flags\<close> parses command lines and quotes the ones pairmux suggests
  (\<open>internal/cli/cli.go\<close>, \<open>wait.go\<close>); \<open>Shellhooks\<close> is \<open>internal/shellhooks/shellhooks.go\<close>; \<open>Commands\<close> is
  \<open>cmdRun\<close> and the notes of humans (\<open>internal/cli/commands.go\<close>, \<open>wait.go\<close>); \<open>Handoff\<close> is \<open>pairmux wait\<close>
  (\<open>wait.go\<close>) with its envelopes, \<open>Handoff_Laws\<close> what a handoff to a human reveals and when it is over; \<open>Views\<close> holds
  \<open>peek\<close>, \<open>send\<close>, \<open>log\<close>, \<open>note\<close>, \<open>kill\<close> and \<open>ls\<close> (\<open>commands.go\<close>), \<open>Views_Laws\<close> what they show, deliver and kill;
  \<open>Eventlog\<close> is the event log as a file of JSON lines (\<open>internal/journal/journal.go\<close>) with the proof that it implements
  the list of events the other theories use; \<open>Tmux\<close> is \<open>internal/tmux\<close>, the command lines of its operations and the
  reading of its output; \<open>New\<close> is \<open>pairmux new\<close> (\<open>commands.go\<close>, \<open>gate.go\<close>, \<open>gate_unix.go\<close>, \<open>internal/state/reservation.go\<close>) as
  steps over the terminal's directory and the requests to the multiplexer, with the proof that every run follows one plan;
  \<open>Prune\<close> is \<open>pairmux prune\<close> (\<open>prune.go\<close>); \<open>Update\<close> is \<open>pairmux update\<close> (\<open>update.go\<close>), \<open>Update_Laws\<close> what it may replace.

  The MCP server (\<open>internal/mcpserver\<close>): \<open>Json\<close> is the decoder of the Go library; \<open>Mcp_Tools\<close> is \<open>tools.go\<close>, the
  command line of every tool, and how the started process reads it; \<open>Mcp\<close> is \<open>server.go\<close>, with \<open>Serve\<close> as a step
  relation over its reader, queue, workers and completions, and the bounded buffers of \<open>executor.go\<close>;
  \<open>Mcp_Laws\<close> states the life of a request id (\<open>phase_step\<close>), proves that every run follows it and that every accepted call
  comes to an end.

  Interfaces are locales: a bounded queue (\<open>History\<close>), a consumer of chunks (\<open>Prelude\<close>), a consumer of marks
  (\<open>Wait_Laws\<close>), a transition system with an invariant (\<open>Lifecycle\<close>), a multiplexer (\<open>Client\<close>), each interpreted on the
  definitions of the model that provide it.

  Not modelled: the operating system (pseudo terminals, processes, files, sockets, signals, terminal modes,
  locks between processes: \<open>pty\<close>, \<open>flock\<close>, finding and checking the run directory, the system probes of \<open>detect\<close>, the process
  parts of \<open>muxd\<close>, the child processes of \<open>mcpserver\<close>), the text of messages and help (\<open>output\<close>, the remaining commands of
  \<open>cli\<close>), \<open>tmux\<close> as a process, the checks of an installation (\<open>cli/doctor.go\<close>). What the operating system
  returns to modelled code is an argument of the definitions (\<open>env\<close>, polls, probe results, snapshots of the file system); the
  compiler of the user's own prompt pattern and the encoding of messages are arguments too.
\<close>

section \<open>The terminal emulator\<close>

text \<open>C1: In every state a terminal can reach from \<open>New\<close> by any sequence of \<open>Feed\<close> (arbitrary
  bytes), \<open>Resize\<close> (arbitrary sizes) and \<open>SetForwarding\<close>, the terminal invariant holds: both
  buffers have exactly the screen's size, cursor, margins, saved cursors, tab stops and character
  set indices are in range, a pending wrap exists only in the last column with autowrap on, the
  history ring is well formed, and the bytes the parser holds have the shape its slice expressions
  need, so that no index of the code is out of bounds.\<close>

theorem reachable_invariant: "reachable t \<Longrightarrow> term_ok t"
  by (rule reachable_ok)

theorem reachable_invariant_witness:
  "term_ok (fold apply_event [EvFeed (bs ''ab''), EvResize 3 2, EvForwarding False] (NewTerminal 5 2 4))"
  by (intro reachable_invariant reachable_run reachable.created)

text \<open>C2: No reachable screen shows half of a wide glyph: in every row of the active buffer a
  lead cell is followed by its pad cell and a pad cell is preceded by a lead cell.\<close>

theorem no_half_glyph:
  assumes "reachable t" "y < rows (scr t)" "x < cols (scr t)"
  shows "length (cells (buf (scr t) ! y)) = cols (scr t)
    \<and> \<not> isPad (cells (buf (scr t) ! y) ! 0)
    \<and> isWide (cells (buf (scr t) ! y) ! x) =
        (x + 1 < cols (scr t) \<and> isPad (cells (buf (scr t) ! y) ! (x + 1)))"
proof -
  have w: "wf (scr t)" using reachable_ok [OF assms(1)] by (rule term_okD)
  note r = wf_row [OF w assms(2)]
  have "\<not> isPad (cells (buf (scr t) ! y) ! 0)"
    using row_okD(3) [OF r(2), of 0] r(1) assms(3) by auto
  then show ?thesis
    using row_okD(2) [OF r(2), of x] row_okD(3) [OF r(2), of "x + 1"] r(1) assms(3) by auto
qed

theorem no_half_glyph_witness:
  "length (cells (buf (scr (NewTerminal 3 2 0)) ! 1)) = cols (scr (NewTerminal 3 2 0))
    \<and> \<not> isPad (cells (buf (scr (NewTerminal 3 2 0)) ! 1) ! 0)
    \<and> isWide (cells (buf (scr (NewTerminal 3 2 0)) ! 1) ! 2) =
        (2 + 1 < cols (scr (NewTerminal 3 2 0)) \<and> isPad (cells (buf (scr (NewTerminal 3 2 0)) ! 1) ! (2 + 1)))"
  by (rule no_half_glyph [OF reachable.created]) code_simp+

text \<open>C3: \<open>Feed\<close> does not depend on how the program's output is cut into chunks: two sequences
  of calls that deliver the same bytes leave the same terminal and return, concatenated, the same
  forward and reply streams, even when a chunk ends inside an escape sequence, a string or a
  UTF-8 character.\<close>

theorem feed_chunking:
  assumes "reachable t" "idle t" "concat ps = concat qs"
  shows "feeds ps t = feeds qs t"
  using assms reachable_ok feeds_concat by simp

theorem feed_chunking_witness:
  "feeds [[0xe4], [0xbd, 0xa0, ESC], bs ''[1''] (NewTerminal 4 1 0) =
   feeds [[0xe4, 0xbd], [0xa0], [ESC, bc CHR ''[''], bs ''1''] (NewTerminal 4 1 0)"
  by (rule feed_chunking [OF reachable.created]) (simp_all add: idle_def NewTerminal_def)


text \<open>C4: The bulk path for printable ASCII is an optimisation only: on every reachable screen,
  storing a whole run at once, line by line, leaves exactly the screen that printing its bytes one
  by one leaves, whatever the mode (insert, autowrap, a wide glyph cut by the run, the margins).\<close>

theorem ascii_bulk_print:
  assumes "reachable t"
  shows "printASCII run (scr t) = foldl (\<lambda>s b. printGlyph (glyph_rune s b) 1 s) (scr t) run"
  using print_bytes_fast [of "scr t" run] reachable_ok [OF assms] by (simp add: print_bytes_def term_ok_def)

theorem ascii_bulk_print_witness:
  "printASCII (bs ''abcde'') (scr (NewTerminal 3 2 4)) =
   foldl (\<lambda>s b. printGlyph (glyph_rune s b) 1 s) (scr (NewTerminal 3 2 4)) (bs ''abcde'')"
  by (rule ascii_bulk_print [OF reachable.created])

text \<open>C5: \<open>Resize\<close> gives any reachable terminal exactly the requested size, clamped to 1..4096 in
  both directions, keeps the invariant and the history limit, and asking for the same size again
  changes nothing.\<close>

theorem resize_size:
  assumes "reachable t"
  shows "term_ok (Resize c r t)
    \<and> int (cols (scr (Resize c r t))) = clampInt c 1 maxDim
    \<and> int (rows (scr (Resize c r t))) = clampInt r 1 maxDim
    \<and> limit (shist (scr (Resize c r t))) = limit (shist (scr t))
    \<and> Resize c r (Resize c r t) = Resize c r t"
proof -
  have w: "wf (scr t)" using reachable_ok [OF assms] by (rule term_okD)
  have d: "dims (scr (Resize c r t)) = (fst (clampSize c r), snd (clampSize c r), limit (shist (scr t)))"
    using resizeScreen_ok(2) [OF w] by (simp add: Resize_def)
  have "1 \<le> clampInt k 1 maxDim" for k using clampInt_bounds [of 1 maxDim k] by (simp add: maxDim_def)
  then have "0 \<le> clampInt k 1 maxDim" for k by (metis order_trans zero_le_one)
  then show ?thesis
    using d Resize_term_ok [OF reachable_ok [OF assms]] Resize_idem [OF w]
    by (simp add: dims_def clampSize_def Resize_def)
qed

theorem resize_size_witness:
  "term_ok (Resize 0 5000 (NewTerminal 3 2 4))
    \<and> int (cols (scr (Resize 0 5000 (NewTerminal 3 2 4)))) = clampInt 0 1 maxDim
    \<and> int (rows (scr (Resize 0 5000 (NewTerminal 3 2 4)))) = clampInt 5000 1 maxDim
    \<and> limit (shist (scr (Resize 0 5000 (NewTerminal 3 2 4)))) = limit (shist (scr (NewTerminal 3 2 4)))
    \<and> Resize 0 5000 (Resize 0 5000 (NewTerminal 3 2 4)) = Resize 0 5000 (NewTerminal 3 2 4)"
  by (rule resize_size [OF reachable.created])



text \<open>C7: The scrollback ring is a bounded queue: pushing appends a line and drops the oldest one
  when the limit is reached, popping takes the newest line back, reading index \<open>i\<close> gives the
  \<open>i\<close>-th oldest line, wherever the ring's head stands.\<close>

theorem history_ring:
  assumes "hist_ok h"
  shows "hist_items (hist_push l h) = lastn (limit h) (hist_items h @ [l]) \<and> hist_ok (hist_push l h)
    \<and> (i < hist_len h \<longrightarrow> hist_at h i = hist_items h ! i)
    \<and> (hist_items h \<noteq> [] \<longrightarrow> fst (hist_popNewest h) = last (hist_items h)
          \<and> hist_items (snd (hist_popNewest h)) = butlast (hist_items h) \<and> hist_ok (snd (hist_popNewest h)))"
  using assms hist_at_items hist_popNewest_items hist_popNewest_ok
  by (auto simp: hist_push_items hist_push_ok hist_len_def)

theorem history_ring_witness:
  "hist_items (hist_push (bs ''d'') \<lparr>hlines = [bs ''c'', bs ''b''], head = 1, limit = 2\<rparr>) = [bs ''c'', bs ''d'']"
  using history_ring [of "\<lparr>hlines = [bs ''c'', bs ''b''], head = 1, limit = 2\<rparr>" "bs ''d''" 0]
  by (simp add: hist_ok_def hist_items_def lastn_def)

text \<open>The binary search of \<open>inRanges\<close> decides membership in the two width tables of the source,
  and \<open>RuneWidth\<close> is 0, 1 or 2, with 1 for every printable ASCII character.\<close>

lemma width_tables:
  "inRanges wideRanges r = list_ex (\<lambda>(lo, hi). lo \<le> r \<and> r \<le> hi) wideRanges
    \<and> inRanges zeroWidthExtra r = list_ex (\<lambda>(lo, hi). lo \<le> r \<and> r \<le> hi) zeroWidthExtra
    \<and> RuneWidth r \<le> 2 \<and> RuneWidth (0x20 + k mod 0x5F) = 1"
  using inRanges_eq [OF wideRanges_sorted] inRanges_eq [OF zeroWidthExtra_sorted] RuneWidth_le_2
    RuneWidth_ascii [of "0x20 + k mod 0x5F"] pos_mod_bound [of "0x5F" k] pos_mod_sign [of "0x5F" k]
  by (simp add: unicode_Is_def)

text \<open>Parameters of a control sequence never leave the range -1 (missing) to 65535, however many
  digits the program sends, and a count is at least 1.\<close>

lemma parameter_bounds:
  assumes "parse b = Some p"
  shows "-1 \<le> arg p i 0 \<and> arg p i 0 \<le> maxParamValue \<and> 1 \<le> Params.count p i \<and> Params.count p i \<le> maxParamValue"
  using arg_bounds [OF parse_ok [OF assms], of 0 i] count_bounds [OF parse_ok [OF assms], of i]
  by (simp add: maxParamValue_def)

section \<open>Marks in the output\<close>

text \<open>C10: Every mark the scanner reports sits on its own bytes: the bytes between its offsets are the
  boundary text, or an OSC of at most 160 payload bytes, without ESC and BEL, closed by BEL or ST,
  whose payload says the kind and exit code of the mark.\<close>

theorem marks_on_their_bytes:
  assumes "m \<in> set (fst (scan_feed w (NewScanner base)))"
  shows "\<exists>u seg v. w = u @ seg @ v \<and> Start m = base + int (length u)
    \<and> End m = Start m + int (length seg) \<and> mark_bytes seg m"
  using scan_new_placed [OF assms] by (simp add: placed_def)

theorem marks_on_their_bytes_witness:
  "\<exists>u seg v. bs ''x'' @ osc_seq (bs ''133;D;3'') = u @ seg @ v \<and> (107 :: int) = 106 + int (length u)
    \<and> 107 + 10 = 107 + int (length seg)
    \<and> mark_bytes seg \<lparr>Kind = MarkD, ExitCode = 3, Start = 107, End = 107 + 10\<rparr>"
proof -
  have "\<lparr>Kind = MarkD, ExitCode = 3, Start = 107, End = 117\<rparr>
      \<in> set (fst (scan_feed (bs ''x'' @ osc_seq (bs ''133;D;3'')) (NewScanner 106)))"
    by code_simp
  from marks_on_their_bytes [OF this] show ?thesis by simp
qed

text \<open>A mark is found in whatever state the scanner is, i.e. after any output whatsoever, binary
  garbage and unfinished sequences included, at its true offsets and exactly once.\<close>

lemma mark_found_anywhere:
  assumes "plain_payload pl" "osc_mark pl = Some (k, x)"
  shows "fst (scan_feed (osc_seq pl) s) =
    [\<lparr>Kind = k, ExitCode = x, Start = spos s, End = spos s + int (length (osc_seq pl))\<rparr>]"
  using scan_osc [OF assms(1), of s] assms(2) by auto

text \<open>C12: The scanner finds the boundary text in output without ESC exactly when it is there, however
  the repeated characters of the boundary overlap (the fallback of \<open>matchBoundary\<close>).\<close>

theorem boundary_found:
  assumes "ESC \<notin> set p"
  shows "fst (scan_feed p (NewScanner base)) \<noteq> [] \<longleftrightarrow> (\<exists>u v. p = u @ SentinelBoundary @ v)"
  using boundary_found_iff [OF assms, of base] by blast

theorem boundary_found_witness:
  "fst (scan_feed ([0xe2, 0x80, 0x8b] @ SentinelBoundary) (NewScanner 0)) \<noteq> []"
proof -
  have "ESC \<notin> set ([0xe2, 0x80, 0x8b] @ SentinelBoundary)" by (simp add: SentinelBoundary_def)
  from boundary_found [OF this] show ?thesis by blast
qed

text \<open>Scanning does not depend on the chunks: two ways to cut the same output give the same marks
  and leave the scanner in the same state.\<close>

lemma scan_chunking:
  assumes "concat ps = concat qs"
  shows "foldl scan_acc ([], s) ps = foldl scan_acc ([], s) qs"
  using assms by (rule scan.rechunk [OF TrueI])

section \<open>Commands and their completion\<close>

text \<open>C14: A command in sentinel mode comes back whole: when it has printed \<open>body\<close> and its shell the
  sentinel with exit code \<open>n\<close>, the wait reports done with exactly \<open>n\<close> and the output region from the
  send offset to the mark is exactly \<open>body\<close>, whatever polls cut the stream into and even when \<open>body\<close>
  holds unfinished escape sequences, provided \<open>body\<close> holds no sentinel of its own.\<close>

theorem sentinel_command:
  assumes "- (2 ^ 63) \<le> n" "n < 2 ^ 63" "from = length before"
    and "find (\<lambda>m. Kind m = MarkSentinel) (fst (scan_feed body (NewScanner (int from)))) = None"
    and "growing R from ps" "ps \<noteq> []" "praw (last ps) = R" "R = before @ body @ sentinel n"
    and "\<forall>p \<in> set ps. pnow p < deadline \<and> (stop \<longrightarrow> fst (pcls p) \<noteq> StatusAwaitingInput)"
  shows "waitCompletion ps (int from) ModeSentinel False deadline stop =
      Some (Inr \<lparr>Outcome = OutcomeDone, RExit = n, MarkStart = int (length (before @ body)),
                 EndOffset = int (length R), RPrompt = no_prompt\<rparr>)
    \<and> ReadRange R (int from) (int (length (before @ body))) = body"
proof
  show "waitCompletion ps (int from) ModeSentinel False deadline stop =
      Some (Inr \<lparr>Outcome = OutcomeDone, RExit = n, MarkStart = int (length (before @ body)),
                 EndOffset = int (length R), RPrompt = no_prompt\<rparr>)"
    using waitCompletion_plain [OF assms(5-7) _ assms(9), of False ModeSentinel]
      marks_sentinel [OF assms(1-3), of body] assms(4,8)
    by (simp add: find_append completionKind_def doneResult_def)
  show "ReadRange R (int from) (int (length (before @ body))) = body"
    using assms(3,8) by (auto simp: ReadRange_def slice_def Let_def)
qed

theorem sentinel_command_witness:
  "waitCompletion
      [\<lparr>praw = bs ''$ hi'' @ [ESC], pfail = False, pobs = 0, pnow = 1, pcls = (StatusRunning, no_prompt)\<rparr>,
       \<lparr>praw = bs ''$ '' @ (bs ''hi'' @ [ESC]) @ sentinel (- 3), pfail = False, pobs = 2, pnow = 3,
         pcls = (StatusRunning, no_prompt)\<rparr>] (int 2) ModeSentinel False 9 True =
      Some (Inr \<lparr>Outcome = OutcomeDone, RExit = - 3, MarkStart = int (length (bs ''$ '' @ (bs ''hi'' @ [ESC]))),
        EndOffset = int (length (bs ''$ '' @ (bs ''hi'' @ [ESC]) @ sentinel (- 3))), RPrompt = no_prompt\<rparr>)
    \<and> ReadRange (bs ''$ '' @ (bs ''hi'' @ [ESC]) @ sentinel (- 3)) (int 2)
        (int (length (bs ''$ '' @ (bs ''hi'' @ [ESC])))) = bs ''hi'' @ [ESC]"
proof (rule sentinel_command)
  show "find (\<lambda>m. Kind m = MarkSentinel) (fst (scan_feed (bs ''hi'' @ [ESC]) (NewScanner (int 2)))) = None"
    by code_simp
qed simp_all

text \<open>C15: The same with a shell that prints the boundary after its sentinel: the command ends at the
  boundary, with the exit code of the sentinel.\<close>

theorem bounded_sentinel_command:
  assumes "- (2 ^ 63) \<le> n" "n < 2 ^ 63" "from = length before"
    and "find (\<lambda>m. Kind m = MarkSentinel) (fst (scan_feed body (NewScanner (int from)))) = None"
    and "growing R from ps" "ps \<noteq> []" "praw (last ps) = R" "R = before @ body @ sentinel n @ SentinelBoundary"
    and "\<forall>p \<in> set ps. pnow p < deadline \<and> (stop \<longrightarrow> fst (pcls p) \<noteq> StatusAwaitingInput)"
    and "\<forall>p \<in> set ps. t0 \<le> pobs p \<and> pnow p < t0 + graceBoundary"
  shows "waitCompletion ps (int from) ModeSentinel True deadline stop =
      Some (Inr \<lparr>Outcome = OutcomeDone, RExit = n, MarkStart = int (length (before @ body @ sentinel n)),
                 EndOffset = int (length R), RPrompt = no_prompt\<rparr>)"
proof -
  define ms where "ms = fst (scan_feed body (NewScanner (int from)))"
  have ns: "\<forall>m \<in> set ms. Kind m \<noteq> MarkSentinel" using assms(4) by (simp add: find_None_iff ms_def)
  have m: "\<forall>m \<in> set (marks_to R from (length R)). int from \<le> Start m" using marks_from by blast
  have "dropWhile (\<lambda>m. Kind m \<noteq> MarkSentinel) (ms @ xs) = dropWhile (\<lambda>m. Kind m \<noteq> MarkSentinel) xs" for xs
    using ns by (simp add: dropWhile_append2)
  then show ?thesis
    using waitCompletion_stream [OF assms(5-7,9,10), of ModeSentinel True]
      marks_protocol [OF assms(1-3), of body] assms(8) each_bounded [OF m]
    by (simp add: ms_def [symmetric] Let_def boundary_done_def SentinelBoundary_def)
qed

theorem bounded_sentinel_command_witness:
  "waitCompletion
      [\<lparr>praw = bs ''$ '' @ bs ''hi'' @ sentinel 0 @ SentinelBoundary, pfail = False, pobs = 2, pnow = 3,
         pcls = (StatusRunning, no_prompt)\<rparr>] (int 2) ModeSentinel True 9 True =
      Some (Inr \<lparr>Outcome = OutcomeDone, RExit = 0, MarkStart = int (length (bs ''$ '' @ bs ''hi'' @ sentinel 0)),
        EndOffset = int (length (bs ''$ '' @ bs ''hi'' @ sentinel 0 @ SentinelBoundary)), RPrompt = no_prompt\<rparr>)"
proof (rule bounded_sentinel_command [where ?t0.0 = 0])
  show "find (\<lambda>m. Kind m = MarkSentinel) (fst (scan_feed (bs ''hi'') (NewScanner (int 2)))) = None"
    by code_simp
qed (simp_all add: graceBoundary_def)



text \<open>C17: The watcher that \<open>wait\<close> polls and the loop that \<open>run\<close> blocks in decide alike, in both modes,
  with and without a boundary, held marks and grace periods included.\<close>

theorem watcher_agrees_with_run:
  assumes "\<forall>p \<in> set ps. pnow p < deadline"
  shows "watch ps (NewCompletionWatcher from mode b) =
    (if mode = ModeHooks then waitCompletionCorrelated ps from deadline True False
     else waitCompletion ps from mode b deadline False)"
  using watch_wait_loop [OF assms] watch_corr_loop [OF assms]
  by (cases mode) (simp_all add: new_watcher waitCompletionCorrelated_def waitCompletion_def)

theorem watcher_agrees_with_run_witness:
  "watch [\<lparr>praw = osc_seq (bs ''133;D;1''), pfail = False, pobs = 2, pnow = 3, pcls = (StatusRunning, no_prompt)\<rparr>]
      (NewCompletionWatcher 0 ModeHooks False) =
    waitCompletionCorrelated
      [\<lparr>praw = osc_seq (bs ''133;D;1''), pfail = False, pobs = 2, pnow = 3, pcls = (StatusRunning, no_prompt)\<rparr>]
      0 9 True False"
  using watcher_agrees_with_run [of "[\<lparr>praw = osc_seq (bs ''133;D;1''), pfail = False, pobs = 2, pnow = 3,
      pcls = (StatusRunning, no_prompt)\<rparr>]" 9 0 ModeHooks False] by simp

text \<open>C18: Waits end: once a poll is made at or after the deadline, every wait has returned,
  whatever the program prints.\<close>

theorem wait_deadline:
  assumes "\<exists>p \<in> set ps. deadline \<le> pnow p"
  shows "waitCompletion ps from mode b deadline stop \<noteq> None
    \<and> waitCompletionCorrelated ps from deadline c stop \<noteq> None"
  using assms wait_loop_deadline corr_loop_deadline
  by (auto simp: waitCompletion_def waitCompletionCorrelated_def)

theorem wait_deadline_witness:
  "waitCompletion [\<lparr>praw = [], pfail = False, pobs = 2, pnow = 9, pcls = (StatusRunning, no_prompt)\<rparr>]
      0 ModeHooks False 9 False \<noteq> None
    \<and> waitCompletionCorrelated [\<lparr>praw = [], pfail = False, pobs = 2, pnow = 9, pcls = (StatusRunning, no_prompt)\<rparr>]
      0 9 True False \<noteq> None"
  by (rule wait_deadline) simp



section \<open>Shaped output\<close>

text \<open>\<open>StripANSI\<close> only deletes: its result is a subsequence of its input and holds no byte below
  0x20 but newline and tab, so no escape sequence is left in it; and stripping again changes nothing,
  unless the deletions have brought the pieces of a boundary text together.\<close>

lemma strip_only_deletes:
  "subseq (StripANSI b) b \<and> list_all clean_byte (StripANSI b)
    \<and> (StripANSI (StripANSI b) = StripANSI b \<or> (\<exists>u v. StripANSI b = u @ SentinelBoundary @ v))"
  using StripANSI_subseq StripANSI_clean StripANSI_plain [OF StripANSI_clean, of b] by blast

text \<open>Completion marks never show in shaped text: a mark of the protocol, and the boundary text,
  disappear from between what surrounds them, whatever follows.\<close>

lemma marks_are_invisible:
  assumes "ESC \<notin> set u" "plain_payload pl"
  shows "StripANSI (u @ osc_seq pl @ v) = StripANSI u @ StripANSI v
    \<and> StripANSI (osc_seq pl @ SentinelBoundary @ v) = StripANSI v"
  using StripANSI_before_esc [of "osc_seq pl @ v" _ u] StripANSI_osc [OF assms(2)] StripANSI_boundary assms(1)
  by (simp add: osc_seq_def)


text \<open>\<open>Truncate\<close> keeps exactly the first \<open>h\<close> and the last \<open>k\<close> lines around one marker line and
  reports how many lines it left out; shorter text is unchanged.\<close>

lemma truncate_keeps_ends:
  assumes "0 \<le> h" "0 \<le> k"
  shows "if length (lines_of txt) \<le> nat h + nat k then Truncate txt h k = (txt, 0)
    else lines_of (fst (Truncate txt h k)) =
        take (nat h) (lines_of txt) @ [truncMarker] @ drop (length (lines_of txt) - nat k) (lines_of txt)
      \<and> snd (Truncate txt h k) = int (length (lines_of txt)) - h - k"
  using Truncate_short [of "txt" h k] Truncate_lines [OF assms, of "txt"] by simp

text \<open>The echo of a command is dropped: output that starts with the prompt and the command on a line
  of their own loses exactly this line.\<close>

lemma echo_dropped:
  assumes "NL \<notin> set prompt" "NL \<notin> set cmd" "cmd \<noteq> []" "last cmd \<noteq> SP" "last cmd \<noteq> TAB"
    and "\<not> is_blank (prompt @ cmd)"
  shows "DropEchoedCommand (prompt @ cmd @ NL # body) cmd = body"
  using assms by (rule DropEchoed_line)

section \<open>Prompts\<close>



text \<open>The scan of \<open>/proc\<close> answers working exactly when some process on the terminal is running,
  parked when there are processes on it and none is, unknown otherwise, in whatever order the entries
  come and whatever unreadable or malformed ones stand between them.\<close>

lemma foreground_verdict:
  "scan_procs want ds False =
     (if \<exists>d. d \<in> set ds \<and> on_tty want d = Some (bc CHR ''R'') then FgWorking
      else if \<exists>d. d \<in> set ds \<and> on_tty want d \<noteq> None then FgParked else FgUnknown)"
  by (subst scan_procs_spec) (simp only: Bex_def simp_thms)

section \<open>The protocol of the built-in multiplexer\<close>

text \<open>What an attached terminal is sent comes back as the same frames, however many and of any
  type, in order, up to the end of the stream.\<close>

lemma frames_round_trip:
  assumes "\<forall>f \<in> set fs. length (snd f) \<le> maxFrame"
  shows "read_frames (concat (map (\<lambda>(t, p). encodeFrame t p) fs)) = (fs, ErrShort)"
  using assms by (rule read_frames_encode)

text \<open>Control messages: one that the writer accepts is read back, leaving the rest of the stream,
  for any encoding of the body that decodes what it encodes; one longer than the limit is refused by the
  writer, and a header announcing more than the limit by the reader, whatever follows.\<close>

lemma messages_round_trip:
  assumes "dec (enc v) = Some v"
  shows "(case writeMsg enc v of Inl e \<Rightarrow> e = ErrTooLarge \<and> maxMessage < length (enc v)
           | Inr m \<Rightarrow> readMsg dec (m @ s) = Inr (v, s))
    \<and> (unat n \<le> maxMessage \<or> readMsg dec (PutUint32 n @ s) = Inl ErrTooLarge)"
proof
  show "case writeMsg enc v of Inl e \<Rightarrow> e = ErrTooLarge \<and> maxMessage < length (enc v)
           | Inr m \<Rightarrow> readMsg dec (m @ s) = Inr (v, s)"
    using readMsg_write [of enc v dec s] assms
    by (cases "length (enc v) \<le> maxMessage") (auto simp: writeMsg_def Let_def)
  have "Uint32 (take 4 (PutUint32 n @ s)) = n" using Uint32_PutUint32 [of n "[]"] by simp
  then show "unat n \<le> maxMessage \<or> readMsg dec (PutUint32 n @ s) = Inl ErrTooLarge"
    by (simp add: readMsg_def read_full_def Let_def)
qed

text \<open>Every key name that \<open>pairmux send --key\<close> lets through is one the built-in multiplexer can
  type, in both cursor modes, as at least one byte.\<close>

lemma allowed_keys_known:
  assumes "validKey k"
  shows "\<exists>b. keyBytes k app = Some b \<and> b \<noteq> []"
  using assms by (rule validKey_keyBytes)

section \<open>The built-in multiplexer\<close>

text \<open>C31: However the goroutines of a pane interleave (its reader, its input writer, requests, any
  number of attached humans and their writers, its death), its screen satisfies the terminal invariant
  and has the recorded size, the input queue accounts for its bytes within 8 MiB, no live client's backlog
  exceeds 4 MiB beyond its first frame, a client awaiting a redraw has no backlog, and a dead pane has no
  clients.\<close>

theorem pane_invariant:
  assumes "pane_reach E req n j p"
  shows "term_ok (p_scr p) \<and> size_ok p \<and> p_inBytes p \<le> inputQueueBytes
    \<and> (p_gone p \<or> p_inBytes p = queued (p_inQueue p))
    \<and> (c_ending c \<or> c_bytes c = queued (c_pending c) \<and> queued (tl (c_pending c)) \<le> clientBacklog
         \<and> (c_redraw c \<longrightarrow> c_pending c = []) \<or> p_objs p i \<noteq> Some c)
    \<and> (p_dead p \<longrightarrow> p_attached p = [])"
  using pane_reach_ok [OF assms] by (auto simp: pane_ok_def clients_ok_def client_ok_def)

theorem pane_invariant_witness:
  "term_ok (p_scr small_view) \<and> size_ok small_view \<and> p_inBytes small_view \<le> inputQueueBytes"
  using pane_invariant [OF small_view_reach] by blast

text \<open>C32: The journal and the screen have consumed the same bytes: the screen of a pane whose journal
  was open from the start is what a new terminal makes of a sequence of calls (output, resizes,
  forwarding) whose output bytes, in order, are exactly the journal's content, as long as no write to the
  journal failed, whatever else happened to the pane.\<close>

theorem journal_is_the_screen:
  assumes "pane_reach E req n True p" "\<not> p_jerr p"
  shows "\<exists>es. p_scr p = fold apply_event es (p_scr (new_pane E req True n)) \<and> p_file p = fed es"
  using pane_reach_traced [OF assms(1)] assms(2) by (auto simp: traced_def)

theorem journal_is_the_screen_witness:
  "\<exists>es. p_scr (snd (output_locked None (bs ''hi'') small_pane)) =
      fold apply_event es (p_scr (new_pane small_env small_request True 0)) \<and> bs ''hi'' = fed es"
  using journal_is_the_screen [OF pane_reach.stepped [OF small_pane_reach pstep.reads [of _ None "bs ''hi''"]]]
  by (simp add: output_locked_fields small_pane_fields)

text \<open>C33: What an attached human is sent is contiguous: once a redraw has been rendered and as long as
  the client keeps up, the frames queued and sent for it are what was sent before, one frame with the
  redraw of the screen at that moment, and frames whose payloads, concatenated, are the forward stream of
  all the output since, however the pane's reader and the client's writer took turns and however the
  output was cut.\<close>

theorem attached_view:
  assumes "pane_reach E req n j p" "i \<in> set (p_attached p)" "p_objs p i = Some c" "c_redraw c" "\<not> c_closed c"
    and "p' = on_client i (render_section (scr (p_scr p))) p"
    and "p_objs (fold (turn_step i) ts p') i = Some c'" "\<not> c_redraw c'"
  shows "\<exists>fs. view c' = c_sent c @ [encodeFrame frameOutput (Render (scr (p_scr p)))] @ fs
    \<and> payload_of fs = fst (fst (Feed (concat (read_bytes ts)) (SetForwarding True (p_scr p))))"
proof -
  have ok: "pane_ok p" using assms(1) by (rule pane_reach_ok)
  then have c: "\<not> c_ending c" "c_pending c = []"
    using assms(2-4) by (auto simp: pane_ok_def clients_ok_def client_ok_def)
  define d where "d = render_section (scr (p_scr p)) c"
  have p': "p_objs p' i = Some d" "i \<in> set (p_attached p')" "p_scr p' = p_scr p"
    using assms(2,3,6) by (simp_all add: d_def on_client_def)
  have d: "\<not> c_redraw d" "\<not> c_ending d" "\<not> c_closed d"
    "view d = c_sent c @ [encodeFrame frameOutput (Render (scr (p_scr p)))]"
    using assms(4,5) c by (simp_all add: d_def render_section_def view_def Let_def)
  have "term_ok (SetForwarding True (p_scr p))" "idle (SetForwarding True (p_scr p))"
    using ok by (simp_all add: pane_ok_def term_ok_SetForwarding)
  then show ?thesis
    using view_turns [OF p'(2,1) d(1-3) assms(7,8)] d(4) p'(3) feeds_concat by simp
qed

theorem attached_view_witness:
  "\<exists>c fs. c_sent c @ [encodeFrame frameOutput (Render (scr (p_scr small_view)))] @ fs = view
      (render_section (scr (p_scr small_view)) c)
    \<and> payload_of fs = fst (fst (Feed [] (SetForwarding True (p_scr small_view))))"
proof -
  obtain c where c: "p_objs small_view 5 = Some c" "c_redraw c" "\<not> c_closed c"
    using small_view_client(2) by blast
  have "p_objs (fold (turn_step 5) [] (on_client 5 (render_section (scr (p_scr small_view))) small_view)) 5 =
      Some (render_section (scr (p_scr small_view)) c)"
    using c by (simp add: on_client_def)
  moreover have "\<not> c_redraw (render_section (scr (p_scr small_view)) c)"
    by (simp add: render_section_def Let_def)
  ultimately obtain fs where "view (render_section (scr (p_scr small_view)) c) =
      c_sent c @ [encodeFrame frameOutput (Render (scr (p_scr small_view)))] @ fs"
    "payload_of fs = fst (fst (Feed (concat (read_bytes [])) (SetForwarding True (p_scr small_view))))"
    using attached_view [OF small_view_reach small_view_client(1) c refl] by metis
  then show ?thesis by (intro exI [of _ c] exI [of _ fs]) simp
qed

text \<open>C29: What the command line relies on when it drives the built-in multiplexer, client and server
  together: in every state the server can reach, a window the client has created can be named; from then it
  is listed, after all that were listed before, alive and under the id and the name it was given; and it can
  be killed, which leaves exactly the panes there were before it.\<close>

theorem terminals_come_and_go:
  assumes "server_reach s" "op RPane (window_req shell winname argv journal) (direct E) s = (Inr p, s1)" "v \<noteq> []"
  shows "\<exists>s2 i s3. cl_option p PaneOptName v (direct E1) s1 = (Inr (), s2)
    \<and> cl_list (direct E2) s2 = (Inr (named_panes (all_panes s) @ [i]), s2)
    \<and> PaneID i = p \<and> InfoName i = v \<and> \<not> PaneDead i
    \<and> cl_kill p (direct E3) s2 = (Inr (), s3) \<and> server_ok s3 \<and> all_panes s3 = all_panes s"
proof -
  have "Op (window_req shell winname argv journal) = bs ''new-window''" by (simp add: window_req_def req0_def)
  then show ?thesis using builtin.come_and_go server_reach_ok [OF assms(1)] assms(2,3) by blast
qed

theorem terminals_come_and_go_witness:
  "\<exists>s1 s2 i. op RPane (window_req (bs ''sh'') (bs ''a'') [] []) (direct small_env) small_server = (Inr (pane_id 1), s1)
    \<and> cl_option (pane_id 1) PaneOptName (bs ''a'') (direct small_env) s1 = (Inr (), s2)
    \<and> cl_list (direct small_env) s2 = (Inr (named_panes (all_panes small_server) @ [i]), s2)"
proof -
  have "fst (op RPane (window_req (bs ''sh'') (bs ''a'') [] []) (direct small_env) small_server) = Inr (pane_id 1)"
    by (simp add: op_def direct_def handleConn_def handle_def small_server_reg window_req_def req0_def newWindow_def
        openJournal_def new_reserve_def new_register_def small_env_def put_pane_def read_reply_def ok_resp_def Let_def)
  then obtain s1 where s1: "op RPane (window_req (bs ''sh'') (bs ''a'') [] []) (direct small_env) small_server = (Inr (pane_id 1), s1)"
    by (cases "op RPane (window_req (bs ''sh'') (bs ''a'') [] []) (direct small_env) small_server") simp
  show ?thesis using s1 terminals_come_and_go [OF small_server_reach s1, of "bs ''a''" small_env small_env small_env] by auto
qed



text \<open>C11: \<open>pairmux new\<close> is all or nothing, whatever the operating system and the multiplexer answer: the
  requests it makes are an initial part of its plan (reclaim a dead window of the name, ensure the server, open
  the window, attach the journal, release the gate, name the window, nudge), followed by the killing of
  the new window exactly when the run failed after opening it; the program is released only after its output is
  journalled; and a run that succeeds has made all of them, leaves metadata and an event that name its window, no
  gate, and the previous journal of the name in the archive.\<close>

theorem new_is_all_or_nothing:
  assumes "cmdNew fuel W args s = Some (r, s')" "nsActs s = []" "\<not> nsGate s"
  shows "\<exists>name cwd l xs ys. new_plan W name cwd l = xs @ ys \<and> nsActs s' = xs @ kill_of W r xs
      \<and> (\<forall>us vs. nsActs s' = us @ ReleaseGate # vs \<longrightarrow> (\<exists>p. PipeTo p (raw_path W name) \<in> set us))
      \<and> (\<forall>e. r = NewMade e \<longrightarrow> ys = [] \<and> eTerminal e = name \<and> \<not> nsGate s'
           \<and> nsPrev s' = (case nsDir s of None \<Rightarrow> nsPrev s | Some j \<Rightarrow> Some j)
           \<and> (\<exists>p j. nwOpen W = Some p \<and> nsDir s' = Some j \<and> names_terminal W name p j))"
  using assms by (rule new_run)

theorem new_is_all_or_nothing_witness:
  "\<exists>e s' name cwd l. cmdNew 0 small_new [bs ''--name'', bs ''a'', bs ''--cmd'', bs ''x''] small_dirs = Some (NewMade e, s')
    \<and> nsActs s' = new_plan small_new name cwd l \<and> nsPrev s' = Some no_files"
proof -
  obtain e s' where r: "cmdNew 0 small_new [bs ''--name'', bs ''a'', bs ''--cmd'', bs ''x''] small_dirs = Some (NewMade e, s')"
    using small_new_made by blast
  obtain name cwd l xs ys where x: "new_plan small_new name cwd l = xs @ ys" "nsActs s' = xs @ kill_of small_new (NewMade e) xs" "ys = []"
    "nsPrev s' = (case nsDir small_dirs of None \<Rightarrow> nsPrev small_dirs | Some j \<Rightarrow> Some j)"
    using new_is_all_or_nothing [OF r] by (auto simp: small_dirs_def)
  then have "nsActs s' = new_plan small_new name cwd l \<and> nsPrev s' = Some no_files" by (simp add: kill_of_def small_dirs_def)
  then show ?thesis using r by blast
qed

text \<open>C34: Every terminal that \<open>list\<close> shows is alive: in every state the server can reach under any
  interleaving, it is found by its id and a human can attach to it.\<close>

theorem listed_terminals_alive:
  assumes "server_reach s" "i \<in> set (RPanes (list_panes s))"
  shows "\<exists>n p. lookup_pane (PaneID i) s = Inr (n, p) \<and> pane_id n = PaneID i
    \<and> pane_attach ok k w h p \<noteq> None \<and> fst (fst (attach (req\<lparr>Pane := PaneID i\<rparr>) ok k s)) =
        ok_resp\<lparr>RProto := protoVersion, RPane := PaneID i\<rparr>"
proof -
  have s: "server_ok s" using assms(1) by (rule server_reach_ok)
  obtain n p where n: "lookup_pane (PaneID i) s = Inr (n, p)" "\<not> p_dead p"
    using list_panes_found [OF s assms(2)] by blast
  moreover have "pane_id n = PaneID i" using lookup_found [OF s n(1)] by blast
  ultimately show ?thesis by (auto simp: attach_def pane_attach_def Let_def)
qed

theorem listed_terminals_alive_witness:
  "\<exists>n p. lookup_pane (pane_id 0) small_server = Inr (n, p) \<and> pane_attach True 3 80 24 p \<noteq> None"
proof -
  have "\<exists>i. i \<in> set (RPanes (list_panes small_server)) \<and> PaneID i = pane_id 0"
    by (simp add: list_panes_def small_server_reg pane_info_of_def)
  then show ?thesis using listed_terminals_alive [OF small_server_reach, of _ True 3 80 24] by metis
qed

text \<open>C35: A killed terminal is gone for good: once it is unregistered, no later state of the server
  finds its id again, whatever is created afterwards, since numbers are never reused.\<close>

theorem killed_terminal_gone:
  assumes "server_reach s" "n \<in> set (s_reg s)" "sstep\<^sup>*\<^sup>* (unregister E n s) s'"
  shows "\<exists>e. lookup_pane (pane_id n) s' = Inl e"
proof -
  have "server_ok s" using assms(1) by (rule server_reach_ok)
  then have "retired n (unregister E n s)"
    using assms(2) by (fastforce simp: retired_def unregister_def server_ok_def)
  moreover have "server_reach (unregister E n s)"
    using assms(1) sstep.removes by (rule server_reach.stepped)
  ultimately show ?thesis using retired_steps [OF assms(3)] retired_lookup by blast
qed

theorem killed_terminal_gone_witness:
  "\<exists>e. lookup_pane (pane_id 0) (snd (handleConn small_env small_request (unregister small_env 0 small_server))) = Inl e"
  by (rule killed_terminal_gone [OF small_server_reach _ r_into_rtranclp [of sstep, OF sstep.request]])
    (simp add: small_server_reg)

text \<open>C36: A server that has begun to exit stays so and serves nobody: in every later state every
  request is refused with the shutting-down error and changes nothing, no terminal is found or listed, and
  nobody can attach.\<close>

theorem closing_server:
  assumes "server_reach s" "s_closing s" "sstep\<^sup>*\<^sup>* s s'"
  shows "handle E req s' = (fail errShuttingDown, s') \<and> RPanes (list_panes s') = []
    \<and> (\<exists>e. lookup_pane pid s' = Inl e) \<and> \<not> OK (fst (fst (attach req ok i s')))"
proof -
  have r: "server_ok s'" "s_closing s'" using closing_steps [OF assms(3,1,2)] server_reach_ok by auto
  obtain e where e: "lookup_pane (Pane req) s' = Inl e" using closing_lookup [OF r] by blast
  then have "\<not> OK e" by (auto simp: lookup_pane_def fail_def resp0_def split: option.splits)
  then have "\<not> OK (fst (fst (attach req ok i s')))" using e by (simp add: attach_def)
  moreover have "s_reg s' = []" using r by (simp add: server_ok_def)
  ultimately show ?thesis
    using closing_handle [OF r(2)] closing_lookup [OF r] by (simp add: list_panes_def)
qed

theorem closing_server_witness:
  "RPanes (list_panes (snd (shutdown small_server))) = []"
  using closing_server [OF server_reach.stepped [OF small_server_reach sstep.stops] _ rtranclp.rtrancl_refl]
    small_server_reg by (simp add: shutdown_def)

text \<open>\<open>newWindow\<close> gives a terminal an id no terminal of this server has ever had, registers it last
  and returns that id; a request it refuses registers nothing.\<close>

lemma new_window_fresh:
  assumes "server_reach s"
  shows "if OK (fst (newWindow E req s))
    then \<exists>n. RPane (fst (newWindow E req s)) = pane_id n \<and> s_store s n = None
      \<and> s_reg (snd (newWindow E req s)) = s_reg s @ [n]
    else s_reg (snd (newWindow E req s)) = s_reg s"
proof -
  have "\<not> OK (fst (newWindow E req s)) \<Longrightarrow> s_reg (snd (newWindow E req s)) = s_reg s"
    by (auto simp: newWindow_def new_reserve_def new_register_def ok_resp_def Let_def put_pane_def
        split: sum.splits option.splits if_splits)
  then show ?thesis using newWindow_fresh [OF server_reach_ok [OF assms]] by simp
qed

section \<open>Secret prompts\<close>



section \<open>The command line\<close>



section \<open>The registry\<close>



section \<open>Commands from end to end\<close>



section \<open>Handoffs\<close>



text \<open>C27: A handoff says that a terminal is moving again (a status other than done, dead or a note) only when
  the human is done with the prompt: a line was terminated after the watch for the answer was armed, and from
  some poll on, over at least the settle time, no poll saw a prompt.\<close>

theorem handoff_over:
  assumes "armWaitTarget X A name True doneFlag = Inr t0"
    and "sHuman spec" "sPattern spec = None" "\<not> sIdle spec"
    and "again_run X spec ks t0 = Some t" "pollWaitTarget X k spec t = (PollDone e, t')"
    and "eStatus e \<notin> {bs ''human-done'', bs ''done'', bs ''dead''}"
  shows "(\<exists>a j. armed t0 (ks @ [k]) a \<and> j \<in> set (ks @ [k]) \<and> NL \<in> set (drop (nat a) (kAnswer j)))
    \<and> (\<exists>us vs. ks @ [k] = us @ vs \<and> vs \<noteq> [] \<and> \<not> list_ex (prompting X) vs \<and> answeredSettle \<le> kNow2 k - kNow1 (hd vs))"
proof -
  have "eStatus e \<notin> {bs ''human-done'', bs ''done'', dead_text}" using assms(7) by (simp add: status_name_def)
  note m = moving_again [OF arm_fresh [OF assms(1)] assms(2-6) this]
  obtain s where "gone_since X (ks @ [k]) s" "answeredSettle \<le> kNow2 k - s" using m(2) by blast
  then show ?thesis using m(1) by (auto simp: gone_since_def list_ex_iff)
qed

theorem handoff_over_witness:
  "\<exists>us vs. [small_tick 0, small_tick 600000000] = us @ vs \<and> vs \<noteq> [] \<and> \<not> list_ex (prompting None) vs
    \<and> answeredSettle \<le> 600000000 - kNow1 (hd vs)"
proof -
  obtain t where t: "again_run None human_spec [small_tick 0] small_target = Some t" "answeredAt t = Some 0"
    "watchAnswered t" "answerSubmitted t" "completion t = None" "wtShell t = []" "baseEvents t = 0"
    using small_first by blast
  then obtain e t' where e: "pollWaitTarget None (small_tick 600000000) human_spec t = (PollDone e, t')"
    "eStatus e = bs ''running''"
    using small_second by blast
  have "sHuman human_spec" "sPattern human_spec = None" "\<not> sIdle human_spec"
    "eStatus e \<notin> {bs ''human-done'', bs ''done'', bs ''dead''}"
    using e(2) by (simp_all add: human_spec_def)
  then show ?thesis using handoff_over [OF small_armed _ _ _ t(1) e(1)] by (simp add: small_tick_def)
qed

section \<open>Nested layers\<close>



section \<open>The MCP server\<close>

text \<open>C20: However the client's messages, the four workers and the executions of the tool calls interleave, the
  life of every request id follows the specification \<open>phase_step\<close>: a call is accepted only while none with its
  id is open; an open call is either answered exactly once, with a response that carries its id, or it is
  cancelled and then never answered; and no more than 32 calls are queued and 4 executed.\<close>

theorem mcp_calls_answered_once:
  assumes "serves C h s"
  shows "phases k h Idle = Some (phase_in s k)
    \<and> length (jobs s) \<le> maxQueuedToolCalls \<and> length (running s) \<le> maxConcurrentToolCalls"
  using serves_phases [OF assms] by (auto simp: serve_ok_def)

theorem mcp_calls_answered_once_witness:
  "phases small_id [Replied small_hello, Accepted small_id, Cancelled small_id] Idle
    = Some (phase_in (small_called\<lparr>inflight := (\<lambda>_. None)(small_id \<mapsto> True)\<rparr>) small_id)"
  using mcp_calls_answered_once [OF small_serves_cancelled, of small_id] by blast

text \<open>C9: No accepted call is lost and none keeps the server busy forever. Once no more messages come and as long as the
  executor returns, at most four steps per call in flight remain; while a call is in flight a step is
  possible; and a call that is no longer in flight and was not cancelled has been answered.\<close>

theorem mcp_calls_end:
  assumes "serves C h s" "drains n s ls s'"
  shows "n \<le> 4 * card (dom (inflight s))
    \<and> (inflight s' = Map.empty \<or> (\<exists>ls' s''. internal s' ls' s''))
    \<and> (inflight s k \<noteq> Some False \<or> inflight s' k \<noteq> None \<or> (\<exists>r. Answered k r \<in> set ls))"
proof -
  have ok: "serve_ok s" using serves_phases [OF assms(1)] by blast
  have ok': "serve_ok s'" using drains_follows [OF assms(2) ok] by (simp add: follows_def)
  have "n \<le> 4 * card (dom (inflight s))"
    using drains_weight [OF assms(2)] weight_bound [OF ok] by linarith
  moreover have "inflight s' = Map.empty \<or> (\<exists>ls' s''. internal s' ls' s'')"
    using not_stuck [OF ok'] by (meson ext)
  ultimately show ?thesis using drained_answered [OF ok assms(2), of k] by blast
qed

theorem mcp_calls_end_witness:
  "\<exists>n ls s'. drains n small_called ls s' \<and> n \<le> 4 * card (dom (inflight small_called))
    \<and> inflight s' small_id = None \<and> (\<exists>r. Answered small_id r \<in> set ls)"
proof -
  have "inflight small_called small_id = Some False" "inflight (serve0\<lparr>life := LifecycleReady\<rparr>) small_id = None"
    by (simp_all add: small_called_def serve0_def)
  then show ?thesis
    using mcp_calls_end [OF small_serves_called small_drains, of small_id] small_drains by blast
qed

text \<open>C30: A \<open>pairmux_run\<close> call reaches \<open>cmdRun\<close> unchanged. Whatever the command is, and were it a flag or a
  second \<open>--\<close>, the process started for the call drives the server's own socket and reads exactly the terminal, the
  command and the limits of the call, the limits the call does not give being the defaults.\<close>

theorem mcp_run_reaches_cli:
  assumes a: "buildRun a = Inr argv" "requiredString a ''terminal'' = Inr t" "requiredString a ''command'' = Inr c"
      "optionalString a ''timeout'' = Inr to" "optionalInt a ''head'' 0 = Inr h" "optionalInt a ''tail'' 0 = Inr l"
    and t: "ValidSocketName socket" "ValidName t"
    and c: "trim_space c \<noteq> []" "NL \<notin> set c" "CR \<notin> set c"
    and d: "(if or_empty to = [] then Some 60000000000 else dur (or_empty to)) = Some d"
  shows "fst (stripGlobals (tool_argv socket argv) False env) = bs ''--'' # argv
    \<and> snd (stripGlobals (tool_argv socket argv) False env) = (True, socket)
    \<and> (\<exists>args. dispatch_rest (bs ''--'' # argv) = bs ''run'' # args
        \<and> parse_run_request dur socket args = Inr \<lparr>rqName = t, rqCmd = c, rqTimeout = d,
            rqHead = (case h of None \<Rightarrow> 50 | Some n \<Rightarrow> n), rqTail = (case l of None \<Rightarrow> 200 | Some n \<Rightarrow> n)\<rparr>)"
proof -
  have e: "argv = [bs ''run'', t] @ flag_text ''--timeout'' to @ flag_int ''--head'' h @ flag_int ''--tail'' l @ [bs ''--'', c]"
    using run_argv [OF a(1)] a(2-) by auto
  have "dispatch_rest (bs ''--'' # argv)
      = bs ''run'' # ([t] @ flag_text ''--timeout'' to @ flag_int ''--head'' h @ flag_int ''--tail'' l @ [bs ''--'', c])"
    by (simp only: dispatch_tool e append_Cons append_Nil)
  then show ?thesis
    using run_request_parsed [where dur = dur and to = to, OF t c d optionalInt_flag [OF a(5), of 50] optionalInt_flag [OF a(6), of 200]] tool_argv_globals
    by (auto simp: fst_conv)
qed

theorem mcp_run_reaches_cli_witness:
  "\<exists>args. dispatch_rest (bs ''--'' # [bs ''run'', bs ''web'', bs ''--head'', bs ''5'', bs ''--'', bs ''--all -- -x'']) = bs ''run'' # args
    \<and> parse_run_request (\<lambda>_. None) (bs ''pairmux'') args
      = Inr \<lparr>rqName = bs ''web'', rqCmd = bs ''--all -- -x'', rqTimeout = 60000000000, rqHead = 5, rqTail = 200\<rparr>"
proof -
  let ?a = "[(bs ''terminal'', JStr (bs ''web'')), (bs ''command'', JStr (bs ''--all -- -x'')), (bs ''head'', JNum (bs ''5''))]"
  have "buildRun ?a = Inr [bs ''run'', bs ''web'', bs ''--head'', bs ''5'', bs ''--'', bs ''--all -- -x'']" by code_simp
  moreover have "requiredString ?a ''terminal'' = Inr (bs ''web'')" "requiredString ?a ''command'' = Inr (bs ''--all -- -x'')"
    "optionalString ?a ''timeout'' = Inr None" "optionalInt ?a ''head'' 0 = Inr (Some 5)" "optionalInt ?a ''tail'' 0 = Inr None"
    by code_simp+
  moreover have "ValidSocketName (bs ''pairmux'')" "ValidName (bs ''web'')" by code_simp+
  moreover have "trim_space (bs ''--all -- -x'') \<noteq> []" "NL \<notin> set (bs ''--all -- -x'')" "CR \<notin> set (bs ''--all -- -x'')"
    by code_simp+
  moreover have "(if or_empty None = [] then Some 60000000000 else (\<lambda>_. None) (or_empty None)) = Some (60000000000 :: int)"
    by (simp add: or_empty_def)
  ultimately show ?thesis
    using mcp_run_reaches_cli [of ?a _ "bs ''web''" "bs ''--all -- -x''" None "Some 5" None "bs ''pairmux''" "\<lambda>_. None" 60000000000]
    by (auto simp only: option.case)
qed


section \<open>The log file and \<open>kill --all\<close>\<close>

text \<open>C22: The file of events implements the list of events: appending to the file and reading it back gives what appending
  to the list gives, and leaves a file to which the next event can be appended. Texts may be any UTF-8 (also with control
  characters, quotes and line breaks), numbers any of 64 bits, the line must be shorter than the reader's limit, and the
  format of times any that its parser reads.\<close>

theorem event_file_implements_log:
  assumes "whole_lines file" "Events ptime file = Some evs" "storable fmt ptime (stamp now ev)"
    and "int (length (event_json fmt (stamp now ev))) < maxEventLine"
  shows "Events ptime (append_event fmt now ev file) = Some (AppendEvent True now ev evs)
    \<and> whole_lines (append_event fmt now ev file)"
  using appended_event [OF assms] by blast

theorem event_file_implements_log_witness:
  "Events atoi (append_event itoa 7 ((blank_event EvNote)\<lparr>EvText := [NL, quote]\<rparr>) []) = Some [(blank_event EvNote)\<lparr>TS := 7, EvText := [NL, quote]\<rparr>]"
proof -
  have s: "stamp 7 ((blank_event EvNote)\<lparr>EvText := [NL, quote]\<rparr>) = (blank_event EvNote)\<lparr>TS := 7, EvText := [NL, quote]\<rparr>"
    by (simp add: stamp_def blank_event_def)
  have "whole_lines []" "Events atoi [] = Some []"
    by (simp_all add: whole_lines_def Events_def scan_lines_def List.map_filter_def)
  moreover have "storable itoa atoi ((blank_event EvNote)\<lparr>TS := 7, EvText := [NL, quote]\<rparr>)" by code_simp
  moreover have "int (length (event_json itoa ((blank_event EvNote)\<lparr>TS := 7, EvText := [NL, quote]\<rparr>))) < maxEventLine" by code_simp
  ultimately show ?thesis
    using event_file_implements_log [of "[]" atoi "[]" itoa 7 "(blank_event EvNote)\<lparr>EvText := [NL, quote]\<rparr>"]
    unfolding s by (simp add: AppendEvent_def s)
qed

text \<open>C25: \<open>kill --all\<close> fails only when the panes cannot be listed. Otherwise it kills the window of every managed pane exactly
  once and no other window, and lists their names in order; every nested layer it reports was live, and of all layers
  exactly those are gone that it reports and that end when they are told to.\<close>

theorem kill_all_kills_each_once:
  "case killAll socket W of
     Inl e \<Rightarrow> e = MuxFailed \<and> (\<exists>x. managedPanes (kPanes W) = Inl x)
   | Inr R \<Rightarrow> \<exists>panes. managedPanes (kPanes W) = Inr panes \<and> windows (krActions R) = map PaneID panes
       \<and> krNames R = sort (map InfoName panes)
       \<and> krLive R = ended (kDies W) (krLayers R) (kLive W) \<and> list_all (\<lambda>s. kLive W s \<noteq> None) (krLayers R)"
proof (cases "killAll socket W")
  case (Inl e)
  then show ?thesis by (auto simp: killAll_def Let_def split: sum.splits)
next
  case (Inr R)
  then show ?thesis using killAll_ok [OF Inr] by (auto simp: kill_ok_def list_all_iff)
qed

section \<open>\<open>prune\<close>\<close>

text \<open>C28: \<open>prune\<close> spares what is in use. Provided that the panes have different names, it never removes the directory of a
  live terminal, nor one whose write lock is held; a dry run removes nothing; and what it removes under a positive age
  limit is at least that old, or has no time at all.\<close>

theorem prune_spares_live:
  assumes "distinct (map InfoName panes)" "managedPanes (prManaged W) = Inr panes"
    and "cmdPrune dur socket W args = Inr (env, removed)"
  shows "\<exists>pos f older. parsed prune_spec args = Inr (pos, f)
    \<and> (if valOf f (bs ''older-than'') = [] then Some 0 else parseOlderThan dur (valOf f (bs ''older-than''))) = Some older
    \<and> (isSet f (bs ''dry-run'') \<longrightarrow> removed = [])
    \<and> list_all (\<lambda>d. \<not> spared W socket panes d \<and> lock_pid W d = 0
        \<and> (older \<le> 0 \<or> pruneAge W d = zero_time \<or> older \<le> elapsed (prNow W) (pruneAge W d))) removed"
proof -
  obtain pos f older where r: "parsed prune_spec args = Inr (pos, f)"
    "(if valOf f (bs ''older-than'') = [] then Some 0 else parseOlderThan dur (valOf f (bs ''older-than''))) = Some older"
    "\<And>d. d \<in> set removed \<Longrightarrow> \<not> spared W socket panes d \<and> \<not> isSet f (bs ''dry-run'') \<and> skip_of W older d = []"
    using cmdPrune_removes [OF assms] by metis
  then have "isSet f (bs ''dry-run'') \<longrightarrow> removed = []" by (cases removed) auto
  moreover have "list_all (\<lambda>d. \<not> spared W socket panes d \<and> lock_pid W d = 0
        \<and> (older \<le> 0 \<or> pruneAge W d = zero_time \<or> older \<le> elapsed (prNow W) (pruneAge W d))) removed"
    using r(3) skip_none unfolding list_all_iff by blast
  ultimately show ?thesis using r(1,2) by blast
qed

theorem prune_spares_live_witness:
  "\<exists>W env removed. cmdPrune (\<lambda>_. None) (bs ''pairmux'') W [bs ''t1''] = Inr (env, removed) \<and> length removed = 1
    \<and> list_all (\<lambda>d. lock_pid W d = 0) removed"
proof -
  define p where "p = \<lparr>PaneID = bs ''%1'', Window = bs ''t1'', InfoName = bs ''t1'', CurrentCmd = [], PaneDead = False\<rparr>"
  define E where "E = \<lparr>tmuxRoot = bs ''/tmp'', legacyRoot = bs ''/var'', userID = 0, runDir = None\<rparr>"
  define F where "F = \<lparr>metaAt = \<lambda>_. None, dirAt = \<lambda>_. True, listing = \<lambda>_. None\<rparr>"
  define W where "W = \<lparr>prE = E, prF = F, prB = BackendTmux, prManaged = Inr [p], prSize = \<lambda>_. 10, prLock = \<lambda>_. (False, False, None),
    prRaw = \<lambda>_. None, prStat = \<lambda>_. None, prNow = 0, prRemove = \<lambda>_. None\<rparr>"
  have a: "parsed prune_spec [bs ''t1''] = Inr ([bs ''t1''], no_flags)" "valOf no_flags (bs ''older-than'') = []"
    by (simp_all add: parsed_def prune_spec_def no_flags_def)
  have v: "ValidName (bs ''t1'')" "ValidSocketName (bs ''pairmux'')" by code_simp+
  have m: "managedPanes (prManaged W) = Inr [p]" by (simp add: W_def managedPanes_def)
  have r: "resolveAtFor (prE W) (prF W) (prB W) (bs ''pairmux'') (prManaged W) (bs ''t1'')
      = Inr (with_pane p (new_terminal E F BackendTmux (bs ''pairmux'') (bs ''t1'')))"
    using resolve_view [OF v(1) m, of E F BackendTmux "bs ''pairmux''"] by (simp add: W_def p_def view_of_def)
  obtain env removed where c: "cmdPrune (\<lambda>_. None) (bs ''pairmux'') W [bs ''t1''] = Inr (env, removed)" "length removed = 1"
  proof -
    have d: "isSet no_flags (bs ''dry-run'') = False" by code_simp
    define t where "t = with_pane p (new_terminal E F BackendTmux (bs ''pairmux'') (bs ''t1''))"
    have l: "tAlive t" by (simp add: t_def p_def with_pane_def)
    have r': "resolveAtFor (prE W) (prF W) (prB W) (bs ''pairmux'') (prManaged W) (bs ''t1'') = Inr t" using r by (simp only: t_def)
    have w: "dirAt (prF W) x" for x by (simp add: W_def F_def)
    have "pruneOne W (bs ''pairmux'') (bs ''t1'') 0 False
        = Inr (finishPrune W False (filterPruneCandidates W 0 [cand (bs ''t1.prev'') (prev_dir (tDir t))]))"
      unfolding pruneOne_def r' found_def using v(1) l w by simp
    moreover have "length (snd (finishPrune W False (filterPruneCandidates W 0 [cand (bs ''t1.prev'') (prev_dir (tDir t))]))) = 1"
      by (simp add: finish_removed filterPruneCandidates_def skip_of_def lock_pid_def lockHolderPID_def W_def)
    ultimately show thesis using that v(2) a d by (cases "finishPrune W False (filterPruneCandidates W 0 [cand (bs ''t1.prev'') (prev_dir (tDir t))])") (simp add: cmdPrune_def)
  qed
  have "distinct (map InfoName [p])" by simp
  from prune_spares_live [OF this m c(1)] c show ?thesis by (fastforce simp: list_all_iff)
qed

section \<open>Updating\<close>

text \<open>C13: An update replaces only what uv owns: whenever the installation is started, uv's listing has shown the
  running environment and its one entry under the name of this program, the entry resolved to the running binary, receipt,
  binary and entry were unchanged at both rechecks, uv lies outside the environment, and no setting of uv but the two
  directories is left in its environment; and a successful update means that the replaced binary, owned in the same way
  at three rechecks, reported a stable version whose numbers are not below those of the old one.\<close>

theorem update_only_what_is_owned:
  assumes "cmdUpdateWith W = (runs, r)"
  shows "(\<forall>uv as env. RunInstall uv as env \<in> set runs \<longrightarrow>
      (\<exists>i old. owned (uwListed W) [uwChecked W, uwBefore W] (uwList1 W) i \<and> \<not> inside (inEnv i) uv
        \<and> parseUpdateVersion (uwCurrent W) = Some old \<and> as = install_args old
        \<and> (\<forall>kv \<in> set env. starts ''UV_'' kv \<longrightarrow>
             kv = bs ''UV_TOOL_DIR='' @ inToolRoot i \<or> kv = bs ''UV_TOOL_BIN_DIR='' @ path_dir (inEntry i))))
    \<and> (\<forall>e. r = Inr e \<longrightarrow>
      (\<exists>old u new v. parseUpdateVersion (uwCurrent W) = Some old
        \<and> owned (uwRelisted W) [uwRechecked W, uwAfter W, uwLast W] (uwList2 W) u
        \<and> parseUpdateVersionReply (captured (uwVersion W)) = Some new
        \<and> parseUpdateVersion new = Some v \<and> \<not> vPre v \<and> version_value old \<le> version_value v
        \<and> e = update_envelope (uwCurrent W) old new v (inEntry u)))"
proof (intro conjI allI impI)
  fix uv as env
  assume "RunInstall uv as env \<in> set runs"
  then obtain i old where i: "owned (uwListed W) [uwChecked W, uwBefore W] (uwList1 W) i" "\<not> inside (inEnv i) uv"
    "parseUpdateVersion (uwCurrent W) = Some old" "as = install_args old"
    "env = updateEnvironment (uwEnviron W) (inToolRoot i) (path_dir (inEntry i))"
    using install_is_owned [OF assms] by blast
  have "\<forall>kv \<in> set env. starts ''UV_'' kv \<longrightarrow>
      kv = bs ''UV_TOOL_DIR='' @ inToolRoot i \<or> kv = bs ''UV_TOOL_BIN_DIR='' @ path_dir (inEntry i)"
    unfolding i(5) using no_uv_settings by blast
  then show "\<exists>i old. owned (uwListed W) [uwChecked W, uwBefore W] (uwList1 W) i \<and> \<not> inside (inEnv i) uv
        \<and> parseUpdateVersion (uwCurrent W) = Some old \<and> as = install_args old
        \<and> (\<forall>kv \<in> set env. starts ''UV_'' kv \<longrightarrow>
             kv = bs ''UV_TOOL_DIR='' @ inToolRoot i \<or> kv = bs ''UV_TOOL_BIN_DIR='' @ path_dir (inEntry i))"
    using i(1-4) by blast
next
  fix e
  assume "r = Inr e"
  then show "\<exists>old u new v. parseUpdateVersion (uwCurrent W) = Some old
        \<and> owned (uwRelisted W) [uwRechecked W, uwAfter W, uwLast W] (uwList2 W) u
        \<and> parseUpdateVersionReply (captured (uwVersion W)) = Some new
        \<and> parseUpdateVersion new = Some v \<and> \<not> vPre v \<and> version_value old \<le> version_value v
        \<and> e = update_envelope (uwCurrent W) old new v (inEntry u)"
    using update_succeeds [of W runs e] assms by blast
qed

theorem update_only_what_is_owned_witness:
  "\<exists>runs e u. cmdUpdateWith small_update = (runs, Inr e) \<and> eStatus e = bs ''updated''
    \<and> owned small_snapshot [small_snapshot, small_snapshot, small_snapshot] small_listing u"
proof -
  obtain runs e where r: "cmdUpdateWith small_update = (runs, Inr e)" "eStatus e = bs ''updated''" using small_update_runs by blast
  have "uwRelisted small_update = small_snapshot" "uwRechecked small_update = small_snapshot" "uwAfter small_update = small_snapshot"
    "uwLast small_update = small_snapshot" "uwList2 small_update = small_listing" by (simp_all add: small_update_def)
  then show ?thesis using r update_only_what_is_owned [OF r(1)] by metis
qed

end
